(* ===== verification/Prelude.thy ===== *)
theory Prelude
  imports Main "HOL-Library.Word" "HOL-Library.Char_ord" "HOL-Library.List_Lexorder"
    "HOL-Library.Sublist"
begin

text \<open>
  What every component of the development shares: the named collections its proofs use, the
  \<open>Result\<close> type of the Rust code as a sum with the sequencing of its \<open>?\<close> operator, loops that
  stop at the first error, and the two interfaces most components meet: a check with a
  specification, and a state whose operations keep an invariant.
\<close>

section \<open>Collections of facts\<close>

named_theorems result_simps \<open>sequencing of results: when a chain of fallible steps succeeds\<close>
named_theorems str_simps \<open>facts on the string operations of the Rust standard library\<close>
named_theorems bt_simps \<open>facts on ordered maps\<close>

section \<open>Machine types\<close>

type_synonym byte = "8 word"
type_synonym u16 = "16 word"
type_synonym u32 = "32 word"
type_synonym uuid = "128 word"

text \<open>\<open>u64\<close> quantities that only count are \<open>nat\<close>; this is where they saturate.\<close>

definition u64_max :: nat where
  "u64_max = 2 ^ 64 - 1"

definition saturating_mul_u64 :: "nat \<Rightarrow> nat \<Rightarrow> nat" where
  "saturating_mul_u64 a b = min (a * b) u64_max"

section \<open>Results\<close>

text \<open>
  \<open>Result<T, E>\<close> is \<open>'e + 'a\<close>: \<open>Inl\<close> the error, \<open>Inr\<close> the value. \<open>rbind\<close> is the \<open>?\<close> operator
  followed by the rest of the function, \<open>map_err\<close> and \<open>ok_or\<close> are the methods of those names.
\<close>

definition rbind :: "'e + 'a \<Rightarrow> ('a \<Rightarrow> 'e + 'b) \<Rightarrow> 'e + 'b" where
  "rbind m f = (case m of Inl e \<Rightarrow> Inl e | Inr x \<Rightarrow> f x)"

definition map_err :: "('e \<Rightarrow> 'f) \<Rightarrow> 'e + 'a \<Rightarrow> 'f + 'a" where
  "map_err g m = (case m of Inl e \<Rightarrow> Inl (g e) | Inr x \<Rightarrow> Inr x)"

definition ok_or :: "'e \<Rightarrow> 'a option \<Rightarrow> 'e + 'a" where
  "ok_or e m = (case m of None \<Rightarrow> Inl e | Some x \<Rightarrow> Inr x)"

definition is_ok :: "'e + 'a \<Rightarrow> bool" where
  "is_ok m = (case m of Inl _ \<Rightarrow> False | Inr _ \<Rightarrow> True)"

lemma rbind_Inl [simp]: "rbind (Inl e) f = Inl e"
  by (simp add: rbind_def)

lemma rbind_Inr [simp]: "rbind (Inr x) f = f x"
  by (simp add: rbind_def)

lemma rbind_eq_Inr [result_simps]: "rbind m f = Inr y \<longleftrightarrow> (\<exists>x. m = Inr x \<and> f x = Inr y)"
  by (cases m) auto

lemma rbind_cong [fundef_cong]:
  "m = m' \<Longrightarrow> (\<And>x. m' = Inr x \<Longrightarrow> f x = g x) \<Longrightarrow> rbind m f = rbind m' g"
  by (cases m) auto

lemma rbind_eq_Inl: "rbind m f = Inl e \<longleftrightarrow> m = Inl e \<or> (\<exists>x. m = Inr x \<and> f x = Inl e)"
  by (cases m) auto

lemma map_err_simps [simp]:
  "map_err g (Inl e) = Inl (g e)" "map_err g (Inr x) = Inr x"
  by (simp_all add: map_err_def)

lemma map_err_eq_Inr [result_simps]: "map_err g m = Inr y \<longleftrightarrow> m = Inr y"
  by (cases m) auto

lemma ok_or_simps [simp]: "ok_or e None = Inl e" "ok_or e (Some x) = Inr x"
  by (simp_all add: ok_or_def)

lemma ok_or_eq_Inr [result_simps]: "ok_or e m = Inr y \<longleftrightarrow> m = Some y"
  by (cases m) auto

lemma is_ok_simps [simp]: "is_ok (Inl e) \<longleftrightarrow> False" "is_ok (Inr x) \<longleftrightarrow> True"
  by (simp_all add: is_ok_def)

lemma is_ok_iff: "is_ok m \<longleftrightarrow> (\<exists>x. m = Inr x)"
  by (cases m) auto

text \<open>A \<open>for\<close> loop whose body ends in \<open>?\<close>, without and with a state it threads.\<close>

fun for_each :: "('a \<Rightarrow> 'e + unit) \<Rightarrow> 'a list \<Rightarrow> 'e + unit" where
  "for_each f [] = Inr ()"
| "for_each f (x # xs) = rbind (f x) (\<lambda>_. for_each f xs)"

fun fold_each :: "('a \<Rightarrow> 's \<Rightarrow> 'e + 's) \<Rightarrow> 'a list \<Rightarrow> 's \<Rightarrow> 'e + 's" where
  "fold_each f [] s = Inr s"
| "fold_each f (x # xs) s = rbind (f x s) (fold_each f xs)"

lemma for_each_Inr: "for_each f xs = Inr () \<longleftrightarrow> (\<forall>x\<in>set xs. f x = Inr ())"
  by (induction xs) (auto simp: result_simps)

lemma for_each_append:
  "for_each f (xs @ ys) = rbind (for_each f xs) (\<lambda>_. for_each f ys)"
proof (induction xs)
  case (Cons x xs)
  then show ?case by (cases "f x") auto
qed simp

lemma fold_each_append:
  "fold_each f (xs @ ys) s = rbind (fold_each f xs s) (fold_each f ys)"
proof (induction xs arbitrary: s)
  case (Cons x xs)
  then show ?case by (cases "f x s") auto
qed simp

text \<open>An invariant of the threaded state holds after the loop when the body keeps it.\<close>

lemma fold_each_invariant:
  assumes "fold_each f xs s = Inr s'" and "P s"
    and "\<And>x t t'. x \<in> set xs \<Longrightarrow> P t \<Longrightarrow> f x t = Inr t' \<Longrightarrow> P t'"
  shows "P s'"
  using assms
proof (induction xs arbitrary: s)
  case (Cons x xs)
  then obtain t where t: "f x s = Inr t" "fold_each f xs t = Inr s'"
    by (auto simp: result_simps)
  with Cons.prems have "P t" by auto
  with t Cons show ?case by auto
qed simp

section \<open>Interface: a check and what it accepts\<close>

text \<open>
  Most of the code is checks that return \<open>Ok(())\<close> or the first error. A client only needs to
  know which inputs pass.
\<close>

locale checker =
  fixes check :: "'a \<Rightarrow> 'e + unit"
    and accepts :: "'a \<Rightarrow> bool"
  assumes check_iff: "check x = Inr () \<longleftrightarrow> accepts x"
begin

lemma check_fails: "\<not> accepts x \<Longrightarrow> \<exists>e. check x = Inl e"
  using check_iff [of x] by (cases "check x") auto

lemma for_each_check: "for_each check xs = Inr () \<longleftrightarrow> list_all accepts xs"
  by (simp add: for_each_Inr check_iff list_all_iff)

lemma then_check: "rbind (check x) (\<lambda>_. k) = Inr y \<longleftrightarrow> accepts x \<and> k = Inr y"
  by (auto simp: result_simps check_iff)

lemma first_rejected:
  assumes "for_each check xs = Inl e"
  shows "\<exists>ys x zs. xs = ys @ x # zs \<and> list_all accepts ys \<and> \<not> accepts x \<and> check x = Inl e"
  using assms
proof (induction xs)
  case (Cons x xs)
  show ?case
  proof (cases "check x")
    case (Inl e')
    with Cons.prems have "check x = Inl e" by simp
    moreover have "\<not> accepts x" using calculation check_iff [of x] by auto
    ultimately show ?thesis by (intro exI [of _ "[]"]) auto
  next
    case (Inr u)
    with Cons obtain ys z zs
      where "xs = ys @ z # zs" "list_all accepts ys" "\<not> accepts z" "check z = Inl e"
      by auto
    moreover from Inr have "accepts x" using check_iff [of x] by simp
    ultimately show ?thesis
      by (intro exI [of _ "x # ys"]) (auto simp: check_iff)
  qed
qed simp

end

section \<open>Interface: operations that keep an invariant\<close>

locale invariant_machine =
  fixes step :: "'op \<Rightarrow> 's \<Rightarrow> 's"
    and inv :: "'s \<Rightarrow> bool"
  assumes step_inv: "inv s \<Longrightarrow> inv (step op s)"
begin

lemma run_inv: "inv s \<Longrightarrow> inv (fold step ops s)"
  by (induction ops arbitrary: s) (auto intro: step_inv)

end

text \<open>When every operation also leaves some observation alone, so does a run.\<close>

locale framed_machine = invariant_machine +
  fixes observe :: "'s \<Rightarrow> 'o"
  assumes step_frame: "inv s \<Longrightarrow> observe (step op s) = observe s"
begin

lemma run_frame: "inv s \<Longrightarrow> observe (fold step ops s) = observe s"
  by (induction ops arbitrary: s) (auto simp: step_frame step_inv)

end

end
