(* ===== verification/Rust_Text.thy ===== *)
theory Rust_Text
  imports Rust_Strings
begin

text \<open>
  Numbers and encodings of the Rust standard library: decimal and hexadecimal parsing as
  \<open>FromStr\<close> and \<open>from_str_radix\<close> do it (an optional \<open>+\<close>, at least one digit, overflow is an
  error), decimal formatting, and UTF-8 (\<open>from_utf8\<close>, \<open>from_utf8_lossy\<close>, \<open>chars()\<close>).
\<close>

section \<open>Decimal numbers\<close>

definition digit_char :: "nat \<Rightarrow> char" where
  "digit_char n = char_of (48 + n)"

fun show_nat :: "nat \<Rightarrow> string" where
  "show_nat n = (if n < 10 then [digit_char n] else show_nat (n div 10) @ [digit_char (n mod 10)])"

declare show_nat.simps [simp del]

definition digit_value :: "char \<Rightarrow> nat" where
  "digit_value c = of_char c - 48"

definition dec_value :: "string \<Rightarrow> nat" where
  "dec_value s = foldl (\<lambda>n c. 10 * n + digit_value c) 0 s"

definition strip_plus :: "string \<Rightarrow> string" where
  "strip_plus s = (case s of [] \<Rightarrow> [] | c # t \<Rightarrow> if c = CHR ''+'' then t else s)"

definition parse_dec :: "nat \<Rightarrow> string \<Rightarrow> nat option" where
  "parse_dec max_value s =
     (let ds = strip_plus s in
      if ds = [] \<or> \<not> list_all is_ascii_digit ds then None
      else if dec_value ds \<le> max_value then Some (dec_value ds) else None)"

definition parse_u16 :: "string \<Rightarrow> nat option" where
  "parse_u16 s = parse_dec 65535 s"

lemma digit_char_class [simp]: "n < 10 \<Longrightarrow> is_ascii_digit (digit_char n)"
  by (simp add: digit_char_def is_ascii_digit_def)

lemma digit_value_char [simp]: "n < 10 \<Longrightarrow> digit_value (digit_char n) = n"
  by (simp add: digit_char_def digit_value_def)

lemma digit_not_plus: "is_ascii_digit c \<Longrightarrow> c \<noteq> CHR ''+''"
  by (auto simp: is_ascii_digit_def)

lemma show_nat_neq_Nil [simp]: "show_nat n \<noteq> []"
  by (subst show_nat.simps) simp

lemma show_nat_digits: "list_all is_ascii_digit (show_nat n)"
proof (induction n rule: show_nat.induct)
  case (1 n)
  then show ?case by (subst show_nat.simps) auto
qed

lemma set_show_nat: "c \<in> set (show_nat n) \<Longrightarrow> is_ascii_digit c"
  using show_nat_digits [of n] by (auto simp: list_all_iff)

lemma dec_value_snoc: "dec_value (s @ [c]) = 10 * dec_value s + digit_value c"
  by (simp add: dec_value_def)

lemma dec_value_show [simp]: "dec_value (show_nat n) = n"
proof (induction n rule: show_nat.induct)
  case (1 n)
  show ?case
  proof (cases "n < 10")
    case True
    then show ?thesis by (subst show_nat.simps) (simp add: dec_value_def)
  next
    case False
    with 1 show ?thesis by (subst show_nat.simps) (simp add: dec_value_snoc)
  qed
qed

lemma show_nat_inject [simp]: "show_nat m = show_nat n \<longleftrightarrow> m = n"
  by (metis dec_value_show)

lemma strip_plus_show [simp]: "strip_plus (show_nat n) = show_nat n"
  using set_show_nat [of _ n] digit_not_plus
  by (cases "show_nat n") (auto simp: strip_plus_def)

lemma parse_dec_show [simp]: "n \<le> m \<Longrightarrow> parse_dec m (show_nat n) = Some n"
  by (simp add: parse_dec_def show_nat_digits)

lemma parse_u16_show [str_simps]: "n < 65536 \<Longrightarrow> parse_u16 (show_nat n) = Some n"
  by (simp add: parse_u16_def)

lemma parse_dec_bound: "parse_dec m s = Some n \<Longrightarrow> n \<le> m"
  by (auto simp: parse_dec_def Let_def split: if_splits)

lemma parse_u16_bound: "parse_u16 s = Some n \<Longrightarrow> n < 65536"
  by (auto simp: parse_u16_def dest: parse_dec_bound)

section \<open>Hexadecimal numbers\<close>

definition hex_value :: "char \<Rightarrow> nat option" where
  "hex_value c =
     (if is_ascii_digit c then Some (of_char c - 48)
      else if 97 \<le> (of_char c :: nat) \<and> (of_char c :: nat) \<le> 102 then Some (of_char c - 87)
      else if 65 \<le> (of_char c :: nat) \<and> (of_char c :: nat) \<le> 70 then Some (of_char c - 55)
      else None)"

fun hex_fold :: "nat \<Rightarrow> string \<Rightarrow> nat option" where
  "hex_fold n [] = Some n"
| "hex_fold n (c # s) = (case hex_value c of None \<Rightarrow> None | Some d \<Rightarrow> hex_fold (16 * n + d) s)"

text \<open>\<open>u8::from_str_radix(s, 16)\<close>; like every Rust integer parser it accepts a leading \<open>+\<close>.\<close>

definition u8_from_hex :: "string \<Rightarrow> byte option" where
  "u8_from_hex s =
     (let ds = strip_plus s in
      if ds = [] then None
      else case hex_fold 0 ds of None \<Rightarrow> None
           | Some n \<Rightarrow> if n < 256 then Some (word_of_nat n) else None)"

definition hex_char :: "nat \<Rightarrow> char" where
  "hex_char n = (if n < 10 then char_of (48 + n) else char_of (87 + n))"

lemma hex_value_char [simp]: "n < 16 \<Longrightarrow> hex_value (hex_char n) = Some n"
  by (auto simp: hex_value_def hex_char_def is_ascii_digit_def)

lemma hex_value_bound: "hex_value c = Some n \<Longrightarrow> n < 16"
  by (auto simp: hex_value_def is_ascii_digit_def Let_def split: if_splits)

lemma hex_char_inject: "m < 16 \<Longrightarrow> n < 16 \<Longrightarrow> hex_char m = hex_char n \<longleftrightarrow> m = n"
  by (metis hex_value_char option.inject)

section \<open>UTF-8\<close>

text \<open>
  \<open>utf8_step us\<close> looks at the first sequence of a non-empty list of code units: whether it is a
  well-formed character, and how many units the character, or the maximal ill-formed part that
  \<open>from_utf8_lossy\<close> replaces by one U+FFFD, takes.
\<close>

definition utf8_cont :: "nat list \<Rightarrow> nat \<Rightarrow> bool" where
  "utf8_cont us i \<longleftrightarrow> i < length us \<and> 128 \<le> us ! i \<and> us ! i \<le> 191"

definition utf8_second :: "nat \<Rightarrow> nat list \<Rightarrow> bool" where
  "utf8_second b us \<longleftrightarrow> 1 < length us \<and>
     (let lo = (if b = 224 then 160 else if b = 240 then 144 else 128);
          hi = (if b = 237 then 159 else if b = 244 then 143 else 191)
      in lo \<le> us ! 1 \<and> us ! 1 \<le> hi)"

definition utf8_step :: "nat list \<Rightarrow> bool \<times> nat" where
  "utf8_step us =
     (let b = hd us in
      if b < 128 then (True, 1)
      else if 194 \<le> b \<and> b \<le> 223 then (if utf8_second b us then (True, 2) else (False, 1))
      else if 224 \<le> b \<and> b \<le> 239 then
        (if \<not> utf8_second b us then (False, 1)
         else if \<not> utf8_cont us 2 then (False, 2) else (True, 3))
      else if 240 \<le> b \<and> b \<le> 244 then
        (if \<not> utf8_second b us then (False, 1)
         else if \<not> utf8_cont us 2 then (False, 2)
         else if \<not> utf8_cont us 3 then (False, 3) else (True, 4))
      else (False, 1))"

lemma utf8_step_pos: "utf8_step us = (ok, n) \<Longrightarrow> 0 < n"
  by (auto simp: utf8_step_def Let_def split: if_splits)

text \<open>The code point a well-formed sequence of \<open>n\<close> units encodes.\<close>

definition utf8_code_point :: "nat list \<Rightarrow> nat \<Rightarrow> nat" where
  "utf8_code_point us n =
     (if n = 1 then us ! 0
      else if n = 2 then (us ! 0 - 192) * 64 + (us ! 1 - 128)
      else if n = 3 then (us ! 0 - 224) * 4096 + (us ! 1 - 128) * 64 + (us ! 2 - 128)
      else (us ! 0 - 240) * 262144 + (us ! 1 - 128) * 4096 + (us ! 2 - 128) * 64 + (us ! 3 - 128))"

function utf8_units_valid :: "nat list \<Rightarrow> bool" where
  "utf8_units_valid us =
     (if us = [] then True
      else if fst (utf8_step us) then utf8_units_valid (drop (snd (utf8_step us)) us)
      else False)"
  by pat_completeness auto
termination
  by (relation "measure length") (auto simp: utf8_step_pos [OF surjective_pairing])

function utf8_lossy_units :: "nat list \<Rightarrow> nat list" where
  "utf8_lossy_units us =
     (if us = [] then []
      else (if fst (utf8_step us) then take (snd (utf8_step us)) us else [239, 191, 189])
           @ utf8_lossy_units (drop (snd (utf8_step us)) us))"
  by pat_completeness auto
termination
  by (relation "measure length") (auto simp: utf8_step_pos [OF surjective_pairing])

function utf8_code_points :: "nat list \<Rightarrow> nat list" where
  "utf8_code_points us =
     (if us = [] then []
      else (if fst (utf8_step us) then utf8_code_point us (snd (utf8_step us)) else 65533)
           # utf8_code_points (drop (snd (utf8_step us)) us))"
  by pat_completeness auto
termination
  by (relation "measure length") (auto simp: utf8_step_pos [OF surjective_pairing])

declare utf8_units_valid.simps [simp del] utf8_lossy_units.simps [simp del]
  utf8_code_points.simps [simp del]

definition from_utf8 :: "byte list \<Rightarrow> string option" where
  "from_utf8 bs = (if utf8_units_valid (map unat bs) then Some (string_of bs) else None)"

definition from_utf8_lossy :: "byte list \<Rightarrow> string" where
  "from_utf8_lossy bs = map char_of (utf8_lossy_units (map unat bs))"

definition chars_of :: "string \<Rightarrow> nat list" where
  "chars_of s = utf8_code_points (map of_char s)"

lemma from_utf8_Some: "from_utf8 bs = Some s \<Longrightarrow> s = string_of bs \<and> bs = bytes_of s"
  by (auto simp: from_utf8_def split: if_splits)

lemma utf8_step_ascii: "u < 128 \<Longrightarrow> utf8_step (u # us) = (True, 1)"
  by (simp add: utf8_step_def)

lemma utf8_valid_ascii: "\<forall>u\<in>set us. u < 128 \<Longrightarrow> utf8_units_valid us"
  by (induction us) (subst utf8_units_valid.simps; simp add: utf8_step_ascii)+

lemma utf8_lossy_ascii: "\<forall>u\<in>set us. u < 128 \<Longrightarrow> utf8_lossy_units us = us"
  by (induction us) (subst utf8_lossy_units.simps; simp add: utf8_step_ascii)+

lemma utf8_code_points_ascii: "\<forall>u\<in>set us. u < 128 \<Longrightarrow> utf8_code_points us = us"
  by (induction us)
    (subst utf8_code_points.simps; simp add: utf8_step_ascii utf8_code_point_def)+

definition is_ascii :: "string \<Rightarrow> bool" where
  "is_ascii s \<longleftrightarrow> list_all (\<lambda>c. of_char c < (128 :: nat)) s"

lemma chars_of_ascii [str_simps]: "is_ascii s \<Longrightarrow> chars_of s = map of_char s"
  by (simp add: chars_of_def is_ascii_def list_all_iff utf8_code_points_ascii)

lemma from_utf8_ascii [str_simps]: "is_ascii s \<Longrightarrow> from_utf8 (bytes_of s) = Some s"
proof -
  assume "is_ascii s"
  moreover have "map unat (bytes_of s) = map of_char s"
    by (simp add: bytes_of_def unat_of_nat take_bit_eq_mod)
  ultimately show ?thesis
    by (simp add: from_utf8_def is_ascii_def list_all_iff utf8_valid_ascii)
qed

lemma is_ascii_simps [simp]:
  "is_ascii []" "is_ascii (c # s) \<longleftrightarrow> of_char c < (128 :: nat) \<and> is_ascii s"
  "is_ascii (s @ t) \<longleftrightarrow> is_ascii s \<and> is_ascii t"
  by (simp_all add: is_ascii_def)

text \<open>Well-formed text is what \<open>from_utf8_lossy\<close> leaves alone.\<close>

lemma utf8_lossy_valid: "utf8_units_valid us \<Longrightarrow> utf8_lossy_units us = us"
proof (induction us rule: utf8_lossy_units.induct)
  case (1 us)
  then show ?case
    by (subst utf8_lossy_units.simps) (auto simp: utf8_units_valid.simps [of us] split: if_splits)
qed

lemma from_utf8_lossy_valid: "from_utf8 bs = Some s \<Longrightarrow> from_utf8_lossy bs = s"
  by (auto simp: from_utf8_def from_utf8_lossy_def utf8_lossy_valid string_of_def
      split: if_splits)

end
