(* ===== verification/Core_Errors.thy ===== *)
theory Core_Errors
  imports Rust_Text
begin

text \<open>
  \<open>poid-core/src/error.rs\<close>: the errors of reading, validating, writing and mutating a container,
  the stable diagnostic code of each and the coarser code of the conformance registry.
\<close>

section \<open>The error types\<close>

datatype manifest_error =
  Syntax string
| UnsupportedVersion string
| MissingField string
| InvalidId string string
| InvalidVersion string string
| ManifestInvalidPath string string
| InvalidProfile string
| ConnectionRequires
| InvalidDigest string
| InvalidNumber string

datatype poid_error =
  NotZip
| MimetypeMissing
| MimetypeNotFirst string
| MimetypeNotStored
| MimetypeMismatch
| ManifestMissing
| ManifestErr manifest_error
| NativeCode string string
| Link string
| PathTraversal string string
| InvalidPath string string
| DuplicatePath string
| UnsupportedCompression string
| ZipBombRatio string
| ZipBombSize string
| TooManyEntries
| NestedTooDeep string
| CorruptEntry string
| DataContainerWithCode string
| AppTreeMissing
| WorkspaceAppsMissing
| EntryMissing string
| IntegrityMismatch string
| SignatureInvalid
| SignatureMalformed string
| UpdateMismatch string
| IoErr string

section \<open>Codes\<close>

fun manifest_code :: "manifest_error \<Rightarrow> string" where
  "manifest_code (Syntax _) = ''manifest-syntax''"
| "manifest_code (UnsupportedVersion _) = ''manifest-unsupported-version''"
| "manifest_code (MissingField _) = ''manifest-missing-field''"
| "manifest_code (InvalidId _ _) = ''manifest-invalid-id''"
| "manifest_code (InvalidVersion _ _) = ''manifest-invalid-version''"
| "manifest_code (ManifestInvalidPath _ _) = ''manifest-invalid-path''"
| "manifest_code (InvalidProfile _) = ''manifest-invalid-profile''"
| "manifest_code ConnectionRequires = ''manifest-connection-requires''"
| "manifest_code (InvalidDigest _) = ''manifest-invalid-digest''"
| "manifest_code (InvalidNumber _) = ''manifest-invalid-number''"

fun manifest_conformance_code :: "manifest_error \<Rightarrow> string" where
  "manifest_conformance_code (Syntax _) = ''POID-011''"
| "manifest_conformance_code _ = ''POID-012''"

fun code :: "poid_error \<Rightarrow> string" where
  "code NotZip = ''not-zip''"
| "code MimetypeMissing = ''mimetype-missing''"
| "code (MimetypeNotFirst _) = ''mimetype-not-first''"
| "code MimetypeNotStored = ''mimetype-not-stored''"
| "code MimetypeMismatch = ''mimetype-mismatch''"
| "code ManifestMissing = ''manifest-missing''"
| "code (ManifestErr e) = manifest_code e"
| "code (NativeCode _ _) = ''native-code''"
| "code (Link _) = ''link''"
| "code (PathTraversal _ _) = ''path-traversal''"
| "code (InvalidPath _ _) = ''invalid-path''"
| "code (DuplicatePath _) = ''duplicate-path''"
| "code (UnsupportedCompression _) = ''unsupported-compression''"
| "code (ZipBombRatio _) = ''zip-bomb-ratio''"
| "code (ZipBombSize _) = ''zip-bomb-size''"
| "code TooManyEntries = ''too-many-entries''"
| "code (NestedTooDeep _) = ''nested-too-deep''"
| "code (CorruptEntry _) = ''corrupt-entry''"
| "code (DataContainerWithCode _) = ''data-container-with-code''"
| "code AppTreeMissing = ''app-tree-missing''"
| "code WorkspaceAppsMissing = ''workspace-apps-missing''"
| "code (EntryMissing _) = ''entry-missing''"
| "code (IntegrityMismatch _) = ''integrity-mismatch''"
| "code SignatureInvalid = ''signature-invalid''"
| "code (SignatureMalformed _) = ''signature-malformed''"
| "code (UpdateMismatch _) = ''update-mismatch''"
| "code (IoErr _) = ''io''"

fun conformance_code :: "poid_error \<Rightarrow> string option" where
  "conformance_code MimetypeMissing = Some ''POID-001''"
| "conformance_code MimetypeMismatch = Some ''POID-001''"
| "conformance_code (MimetypeNotFirst _) = Some ''POID-002''"
| "conformance_code MimetypeNotStored = Some ''POID-002''"
| "conformance_code NotZip = Some ''POID-003''"
| "conformance_code (CorruptEntry _) = Some ''POID-004''"
| "conformance_code ManifestMissing = Some ''POID-010''"
| "conformance_code (ManifestErr e) = Some (manifest_conformance_code e)"
| "conformance_code (NativeCode _ _) = Some ''POID-020''"
| "conformance_code (Link _) = Some ''POID-021''"
| "conformance_code (PathTraversal _ _) = Some ''POID-022''"
| "conformance_code (InvalidPath _ _) = Some ''POID-022''"
| "conformance_code (ZipBombRatio _) = Some ''POID-023''"
| "conformance_code (ZipBombSize _) = Some ''POID-024''"
| "conformance_code (UnsupportedCompression _) = Some ''POID-025''"
| "conformance_code (NestedTooDeep _) = Some ''POID-026''"
| "conformance_code (DuplicatePath _) = Some ''POID-027''"
| "conformance_code TooManyEntries = Some ''POID-028''"
| "conformance_code (EntryMissing _) = Some ''POID-030''"
| "conformance_code (IntegrityMismatch _) = Some ''POID-031''"
| "conformance_code AppTreeMissing = Some ''POID-032''"
| "conformance_code (DataContainerWithCode _) = Some ''POID-040''"
| "conformance_code WorkspaceAppsMissing = Some ''POID-041''"
| "conformance_code SignatureInvalid = Some ''POID-050''"
| "conformance_code (SignatureMalformed _) = Some ''POID-051''"
| "conformance_code (UpdateMismatch _) = None"
| "conformance_code (IoErr _) = None"

text \<open>
  The diagnostic code determines the registry code: two errors a tool reports under one
  diagnostic are never split by the registry, so a registry code can be looked up from the
  diagnostic alone. The table is the one of \<open>spec/errors.md\<close>.
\<close>

definition registry_table :: "(string \<times> string) list" where
  "registry_table =
    [(''mimetype-missing'', ''POID-001''), (''mimetype-mismatch'', ''POID-001''),
     (''mimetype-not-first'', ''POID-002''), (''mimetype-not-stored'', ''POID-002''),
     (''not-zip'', ''POID-003''), (''corrupt-entry'', ''POID-004''),
     (''manifest-missing'', ''POID-010''), (''manifest-syntax'', ''POID-011''),
     (''manifest-unsupported-version'', ''POID-012''), (''manifest-missing-field'', ''POID-012''),
     (''manifest-invalid-id'', ''POID-012''), (''manifest-invalid-version'', ''POID-012''),
     (''manifest-invalid-path'', ''POID-012''), (''manifest-invalid-profile'', ''POID-012''),
     (''manifest-connection-requires'', ''POID-012''), (''manifest-invalid-digest'', ''POID-012''),
     (''manifest-invalid-number'', ''POID-012''), (''native-code'', ''POID-020''),
     (''link'', ''POID-021''), (''path-traversal'', ''POID-022''), (''invalid-path'', ''POID-022''),
     (''zip-bomb-ratio'', ''POID-023''), (''zip-bomb-size'', ''POID-024''),
     (''unsupported-compression'', ''POID-025''), (''nested-too-deep'', ''POID-026''),
     (''duplicate-path'', ''POID-027''), (''too-many-entries'', ''POID-028''),
     (''entry-missing'', ''POID-030''), (''integrity-mismatch'', ''POID-031''),
     (''app-tree-missing'', ''POID-032''), (''data-container-with-code'', ''POID-040''),
     (''workspace-apps-missing'', ''POID-041''), (''signature-invalid'', ''POID-050''),
     (''signature-malformed'', ''POID-051'')]"

lemma registry_of_manifest_code:
  "map_of registry_table (manifest_code e) = Some (manifest_conformance_code e)"
  by (cases e) (simp_all add: registry_table_def)

lemma conformance_code_by_diagnostic: "conformance_code e = map_of registry_table (code e)"
proof (cases e)
  case (ManifestErr m)
  then show ?thesis by (simp add: registry_of_manifest_code)
qed (simp_all add: registry_table_def)

end
