(* ===== verification/Container_Paths.thy ===== *)
theory Container_Paths
  imports Core_Errors
begin

text \<open>
  \<open>poid-core/src/paths.rs\<close>: the well-formedness of container paths. The check is proved equal to
  a declarative description of the accepted paths, and an accepted path is shown to stay below
  the directory it is resolved against, by a model of how a file system walks its segments.
\<close>

section \<open>The check\<close>

definition invalid_path :: "string \<Rightarrow> string \<Rightarrow> poid_error" where
  "invalid_path path why = InvalidPath path why"

definition traversal :: "string \<Rightarrow> string \<Rightarrow> poid_error" where
  "traversal path why = PathTraversal path why"

definition has_drive_letter :: "string \<Rightarrow> bool" where
  "has_drive_letter path \<longleftrightarrow>
     2 \<le> length path \<and> is_ascii_alphabetic (path ! 0) \<and> path ! 1 = CHR '':''"

definition check_segment :: "string \<Rightarrow> string \<Rightarrow> poid_error + unit" where
  "check_segment path segment =
     (if segment = '''' then Inl (invalid_path path ''empty path segment'')
      else if segment = ''.'' then Inl (invalid_path path ''`.` segment'')
      else if segment = ''..'' then Inl (traversal path ''`..` segment'')
      else Inr ())"

definition check_container_path :: "string \<Rightarrow> poid_error + unit" where
  "check_container_path path =
     (if path = '''' then Inl (invalid_path path ''empty path'')
      else if CHR 0x00 \<in> set path then Inl (invalid_path path ''NUL byte'')
      else if CHR 0x5C \<in> set path then Inl (invalid_path path ''backslash separator'')
      else if starts_with path ''/'' then Inl (traversal path ''absolute path'')
      else if has_drive_letter path then Inl (traversal path ''drive letter'')
      else for_each (check_segment path) (split_on CHR ''/'' path))"

section \<open>What it accepts\<close>

definition plain_segment :: "string \<Rightarrow> bool" where
  "plain_segment s \<longleftrightarrow> s \<noteq> '''' \<and> s \<noteq> ''.'' \<and> s \<noteq> ''..''
     \<and> CHR 0x00 \<notin> set s \<and> CHR 0x5C \<notin> set s \<and> CHR ''/'' \<notin> set s"

definition container_path :: "string \<Rightarrow> bool" where
  "container_path path \<longleftrightarrow> \<not> has_drive_letter path \<and>
     list_all plain_segment (split_on CHR ''/'' path)"

lemma check_segment_iff:
  "check_segment path s = Inr () \<longleftrightarrow> s \<noteq> '''' \<and> s \<noteq> ''.'' \<and> s \<noteq> ''..''"
  by (auto simp: check_segment_def)

interpretation seg: checker "check_segment path" "\<lambda>s. s \<noteq> '''' \<and> s \<noteq> ''.'' \<and> s \<noteq> ''..''" for path
  by unfold_locales (rule check_segment_iff)

lemma in_split_on: "(\<exists>s\<in>set (split_on sep p). c \<in> set s) \<longleftrightarrow> c \<in> set p \<and> c \<noteq> sep"
proof -
  have "c \<in> (\<Union>s\<in>set (split_on sep p). set s) \<longleftrightarrow> c \<in> set p - {sep}"
    by (simp only: set_split_on)
  then show ?thesis by simp
qed

lemma plain_segments_iff:
  "list_all plain_segment (split_on CHR ''/'' path) \<longleftrightarrow>
     list_all (\<lambda>s. s \<noteq> '''' \<and> s \<noteq> ''.'' \<and> s \<noteq> ''..'') (split_on CHR ''/'' path)
     \<and> CHR 0x00 \<notin> set path \<and> CHR 0x5C \<notin> set path"
  (is "?l \<longleftrightarrow> list_all ?P ?ss \<and> ?rest")
proof -
  have gen: "(\<forall>s\<in>A. P s \<and> Q s \<and> R s \<and> s0 \<notin> set s \<and> s1 \<notin> set s \<and> s2 \<notin> set s) \<longleftrightarrow>
      (\<forall>s\<in>A. P s \<and> Q s \<and> R s) \<and> \<not> (\<exists>s\<in>A. s0 \<in> set s) \<and> \<not> (\<exists>s\<in>A. s1 \<in> set s) \<and>
      \<not> (\<exists>s\<in>A. s2 \<in> set s)" for A :: "string set" and P Q R s0 s1 s2
    by blast
  have "?l \<longleftrightarrow> list_all ?P ?ss \<and> \<not> (\<exists>s\<in>set ?ss. CHR 0x00 \<in> set s) \<and>
      \<not> (\<exists>s\<in>set ?ss. CHR 0x5C \<in> set s) \<and> \<not> (\<exists>s\<in>set ?ss. CHR ''/'' \<in> set s)"
    unfolding list_all_iff plain_segment_def gen not_not ..
  then show ?thesis by (simp add: in_split_on)
qed

lemma container_path_not_absolute: "container_path p \<Longrightarrow> \<not> starts_with p ''/''"
  by (cases p) (auto simp: container_path_def plain_segment_def)

lemma container_path_not_empty [simp]: "\<not> container_path ''''"
  by (simp add: container_path_def plain_segment_def)

lemma check_container_path_iff: "check_container_path path = Inr () \<longleftrightarrow> container_path path"
proof (cases "path = '''' \<or> CHR 0x00 \<in> set path \<or> CHR 0x5C \<in> set path \<or>
    starts_with path ''/'' \<or> has_drive_letter path")
  case True
  then have "check_container_path path \<noteq> Inr ()"
    by (elim disjE) (simp_all add: check_container_path_def)
  moreover have "\<not> container_path path"
    using True container_path_not_absolute [of path]
    by (auto simp: container_path_def plain_segments_iff)
  ultimately show ?thesis by simp
next
  case False
  then have "check_container_path path = for_each (check_segment path) (split_on CHR ''/'' path)"
    by (simp add: check_container_path_def)
  with False show ?thesis
    by (simp add: container_path_def plain_segments_iff seg.for_each_check)
qed

interpretation path_check: checker check_container_path container_path
  by unfold_locales (rule check_container_path_iff)

text \<open>An accepted path is a non-empty list of plain segments joined by slashes.\<close>

lemma container_path_joined:
  "container_path path \<longleftrightarrow> \<not> has_drive_letter path \<and>
     (\<exists>segs. segs \<noteq> [] \<and> list_all plain_segment segs \<and> path = join_with CHR ''/'' segs)"
proof -
  have "split_on CHR ''/'' (join_with CHR ''/'' segs) = segs"
    if "segs \<noteq> []" "list_all plain_segment segs" for segs
    using that by (intro split_join) (auto simp: list_all_iff plain_segment_def)
  then show ?thesis
    unfolding container_path_def by (metis join_split split_on_neq_Nil)
qed

lemma container_path_no_nul: "container_path p \<Longrightarrow> CHR 0x00 \<notin> set p"
  by (simp add: container_path_def plain_segments_iff)

lemma container_path_not_slash_end: "\<not> container_path (p @ ''/'')"
proof
  have "split_on CHR ''/'' (p @ ''/'') = split_on CHR ''/'' p @ ['''']"
    by (induction p) (auto split: list.splits)
  moreover assume "container_path (p @ ''/'')"
  ultimately show False by (simp add: container_path_def plain_segment_def)
qed

section \<open>Resolution against a directory\<close>

text \<open>
  How an operating system walks a path from a directory: a leading slash restarts at the root,
  an empty or \<open>.\<close> segment stays, \<open>..\<close> goes to the parent. Backslashes are separators too (as on
  Windows), so the statement covers both conventions. A drive letter leaves the tree: the walk
  has no result.
\<close>

fun walk :: "string list \<Rightarrow> string list \<Rightarrow> string list" where
  "walk dir [] = dir"
| "walk dir (s # ss) =
     (if s = '''' \<or> s = ''.'' then walk dir ss
      else if s = ''..'' then walk (butlast dir) ss
      else walk (dir @ [s]) ss)"

definition is_separator :: "char \<Rightarrow> bool" where
  "is_separator c \<longleftrightarrow> c = CHR ''/'' \<or> c = CHR 0x5C"

definition resolve_path :: "string list \<Rightarrow> string \<Rightarrow> string list option" where
  "resolve_path dir path =
     (if has_drive_letter path then None
      else
        let p = map (\<lambda>c. if is_separator c then CHR ''/'' else c) path
        in Some (walk (if starts_with p ''/'' then [] else dir) (split_on CHR ''/'' p)))"

lemma walk_plain: "list_all plain_segment ss \<Longrightarrow> walk dir ss = dir @ ss"
  by (induction ss arbitrary: dir) (auto simp: plain_segment_def)

lemma container_path_separators:
  "container_path p \<Longrightarrow> map (\<lambda>c. if is_separator c then CHR ''/'' else c) p = p"
  by (rule map_idI) (auto simp: is_separator_def container_path_def plain_segments_iff)

lemma resolve_container_path:
  assumes "container_path p"
  shows "resolve_path dir p = Some (dir @ split_on CHR ''/'' p)"
  using assms container_path_not_absolute [OF assms]
  by (simp add: resolve_path_def container_path_separators Let_def container_path_def walk_plain)

text \<open>Distinct accepted paths name distinct places.\<close>

lemma resolve_container_path_inj:
  assumes "container_path p" "container_path q" "resolve_path dir p = resolve_path dir q"
  shows "p = q"
  using assms by (simp add: resolve_container_path) (metis join_split)

text \<open>
  C1: A path passes \<open>check_container_path\<close> exactly when it has no drive letter and is a non-empty
  list of segments joined by slashes, none empty, \<open>.\<close>, \<open>..\<close> or holding a NUL byte, a backslash or
  a slash; and then, from every directory, it resolves (with either separator convention) to that
  directory followed by the path's own segments: it cannot escape, and no two accepted paths
  collide.
\<close>

theorem container_paths_cannot_escape:
  "(check_container_path p = Inr () \<longleftrightarrow>
      \<not> has_drive_letter p \<and>
      (\<exists>segs. segs \<noteq> [] \<and> list_all plain_segment segs \<and> p = join_with CHR ''/'' segs)) \<and>
   (check_container_path p = Inr () \<longrightarrow>
      (\<exists>segs. segs \<noteq> [] \<and> resolve_path dir p = Some (dir @ segs)) \<and>
      (\<forall>q. check_container_path q = Inr () \<longrightarrow>
           resolve_path dir q = resolve_path dir p \<longrightarrow> q = p))"
proof (intro conjI impI allI)
  show "check_container_path p = Inr () \<longleftrightarrow> \<not> has_drive_letter p \<and>
      (\<exists>segs. segs \<noteq> [] \<and> list_all plain_segment segs \<and> p = join_with CHR ''/'' segs)"
    by (simp only: check_container_path_iff container_path_joined)
next
  assume p: "check_container_path p = Inr ()"
  show "\<exists>segs. segs \<noteq> [] \<and> resolve_path dir p = Some (dir @ segs)"
    using resolve_container_path [OF p [unfolded check_container_path_iff]]
    by (intro exI [of _ "split_on CHR ''/'' p"]) simp
  fix q assume "check_container_path q = Inr ()" "resolve_path dir q = resolve_path dir p"
  with p show "q = p"
    unfolding check_container_path_iff by (intro resolve_container_path_inj)
qed

theorem container_paths_cannot_escape_witness:
  "\<exists>segs. segs \<noteq> [] \<and> resolve_path [''vault''] ''app/x.js'' = Some ([''vault''] @ segs)"
proof -
  have "check_container_path ''app/x.js'' = Inr ()" by code_simp
  then show ?thesis
    using container_paths_cannot_escape [of "''app/x.js''" "[''vault'']"] by blast
qed

end
