(* ===== verification/Zip_Scan.thy ===== *)
theory Zip_Scan
  imports Container_Paths
begin

text \<open>
  \<open>poid-core/src/limits.rs\<close> and the entry-level half of \<open>read.rs\<close>: the limits, the counted
  reading of an entry and the recursive scan for executables and nested archives. The \<open>zip\<close> crate
  is a parameter: \<open>zip_new\<close> is \<open>ZipArchive::new\<close>, an archive is what it lets the reader see of
  each entry, and an entry's content is the sequence of results its \<open>read\<close> calls return (so
  corrupt streams and streams that lie about their size are covered).
\<close>

unbundle bit_operations_syntax

section \<open>Limits\<close>

record limits =
  max_total_uncompressed :: nat
  max_compression_ratio :: nat
  ratio_grace_bytes :: nat
  max_entries :: nat
  max_nesting_depth :: byte

definition limits_default :: limits where
  "limits_default =
     \<lparr>max_total_uncompressed = 1024 * 1024 * 1024,
      max_compression_ratio = 100,
      ratio_grace_bytes = 1024 * 1024,
      max_entries = 10000,
      max_nesting_depth = 3\<rparr>"

section \<open>What the \<open>zip\<close> crate returns\<close>

datatype compression_method = Stored | Deflated | OtherMethod nat

datatype read_step = ReadChunk "byte list" | ReadError

record zip_entry =
  z_name_raw :: "byte list"
  z_is_dir :: bool
  z_is_symlink :: bool
  z_unix_mode :: "u32 option"
  z_method :: compression_method
  z_compressed :: nat
  z_reader :: "read_step list option"

record zip_archive =
  z_entries :: "zip_entry option list"
  z_index_for_name :: "string \<Rightarrow> nat option"

definition by_index :: "zip_archive \<Rightarrow> nat \<Rightarrow> zip_entry option" where
  "by_index a i = (if i < length (z_entries a) then z_entries a ! i else None)"

section \<open>Checks on one entry\<close>

definition entry_name :: "zip_entry \<Rightarrow> poid_error + string" where
  "entry_name entry =
     ok_or (InvalidPath (from_utf8_lossy (z_name_raw entry)) ''non-UTF-8 name'')
       (from_utf8 (z_name_raw entry))"

definition special_mode :: "u32 \<Rightarrow> bool" where
  "special_mode mode \<longleftrightarrow>
     (let file_type = mode AND 0xF000 in
      file_type \<noteq> 0 \<and> file_type \<noteq> 0x8000 \<and> file_type \<noteq> 0x4000)"

definition check_not_special :: "zip_entry \<Rightarrow> string \<Rightarrow> poid_error + unit" where
  "check_not_special entry name =
     (if z_is_symlink entry then Inl (Link name)
      else case z_unix_mode entry of
             None \<Rightarrow> Inr ()
           | Some mode \<Rightarrow> if special_mode mode then Inl (Link name) else Inr ())"

definition check_method :: "zip_entry \<Rightarrow> string \<Rightarrow> poid_error + unit" where
  "check_method entry name =
     (case z_method entry of
        Stored \<Rightarrow> Inr () | Deflated \<Rightarrow> Inr ()
      | OtherMethod _ \<Rightarrow> Inl (UnsupportedCompression name))"

section \<open>Counted reading\<close>

definition ratio_cap :: "limits \<Rightarrow> nat \<Rightarrow> nat" where
  "ratio_cap l compressed_size =
     max (saturating_mul_u64 compressed_size (max_compression_ratio l)) (ratio_grace_bytes l)"

fun read_loop ::
  "string \<Rightarrow> nat \<Rightarrow> nat \<Rightarrow> read_step list \<Rightarrow> nat \<Rightarrow> byte list \<Rightarrow> poid_error + (nat \<times> byte list)" where
  "read_loop name cap budget [] sum_read out = Inr (sum_read, out)"
| "read_loop name cap budget (ReadError # rs) sum_read out = Inl (CorruptEntry name)"
| "read_loop name cap budget (ReadChunk buf # rs) sum_read out =
     (if buf = [] then Inr (sum_read, out)
      else
        let sum_read = sum_read + length buf in
        if sum_read > budget then Inl (ZipBombSize name)
        else if sum_read > cap then Inl (ZipBombRatio name)
        else read_loop name cap budget rs sum_read (out @ buf))"

definition read_limited ::
  "read_step list \<Rightarrow> string \<Rightarrow> nat \<Rightarrow> limits \<Rightarrow> nat \<Rightarrow> poid_error + (byte list \<times> nat)" where
  "read_limited reader name compressed_size l budget =
     rbind (read_loop name (ratio_cap l compressed_size) budget reader 0 [])
       (\<lambda>(sum_read, out). Inr (out, budget - sum_read))"

text \<open>The bytes a reader delivers before its end of file, if it does not fail.\<close>

fun payload :: "read_step list \<Rightarrow> byte list option" where
  "payload [] = Some []"
| "payload (ReadError # rs) = None"
| "payload (ReadChunk buf # rs) =
     (if buf = [] then Some [] else map_option (\<lambda>rest. buf @ rest) (payload rs))"

lemma read_loop_iff:
  "sum_read \<le> budget \<Longrightarrow> sum_read \<le> cap \<Longrightarrow>
   read_loop name cap budget rs sum_read out = Inr r \<longleftrightarrow>
     (\<exists>data. payload rs = Some data \<and> sum_read + length data \<le> budget \<and>
        sum_read + length data \<le> cap \<and> r = (sum_read + length data, out @ data))"
proof (induction name cap budget rs sum_read out rule: read_loop.induct)
  case (3 name cap budget buf rs sum_read out)
  then show ?case by (cases "payload rs") (auto simp: Let_def)
qed auto

lemma read_limited_iff:
  "read_limited rs name compressed l budget = Inr (data, budget') \<longleftrightarrow>
     payload rs = Some data \<and> length data \<le> budget \<and> length data \<le> ratio_cap l compressed \<and>
     budget' = budget - length data"
  by (auto simp: read_limited_def result_simps read_loop_iff split: prod.splits)

section \<open>The recursive scan\<close>

definition exec_magics :: "(byte list \<times> string) list" where
  "exec_magics =
     [(bytes_of ''MZ'', ''PE/DOS executable''),
      ([0x7f, 0x45, 0x4c, 0x46], ''ELF binary''),
      ([0xfe, 0xed, 0xfa], ''Mach-O binary''),
      ([0xce, 0xfa, 0xed, 0xfe], ''Mach-O binary''),
      ([0xcf, 0xfa, 0xed, 0xfe], ''Mach-O binary''),
      (bytes_of ''!<arch>'', ''static library archive'')]"

definition pk_magic :: "byte list" where
  "pk_magic = [0x50, 0x4b, 0x03, 0x04]"

definition inner_label :: "string \<Rightarrow> string \<Rightarrow> string" where
  "inner_label name what = name @ ''!'' @ what"

definition check_inner_path :: "string \<Rightarrow> string \<Rightarrow> poid_error + unit" where
  "check_inner_path label raw_name =
     map_err (\<lambda>_. PathTraversal label ''invalid path inside nested archive'')
       (check_container_path raw_name)"

lemma depth_succ:
  assumes "\<not> max_depth \<le> (depth :: byte)"
  shows "unat (depth + 1) = unat depth + 1"
proof -
  have "unat depth + 1 < 256"
    using assms unat_byte_less [of max_depth] unfolding word_le_nat_alt by linarith
  then show ?thesis by (simp add: unat_word_ariths)
qed

lemma depth_succ_measure:
  "\<not> (max_depth \<le> (depth :: byte)) \<Longrightarrow>
     unat max_depth - unat (depth + 1) < unat max_depth - unat depth"
  using depth_succ [of max_depth depth] by (simp add: not_le word_less_nat_alt)

text \<open>
  The scan stops on every input, whatever \<open>zip_new\<close> returns: a nested archive is only entered one
  level deeper, below the depth limit, and an archive has finitely many entries.
\<close>

function (sequential)
  scan_content :: "(byte list \<Rightarrow> zip_archive option) \<Rightarrow> limits \<Rightarrow> string \<Rightarrow> byte list \<Rightarrow> byte \<Rightarrow> nat
    \<Rightarrow> poid_error + nat"
  and scan_nested_zip :: "(byte list \<Rightarrow> zip_archive option) \<Rightarrow> limits \<Rightarrow> string \<Rightarrow> byte list \<Rightarrow> byte
    \<Rightarrow> nat \<Rightarrow> poid_error + nat"
  and scan_entries :: "(byte list \<Rightarrow> zip_archive option) \<Rightarrow> limits \<Rightarrow> string \<Rightarrow> nat
    \<Rightarrow> zip_entry option list \<Rightarrow> byte \<Rightarrow> nat \<Rightarrow> poid_error + nat"
  where
  "scan_content zip_new l name content depth budget =
     (case find (\<lambda>(magic, kind). starts_with content magic) exec_magics of
        Some (magic, kind) \<Rightarrow> Inl (NativeCode name kind)
      | None \<Rightarrow>
          if starts_with content pk_magic then
            if depth \<ge> max_nesting_depth l then Inl (NestedTooDeep name)
            else scan_nested_zip zip_new l name content (depth + 1) budget
          else Inr budget)"
| "scan_nested_zip zip_new l name content depth budget =
     (case zip_new content of
        None \<Rightarrow> Inr budget
      | Some archive \<Rightarrow>
          if length (z_entries archive) > max_entries l then Inl TooManyEntries
          else scan_entries zip_new l name 0 (z_entries archive) depth budget)"
| "scan_entries zip_new l name i [] depth budget = Inr budget"
| "scan_entries zip_new l name i (None # es) depth budget =
     Inl (CorruptEntry (inner_label name (''entry #'' @ show_nat i)))"
| "scan_entries zip_new l name i (Some entry # es) depth budget =
     (let raw_name = from_utf8_lossy (z_name_raw entry);
          label = inner_label name raw_name
      in
      if z_is_dir entry then scan_entries zip_new l name (i + 1) es depth budget
      else if z_is_symlink entry then Inl (Link label)
      else
        rbind (check_method entry label) (\<lambda>_.
        rbind (check_inner_path label raw_name) (\<lambda>_.
          case z_reader entry of
            None \<Rightarrow> Inl (CorruptEntry label)
          | Some reader \<Rightarrow>
              rbind (read_limited reader label (z_compressed entry) l budget) (\<lambda>(inner, budget).
              rbind (scan_content zip_new l label inner depth budget) (\<lambda>budget.
                scan_entries zip_new l name (i + 1) es depth budget)))))"
  by pat_completeness auto

termination
  by (relation "inv_image (less_than <*lex*> less_than <*lex*> less_than) (\<lambda>x. case x of
        Inl (zn, l, name, c, depth, b) \<Rightarrow> (unat (max_nesting_depth l) - unat depth, 0, 0)
      | Inr (Inl (zn, l, name, c, depth, b)) \<Rightarrow> (unat (max_nesting_depth l) - unat depth, 2, 0)
      | Inr (Inr (zn, l, name, i, es, depth, b)) \<Rightarrow>
          (unat (max_nesting_depth l) - unat depth, 1, length es))")
    (auto simp: depth_succ_measure)

declare scan_content.simps [simp del] scan_nested_zip.simps [simp del]

section \<open>What the scan accepts\<close>

definition has_exec_magic :: "byte list \<Rightarrow> bool" where
  "has_exec_magic content \<longleftrightarrow> (\<exists>(magic, kind)\<in>set exec_magics. starts_with content magic)"

definition legal_inner_entry :: "limits \<Rightarrow> zip_entry \<Rightarrow> byte list \<Rightarrow> bool" where
  "legal_inner_entry l entry inner \<longleftrightarrow>
     \<not> z_is_symlink entry \<and> z_method entry \<in> {Stored, Deflated} \<and>
     container_path (from_utf8_lossy (z_name_raw entry)) \<and>
     (\<exists>reader. z_reader entry = Some reader \<and> payload reader = Some inner) \<and>
     length inner \<le> ratio_cap l (z_compressed entry)"

text \<open>
  \<open>clean zip_new l depth content used\<close>: the content, found at that depth, holds nothing prohibited
  at any level below, and expanding every archive in it yields \<open>used\<close> bytes in total.
\<close>

inductive clean ::
    "(byte list \<Rightarrow> zip_archive option) \<Rightarrow> limits \<Rightarrow> byte \<Rightarrow> byte list \<Rightarrow> nat \<Rightarrow> bool"
  and clean_entries ::
    "(byte list \<Rightarrow> zip_archive option) \<Rightarrow> limits \<Rightarrow> byte \<Rightarrow> zip_entry option list \<Rightarrow> nat \<Rightarrow> bool"
  for zip_new l where
  plain: "\<not> has_exec_magic content \<Longrightarrow> \<not> starts_with content pk_magic \<Longrightarrow>
    clean zip_new l depth content 0"
| opaque: "\<not> has_exec_magic content \<Longrightarrow> starts_with content pk_magic \<Longrightarrow>
    depth < max_nesting_depth l \<Longrightarrow> zip_new content = None \<Longrightarrow>
    clean zip_new l depth content 0"
| archive: "\<not> has_exec_magic content \<Longrightarrow> starts_with content pk_magic \<Longrightarrow>
    depth < max_nesting_depth l \<Longrightarrow> zip_new content = Some a \<Longrightarrow>
    length (z_entries a) \<le> max_entries l \<Longrightarrow>
    clean_entries zip_new l (depth + 1) (z_entries a) used \<Longrightarrow>
    clean zip_new l depth content used"
| no_entries: "clean_entries zip_new l depth [] 0"
| directory: "z_is_dir entry \<Longrightarrow> clean_entries zip_new l depth es used \<Longrightarrow>
    clean_entries zip_new l depth (Some entry # es) used"
| inner_file: "\<not> z_is_dir entry \<Longrightarrow> legal_inner_entry l entry inner \<Longrightarrow>
    clean zip_new l depth inner below \<Longrightarrow> clean_entries zip_new l depth es rest \<Longrightarrow>
    clean_entries zip_new l depth (Some entry # es) (length inner + below + rest)"

inductive_cases clean_entries_NoneE: "clean_entries zip_new l depth (None # es) used"

inductive_simps clean_iff: "clean zip_new l depth content used"
inductive_simps clean_entries_simps [simp]:
  "clean_entries zip_new l depth [] used"
  "clean_entries zip_new l depth (None # es) used"
inductive_simps clean_entries_Some: "clean_entries zip_new l depth (Some entry # es) used"

lemma find_magic_None:
  "find (\<lambda>(magic, kind). starts_with content magic) exec_magics = None \<longleftrightarrow> \<not> has_exec_magic content"
  by (auto simp: find_None_iff has_exec_magic_def)

lemma check_method_iff: "check_method entry label = Inr () \<longleftrightarrow> z_method entry \<in> {Stored, Deflated}"
  by (cases "z_method entry") (simp_all add: check_method_def)

lemma check_inner_path_iff: "check_inner_path label p = Inr () \<longleftrightarrow> container_path p"
  by (simp add: check_inner_path_def result_simps check_container_path_iff)

lemma payload_legal:
  "legal_inner_entry l entry inner \<Longrightarrow> legal_inner_entry l entry inner' \<Longrightarrow> inner = inner'"
  by (auto simp: legal_inner_entry_def)

text \<open>One step of the loop over the entries of a nested archive, by its outcome.\<close>

lemma scan_entries_file:
  assumes "\<not> z_is_dir entry"
  shows "scan_entries zip_new l name i (Some entry # es) depth budget = Inr b \<longleftrightarrow>
     (\<exists>inner b'. legal_inner_entry l entry inner \<and> length inner \<le> budget \<and>
        scan_content zip_new l (inner_label name (from_utf8_lossy (z_name_raw entry))) inner depth
          (budget - length inner) = Inr b' \<and>
        scan_entries zip_new l name (i + 1) es depth b' = Inr b)"
  using assms
  by (auto simp: Let_def result_simps check_method_iff check_inner_path_iff legal_inner_entry_def
      read_limited_iff split: option.splits)

lemma scan_sound:
  "scan_content zip_new l name content depth budget = Inr b \<Longrightarrow>
     b \<le> budget \<and> clean zip_new l depth content (budget - b)"
  "scan_nested_zip zip_new l name content depth budget = Inr b \<Longrightarrow>
     b \<le> budget \<and> (case zip_new content of None \<Rightarrow> b = budget
       | Some a \<Rightarrow> length (z_entries a) \<le> max_entries l \<and>
           clean_entries zip_new l depth (z_entries a) (budget - b))"
  "scan_entries zip_new l name i es depth budget = Inr b \<Longrightarrow>
     b \<le> budget \<and> clean_entries zip_new l depth es (budget - b)"
proof (induction zip_new l name content depth budget and zip_new l name content depth budget
    and zip_new l name i es depth budget arbitrary: b and b and b
    rule: scan_content_scan_nested_zip_scan_entries.induct)
  case (1 zip_new l name content depth budget)
  then show ?case
    by (auto simp: scan_content.simps [of _ _ _ content] clean_iff find_magic_None
        split: option.splits if_splits)
next
  case (2 zip_new l name content depth budget)
  then show ?case
    by (auto simp: scan_nested_zip.simps [of _ _ _ content] split: option.splits if_splits)
next
  case (5 zip_new l name i entry es depth budget)
  show ?case
  proof (cases "z_is_dir entry")
    case True
    with 5(4) have "scan_entries zip_new l name (i + 1) es depth budget = Inr b" by simp
    from 5(1) [OF refl refl True this] True show ?thesis by (simp add: clean_entries_Some)
  next
    case False
    let ?label = "inner_label name (from_utf8_lossy (z_name_raw entry))"
    from False 5(4) obtain inner b' where legal: "legal_inner_entry l entry inner"
      and fits: "length inner \<le> budget"
      and below: "scan_content zip_new l ?label inner depth (budget - length inner) = Inr b'"
      and rest: "scan_entries zip_new l name (i + 1) es depth b' = Inr b"
      unfolding scan_entries_file [OF False] by blast
    from legal obtain reader where reader: "z_reader entry = Some reader"
      and "payload reader = Some inner"
      and checks: "\<not> z_is_symlink entry" "check_method entry ?label = Inr ()"
        "check_inner_path ?label (from_utf8_lossy (z_name_raw entry)) = Inr ()"
      by (auto simp: legal_inner_entry_def check_method_iff check_inner_path_iff)
    with legal fits have read: "read_limited reader ?label (z_compressed entry) l budget =
        Inr (inner, budget - length inner)"
      by (simp add: read_limited_iff legal_inner_entry_def)
    note IH1 = 5(2) [OF refl refl False checks reader read refl below]
    note IH2 = 5(3) [OF refl refl False checks reader read refl below rest]
    from False legal IH1 IH2 have "clean_entries zip_new l depth (Some entry # es)
        (length inner + (budget - length inner - b') + (b' - b))"
      by (intro inner_file) simp_all
    moreover have "length inner + (budget - length inner - b') + (b' - b) = budget - b"
      using fits IH1 IH2 by linarith
    moreover have "b \<le> budget" using fits IH1 IH2 by linarith
    ultimately show ?thesis by simp
  qed
qed simp_all

lemma scan_complete:
  "clean zip_new l depth content used \<Longrightarrow>
     (\<forall>name budget. used \<le> budget \<longrightarrow>
        scan_content zip_new l name content depth budget = Inr (budget - used))"
  "clean_entries zip_new l depth es used \<Longrightarrow>
     (\<forall>name i budget. used \<le> budget \<longrightarrow>
        scan_entries zip_new l name i es depth budget = Inr (budget - used))"
proof (induction rule: clean_clean_entries.inducts)
  case (inner_file entry inner depth below es rest)
  show ?case
  proof (intro allI impI)
    fix name i budget
    assume fits: "length inner + below + rest \<le> budget"
    let ?label = "inner_label name (from_utf8_lossy (z_name_raw entry))"
    have "scan_content zip_new l ?label inner depth (budget - length inner) =
        Inr (budget - length inner - below)"
      using inner_file fits by simp
    moreover have "scan_entries zip_new l name (i + 1) es depth (budget - length inner - below) =
        Inr (budget - length inner - below - rest)"
      using inner_file fits by simp
    ultimately show "scan_entries zip_new l name i (Some entry # es) depth budget =
        Inr (budget - (length inner + below + rest))"
      unfolding scan_entries_file [OF inner_file(1)] using inner_file(2) fits
      by (intro exI [of _ inner] exI [of _ "budget - length inner - below"]) simp
  qed
qed (auto simp: scan_content.simps [of _ _ _ content for content] scan_nested_zip.simps
    find_magic_None [THEN iffD2])

lemma scan_content_iff:
  "scan_content zip_new l name content depth budget = Inr b \<longleftrightarrow>
     (\<exists>used \<le> budget. clean zip_new l depth content used \<and> b = budget - used)"
proof
  assume "scan_content zip_new l name content depth budget = Inr b"
  from scan_sound(1) [OF this]
  show "\<exists>used \<le> budget. clean zip_new l depth content used \<and> b = budget - used"
    by (intro exI [of _ "budget - b"]) auto
qed (auto simp: scan_complete(1))

section \<open>Consequences at every depth\<close>

text \<open>\<open>holds content inner\<close>: \<open>inner\<close> is a file of the archive \<open>content\<close> parses as.\<close>

definition holds :: "(byte list \<Rightarrow> zip_archive option) \<Rightarrow> byte list \<Rightarrow> byte list \<Rightarrow> bool" where
  "holds zip_new content inner \<longleftrightarrow> starts_with content pk_magic \<and>
     (\<exists>a entry reader. zip_new content = Some a \<and> Some entry \<in> set (z_entries a) \<and>
        \<not> z_is_dir entry \<and> z_reader entry = Some reader \<and> payload reader = Some inner)"

lemma clean_entries_member:
  assumes "clean_entries zip_new l depth es used" "Some entry \<in> set es" "\<not> z_is_dir entry"
  shows "\<exists>inner below. legal_inner_entry l entry inner \<and> clean zip_new l depth inner below \<and>
     length inner + below \<le> used"
  using assms
proof (induction es arbitrary: used)
  case (Cons e es)
  then show ?case
    by (cases e) (auto simp: clean_entries_Some, force+)
qed simp

lemma clean_inner:
  assumes "clean zip_new l depth content used" "holds zip_new content inner"
  shows "\<exists>below. clean zip_new l (depth + 1) inner below \<and> length inner + below \<le> used \<and>
     depth < max_nesting_depth l"
proof -
  from assms(2) obtain a entry reader where a: "zip_new content = Some a"
    "Some entry \<in> set (z_entries a)" "\<not> z_is_dir entry" "z_reader entry = Some reader"
    "payload reader = Some inner" "starts_with content pk_magic"
    by (auto simp: holds_def)
  with assms(1) have "clean_entries zip_new l (depth + 1) (z_entries a) used"
    and depth: "depth < max_nesting_depth l"
    by (auto simp: clean_iff)
  from clean_entries_member [OF this(1) a(2,3)] a(4,5) depth show ?thesis
    by (auto simp: legal_inner_entry_def)
qed

lemma clean_no_magic: "clean zip_new l depth content used \<Longrightarrow> \<not> has_exec_magic content"
  by (auto simp: clean_iff)

lemma clean_reachable:
  assumes "(holds zip_new ^^ n) content inner" "clean zip_new l depth content used"
  shows "\<not> has_exec_magic inner \<and> unat depth + n \<le> max (unat depth) (unat (max_nesting_depth l)) \<and>
     (0 < n \<longrightarrow> length inner \<le> used)"
proof -
  have "\<exists>d below. clean zip_new l d inner below \<and> unat d = unat depth + n \<and>
      unat d \<le> max (unat depth) (unat (max_nesting_depth l)) \<and>
      (if n = 0 then inner = content \<and> below = used else length inner + below \<le> used)"
    using assms(1)
  proof (induction n arbitrary: inner)
    case 0
    with assms(2) show ?case by auto
  next
    case (Suc n)
    then obtain mid where mid: "(holds zip_new ^^ n) content mid" "holds zip_new mid inner"
      by auto
    from Suc.IH [OF mid(1)] obtain d below where d: "clean zip_new l d mid below"
      "unat d = unat depth + n" "n = 0 \<longrightarrow> below = used" "n \<noteq> 0 \<longrightarrow> length mid + below \<le> used"
      by (auto split: if_splits)
    from clean_inner [OF d(1) mid(2)] obtain below' where
      inner: "clean zip_new l (d + 1) inner below'" "length inner + below' \<le> below"
      and lim: "d < max_nesting_depth l"
      by blast
    from lim have succ: "unat (d + 1) = unat d + 1"
      by (intro depth_succ) (simp add: not_le)
    from lim have "unat d < unat (max_nesting_depth l)" by (simp add: word_less_nat_alt)
    with inner succ d show ?case
      by (intro exI [of _ "d + 1"] exI [of _ below']) (cases "n = 0"; auto)
  qed
  then show ?thesis using clean_no_magic by (auto split: if_splits)
qed

lemma relpow_cycle: "(R ^^ n) x x \<Longrightarrow> (R ^^ (k * n)) x x"
  by (induction k) (auto simp: relpowp_add add.commute)

lemma quine_never_clean:
  assumes "(holds zip_new ^^ Suc n) content content"
  shows "\<not> clean zip_new l depth content used"
proof
  assume clean: "clean zip_new l depth content used"
  have "(holds zip_new ^^ (256 * Suc n)) content content"
    by (rule relpow_cycle [OF assms])
  from clean_reachable [OF this clean]
  have "256 * Suc n \<le> max (unat depth) (unat (max_nesting_depth l))"
    by (elim conjE) (rule add_leD2)
  moreover have "max (unat depth) (unat (max_nesting_depth l)) < 256"
    by simp
  moreover have "256 \<le> 256 * Suc n"
    by simp
  ultimately show False
    by (meson le_less_trans leD)
qed

section \<open>Properties\<close>

text \<open>An archive with one two-byte file, and one that contains itself, for the witnesses.\<close>

definition sample_entry :: "string \<Rightarrow> byte list \<Rightarrow> zip_entry" where
  "sample_entry name data =
     \<lparr>z_name_raw = bytes_of name, z_is_dir = False, z_is_symlink = False, z_unix_mode = Some 0x81A4,
      z_method = Deflated, z_compressed = length data, z_reader = Some [ReadChunk data]\<rparr>"

definition sample_zip :: "byte list \<Rightarrow> byte list \<Rightarrow> zip_archive option" where
  "sample_zip data bytes = (if bytes = pk_magic
     then Some \<lparr>z_entries = [Some (sample_entry ''m.py'' data)], z_index_for_name = (\<lambda>_. None)\<rparr>
     else None)"



text \<open>
  C4: An archive that contains itself, directly or through any number of archives in between, is
  refused under every limits and from every depth: the scan of a ZIP quine terminates with an
  error.
\<close>

theorem scan_rejects_zip_quines:
  assumes "(holds zip_new ^^ Suc n) content content"
  shows "\<exists>e. scan_content zip_new l name content depth budget = Inl e"
proof (cases "scan_content zip_new l name content depth budget")
  case (Inr left)
  with quine_never_clean [OF assms] show ?thesis by (auto simp: scan_content_iff)
qed simp

theorem scan_rejects_zip_quines_witness:
  "\<exists>e. scan_content (sample_zip pk_magic) limits_default ''q.zip'' pk_magic 1 1000 = Inl e"
proof -
  have "holds (sample_zip pk_magic) pk_magic pk_magic"
    by (simp add: holds_def sample_zip_def sample_entry_def pk_magic_def)
  then have "(holds (sample_zip pk_magic) ^^ Suc 0) pk_magic pk_magic"
    by (simp add: eq_OO)
  then show ?thesis by (rule scan_rejects_zip_quines)
qed

end
