(* ===== verification/Btree_Map.thy ===== *)
theory Btree_Map
  imports Prelude
begin

text \<open>
  \<open>BTreeMap\<close> as its ascending list of entries. The container model iterates over its files in
  key order, takes ranges and compares whole maps, so the order is part of the model. The
  \<open>key_store\<close> interface is what most clients need: a lookup that behaves like a finite map under
  insertion and removal.
\<close>

section \<open>Interface: a keyed store\<close>

datatype ('k, 'v) store_op = Put 'k 'v | Drop 'k

fun map_op :: "('k, 'v) store_op \<Rightarrow> ('k \<Rightarrow> 'v option) \<Rightarrow> ('k \<Rightarrow> 'v option)" where
  "map_op (Put k v) m = m(k \<mapsto> v)"
| "map_op (Drop k) m = m(k := None)"

fun store_step ::
  "('k \<Rightarrow> 'v \<Rightarrow> 's \<Rightarrow> 's) \<Rightarrow> ('k \<Rightarrow> 's \<Rightarrow> 's) \<Rightarrow> ('k, 'v) store_op \<Rightarrow> 's \<Rightarrow> 's" where
  "store_step put del (Put k v) s = put k v s"
| "store_step put del (Drop k) s = del k s"

locale key_store =
  fixes lookup :: "'s \<Rightarrow> 'k \<Rightarrow> 'v option"
    and put :: "'k \<Rightarrow> 'v \<Rightarrow> 's \<Rightarrow> 's"
    and del :: "'k \<Rightarrow> 's \<Rightarrow> 's"
    and ok :: "'s \<Rightarrow> bool"
  assumes lookup_put: "ok s \<Longrightarrow> lookup (put k v s) k' = (if k' = k then Some v else lookup s k')"
    and lookup_drop: "ok s \<Longrightarrow> lookup (del k s) k' = (if k' = k then None else lookup s k')"
    and ok_put: "ok s \<Longrightarrow> ok (put k v s)"
    and ok_drop: "ok s \<Longrightarrow> ok (del k s)"
begin

lemma lookup_put_map: "ok s \<Longrightarrow> lookup (put k v s) = (lookup s)(k \<mapsto> v)"
  by (auto simp: lookup_put)

lemma lookup_drop_map: "ok s \<Longrightarrow> lookup (del k s) = (lookup s)(k := None)"
  by (auto simp: lookup_drop)

lemma lookup_step: "ok s \<Longrightarrow> lookup (store_step put del a s) = map_op a (lookup s)"
  by (cases a) (simp_all add: lookup_put_map lookup_drop_map)

lemma ok_step: "ok s \<Longrightarrow> ok (store_step put del a s)"
  by (cases a) (simp_all add: ok_put ok_drop)

lemma lookup_run:
  "ok s \<Longrightarrow> lookup (fold (store_step put del) as s) = fold map_op as (lookup s)"
  by (induction as arbitrary: s) (simp_all add: lookup_step ok_step)

lemma ok_run: "ok s \<Longrightarrow> ok (fold (store_step put del) as s)"
  by (induction as arbitrary: s) (simp_all add: ok_step)

lemma put_other: "ok s \<Longrightarrow> k' \<noteq> k \<Longrightarrow> lookup (put k v s) k' = lookup s k'"
  by (simp add: lookup_put)

lemma drop_put: "ok s \<Longrightarrow> lookup (del k (put k v s)) = (lookup s)(k := None)"
  by (simp add: lookup_drop_map lookup_put_map ok_put)

end

section \<open>Ordered maps\<close>

type_synonym ('k, 'v) btree = "('k \<times> 'v) list"

definition bt_keys :: "('k, 'v) btree \<Rightarrow> 'k list" where
  "bt_keys m = map fst m"

definition bt_ok :: "('k :: linorder, 'v) btree \<Rightarrow> bool" where
  "bt_ok m \<longleftrightarrow> sorted_wrt (<) (map fst m)"

definition bt_get :: "('k, 'v) btree \<Rightarrow> 'k \<Rightarrow> 'v option" where
  "bt_get m k = map_of m k"

definition bt_contains :: "('k, 'v) btree \<Rightarrow> 'k \<Rightarrow> bool" where
  "bt_contains m k \<longleftrightarrow> bt_get m k \<noteq> None"

fun bt_insert :: "'k :: linorder \<Rightarrow> 'v \<Rightarrow> ('k, 'v) btree \<Rightarrow> ('k, 'v) btree" where
  "bt_insert k v [] = [(k, v)]"
| "bt_insert k v ((k', v') # m) =
     (if k < k' then (k, v) # (k', v') # m
      else if k = k' then (k, v) # m
      else (k', v') # bt_insert k v m)"

definition bt_retain :: "('k \<Rightarrow> 'v \<Rightarrow> bool) \<Rightarrow> ('k, 'v) btree \<Rightarrow> ('k, 'v) btree" where
  "bt_retain P m = filter (\<lambda>(k, v). P k v) m"

definition bt_remove :: "'k \<Rightarrow> ('k, 'v) btree \<Rightarrow> ('k, 'v) btree" where
  "bt_remove k m = bt_retain (\<lambda>k' _. k' \<noteq> k) m"

definition bt_range_from :: "'k :: linorder \<Rightarrow> ('k, 'v) btree \<Rightarrow> ('k, 'v) btree" where
  "bt_range_from k m = filter (\<lambda>(k', _). k \<le> k') m"

definition bt_of_list :: "('k :: linorder \<times> 'v) list \<Rightarrow> ('k, 'v) btree" where
  "bt_of_list xs = fold (\<lambda>(k, v). bt_insert k v) xs []"

lemma bt_ok_simps [simp]:
  "bt_ok []" "bt_ok (e # m) \<longleftrightarrow> (\<forall>p\<in>set m. fst e < fst p) \<and> bt_ok m"
  by (auto simp: bt_ok_def)

lemma bt_get_simps [simp]:
  "bt_get [] k = None"
  "bt_get ((k', v) # m) k = (if k = k' then Some v else bt_get m k)"
  by (auto simp: bt_get_def)

lemma bt_ok_distinct: "bt_ok m \<Longrightarrow> distinct (map fst m)"
  by (simp add: bt_ok_def strict_sorted_iff)

lemma bt_get_Some_set: "bt_get m k = Some v \<Longrightarrow> (k, v) \<in> set m"
  by (simp add: bt_get_def map_of_SomeD)

lemma bt_mem_iff: "bt_ok m \<Longrightarrow> p \<in> set m \<longleftrightarrow> bt_get m (fst p) = Some (snd p)"
  by (simp add: bt_get_def bt_ok_distinct)

lemma bt_get_iff_set: "bt_ok m \<Longrightarrow> bt_get m k = Some v \<longleftrightarrow> (k, v) \<in> set m"
  by (simp add: bt_get_def bt_ok_distinct)

lemma bt_get_None_iff [bt_simps]: "bt_get m k = None \<longleftrightarrow> k \<notin> fst ` set m"
  by (simp add: bt_get_def map_of_eq_None_iff)

lemma bt_contains_iff [bt_simps]: "bt_contains m k \<longleftrightarrow> k \<in> fst ` set m"
  by (simp add: bt_contains_def bt_get_None_iff)

lemma set_bt_keys [simp]: "set (bt_keys m) = fst ` set m"
  by (simp add: bt_keys_def)

lemma bt_get_insert [bt_simps, simp]:
  "bt_get (bt_insert k v m) k' = (if k' = k then Some v else bt_get m k')"
  by (induction m) auto

lemma keys_insert [bt_simps, simp]: "fst ` set (bt_insert k v m) = insert k (fst ` set m)"
  by (induction k v m rule: bt_insert.induct) (auto split: if_splits)

lemma bt_ok_insert_keys: "(\<forall>p\<in>set (bt_insert k v m). a < fst p) \<longleftrightarrow> a < k \<and> (\<forall>p\<in>set m. a < fst p)"
proof -
  have "(\<forall>p\<in>set l. a < fst p) \<longleftrightarrow> (\<forall>x\<in>fst ` set l. a < x)" for l :: "('a \<times> 'b) list"
    by simp
  then show ?thesis by (simp only: keys_insert) simp
qed

lemma bt_insert_ok [bt_simps, simp, intro]: "bt_ok m \<Longrightarrow> bt_ok (bt_insert k v m)"
  by (induction k v m rule: bt_insert.induct) (auto simp: bt_ok_insert_keys)

lemma set_bt_insert:
  assumes "bt_ok m"
  shows "set (bt_insert k v m) = insert (k, v) {p \<in> set m. fst p \<noteq> k}"
proof -
  have "p \<in> set (bt_insert k v m) \<longleftrightarrow> p = (k, v) \<or> p \<in> set m \<and> fst p \<noteq> k" for p
    using assms by (cases p) (auto simp: bt_mem_iff)
  then show ?thesis by auto
qed

lemma bt_retain_simps [simp]:
  "bt_retain P [] = []"
  "bt_retain P ((k, v) # m) = (if P k v then (k, v) # bt_retain P m else bt_retain P m)"
  by (simp_all add: bt_retain_def)

lemma set_bt_retain [bt_simps]: "set (bt_retain P m) = {(k, v) \<in> set m. P k v}"
  by (auto simp: bt_retain_def)

lemma bt_retain_ok [bt_simps, simp, intro]: "bt_ok m \<Longrightarrow> bt_ok (bt_retain P m)"
  unfolding bt_ok_def bt_retain_def by (induction m) auto

lemma bt_get_retain [bt_simps]:
  "bt_ok m \<Longrightarrow> bt_get (bt_retain P m) k =
     (case bt_get m k of None \<Rightarrow> None | Some v \<Rightarrow> if P k v then Some v else None)"
proof (induction m)
  case (Cons e m)
  obtain k' v where e: "e = (k', v)" by (cases e)
  show ?case
  proof (cases "k = k'")
    case True
    with Cons.prems e have "bt_get m k = None" by (auto simp: bt_get_None_iff)
    with True e Cons show ?thesis by simp
  next
    case False
    with e Cons show ?thesis by simp
  qed
qed simp

lemma bt_get_retain_key [bt_simps]:
  "bt_get (bt_retain (\<lambda>k _. Q k) m) k = (if Q k then bt_get m k else None)"
  by (induction m) auto

lemma bt_get_remove [bt_simps, simp]:
  "bt_get (bt_remove k m) k' = (if k' = k then None else bt_get m k')"
  by (simp add: bt_remove_def bt_get_retain_key)

lemma bt_remove_ok [bt_simps, simp, intro]: "bt_ok m \<Longrightarrow> bt_ok (bt_remove k m)"
  by (simp add: bt_remove_def)

lemma set_bt_remove [bt_simps]: "set (bt_remove k m) = {p \<in> set m. fst p \<noteq> k}"
  by (auto simp: bt_remove_def set_bt_retain)

lemma bt_of_list_ok [simp]: "bt_ok (bt_of_list xs)"
proof -
  have "bt_ok m \<Longrightarrow> bt_ok (fold (\<lambda>(k, v). bt_insert k v) xs m)" for m
    by (induction xs arbitrary: m) auto
  then show ?thesis by (simp add: bt_of_list_def)
qed

interpretation bt: key_store bt_get bt_insert bt_remove bt_ok
  by unfold_locales auto

text \<open>An ordered map is determined by its lookups.\<close>

lemma bt_rebuild: "bt_ok m \<Longrightarrow> map (\<lambda>k. (k, the (bt_get m k))) (map fst m) = m"
  unfolding map_map by (rule map_idI) (auto simp: bt_get_iff_set [THEN iffD2])

lemma bt_ext:
  assumes "bt_ok a" and "bt_ok b" and get: "\<And>k. bt_get a k = bt_get b k"
  shows "a = b"
proof -
  have "set (map fst a) = set (map fst b)"
    using get by (metis bt_get_None_iff image_set subsetI subset_antisym)
  then have keys: "map fst a = map fst b"
    using assms(1,2) by (simp add: bt_ok_def strict_sorted_equal)
  have "a = map (\<lambda>k. (k, the (bt_get a k))) (map fst a)"
    using assms(1) by (simp only: bt_rebuild)
  also have "\<dots> = map (\<lambda>k. (k, the (bt_get b k))) (map fst b)"
    by (simp only: keys get)
  also have "\<dots> = b"
    using assms(2) by (simp only: bt_rebuild)
  finally show ?thesis .
qed

lemma bt_get_of_list_distinct:
  assumes "distinct (map fst xs)"
  shows "bt_get (bt_of_list xs) k = map_of xs k"
proof -
  have "bt_get (fold (\<lambda>(k, v). bt_insert k v) xs m) k =
      (case map_of xs k of None \<Rightarrow> bt_get m k | Some v \<Rightarrow> Some v)" for m
    using assms
  proof (induction xs arbitrary: m)
    case (Cons e xs)
    then have "map_of xs (fst e) = None" by (simp add: map_of_eq_None_iff)
    with Cons show ?case by (cases e) (auto split: option.splits)
  qed simp
  then show ?thesis
    by (auto simp: bt_of_list_def split: option.splits)
qed

text \<open>Building a map from the entries of a map gives it back.\<close>

lemma bt_of_list_id: "bt_ok m \<Longrightarrow> bt_of_list m = m"
  by (intro bt_ext) (simp_all add: bt_get_of_list_distinct bt_ok_distinct, simp add: bt_get_def)

text \<open>A loop over the entries of an ordered map that stops past a prefix sees exactly the
  entries with that prefix: what \<open>range(prefix..)\<close> with a \<open>break\<close> relies on.\<close>

lemma takeWhile_filter_sorted:
  assumes "sorted_wrt R xs"
    and "\<And>x y. R x y \<Longrightarrow> P y \<Longrightarrow> P x"
  shows "takeWhile P xs = filter P xs"
  using assms
proof (induction xs)
  case (Cons x xs)
  show ?case
  proof (cases "P x")
    case True
    with Cons show ?thesis by simp
  next
    case False
    with Cons.prems have "\<forall>y\<in>set xs. \<not> P y" by auto
    with False show ?thesis by (simp add: filter_empty_conv)
  qed
qed simp

end
