(* ===== verification/Manifests.thy ===== *)
theory Manifests
  imports Container_Paths Btree_Map
begin

text \<open>
  \<open>poid-core/src/manifest.rs\<close>: the data of \<open>manifest.json\<close>, one record per struct of the code, the
  two scaffolds and the validation. Fields carry a prefix per record; \<open>extra\<close> fields are the JSON
  members the code does not know and keeps. The validation is proved equal to a declarative
  grammar of manifests, written with joins where the code splits.
\<close>

section \<open>The data\<close>

datatype json =
  JNull
| JBool bool
| JNumber string
| JString string
| JArray "json list"
| JObject "(string \<times> json) list"

type_synonym extra_fields = "(string, json) btree"

datatype container_type = AppType | DataType | WorkspaceType

datatype storage_mode = Embedded | Vault | Connection

datatype require_kind = Kv | Sql | Docs | Files

datatype filesystem_access = NoFilesystem | UserInitiated

datatype integrity_algo = Sha256

record window_hints =
  w_width :: "u32 option"
  w_height :: "u32 option"
  w_min_width :: "u32 option"
  w_min_height :: "u32 option"
  w_resizable :: "bool option"
  w_extra :: extra_fields

record app_info =
  a_id :: string
  a_name :: string
  a_version :: string
  a_author :: "string option"
  a_description :: "string option"
  a_license :: "string option"
  a_icon :: "string option"
  a_window :: "window_hints option"
  a_extra :: extra_fields

record inst =
  i_id :: "uuid option"
  i_extra :: extra_fields

record toolchain_record =
  tc_builder :: "string option"
  tc_esbuild :: "string option"
  tc_extra :: extra_fields

record runtime =
  r_profile :: string
  r_engines :: "(string, string) btree option"
  r_bundled_deps :: "string list option"
  r_toolchain :: "toolchain_record option"
  r_extra :: extra_fields

record storage_requires =
  q_kind :: require_kind
  q_hint :: "string option"
  q_extra :: extra_fields

record storage =
  s_mode :: storage_mode
  s_slots :: "bool option"
  s_protected :: "bool option"
  s_quota_mb :: "64 word option"
  s_schema_version :: "u32 option"
  s_requires :: "storage_requires option"
  s_extra :: extra_fields

record permissions =
  p_network :: "string list option"
  p_filesystem :: "filesystem_access option"
  p_clipboard :: "bool option"
  p_print :: "bool option"
  p_notifications :: "bool option"
  p_mcp :: "string list option"
  p_extra :: extra_fields

record data_ref =
  d_app_id :: string
  d_app_version :: string
  d_schema :: string
  d_extra :: extra_fields

record integrity =
  g_algo :: integrity_algo
  g_app :: "string option"
  g_deps :: "string option"
  g_extra :: extra_fields

record manifest =
  m_poid :: string
  m_type :: container_type
  m_app :: "app_info option"
  m_instance :: "inst option"
  m_draft :: "bool option"
  m_runtime :: "runtime option"
  m_entry :: "string option"
  m_storage :: "storage option"
  m_permissions :: "permissions option"
  m_shared_scope :: "string list option"
  m_data_ref :: "data_ref option"
  m_integrity :: "integrity option"
  m_extra :: extra_fields

definition spec_version :: string where
  "spec_version = ''1.0''"

definition permissions_default :: permissions where
  "permissions_default = \<lparr>p_network = None, p_filesystem = None, p_clipboard = None,
     p_print = None, p_notifications = None, p_mcp = None, p_extra = []\<rparr>"

section \<open>Scaffolds\<close>

definition new_app :: "string \<Rightarrow> string \<Rightarrow> string \<Rightarrow> string \<Rightarrow> manifest" where
  "new_app app_id name version entry =
     \<lparr>m_poid = spec_version,
      m_type = AppType,
      m_app = Some \<lparr>a_id = app_id, a_name = name, a_version = version, a_author = None,
        a_description = None, a_license = None, a_icon = None, a_window = None, a_extra = []\<rparr>,
      m_instance = Some \<lparr>i_id = None, i_extra = []\<rparr>,
      m_draft = None,
      m_runtime = Some \<lparr>r_profile = ''web'', r_engines = None, r_bundled_deps = None,
        r_toolchain = None, r_extra = []\<rparr>,
      m_entry = Some entry,
      m_storage = Some \<lparr>s_mode = Embedded, s_slots = None, s_protected = None, s_quota_mb = None,
        s_schema_version = None, s_requires = None, s_extra = []\<rparr>,
      m_permissions = Some permissions_default,
      m_shared_scope = None,
      m_data_ref = None,
      m_integrity = Some \<lparr>g_algo = Sha256, g_app = None, g_deps = None, g_extra = []\<rparr>,
      m_extra = []\<rparr>"

definition new_data :: "string \<Rightarrow> string \<Rightarrow> string \<Rightarrow> manifest" where
  "new_data app_id app_version schema =
     \<lparr>m_poid = spec_version, m_type = DataType, m_app = None, m_instance = None, m_draft = None,
      m_runtime = None, m_entry = None, m_storage = None, m_permissions = None,
      m_shared_scope = None,
      m_data_ref = Some \<lparr>d_app_id = app_id, d_app_version = app_version, d_schema = schema,
        d_extra = []\<rparr>,
      m_integrity = Some \<lparr>g_algo = Sha256, g_app = None, g_deps = None, g_extra = []\<rparr>,
      m_extra = []\<rparr>"

section \<open>The field grammars\<close>

definition is_reverse_dns :: "string \<Rightarrow> bool" where
  "is_reverse_dns s =
     (case split_on CHR ''.'' s of
        [] \<Rightarrow> False
      | first # labels \<Rightarrow>
          (case first of [] \<Rightarrow> False
           | c # cs \<Rightarrow> is_ascii_alphabetic c \<and> list_all is_ascii_alphanumeric cs) \<and>
          list_all (\<lambda>label. label \<noteq> [] \<and>
            list_all (\<lambda>c. is_ascii_alphanumeric c \<or> c = CHR ''-'') label) labels \<and>
          1 \<le> length labels)"

definition suffix_ok :: "string option \<Rightarrow> bool" where
  "suffix_ok part = (case part of None \<Rightarrow> True
     | Some p \<Rightarrow> p \<noteq> [] \<and>
         list_all (\<lambda>c. is_ascii_alphanumeric c \<or> c = CHR ''.'' \<or> c = CHR ''-'') p)"

definition split_part :: "char \<Rightarrow> string \<Rightarrow> string \<times> string option" where
  "split_part sep s = (case split_once sep s of Some (a, b) \<Rightarrow> (a, Some b) | None \<Rightarrow> (s, None))"

definition is_semver :: "string \<Rightarrow> bool" where
  "is_semver s =
     (let (rest, build) = split_part CHR ''+'' s;
          (core, pre) = split_part CHR ''-'' rest;
          parts = split_on CHR ''.'' core
      in suffix_ok pre \<and> suffix_ok build \<and> length parts = 3 \<and>
         list_all (\<lambda>n. n \<noteq> [] \<and> list_all is_ascii_digit n) parts)"

definition is_lower_hex :: "char \<Rightarrow> bool" where
  "is_lower_hex c \<longleftrightarrow> is_ascii_digit c \<or> (97 \<le> (of_char c :: nat) \<and> (of_char c :: nat) \<le> 102)"

definition is_hex64 :: "string \<Rightarrow> bool" where
  "is_hex64 s \<longleftrightarrow> length s = 64 \<and> list_all is_lower_hex s"

definition engine_char :: "char \<Rightarrow> bool" where
  "engine_char c \<longleftrightarrow> is_ascii_lowercase c \<or> is_ascii_digit c \<or> c = CHR ''-''"

definition is_profile :: "string \<Rightarrow> bool" where
  "is_profile s =
     (case split_on CHR ''+'' s of
        [] \<Rightarrow> False
      | first # parts \<Rightarrow> first = ''web'' \<and> list_all (\<lambda>p. p \<noteq> [] \<and> list_all engine_char p) parts)"

section \<open>Validation\<close>

definition require :: "'a option \<Rightarrow> string \<Rightarrow> manifest_error + 'a" where
  "require value field = ok_or (MissingField field) value"

definition check_manifest_path :: "string \<Rightarrow> string \<Rightarrow> manifest_error + unit" where
  "check_manifest_path field value =
     map_err (\<lambda>_. ManifestInvalidPath field value) (check_container_path value)"

definition check_window_number :: "string \<times> u32 option \<Rightarrow> manifest_error + unit" where
  "check_window_number fv =
     (if snd fv = Some 0 then Inl (InvalidNumber (fst fv)) else Inr ())"

definition validate_window :: "window_hints \<Rightarrow> manifest_error + unit" where
  "validate_window window = for_each check_window_number
     [(''app.window.width'', w_width window), (''app.window.height'', w_height window),
      (''app.window.min_width'', w_min_width window),
      (''app.window.min_height'', w_min_height window)]"

definition validate_app :: "app_info \<Rightarrow> manifest_error + unit" where
  "validate_app app =
     (if \<not> is_reverse_dns (a_id app) then Inl (InvalidId ''app.id'' (a_id app))
      else if a_name app = '''' then Inl (MissingField ''app.name'')
      else if \<not> is_semver (a_version app) then Inl (InvalidVersion ''app.version'' (a_version app))
      else rbind (case a_icon app of None \<Rightarrow> Inr ()
                  | Some icon \<Rightarrow> check_manifest_path ''app.icon'' icon)
        (\<lambda>_. case a_window app of None \<Rightarrow> Inr () | Some window \<Rightarrow> validate_window window))"

definition validate_runtime :: "runtime \<Rightarrow> manifest_error + unit" where
  "validate_runtime rt =
     (if \<not> is_profile (r_profile rt) then Inl (InvalidProfile (r_profile rt)) else Inr ())"

definition validate_storage :: "storage \<Rightarrow> manifest_error + unit" where
  "validate_storage st =
     (if s_mode st = Connection \<and> s_requires st = None then Inl ConnectionRequires
      else if s_quota_mb st = Some 0 then Inl (InvalidNumber ''storage.quota_mb'')
      else Inr ())"

definition validate_runnable :: "manifest \<Rightarrow> manifest_error + unit" where
  "validate_runnable m =
     rbind (require (m_app m) ''app'') (\<lambda>app.
     rbind (validate_app app) (\<lambda>_.
     rbind (require (m_instance m) ''instance'') (\<lambda>_.
     rbind (require (m_runtime m) ''runtime'') (\<lambda>rt.
     rbind (validate_runtime rt) (\<lambda>_.
     rbind (require (m_storage m) ''storage'') (\<lambda>st.
     rbind (validate_storage st) (\<lambda>_.
     rbind (require (m_permissions m) ''permissions'') (\<lambda>_.
       if m_type m = AppType then
         rbind (require (m_entry m) ''entry'') (\<lambda>entry. check_manifest_path ''entry'' entry)
       else Inr ()))))))))"

definition validate_data :: "manifest \<Rightarrow> manifest_error + unit" where
  "validate_data m =
     rbind (require (m_data_ref m) ''data_ref'') (\<lambda>d.
       if \<not> is_reverse_dns (d_app_id d) then Inl (InvalidId ''data_ref.app_id'' (d_app_id d))
       else if \<not> is_semver (d_app_version d)
         then Inl (InvalidVersion ''data_ref.app_version'' (d_app_version d))
       else Inr ())"

definition check_digest_field :: "string \<times> string option \<Rightarrow> manifest_error + unit" where
  "check_digest_field fd =
     (case snd fd of None \<Rightarrow> Inr ()
      | Some d \<Rightarrow> if \<not> is_hex64 d then Inl (InvalidDigest (fst fd)) else Inr ())"

definition validate :: "manifest \<Rightarrow> manifest_error + unit" where
  "validate m =
     (if m_poid m \<noteq> spec_version then Inl (UnsupportedVersion (m_poid m))
      else
        rbind (case m_type m of
                 AppType \<Rightarrow> validate_runnable m
               | WorkspaceType \<Rightarrow> validate_runnable m
               | DataType \<Rightarrow> validate_data m) (\<lambda>_.
        rbind (require (m_integrity m) ''integrity'') (\<lambda>g.
          for_each check_digest_field
            [(''integrity.app'', g_app g), (''integrity.deps'', g_deps g)])))"

section \<open>The grammars, declaratively\<close>

definition label_char :: "char \<Rightarrow> bool" where
  "label_char c \<longleftrightarrow> is_ascii_alphanumeric c \<or> c = CHR ''-''"

definition suffix_char :: "char \<Rightarrow> bool" where
  "suffix_char c \<longleftrightarrow> is_ascii_alphanumeric c \<or> c = CHR ''.'' \<or> c = CHR ''-''"

definition word_over :: "(char \<Rightarrow> bool) \<Rightarrow> string \<Rightarrow> bool" where
  "word_over P s \<longleftrightarrow> s \<noteq> [] \<and> (\<forall>c\<in>set s. P c)"

definition reverse_dns_name :: "string \<Rightarrow> bool" where
  "reverse_dns_name s \<longleftrightarrow>
     (\<exists>c cs labels. s = join_with CHR ''.'' ((c # cs) # labels) \<and> is_ascii_alphabetic c \<and>
        (\<forall>d\<in>set cs. is_ascii_alphanumeric d) \<and> labels \<noteq> [] \<and>
        (\<forall>l\<in>set labels. word_over label_char l))"

definition optional_part :: "char \<Rightarrow> string option \<Rightarrow> string" where
  "optional_part sep part = (case part of None \<Rightarrow> [] | Some p \<Rightarrow> sep # p)"

definition semver :: "string \<Rightarrow> bool" where
  "semver s \<longleftrightarrow>
     (\<exists>major minor patch pre build.
        s = join_with CHR ''.'' [major, minor, patch] @ optional_part CHR ''-'' pre
            @ optional_part CHR ''+'' build \<and>
        (\<forall>n\<in>{major, minor, patch}. word_over is_ascii_digit n) \<and>
        (\<forall>p. pre = Some p \<or> build = Some p \<longrightarrow> word_over suffix_char p))"

definition profile_name :: "string \<Rightarrow> bool" where
  "profile_name s \<longleftrightarrow>
     (\<exists>engines. s = join_with CHR ''+'' (''web'' # engines) \<and>
        (\<forall>e\<in>set engines. word_over engine_char e))"

definition hex_digest :: "string \<Rightarrow> bool" where
  "hex_digest s \<longleftrightarrow> length s = 64 \<and> (\<forall>c\<in>set s. \<exists>n<16. c = hex_char n)"

lemma ascii_class_separators [simp]:
  "\<not> is_ascii_digit CHR ''.''" "\<not> is_ascii_digit CHR ''-''" "\<not> is_ascii_digit CHR ''+''"
  "\<not> is_ascii_alphabetic CHR ''.''" "\<not> is_ascii_alphanumeric CHR ''.''"
  "\<not> label_char CHR ''.''" "\<not> suffix_char CHR ''+''" "\<not> engine_char CHR ''+''"
  by code_simp+

lemma alphabetic_alphanumeric: "is_ascii_alphabetic c \<Longrightarrow> is_ascii_alphanumeric c"
  by (simp add: is_ascii_alphanumeric_def)

lemma word_over_neq: "word_over P s \<Longrightarrow> \<not> P c \<Longrightarrow> c \<notin> set s"
  by (auto simp: word_over_def)

lemma digits_no_separator:
  "word_over is_ascii_digit n \<Longrightarrow> CHR ''.'' \<notin> set n \<and> CHR ''-'' \<notin> set n \<and> CHR ''+'' \<notin> set n"
  by (simp add: word_over_neq)

lemma list_all_word: "s \<noteq> [] \<and> list_all P s \<longleftrightarrow> word_over P s"
  by (simp add: word_over_def list_all_iff)

lemma is_reverse_dns_iff: "is_reverse_dns s \<longleftrightarrow> reverse_dns_name s"
proof
  assume l: "is_reverse_dns s"
  then obtain c cs labels where sp: "split_on CHR ''.'' s = (c # cs) # labels"
    by (auto simp: is_reverse_dns_def split: list.splits)
  with l have "is_ascii_alphabetic c" "\<forall>d\<in>set cs. is_ascii_alphanumeric d" "labels \<noteq> []"
    "\<forall>l\<in>set labels. word_over label_char l"
    by (auto simp: is_reverse_dns_def list_all_iff word_over_def label_char_def)
  moreover from sp have "s = join_with CHR ''.'' ((c # cs) # labels)"
    by (metis join_split)
  ultimately show "reverse_dns_name s"
    unfolding reverse_dns_name_def by blast
next
  assume "reverse_dns_name s"
  then obtain c cs labels where r: "s = join_with CHR ''.'' ((c # cs) # labels)"
    "is_ascii_alphabetic c" "\<forall>d\<in>set cs. is_ascii_alphanumeric d" "labels \<noteq> []"
    "\<forall>l\<in>set labels. word_over label_char l"
    unfolding reverse_dns_name_def by blast
  have "c \<noteq> CHR ''.''" "CHR ''.'' \<notin> set cs"
    using r(2,3) by (metis ascii_class_separators(4), metis ascii_class_separators(5))
  moreover have "\<forall>l\<in>set labels. CHR ''.'' \<notin> set l"
    using r(5) word_over_neq ascii_class_separators(6) by blast
  ultimately have "split_on CHR ''.'' s = (c # cs) # labels"
    unfolding r(1) by (intro split_join) auto
  with r(2-5) show "is_reverse_dns s"
    by (auto simp: is_reverse_dns_def list_all_iff word_over_def label_char_def Suc_le_eq)
qed

lemma is_profile_split:
  "is_profile s \<longleftrightarrow> (\<exists>engines. split_on CHR ''+'' s = ''web'' # engines \<and>
     (\<forall>e\<in>set engines. word_over engine_char e))"
  unfolding is_profile_def
  by (cases "split_on CHR ''+'' s") (simp_all add: list_all_word list_all_iff [of "word_over engine_char"])

lemma is_profile_iff: "is_profile s \<longleftrightarrow> profile_name s"
proof -
  have "split_on CHR ''+'' s = ''web'' # engines \<longleftrightarrow> s = join_with CHR ''+'' (''web'' # engines)"
    if engines: "\<forall>e\<in>set engines. word_over engine_char e" for engines
  proof -
    have "\<forall>e\<in>set engines. CHR ''+'' \<notin> set e"
      using engines word_over_neq ascii_class_separators(8) by blast
    then show ?thesis by (simp add: split_on_unique)
  qed
  then show ?thesis
    unfolding is_profile_split profile_name_def by metis
qed

lemma is_lower_hex_iff: "is_lower_hex c \<longleftrightarrow> (\<exists>n<16. c = hex_char n)"
proof
  assume "is_lower_hex c"
  then have "(48 \<le> (of_char c :: nat) \<and> of_char c \<le> (57 :: nat)) \<or>
      (97 \<le> (of_char c :: nat) \<and> of_char c \<le> (102 :: nat))"
    by (auto simp: is_lower_hex_def is_ascii_digit_def Let_def)
  then show "\<exists>n<16. c = hex_char n"
  proof
    assume "48 \<le> (of_char c :: nat) \<and> of_char c \<le> (57 :: nat)"
    then show ?thesis by (intro exI [of _ "of_char c - 48"]) (auto simp: hex_char_def)
  next
    assume "97 \<le> (of_char c :: nat) \<and> of_char c \<le> (102 :: nat)"
    then show ?thesis by (intro exI [of _ "of_char c - 87"]) (auto simp: hex_char_def)
  qed
next
  assume "\<exists>n<16. c = hex_char n"
  then show "is_lower_hex c"
    by (auto simp: is_lower_hex_def hex_char_def is_ascii_digit_def split: if_splits)
qed

lemma is_hex64_iff: "is_hex64 s \<longleftrightarrow> hex_digest s"
  by (simp add: is_hex64_def hex_digest_def list_all_iff is_lower_hex_iff)

lemma split_part_Some: "split_part sep s = (a, Some b) \<longleftrightarrow> s = a @ sep # b \<and> sep \<notin> set a"
proof -
  have "split_part sep s = (a, Some b) \<longleftrightarrow> split_once sep s = Some (a, b)"
    by (auto simp: split_part_def split: option.splits)
  then show ?thesis by (simp add: split_once_eq_Some)
qed

lemma split_part_None: "split_part sep s = (a, None) \<longleftrightarrow> a = s \<and> sep \<notin> set s"
proof -
  have "split_part sep s = (a, None) \<longleftrightarrow> a = s \<and> split_once sep s = None"
    by (auto simp: split_part_def split: option.splits)
  then show ?thesis by (simp add: split_once_eq_None)
qed

lemma split_part_iff:
  "split_part sep s = (a, part) \<longleftrightarrow> s = a @ optional_part sep part \<and> sep \<notin> set a"
  by (cases part) (auto simp: split_part_Some split_part_None optional_part_def)

lemma suffix_ok_iff: "suffix_ok part \<longleftrightarrow> (\<forall>p. part = Some p \<longrightarrow> word_over suffix_char p)"
  by (auto simp: suffix_ok_def word_over_def suffix_char_def list_all_iff split: option.splits)

lemma three_parts:
  "length parts = 3 \<and> list_all P parts \<longleftrightarrow>
     (\<exists>a b c. parts = [a, b, c] \<and> (\<forall>n\<in>{a, b, c}. P n))"
  by (auto simp: list_all_iff length_Suc_conv numeral_3_eq_3)

lemma is_semver_unfold:
  "is_semver s \<longleftrightarrow> (\<exists>rest build core pre.
     split_part CHR ''+'' s = (rest, build) \<and> split_part CHR ''-'' rest = (core, pre) \<and>
     suffix_ok pre \<and> suffix_ok build \<and>
     length (split_on CHR ''.'' core) = 3 \<and>
     list_all (word_over is_ascii_digit) (split_on CHR ''.'' core))"
  by (auto simp: is_semver_def Let_def list_all_word split: prod.splits)

lemma semver_core:
  "length (split_on CHR ''.'' core) = 3 \<and> list_all (word_over is_ascii_digit) (split_on CHR ''.'' core)
   \<longleftrightarrow> (\<exists>a b c. core = join_with CHR ''.'' [a, b, c] \<and> (\<forall>n\<in>{a, b, c}. word_over is_ascii_digit n))"
proof -
  have "split_on CHR ''.'' core = [a, b, c] \<longleftrightarrow> core = join_with CHR ''.'' [a, b, c]"
    if "\<forall>n\<in>{a, b, c}. word_over is_ascii_digit n" for a b c
    using that by (auto simp: split_on_unique dest: digits_no_separator)
  then show ?thesis unfolding three_parts by blast
qed

lemma is_semver_iff: "is_semver s \<longleftrightarrow> semver s"
proof
  assume "is_semver s"
  then obtain rest build core pre a b c where
    "s = rest @ optional_part CHR ''+'' build" "rest = core @ optional_part CHR ''-'' pre"
    and parts: "suffix_ok pre" "suffix_ok build"
    and "core = join_with CHR ''.'' [a, b, c]"
    and num: "\<forall>n\<in>{a, b, c}. word_over is_ascii_digit n"
    unfolding is_semver_unfold split_part_iff semver_core by blast
  then have "s = join_with CHR ''.'' [a, b, c] @ optional_part CHR ''-'' pre
      @ optional_part CHR ''+'' build"
    by (simp only: append.assoc)
  with num parts show "semver s"
    unfolding semver_def suffix_ok_iff
    by (intro exI [of _ a] exI [of _ b] exI [of _ c] exI [of _ pre] exI [of _ build] conjI) auto
next
  assume "semver s"
  then obtain a b c pre build where s:
    "s = (join_with CHR ''.'' [a, b, c] @ optional_part CHR ''-'' pre) @ optional_part CHR ''+'' build"
    and num: "\<forall>n\<in>{a, b, c}. word_over is_ascii_digit n"
    and parts: "suffix_ok pre" "suffix_ok build"
    unfolding semver_def suffix_ok_iff append.assoc by blast
  have num_sep: "sep \<notin> set (join_with CHR ''.'' [a, b, c])"
    if "sep \<in> {CHR ''-'', CHR ''+''}" for sep
    using that num by (auto dest: digits_no_separator)
  then have "CHR ''+'' \<notin> set (join_with CHR ''.'' [a, b, c] @ optional_part CHR ''-'' pre)"
    using parts(1) word_over_neq [of suffix_char _ "CHR ''+''"]
    by (auto simp: optional_part_def suffix_ok_iff split: option.splits)
  with s have "split_part CHR ''+'' s =
      (join_with CHR ''.'' [a, b, c] @ optional_part CHR ''-'' pre, build)"
    unfolding split_part_iff by (intro conjI)
  moreover have "split_part CHR ''-'' (join_with CHR ''.'' [a, b, c] @ optional_part CHR ''-'' pre) =
      (join_with CHR ''.'' [a, b, c], pre)"
    unfolding split_part_iff using num_sep by simp
  ultimately show "is_semver s"
    unfolding is_semver_unfold semver_core using parts num by blast
qed

section \<open>What the validation accepts\<close>

definition window_ok :: "window_hints \<Rightarrow> bool" where
  "window_ok w \<longleftrightarrow> 0 \<notin> (\<Union>v\<in>{w_width w, w_height w, w_min_width w, w_min_height w}. set_option v)"

definition app_ok :: "app_info \<Rightarrow> bool" where
  "app_ok a \<longleftrightarrow> reverse_dns_name (a_id a) \<and> a_name a \<noteq> '''' \<and> semver (a_version a) \<and>
     (\<forall>icon\<in>set_option (a_icon a). container_path icon) \<and>
     (\<forall>w\<in>set_option (a_window a). window_ok w)"

definition storage_ok :: "storage \<Rightarrow> bool" where
  "storage_ok s \<longleftrightarrow> (s_mode s = Connection \<longrightarrow> s_requires s \<noteq> None) \<and> s_quota_mb s \<noteq> Some 0"

definition runnable_ok :: "manifest \<Rightarrow> bool" where
  "runnable_ok m \<longleftrightarrow>
     (\<exists>a r s. m_app m = Some a \<and> m_runtime m = Some r \<and> m_storage m = Some s \<and>
        app_ok a \<and> profile_name (r_profile r) \<and> storage_ok s) \<and>
     m_instance m \<noteq> None \<and> m_permissions m \<noteq> None \<and>
     (m_type m = AppType \<longrightarrow> (\<exists>entry. m_entry m = Some entry \<and> container_path entry))"

definition data_ok :: "manifest \<Rightarrow> bool" where
  "data_ok m \<longleftrightarrow>
     (\<exists>d. m_data_ref m = Some d \<and> reverse_dns_name (d_app_id d) \<and> semver (d_app_version d))"

definition integrity_ok :: "integrity \<Rightarrow> bool" where
  "integrity_ok g \<longleftrightarrow> (\<forall>d\<in>set_option (g_app g) \<union> set_option (g_deps g). hex_digest d)"

definition manifest_ok :: "manifest \<Rightarrow> bool" where
  "manifest_ok m \<longleftrightarrow> m_poid m = ''1.0'' \<and>
     (if m_type m = DataType then data_ok m else runnable_ok m) \<and>
     (\<exists>g. m_integrity m = Some g \<and> integrity_ok g)"

lemma require_eq_Inr [result_simps]: "require v field = Inr x \<longleftrightarrow> v = Some x"
  by (simp add: require_def result_simps)

lemma check_manifest_path_iff:
  "check_manifest_path field p = Inr () \<longleftrightarrow> container_path p"
  by (simp add: check_manifest_path_def result_simps check_container_path_iff)

lemma validate_window_iff: "validate_window w = Inr () \<longleftrightarrow> window_ok w"
  by (auto simp: validate_window_def for_each_Inr check_window_number_def window_ok_def
      simp del: for_each.simps)

lemma validate_app_iff: "validate_app a = Inr () \<longleftrightarrow> app_ok a"
  by (auto simp: validate_app_def app_ok_def is_reverse_dns_iff is_semver_iff result_simps
      check_manifest_path_iff validate_window_iff split: option.splits)

lemma validate_runtime_iff: "validate_runtime r = Inr () \<longleftrightarrow> profile_name (r_profile r)"
  by (simp add: validate_runtime_def is_profile_iff)

lemma validate_storage_iff: "validate_storage s = Inr () \<longleftrightarrow> storage_ok s"
  by (auto simp: validate_storage_def storage_ok_def)

lemma check_digest_field_iff:
  "check_digest_field fd = Inr () \<longleftrightarrow> (\<forall>d\<in>set_option (snd fd). hex_digest d)"
  by (auto simp: check_digest_field_def is_hex64_iff split: option.splits)

interpretation app_check: checker validate_app app_ok
  by unfold_locales (rule validate_app_iff)

interpretation runtime_check: checker validate_runtime "\<lambda>r. profile_name (r_profile r)"
  by unfold_locales (rule validate_runtime_iff)

interpretation storage_check: checker validate_storage storage_ok
  by unfold_locales (rule validate_storage_iff)

interpretation digest_check: checker check_digest_field "\<lambda>fd. \<forall>d\<in>set_option (snd fd). hex_digest d"
  by unfold_locales (rule check_digest_field_iff)

lemma validate_runnable_iff: "validate_runnable m = Inr () \<longleftrightarrow> runnable_ok m"
  unfolding validate_runnable_def runnable_ok_def
  by (cases "m_type m = AppType")
    (auto simp: result_simps validate_app_iff validate_runtime_iff validate_storage_iff
      check_manifest_path_iff)

lemma validate_data_iff: "validate_data m = Inr () \<longleftrightarrow> data_ok m"
  by (auto simp: validate_data_def data_ok_def result_simps is_reverse_dns_iff is_semver_iff)

lemma validate_iff: "validate m = Inr () \<longleftrightarrow> manifest_ok m"
proof -
  have "(case m_type m of AppType \<Rightarrow> validate_runnable m | WorkspaceType \<Rightarrow> validate_runnable m
      | DataType \<Rightarrow> validate_data m) = Inr () \<longleftrightarrow>
      (if m_type m = DataType then data_ok m else runnable_ok m)"
    by (cases "m_type m") (simp_all add: validate_runnable_iff validate_data_iff)
  moreover have "for_each check_digest_field
      [(''integrity.app'', g_app g), (''integrity.deps'', g_deps g)] = Inr () \<longleftrightarrow> integrity_ok g" for g
    by (simp add: digest_check.for_each_check integrity_ok_def ball_Un del: for_each.simps)
  ultimately show ?thesis
    by (auto simp: validate_def manifest_ok_def spec_version_def result_simps simp del: for_each.simps)
qed

interpretation manifest_check: checker validate manifest_ok
  by unfold_locales (rule validate_iff)

lemma spec_names:
  assumes "reverse_dns_name app_id" "name \<noteq> ''''" "semver version" "container_path entry"
  shows "manifest_ok (new_app app_id name version entry)"
  using assms
  by (auto simp: manifest_ok_def new_app_def spec_version_def runnable_ok_def app_ok_def
      storage_ok_def integrity_ok_def is_profile_iff [symmetric] is_profile_def)


end
