(* ===== verification/Integrity_Digests.thy ===== *)
theory Integrity_Digests
  imports Manifests
begin

text \<open>
  \<open>poid-core/src/integrity.rs\<close> and the hexadecimal coding of \<open>signature.rs\<close>: the tree digests over
  \<open>app/\<close> and \<open>deps/\<close>. SHA-256 is the \<open>sha2\<close> crate, a parameter; what is proved of the
  construction around it (order independence, locality, injectivity) names what it needs of it.
\<close>

unbundle bit_operations_syntax

type_synonym files = "(string, byte list) btree"

section \<open>Hexadecimal coding\<close>

definition hex_digits :: string where
  "hex_digits = ''0123456789abcdef''"

definition to_hex :: "byte list \<Rightarrow> string" where
  "to_hex bytes = concat (map (\<lambda>b.
     [hex_digits ! unat (drop_bit 4 b), hex_digits ! unat (b AND 0x0f)]) bytes)"

definition nibble :: "char \<Rightarrow> byte option" where
  "nibble c =
     (if is_ascii_digit c then Some (word_of_nat (of_char c) - 48)
      else if 97 \<le> (of_char c :: nat) \<and> (of_char c :: nat) \<le> 102
        then Some (word_of_nat (of_char c) - 97 + 10)
      else None)"

fun decode_pairs :: "string \<Rightarrow> byte list option" where
  "decode_pairs (a # b # s) =
     (case nibble a of None \<Rightarrow> None
      | Some x \<Rightarrow>
          (case nibble b of None \<Rightarrow> None
           | Some y \<Rightarrow> map_option (\<lambda>rest. (push_bit 4 x OR y) # rest) (decode_pairs s)))"
| "decode_pairs _ = Some []"

definition decode_hex :: "string \<Rightarrow> byte list option" where
  "decode_hex s = (if odd (length s) then None else decode_pairs s)"

lemma nat_16_cases:
  fixes n :: nat
  assumes "n < 16"
  shows "n \<in> {0, 1, 2, 3, 4, 5, 6, 7, 8, 9, 10, 11, 12, 13, 14, 15}"
  using assms by simp presburger

lemma hex_digits_map: "hex_digits = map hex_char [0..<16]"
  by code_simp

lemma hex_digits_nth: "n < 16 \<Longrightarrow> hex_digits ! n = hex_char n"
  by (simp add: hex_digits_map)

lemma nibble_hex_char: "n < 16 \<Longrightarrow> nibble (hex_char n) = Some (word_of_nat n)"
  by (drule nat_16_cases) (auto simp: nibble_def hex_char_def is_ascii_digit_def)

lemma nibble_bounds:
  "unat (drop_bit 4 (b :: byte)) < 16" "unat (b AND 0x0f) < 16"
proof -
  have "unat (drop_bit 4 b) = unat b div 16"
    by (simp add: drop_bit_eq_div unat_div_distrib)
  moreover have "b AND 0x0f = take_bit 4 b"
    using take_bit_eq_mask [of 4 b] by (simp add: mask_eq_exp_minus_1)
  then have "unat (b AND 0x0f) = unat b mod 16"
    by (simp add: take_bit_eq_mod unat_mod_distrib)
  ultimately show "unat (drop_bit 4 b) < 16" "unat (b AND 0x0f) < 16"
    by (simp_all add: less_mult_imp_div_less)
qed

lemma nibbles_join: "push_bit 4 (drop_bit 4 (b :: byte)) OR (b AND 0x0f) = b"
proof -
  have "b AND 0x0f = take_bit 4 b"
    using take_bit_eq_mask [of 4 b] by (simp add: mask_eq_exp_minus_1)
  then have "push_bit 4 (drop_bit 4 b) OR (b AND 0x0f) = push_bit 4 (drop_bit 4 b) OR take_bit 4 b"
    by (simp only:)
  also have "\<dots> = b"
    by (rule bit_word_eqI) (auto simp: bit_simps possible_bit_word)
  finally show ?thesis .
qed

lemma to_hex_simps [simp]:
  "to_hex [] = []"
  "to_hex (b # bs) = hex_char (unat (drop_bit 4 b)) # hex_char (unat (b AND 0x0f)) # to_hex bs"
  by (simp_all add: to_hex_def hex_digits_nth nibble_bounds)

lemma length_to_hex [simp]: "length (to_hex bs) = 2 * length bs"
  by (induction bs) auto

lemma decode_pairs_to_hex: "decode_pairs (to_hex bs) = Some bs"
  by (induction bs) (simp_all add: nibble_hex_char nibble_bounds nibbles_join)

lemma decode_hex_to_hex [simp]: "decode_hex (to_hex bs) = Some bs"
  by (simp add: decode_hex_def decode_pairs_to_hex)

lemma to_hex_inject [simp]: "to_hex a = to_hex b \<longleftrightarrow> a = b"
  by (metis decode_hex_to_hex option.inject)

lemma to_hex_chars: "c \<in> set (to_hex bs) \<Longrightarrow> \<exists>n<16. c = hex_char n"
  by (induction bs) (auto intro: nibble_bounds)

text \<open>A 32-byte digest prints as a digest the manifest validation accepts.\<close>

lemma to_hex_digest: "length bs = 32 \<Longrightarrow> hex_digest (to_hex bs)"
  by (auto simp: hex_digest_def dest: to_hex_chars)

lemma decode_pairs_sound: "even (length s) \<Longrightarrow> decode_pairs s = Some bs \<Longrightarrow> to_hex bs = s"
proof (induction s arbitrary: bs rule: decode_pairs.induct)
  case (1 a b s)
  have nib: "\<exists>n<16. c = hex_char n \<and> x = word_of_nat n" if x: "nibble c = Some x" for c x
  proof -
    from x have "\<exists>n<16. c = hex_char n"
      unfolding is_lower_hex_iff [symmetric]
      by (auto simp: nibble_def is_lower_hex_def split: if_splits)
    with x show ?thesis by (auto simp: nibble_hex_char)
  qed
  from 1 obtain x y rest where xy: "nibble a = Some x" "nibble b = Some y"
    and rest: "decode_pairs s = Some rest" "bs = (push_bit 4 x OR y) # rest"
    by (auto split: option.splits)
  obtain m n where mn: "m < 16" "a = hex_char m" "x = word_of_nat m"
    "n < 16" "b = hex_char n" "y = word_of_nat n"
    using nib [OF xy(1)] nib [OF xy(2)] by blast
  have "to_hex [push_bit 4 x OR y] = [a, b]"
    using nat_16_cases [OF mn(1)] nat_16_cases [OF mn(4)] unfolding mn
    by (elim insertE emptyE) (simp_all add: hex_char_def)
  with 1 xy rest show ?case by simp
qed auto

lemma decode_hex_iff: "decode_hex s = Some bs \<longleftrightarrow> s = to_hex bs"
  using decode_pairs_sound [of s bs] by (auto simp: decode_hex_def decode_pairs_to_hex)

section \<open>Digests\<close>

definition file_bytes :: "string \<Rightarrow> byte list \<Rightarrow> byte list" where
  "file_bytes path content = bytes_of path @ [0] @ content"

definition tree_digest :: "(byte list \<Rightarrow> byte list) \<Rightarrow> files \<Rightarrow> string \<Rightarrow> string option" where
  "tree_digest sha files dir =
     (let tree = takeWhile (\<lambda>(path, content). starts_with path dir) (bt_range_from dir files)
      in if tree = [] then None
         else Some (to_hex (sha (concat (map (\<lambda>(path, content). sha (file_bytes path content)) tree)))))"

definition refresh :: "(byte list \<Rightarrow> byte list) \<Rightarrow> manifest \<Rightarrow> files \<Rightarrow> manifest" where
  "refresh sha m files =
     (let g = (case m_integrity m of Some g \<Rightarrow> g
         | None \<Rightarrow> \<lparr>g_algo = Sha256, g_app = None, g_deps = None, g_extra = []\<rparr>)
      in m\<lparr>m_integrity := Some (g\<lparr>g_algo := Sha256, g_app := tree_digest sha files ''app/'',
             g_deps := tree_digest sha files ''deps/''\<rparr>)\<rparr>)"

section \<open>The tree a digest covers\<close>

text \<open>The loop over \<open>range(prefix..)\<close> that breaks at the first other path sees exactly the files
  whose path starts with the prefix.\<close>

definition tree :: "files \<Rightarrow> string \<Rightarrow> files" where
  "tree files dir = bt_retain (\<lambda>path _. starts_with path dir) files"

lemma starts_with_ge: "starts_with path dir \<Longrightarrow> dir \<le> (path :: string)"
proof (induction dir arbitrary: path)
  case (Cons c dir)
  then show ?case by (cases path) auto
qed simp

lemma prefix_convex:
  assumes "dir \<le> (p :: string)" "p < q" "starts_with q dir"
  shows "starts_with p dir"
  using assms
proof (induction dir arbitrary: p q)
  case (Cons c dir)
  then obtain q' where q: "q = c # q'" "starts_with q' dir"
    by (cases q) auto
  from Cons.prems obtain d p' where p: "p = d # p'"
    by (cases p) auto
  from Cons.prems p q have "d = c" by auto
  with Cons.prems p q have "dir \<le> p'" "p' < q'" by auto
  with Cons.IH q p \<open>d = c\<close> show ?case by auto
qed simp

lemma takeWhile_tree:
  assumes "bt_ok files"
  shows "takeWhile (\<lambda>(path, content). starts_with path dir) (bt_range_from dir files) = tree files dir"
proof -
  let ?R = "\<lambda>a b. dir \<le> fst a \<and> fst a < fst b"
  have "sorted_wrt ?R (bt_range_from dir files)"
    using assms unfolding bt_ok_def bt_range_from_def
    by (induction files) (auto simp: sorted_wrt_map)
  then have "takeWhile (\<lambda>(path, content). starts_with path dir) (bt_range_from dir files) =
      filter (\<lambda>(path, content). starts_with path dir) (bt_range_from dir files)"
    by (rule takeWhile_filter_sorted) (auto intro: prefix_convex)
  also have "\<dots> = tree files dir"
    unfolding bt_range_from_def tree_def bt_retain_def filter_filter
    by (rule filter_cong) (auto dest: starts_with_ge)
  finally show ?thesis .
qed

lemma tree_digest_eq:
  assumes "bt_ok files"
  shows "tree_digest sha files dir =
     (if tree files dir = [] then None
      else Some (to_hex (sha (concat (map (\<lambda>(p, c). sha (file_bytes p c)) (tree files dir))))))"
  by (simp add: tree_digest_def takeWhile_tree [OF assms])

lemma tree_ok: "bt_ok files \<Longrightarrow> bt_ok (tree files dir)"
  by (simp add: tree_def)

lemma bt_get_tree: "bt_get (tree files dir) p = (if starts_with p dir then bt_get files p else None)"
  by (simp add: tree_def bt_get_retain_key)

lemma tree_eq_iff:
  assumes "bt_ok a" "bt_ok b"
  shows "tree a dir = tree b dir \<longleftrightarrow> (\<forall>p. starts_with p dir \<longrightarrow> bt_get a p = bt_get b p)"
proof
  assume "tree a dir = tree b dir"
  then show "\<forall>p. starts_with p dir \<longrightarrow> bt_get a p = bt_get b p"
    by (metis bt_get_tree)
qed (auto intro!: bt_ext simp: tree_ok assms bt_get_tree)

text \<open>A digest depends only on the files of its tree.\<close>

lemma tree_digest_local:
  assumes "bt_ok a" "bt_ok b" "\<And>p. starts_with p dir \<Longrightarrow> bt_get a p = bt_get b p"
  shows "tree_digest sha a dir = tree_digest sha b dir"
  using assms tree_eq_iff [of a b dir] by (simp add: tree_digest_eq)

section \<open>Collision freedom of the construction\<close>

lemma file_bytes_inject:
  assumes "CHR 0x00 \<notin> set p" "CHR 0x00 \<notin> set q"
  shows "file_bytes p c = file_bytes q d \<longleftrightarrow> p = q \<and> c = d"
proof -
  have "(0 :: byte) \<notin> set (bytes_of p)" "(0 :: byte) \<notin> set (bytes_of q)"
    using assms by (simp_all add: zero_in_bytes_of)
  then have "bytes_of p @ 0 # c = bytes_of q @ 0 # d \<longleftrightarrow> bytes_of p = bytes_of q \<and> c = d"
    by (metis prod.inject option.inject split_once_eq_Some)
  then show ?thesis by (simp add: file_bytes_def)
qed

lemma concat_fixed_length_inject:
  assumes "\<forall>x\<in>set xs \<union> set ys. length x = n" "0 < n" "concat xs = concat ys"
  shows "xs = ys"
  using assms
proof (induction xs arbitrary: ys)
  case Nil
  then show ?case by (cases ys) auto
next
  case (Cons x xs)
  then show ?case by (cases ys) auto
qed

text \<open>The inputs hashed for two containers, and what is asked of SHA-256: 32-byte outputs, and no
  collision among exactly these inputs.\<close>

definition hashed_inputs :: "(byte list \<Rightarrow> byte list) \<Rightarrow> files \<Rightarrow> string \<Rightarrow> byte list set" where
  "hashed_inputs sha files dir =
     (\<lambda>(p, c). file_bytes p c) ` set (tree files dir) \<union>
     {concat (map (\<lambda>(p, c). sha (file_bytes p c)) (tree files dir))}"

lemma tree_digest_inject:
  assumes ok: "bt_ok a" "bt_ok b"
    and nul: "\<forall>p\<in>fst ` (set (tree a dir) \<union> set (tree b dir)). CHR 0x00 \<notin> set p"
    and len: "\<And>x. length (sha x) = 32"
    and inj: "inj_on sha (hashed_inputs sha a dir \<union> hashed_inputs sha b dir)"
    and eq: "tree_digest sha a dir = tree_digest sha b dir"
  shows "tree a dir = tree b dir"
proof (cases "tree a dir = [] \<or> tree b dir = []")
  case True
  with eq show ?thesis by (auto simp: tree_digest_eq ok split: if_splits)
next
  case False
  let ?h = "\<lambda>(p, c). sha (file_bytes p c)"
  from False eq have "sha (concat (map ?h (tree a dir))) = sha (concat (map ?h (tree b dir)))"
    by (simp add: tree_digest_eq ok)
  then have "concat (map ?h (tree a dir)) = concat (map ?h (tree b dir))"
    by (rule inj_onD [OF inj]) (simp_all add: hashed_inputs_def)
  then have "map ?h (tree a dir) = map ?h (tree b dir)"
    by (intro concat_fixed_length_inject [of _ _ 32]) (auto simp: len)
  moreover have "inj_on ?h (set (tree a dir) \<union> set (tree b dir))"
  proof (rule inj_onI, clarify)
    fix p c q d
    assume mem: "(p, c) \<in> set (tree a dir) \<union> set (tree b dir)"
      "(q, d) \<in> set (tree a dir) \<union> set (tree b dir)"
      and "sha (file_bytes p c) = sha (file_bytes q d)"
    moreover have "file_bytes p c \<in> hashed_inputs sha a dir \<union> hashed_inputs sha b dir"
      "file_bytes q d \<in> hashed_inputs sha a dir \<union> hashed_inputs sha b dir"
      using mem by (force simp: hashed_inputs_def)+
    ultimately have "file_bytes p c = file_bytes q d"
      by (intro inj_onD [OF inj, of "file_bytes p c" "file_bytes q d"])
    moreover have "CHR 0x00 \<notin> set p" "CHR 0x00 \<notin> set q"
      using mem nul by force+
    ultimately show "p = q \<and> c = d" by (simp add: file_bytes_inject)
  qed
  ultimately show ?thesis by (rule map_inj_on)
qed

lemma tree_digest_hex:
  "(\<And>x. length (sha x) = 32) \<Longrightarrow> tree_digest sha files dir = Some d \<Longrightarrow> hex_digest d"
  by (auto simp: tree_digest_def to_hex_digest Let_def split: if_splits)

lemma refresh_integrity:
  "m_integrity (refresh sha m files) = Some g \<Longrightarrow>
     g_app g = tree_digest sha files ''app/'' \<and> g_deps g = tree_digest sha files ''deps/''"
  by (auto simp: refresh_def Let_def)

lemma refresh_fields [simp]:
  "m_poid (refresh sha m files) = m_poid m" "m_type (refresh sha m files) = m_type m"
  "m_app (refresh sha m files) = m_app m" "m_instance (refresh sha m files) = m_instance m"
  "m_draft (refresh sha m files) = m_draft m" "m_runtime (refresh sha m files) = m_runtime m"
  "m_entry (refresh sha m files) = m_entry m" "m_storage (refresh sha m files) = m_storage m"
  "m_permissions (refresh sha m files) = m_permissions m"
  "m_shared_scope (refresh sha m files) = m_shared_scope m"
  "m_data_ref (refresh sha m files) = m_data_ref m"
  "m_extra (refresh sha m files) = m_extra m"
  by (simp_all add: refresh_def Let_def)

lemma refresh_idem [simp]: "refresh sha (refresh sha m files) files = refresh sha m files"
  by (simp add: refresh_def Let_def)

section \<open>Properties\<close>

text \<open>
  C5: For maps of files whose paths hold no NUL byte, two tree digests are equal exactly when the
  two trees have the same files with the same contents: the digest ignores everything outside
  its directory and separates all other differences, as long as SHA-256 has 32-byte outputs and
  does not collide on the inputs hashed here.
\<close>

theorem tree_digest_binds_tree:
  assumes "bt_ok a" "bt_ok b"
    and "\<forall>p\<in>fst ` (set a \<union> set b). CHR 0x00 \<notin> set p"
    and "\<And>x. length (sha x) = 32"
    and "inj_on sha (hashed_inputs sha a dir \<union> hashed_inputs sha b dir)"
  shows "tree_digest sha a dir = tree_digest sha b dir \<longleftrightarrow>
     (\<forall>p. starts_with p dir \<longrightarrow> bt_get a p = bt_get b p)"
proof
  have "\<forall>p\<in>fst ` (set (tree a dir) \<union> set (tree b dir)). CHR 0x00 \<notin> set p"
    using assms(3) by (auto simp: tree_def set_bt_retain)
  moreover assume "tree_digest sha a dir = tree_digest sha b dir"
  ultimately have "tree a dir = tree b dir"
    using assms by (intro tree_digest_inject [of a b dir sha]) auto
  then show "\<forall>p. starts_with p dir \<longrightarrow> bt_get a p = bt_get b p"
    using assms(1,2) by (simp add: tree_eq_iff)
qed (use assms tree_digest_local in blast)

definition sample_sha :: "byte list \<Rightarrow> byte list" where
  "sample_sha x = take 32 (word_of_nat (length x) # x @ replicate 32 0)"

theorem tree_digest_binds_tree_witness:
  "tree_digest sample_sha [(''app/a'', [1])] ''app/'' \<noteq> tree_digest sample_sha [(''app/a'', [2])] ''app/''"
proof -
  let ?a = "[(''app/a'', [1])] :: files" and ?b = "[(''app/a'', [2])] :: files"
  have "inj_on sample_sha (hashed_inputs sample_sha ?a ''app/'' \<union> hashed_inputs sample_sha ?b ''app/'')"
    by (simp add: hashed_inputs_def tree_def file_bytes_def sample_sha_def numeral_eq_Suc)
  moreover have "length (sample_sha x) = 32" for x
    by (simp add: sample_sha_def)
  ultimately have "tree_digest sample_sha ?a ''app/'' = tree_digest sample_sha ?b ''app/'' \<longleftrightarrow>
      (\<forall>p. starts_with p ''app/'' \<longrightarrow> bt_get ?a p = bt_get ?b p)"
    by (intro tree_digest_binds_tree) simp_all
  moreover have "starts_with ''app/a'' ''app/''" "bt_get ?a ''app/a'' \<noteq> bt_get ?b ''app/a''"
    by simp_all
  ultimately show ?thesis by blast
qed

text \<open>
  \<open>decode_hex\<close> inverts \<open>to_hex\<close> and accepts nothing else: a string decodes to some bytes
  exactly when it is their lowercase hexadecimal form.
\<close>

theorem hex_coding_roundtrip:
  "decode_hex s = Some bytes \<longleftrightarrow> s = to_hex bytes"
  by (rule decode_hex_iff)

end
