(* ===== verification/Crate_Interfaces.thy ===== *)
theory Crate_Interfaces
  imports Zip_Scan Integrity_Digests
begin

text \<open>
  The third-party crates \<open>poid-core\<close> calls, as a record of functions: \<open>sha2\<close>, \<open>serde_json\<close> on the
  three types that are written or read, \<open>ed25519-dalek\<close> and \<open>zip\<close>. Nothing is assumed of them in
  the definitions; what a property needs of one is a named predicate here, stating the crate's
  documented behaviour.
\<close>

section \<open>What is signed\<close>

text \<open>\<open>Payload\<close> and \<open>SignatureBlock\<close> of \<open>poid-core/src/signature.rs\<close>.\<close>

record signature_block =
  b_version :: u32
  b_algo :: string
  b_public_key :: string
  b_signature :: string
  b_extra :: extra_fields

record signed_payload =
  y_poid :: string
  y_type :: container_type
  y_app :: "app_info option"
  y_runtime :: "runtime option"
  y_entry :: "string option"
  y_permissions :: "permissions option"
  y_shared_scope :: "string list option"
  y_data_ref :: "data_ref option"
  y_integrity_app :: "string option"
  y_integrity_deps :: "string option"

section \<open>The crates\<close>

text \<open>Writing an archive: the entries in order, each with its method and content.\<close>

type_synonym zip_input = "(string \<times> compression_method \<times> byte list) list"

record crates =
  sha256 :: "byte list \<Rightarrow> byte list"
  payload_to_vec :: "signed_payload \<Rightarrow> string + byte list"
  block_to_vec_pretty :: "signature_block \<Rightarrow> string + byte list"
  block_from_slice :: "byte list \<Rightarrow> string + signature_block"
  manifest_from_slice :: "byte list \<Rightarrow> string + manifest"
  manifest_to_vec_pretty :: "manifest \<Rightarrow> string + byte list"
  ed_public :: "byte list \<Rightarrow> byte list"
  ed_sign :: "byte list \<Rightarrow> byte list \<Rightarrow> byte list"
  ed_key_ok :: "byte list \<Rightarrow> bool"
  ed_verify_strict :: "byte list \<Rightarrow> byte list \<Rightarrow> byte list \<Rightarrow> bool"
  zip_new :: "byte list \<Rightarrow> zip_archive option"
  zip_write :: "zip_input \<Rightarrow> string + byte list"

section \<open>Documented behaviour\<close>

definition sha256_ok :: "crates \<Rightarrow> bool" where
  "sha256_ok K \<longleftrightarrow> (\<forall>x. length (sha256 K x) = 32)"

text \<open>Ed25519: keys and signatures have their sizes, the public key of a seed is a valid key, and a
  signature made with a seed verifies under its public key.\<close>

definition ed25519_ok :: "crates \<Rightarrow> byte list \<Rightarrow> bool" where
  "ed25519_ok K seed \<longleftrightarrow>
     length (ed_public K seed) = 32 \<and> ed_key_ok K (ed_public K seed) \<and>
     (\<forall>m. length (ed_sign K seed m) = 64 \<and>
          ed_verify_strict K (ed_public K seed) m (ed_sign K seed m))"

text \<open>Serde: the signature blocks the code writes parse back to the same value.\<close>

definition block_json_ok :: "crates \<Rightarrow> bool" where
  "block_json_ok K \<longleftrightarrow>
     (\<forall>b. b_version b = 1 \<longrightarrow> b_algo b = ''ed25519'' \<longrightarrow> b_extra b = [] \<longrightarrow>
        (\<exists>bytes. block_to_vec_pretty K b = Inr bytes \<and> block_from_slice K bytes = Inr b))"

section \<open>A concrete instance\<close>

text \<open>Small executable crates with the documented behaviour, at which the properties below are
  evaluated.\<close>

definition sample_block_bytes :: "signature_block \<Rightarrow> byte list" where
  "sample_block_bytes b =
     replicate (length (b_public_key b)) 1 @ 0 # bytes_of (b_public_key b @ b_signature b)"

definition sample_block_parse :: "byte list \<Rightarrow> string + signature_block" where
  "sample_block_parse bytes =
     (case split_once 0 bytes of
        None \<Rightarrow> Inl ''expected value''
      | Some (n, rest) \<Rightarrow> Inr \<lparr>b_version = 1, b_algo = ''ed25519'',
          b_public_key = take (length n) (string_of rest),
          b_signature = drop (length n) (string_of rest), b_extra = []\<rparr>)"

definition sample_crates :: crates where
  "sample_crates =
     \<lparr>sha256 = sample_sha,
      payload_to_vec = (\<lambda>y. Inr (bytes_of (y_poid y))),
      block_to_vec_pretty = (\<lambda>b. Inr (sample_block_bytes b)),
      block_from_slice = sample_block_parse,
      manifest_from_slice = (\<lambda>_. Inl ''expected value''),
      manifest_to_vec_pretty = (\<lambda>_. Inl ''unsupported''),
      ed_public = (\<lambda>seed. take 32 (seed @ replicate 32 0)),
      ed_sign = (\<lambda>seed m. take 64 (m @ replicate 64 0)),
      ed_key_ok = (\<lambda>_. True),
      ed_verify_strict = (\<lambda>k m s. s = take 64 (m @ replicate 64 0)),
      zip_new = (\<lambda>_. None),
      zip_write = (\<lambda>_. Inl ''unsupported'')\<rparr>"

lemma sample_sha_length [simp]: "length (sample_sha x) = 32"
  by (simp add: sample_sha_def)

lemma sample_block_roundtrip:
  assumes "b_version b = 1" "b_algo b = ''ed25519''" "b_extra b = []"
  shows "sample_block_parse (sample_block_bytes b) = Inr b"
proof -
  have "split_once 0 (sample_block_bytes b) =
      Some (replicate (length (b_public_key b)) 1, bytes_of (b_public_key b @ b_signature b))"
    unfolding split_once_eq_Some by (simp add: sample_block_bytes_def)
  with assms show ?thesis by (simp add: sample_block_parse_def del: bytes_of_append)
qed

lemma sample_crates_ok:
  "sha256_ok sample_crates" "ed25519_ok sample_crates seed" "block_json_ok sample_crates"
  by (auto simp: sha256_ok_def ed25519_ok_def block_json_ok_def sample_crates_def
      sample_block_roundtrip)

end
