(* ===== verification/Signatures.thy ===== *)
theory Signatures
  imports Crate_Interfaces
begin

text \<open>
  \<open>poid-core/src/signature.rs\<close>: the canonical payload, signing and verification. The payload leaves
  out \<open>instance\<close>, \<open>storage\<close> and \<open>draft\<close>; that this makes a signature survive the changes a reader
  makes to a container is proved in \<open>Containers\<close>.
\<close>

definition signature_path :: string where
  "signature_path = ''signature/signature.json''"

datatype signature_status = Unsigned | SigValid string | SigInvalid

definition payload_of :: "manifest \<Rightarrow> signed_payload" where
  "payload_of m =
     (let (integrity_app, integrity_deps) =
            (case m_integrity m of Some g \<Rightarrow> (g_app g, g_deps g) | None \<Rightarrow> (None, None))
      in \<lparr>y_poid = m_poid m, y_type = m_type m, y_app = m_app m, y_runtime = m_runtime m,
          y_entry = m_entry m, y_permissions = m_permissions m,
          y_shared_scope = m_shared_scope m, y_data_ref = m_data_ref m,
          y_integrity_app = integrity_app, y_integrity_deps = integrity_deps\<rparr>)"

definition signature_payload_bytes :: "crates \<Rightarrow> manifest \<Rightarrow> poid_error + byte list" where
  "signature_payload_bytes K m =
     map_err (\<lambda>e. SignatureMalformed (''payload serialization: '' @ e))
       (payload_to_vec K (payload_of m))"

definition sign_manifest :: "crates \<Rightarrow> manifest \<Rightarrow> byte list \<Rightarrow> poid_error + signature_block" where
  "sign_manifest K m seed =
     rbind (signature_payload_bytes K m) (\<lambda>bytes.
       Inr \<lparr>b_version = 1, b_algo = ''ed25519'', b_public_key = to_hex (ed_public K seed),
            b_signature = to_hex (ed_sign K seed bytes), b_extra = []\<rparr>)"

definition hex_array :: "nat \<Rightarrow> string \<Rightarrow> byte list option" where
  "hex_array n s =
     (case decode_hex s of None \<Rightarrow> None | Some v \<Rightarrow> if length v = n then Some v else None)"

definition verify_block :: "crates \<Rightarrow> manifest \<Rightarrow> byte list \<Rightarrow> poid_error + signature_status" where
  "verify_block K m block_bytes =
     rbind (map_err SignatureMalformed (block_from_slice K block_bytes)) (\<lambda>block.
     if b_version block \<noteq> 1 then Inl (SignatureMalformed ''unsupported signature version'')
     else if b_algo block \<noteq> ''ed25519''
       then Inl (SignatureMalformed ''unsupported signature algorithm'')
     else
       rbind (ok_or (SignatureMalformed ''public_key must be 32 bytes of lowercase hex'')
         (hex_array 32 (b_public_key block))) (\<lambda>key_bytes.
       rbind (ok_or (SignatureMalformed ''signature must be 64 bytes of lowercase hex'')
         (hex_array 64 (b_signature block))) (\<lambda>sig_bytes.
       if \<not> ed_key_ok K key_bytes
       then Inl (SignatureMalformed ''public_key is not a valid Ed25519 key'')
       else
         rbind (signature_payload_bytes K m) (\<lambda>bytes.
           if ed_verify_strict K key_bytes bytes sig_bytes
           then Inr (SigValid (b_public_key block))
           else Inr SigInvalid))))"

lemma hex_array_Some: "hex_array n s = Some v \<longleftrightarrow> s = to_hex v \<and> length v = n"
  by (auto simp: hex_array_def decode_hex_iff split: option.splits)

lemma hex_array_to_hex [simp]: "length v = n \<Longrightarrow> hex_array n (to_hex v) = Some v"
  by (simp add: hex_array_Some)

text \<open>Verification looks at the manifest only through its payload.\<close>

lemma signature_payload_bytes_cong:
  "payload_of m = payload_of m' \<Longrightarrow> signature_payload_bytes K m = signature_payload_bytes K m'"
  by (simp add: signature_payload_bytes_def)

lemma verify_block_cong:
  "payload_of m = payload_of m' \<Longrightarrow> verify_block K m bytes = verify_block K m' bytes"
  unfolding verify_block_def by (drule signature_payload_bytes_cong [of m m' K]) (simp only:)

lemma verify_block_valid_iff:
  "verify_block K m bytes = Inr (SigValid key) \<longleftrightarrow>
     (\<exists>block sig k body. block_from_slice K bytes = Inr block \<and> b_version block = 1 \<and>
        b_algo block = ''ed25519'' \<and> b_public_key block = key \<and> key = to_hex k \<and> length k = 32 \<and>
        ed_key_ok K k \<and> b_signature block = to_hex sig \<and> length sig = 64 \<and>
        payload_to_vec K (payload_of m) = Inr body \<and> ed_verify_strict K k body sig)"
  by (auto simp: verify_block_def signature_payload_bytes_def result_simps hex_array_Some
      split: if_splits)

lemma sign_then_verify:
  assumes "ed25519_ok K seed" "sign_manifest K m seed = Inr block"
    and "block_from_slice K bytes = Inr block"
  shows "verify_block K m bytes = Inr (SigValid (to_hex (ed_public K seed)))"
  using assms unfolding verify_block_valid_iff
  by (auto simp: sign_manifest_def signature_payload_bytes_def result_simps ed25519_ok_def)

end
