(* ===== verification/Containers.thy ===== *)
theory Containers
  imports Signatures
begin

text \<open>
  \<open>poid-core/src/poid.rs\<close>: the opened container, every operation that changes it, and the in-place
  program update. The reader's own operations (identity, data, slots, protection, storage mode)
  are one machine with an invariant and a frame: none of them touches what is signed or digested.
\<close>

section \<open>The container\<close>

record poid =
  c_manifest :: manifest
  c_files :: files

definition data_store :: string where "data_store = ''data/store.json''"
definition data_store_enc :: string where "data_store_enc = ''data/store.enc''"
definition data_sql :: string where "data_sql = ''data/database.sql''"

definition file_of :: "poid \<Rightarrow> string \<Rightarrow> byte list option" where
  "file_of p path = bt_get (c_files p) path"

definition data_of :: "poid \<Rightarrow> byte list option" where
  "data_of p = file_of p data_store"

definition sql_data :: "poid \<Rightarrow> byte list option" where
  "sql_data p = file_of p data_sql"

definition protected_blob :: "poid \<Rightarrow> byte list option" where
  "protected_blob p = file_of p data_store_enc"

definition is_protected :: "poid \<Rightarrow> bool" where
  "is_protected p = (case Option.bind (m_storage (c_manifest p)) s_protected of
     Some b \<Rightarrow> b | None \<Rightarrow> False)"

definition put_file :: "string \<Rightarrow> byte list \<Rightarrow> poid \<Rightarrow> poid" where
  "put_file path content p = p\<lparr>c_files := bt_insert path content (c_files p)\<rparr>"

section \<open>Integrity and signature of the whole\<close>

definition verify :: "crates \<Rightarrow> poid \<Rightarrow> poid_error + unit" where
  "verify K p =
     (let (stored_app, stored_deps) = (case m_integrity (c_manifest p) of
            Some g \<Rightarrow> (g_app g, g_deps g) | None \<Rightarrow> (None, None))
      in if tree_digest (sha256 K) (c_files p) ''app/'' \<noteq> stored_app
           then Inl (IntegrityMismatch ''app'')
         else if tree_digest (sha256 K) (c_files p) ''deps/'' \<noteq> stored_deps
           then Inl (IntegrityMismatch ''deps'')
         else Inr ())"

text \<open>\<open>sign\<close> refreshes the digests before anything can fail, so it returns the container in both
  cases.\<close>

definition sign :: "crates \<Rightarrow> byte list \<Rightarrow> poid \<Rightarrow> poid \<times> (poid_error + unit)" where
  "sign K seed p =
     (let p = p\<lparr>c_manifest := refresh (sha256 K) (c_manifest p) (c_files p)\<rparr>
      in case rbind (sign_manifest K (c_manifest p) seed) (\<lambda>block.
                map_err (\<lambda>e. SignatureMalformed (''block serialization: '' @ e))
                  (block_to_vec_pretty K block)) of
           Inl e \<Rightarrow> (p, Inl e)
         | Inr bytes \<Rightarrow> (put_file signature_path bytes p, Inr ()))"

definition signature_status_of :: "crates \<Rightarrow> poid \<Rightarrow> poid_error + signature_status" where
  "signature_status_of K p =
     (case bt_get (c_files p) signature_path of
        None \<Rightarrow> Inr Unsigned
      | Some bytes \<Rightarrow> verify_block K (c_manifest p) bytes)"

section \<open>The reader's operations\<close>

definition set_instance_id :: "uuid \<Rightarrow> poid \<Rightarrow> poid" where
  "set_instance_id uid p =
     p\<lparr>c_manifest := (c_manifest p)\<lparr>m_instance := Some
       (case m_instance (c_manifest p) of
          Some i \<Rightarrow> i\<lparr>i_id := Some uid\<rparr>
        | None \<Rightarrow> \<lparr>i_id = Some uid, i_extra = []\<rparr>)\<rparr>\<rparr>"

definition set_data :: "byte list \<Rightarrow> poid \<Rightarrow> poid" where
  "set_data content p = put_file data_store content p"

definition set_sql_data :: "byte list \<Rightarrow> poid \<Rightarrow> poid" where
  "set_sql_data dump p = put_file data_sql dump p"

definition slot_path :: "string \<Rightarrow> string" where
  "slot_path slot = ''slots/'' @ slot @ ''/store.json''"

definition set_slot_data :: "string \<Rightarrow> byte list \<Rightarrow> poid \<Rightarrow> poid_error + poid" where
  "set_slot_data slot content p =
     (if slot = '''' \<or> list_ex (\<lambda>c. c = CHR ''/'' \<or> c = CHR 0x5C \<or> c = CHR 0x00) slot
         \<or> slot = ''.'' \<or> slot = ''..'' \<or> slot = ''current''
      then Inl (InvalidPath (''slots/'' @ slot)
        ''slot names must be plain names (no separators, not `current`)'')
      else Inr (put_file (slot_path slot) content p))"

definition set_current_slot_pointer :: "string \<Rightarrow> poid \<Rightarrow> poid" where
  "set_current_slot_pointer slot p = put_file ''slots/current'' (bytes_of slot) p"

definition storage_default :: storage where
  "storage_default = \<lparr>s_mode = Embedded, s_slots = None, s_protected = None, s_quota_mb = None,
     s_schema_version = None, s_requires = None, s_extra = []\<rparr>"

definition storage_mut :: "(storage \<Rightarrow> storage) \<Rightarrow> poid \<Rightarrow> poid" where
  "storage_mut f p =
     p\<lparr>c_manifest := (c_manifest p)\<lparr>m_storage := Some
       (f (case m_storage (c_manifest p) of Some s \<Rightarrow> s | None \<Rightarrow> storage_default))\<rparr>\<rparr>"

definition set_protected_blob :: "byte list \<Rightarrow> poid \<Rightarrow> poid" where
  "set_protected_blob envelope p =
     storage_mut (\<lambda>s. s\<lparr>s_protected := Some True\<rparr>)
       (put_file data_store_enc envelope (p\<lparr>c_files := bt_remove data_store (c_files p)\<rparr>))"

definition set_plain_data :: "byte list \<Rightarrow> poid \<Rightarrow> poid" where
  "set_plain_data plaintext p =
     storage_mut (\<lambda>s. s\<lparr>s_protected := Some False\<rparr>)
       (put_file data_store plaintext (p\<lparr>c_files := bt_remove data_store_enc (c_files p)\<rparr>))"

definition is_state_path :: "string \<Rightarrow> bool" where
  "is_state_path k \<longleftrightarrow> starts_with k ''data/'' \<or> starts_with k ''slots/''"

definition remove_state_trees :: "poid \<Rightarrow> poid" where
  "remove_state_trees p =
     p\<lparr>c_files := bt_retain
       (\<lambda>k _. \<not> starts_with k ''data/'' \<and> \<not> starts_with k ''slots/'') (c_files p)\<rparr>"

definition clear_data :: "poid \<Rightarrow> poid" where
  "clear_data p =
     (let p = remove_state_trees p
      in p\<lparr>c_manifest := (c_manifest p)\<lparr>m_instance :=
           map_option (\<lambda>i. i\<lparr>i_id := None\<rparr>) (m_instance (c_manifest p))\<rparr>\<rparr>)"

definition convert_storage_mode :: "storage_mode \<Rightarrow> poid \<Rightarrow> poid" where
  "convert_storage_mode mode p =
     (let old = (case m_storage (c_manifest p) of Some s \<Rightarrow> s_mode s
                 | None \<Rightarrow> s_mode storage_default);
          leaving_embedded = (old = Embedded \<and> mode \<noteq> Embedded);
          p = storage_mut (\<lambda>s. s\<lparr>s_mode := mode\<rparr>) p
      in if leaving_embedded then remove_state_trees p else p)"

section \<open>Updating the program\<close>

record update_report =
  u_permissions_widened :: bool
  u_old_schema_version :: u32
  u_new_schema_version :: u32

definition schema_advanced :: "update_report \<Rightarrow> bool" where
  "schema_advanced r \<longleftrightarrow> u_new_schema_version r > u_old_schema_version r"

definition schema_version_of :: "manifest \<Rightarrow> u32" where
  "schema_version_of m =
     (case Option.bind (m_storage m) s_schema_version of Some v \<Rightarrow> v | None \<Rightarrow> 0)"

definition list_or_empty :: "'a list option \<Rightarrow> 'a list" where
  "list_or_empty v = (case v of Some xs \<Rightarrow> xs | None \<Rightarrow> [])"

definition flag_widened :: "bool option \<Rightarrow> bool option \<Rightarrow> bool" where
  "flag_widened old_flag new_flag \<longleftrightarrow> new_flag = Some True \<and> old_flag \<noteq> Some True"

definition permissions_widened :: "permissions option \<Rightarrow> permissions option \<Rightarrow> bool" where
  "permissions_widened old_opt new_opt =
     (case new_opt of None \<Rightarrow> False
      | Some newer \<Rightarrow>
         (let old = (case old_opt of Some p \<Rightarrow> p | None \<Rightarrow> permissions_default);
              old_net = list_or_empty (p_network old);
              new_net = list_or_empty (p_network newer);
              old_mcp = list_or_empty (p_mcp old);
              new_mcp = list_or_empty (p_mcp newer)
          in
          if list_ex (\<lambda>x. x \<notin> set old_net) new_net then True
          else if list_ex (\<lambda>x. x \<notin> set old_mcp) new_mcp then True
          else
            (p_filesystem newer = Some UserInitiated \<and> p_filesystem old \<noteq> Some UserInitiated)
            \<or> flag_widened (p_clipboard old) (p_clipboard newer)
            \<or> flag_widened (p_print old) (p_print newer)
            \<or> flag_widened (p_notifications old) (p_notifications newer)))"

definition swap_files :: "files \<Rightarrow> files \<Rightarrow> files" where
  "swap_files old newer =
     fold (\<lambda>(path, content) files. if is_state_path path then files
        else bt_insert path content files) newer
       (bt_retain (\<lambda>k _. is_state_path k) old)"

definition preserve_placement :: "manifest \<Rightarrow> storage \<Rightarrow> storage" where
  "preserve_placement old s =
     (let mode = map_option s_mode (m_storage old);
          protected = Option.bind (m_storage old) s_protected;
          user_enabled_slots = (Option.bind (m_storage old) s_slots = Some True);
          s = (case mode of Some md \<Rightarrow> s\<lparr>s_mode := md\<rparr> | None \<Rightarrow> s);
          s = s\<lparr>s_protected := protected\<rparr>
      in if user_enabled_slots then s\<lparr>s_slots := Some True\<rparr> else s)"

definition app_id_differs :: "string \<Rightarrow> string \<Rightarrow> string" where
  "app_id_differs old newer =
     ''app.id differs: `'' @ old @ ''` cannot be updated by `'' @ newer @ ''`''"

definition update_program :: "crates \<Rightarrow> poid \<Rightarrow> poid \<Rightarrow> poid_error + (poid \<times> update_report)" where
  "update_program K p newer =
     rbind (ok_or (UpdateMismatch ''the file being updated is not an application'')
       (m_app (c_manifest p))) (\<lambda>old_app.
     rbind (ok_or (UpdateMismatch ''the update source is not an application'')
       (m_app (c_manifest newer))) (\<lambda>new_app.
     if a_id old_app \<noteq> a_id new_app
     then Inl (UpdateMismatch (app_id_differs (a_id old_app) (a_id new_app)))
     else
       let widened = permissions_widened (m_permissions (c_manifest p))
             (m_permissions (c_manifest newer));
           files = swap_files (c_files p) (c_files newer);
           m = (c_manifest newer)\<lparr>m_instance := m_instance (c_manifest p),
                 m_storage := map_option (preserve_placement (c_manifest p))
                   (m_storage (c_manifest newer))\<rparr>
       in Inr (\<lparr>c_manifest = refresh (sha256 K) m files, c_files = files\<rparr>,
           \<lparr>u_permissions_widened = widened,
            u_old_schema_version = schema_version_of (c_manifest p),
            u_new_schema_version = schema_version_of (c_manifest newer)\<rparr>)))"

section \<open>Invariant and frame of the reader's operations\<close>

definition reserved_name :: "string \<Rightarrow> bool" where
  "reserved_name k \<longleftrightarrow> k = ''mimetype'' \<or> k = ''manifest.json''"

definition container_inv :: "poid \<Rightarrow> bool" where
  "container_inv p \<longleftrightarrow> bt_ok (c_files p) \<and>
     (\<forall>k\<in>fst ` set (c_files p). container_path k \<and> \<not> reserved_name k)"

datatype reader_op =
  SetInstanceId uuid
| SetData "byte list"
| SetSqlData "byte list"
| SetSlotData string "byte list"
| SetCurrentSlot string
| SetProtectedBlob "byte list"
| SetPlainData "byte list"
| ClearData
| ConvertStorageMode storage_mode

fun reader_step :: "reader_op \<Rightarrow> poid \<Rightarrow> poid" where
  "reader_step (SetInstanceId uid) p = set_instance_id uid p"
| "reader_step (SetData content) p = set_data content p"
| "reader_step (SetSqlData dump) p = set_sql_data dump p"
| "reader_step (SetSlotData slot content) p =
     (case set_slot_data slot content p of Inl e \<Rightarrow> p | Inr q \<Rightarrow> q)"
| "reader_step (SetCurrentSlot slot) p = set_current_slot_pointer slot p"
| "reader_step (SetProtectedBlob envelope) p = set_protected_blob envelope p"
| "reader_step (SetPlainData plaintext) p = set_plain_data plaintext p"
| "reader_step ClearData p = clear_data p"
| "reader_step (ConvertStorageMode mode) p = convert_storage_mode mode p"

text \<open>The program of a container: everything but identity, storage and the user's state.\<close>

definition program_of :: "poid \<Rightarrow> manifest \<times> files" where
  "program_of p =
     ((c_manifest p)\<lparr>m_instance := None, m_storage := None\<rparr>,
      bt_retain (\<lambda>k _. \<not> is_state_path k) (c_files p))"

lemma retain_insert_other:
  "bt_ok m \<Longrightarrow> \<not> Q k \<Longrightarrow> bt_retain (\<lambda>k _. Q k) (bt_insert k v m) = bt_retain (\<lambda>k _. Q k) m"
  by (rule bt_ext) (auto simp: bt_get_retain_key)

lemma retain_remove_other:
  "bt_ok m \<Longrightarrow> \<not> Q k \<Longrightarrow> bt_retain (\<lambda>k _. Q k) (bt_remove k m) = bt_retain (\<lambda>k _. Q k) m"
  by (rule bt_ext) (auto simp: bt_get_retain_key)

lemma retain_twice: "bt_retain P (bt_retain Q m) = bt_retain (\<lambda>k v. P k v \<and> Q k v) m"
  by (simp add: bt_retain_def split_def conj_commute)

lemma state_paths [simp]:
  "is_state_path data_store" "is_state_path data_store_enc" "is_state_path data_sql"
  "is_state_path ''slots/current''" "is_state_path (slot_path slot)"
  by (simp_all add: is_state_path_def slot_path_def data_store_def data_store_enc_def data_sql_def)

lemma state_path_not_reserved: "is_state_path k \<Longrightarrow> \<not> reserved_name k"
  by (auto simp: is_state_path_def reserved_name_def)

lemma store_paths_ok [simp]:
  "container_path data_store" "container_path data_store_enc" "container_path data_sql"
  "container_path ''slots/current''"
proof -
  have "check_container_path data_store = Inr ()" "check_container_path data_store_enc = Inr ()"
    "check_container_path data_sql = Inr ()" "check_container_path ''slots/current'' = Inr ()"
    by code_simp+
  then show "container_path data_store" "container_path data_store_enc" "container_path data_sql"
    "container_path ''slots/current''"
    by (simp_all add: check_container_path_iff)
qed

lemma slot_path_ok:
  assumes "plain_segment slot"
  shows "container_path (slot_path slot)"
proof -
  have "slot_path slot = join_with CHR ''/'' [''slots'', slot, ''store.json'']"
    by (simp add: slot_path_def)
  moreover have "list_all plain_segment [''slots'', slot, ''store.json'']"
    using assms by (simp add: plain_segment_def)
  moreover have "\<not> has_drive_letter (slot_path slot)"
    by (simp add: slot_path_def has_drive_letter_def)
  ultimately show ?thesis
    unfolding container_path_joined by blast
qed

lemma set_slot_data_eq_Inr:
  "set_slot_data slot content p = Inr q \<longleftrightarrow> plain_segment slot \<and> slot \<noteq> ''current'' \<and>
     q = put_file (slot_path slot) content p"
  by (auto simp: set_slot_data_def plain_segment_def list_ex_iff)

lemma put_file_inv:
  "container_inv p \<Longrightarrow> container_path k \<Longrightarrow> \<not> reserved_name k \<Longrightarrow> container_inv (put_file k v p)"
  by (simp add: container_inv_def put_file_def)

lemma put_file_program:
  "bt_ok (c_files p) \<Longrightarrow> is_state_path k \<Longrightarrow> program_of (put_file k v p) = program_of p"
  by (simp add: program_of_def put_file_def retain_insert_other)

lemma storage_mut_simps [simp]:
  "c_files (storage_mut f p) = c_files p" "program_of (storage_mut f p) = program_of p"
  "container_inv (storage_mut f p) \<longleftrightarrow> container_inv p"
  by (simp_all add: storage_mut_def program_of_def container_inv_def)

lemma remove_state_trees_program: "program_of (remove_state_trees p) = program_of p"
  by (simp add: program_of_def remove_state_trees_def retain_twice is_state_path_def)

lemma remove_state_trees_inv: "container_inv p \<Longrightarrow> container_inv (remove_state_trees p)"
  by (auto simp: container_inv_def remove_state_trees_def set_bt_retain)

lemma drop_file_inv: "container_inv p \<Longrightarrow> container_inv (p\<lparr>c_files := bt_remove k (c_files p)\<rparr>)"
  by (auto simp: container_inv_def set_bt_remove)

lemma drop_file_program:
  "bt_ok (c_files p) \<Longrightarrow> is_state_path k \<Longrightarrow>
     program_of (p\<lparr>c_files := bt_remove k (c_files p)\<rparr>) = program_of p"
  by (simp add: program_of_def retain_remove_other)

lemmas reader_op_defs = set_instance_id_def set_data_def set_sql_data_def
  set_current_slot_pointer_def set_protected_blob_def set_plain_data_def clear_data_def
  convert_storage_mode_def

lemma reader_step_inv: "container_inv p \<Longrightarrow> container_inv (reader_step op p)"
  by (cases op)
    (auto simp: reader_op_defs Let_def set_slot_data_eq_Inr slot_path_ok state_path_not_reserved
      split: sum.split intro!: put_file_inv drop_file_inv remove_state_trees_inv,
     auto simp: container_inv_def remove_state_trees_def set_bt_retain)

lemma reader_step_program:
  assumes "container_inv p"
  shows "program_of (reader_step op p) = program_of p"
proof -
  have [simp]: "bt_ok (c_files p)"
    using assms by (simp add: container_inv_def)
  have [simp]: "program_of (q\<lparr>c_manifest := (c_manifest q)\<lparr>m_instance := i\<rparr>\<rparr>) = program_of q" for q i
    by (simp add: program_of_def)
  show ?thesis
    by (cases op)
      (auto simp: reader_op_defs Let_def set_slot_data_eq_Inr put_file_program drop_file_program
        remove_state_trees_program split: sum.split)
qed

interpretation reader: framed_machine reader_step container_inv program_of
  by unfold_locales (auto intro: reader_step_inv reader_step_program)

text \<open>Signature and integrity are functions of the program.\<close>

lemma program_lookup:
  assumes "program_of p = program_of q" "\<not> is_state_path k"
  shows "bt_get (c_files p) k = bt_get (c_files q) k"
proof -
  have "bt_get (c_files r) k = bt_get (snd (program_of r)) k" for r
    using assms(2) by (simp add: program_of_def bt_get_retain_key)
  with assms(1) show ?thesis by simp
qed

lemma program_manifest:
  assumes "program_of p = program_of q"
  shows "payload_of (c_manifest p) = payload_of (c_manifest q)"
    "m_integrity (c_manifest p) = m_integrity (c_manifest q)"
proof -
  have eq: "(c_manifest p)\<lparr>m_instance := None, m_storage := None\<rparr> =
      (c_manifest q)\<lparr>m_instance := None, m_storage := None\<rparr>"
    using assms by (simp add: program_of_def)
  have "payload_of m = payload_of (m\<lparr>m_instance := None, m_storage := None\<rparr>)"
    "m_integrity m = m_integrity (m\<lparr>m_instance := None, m_storage := None\<rparr>)" for m
    by (simp_all add: payload_of_def)
  with eq show "payload_of (c_manifest p) = payload_of (c_manifest q)"
    "m_integrity (c_manifest p) = m_integrity (c_manifest q)"
    by metis+
qed

lemma signature_not_state_path [simp]: "\<not> is_state_path signature_path"
  by (simp add: is_state_path_def signature_path_def)

lemma app_not_state_path: "starts_with k ''app/'' \<Longrightarrow> \<not> is_state_path k"
  by (cases k) (simp_all add: is_state_path_def)

lemma deps_not_state_path: "starts_with k ''deps/'' \<Longrightarrow> \<not> is_state_path k"
  by (cases k; cases "tl k") (auto simp: is_state_path_def)

lemma program_signature:
  assumes "program_of p = program_of q"
  shows "signature_status_of K p = signature_status_of K q"
  unfolding signature_status_of_def program_lookup [OF assms signature_not_state_path]
  by (simp add: verify_block_cong [OF program_manifest(1) [OF assms]] split: option.split)

lemma program_verify:
  assumes "program_of p = program_of q" "bt_ok (c_files p)" "bt_ok (c_files q)"
  shows "verify K p = verify K q"
proof -
  have same: "tree_digest (sha256 K) (c_files p) ''app/'' = tree_digest (sha256 K) (c_files q) ''app/''"
    "tree_digest (sha256 K) (c_files p) ''deps/'' = tree_digest (sha256 K) (c_files q) ''deps/''"
    using assms app_not_state_path deps_not_state_path
    by (auto intro!: tree_digest_local program_lookup)
  show ?thesis
    unfolding verify_def program_manifest(2) [OF assms(1)] same ..
qed

section \<open>Signing\<close>

lemma verify_iff:
  "verify K p = Inr () \<longleftrightarrow>
     (case m_integrity (c_manifest p) of
        Some g \<Rightarrow> g_app g = tree_digest (sha256 K) (c_files p) ''app/'' \<and>
                  g_deps g = tree_digest (sha256 K) (c_files p) ''deps/''
      | None \<Rightarrow> tree_digest (sha256 K) (c_files p) ''app/'' = None \<and>
                tree_digest (sha256 K) (c_files p) ''deps/'' = None)"
  by (auto simp: verify_def split: option.splits)

lemma tree_digest_put_other:
  assumes "bt_ok files" "\<not> starts_with k dir"
  shows "tree_digest sha (bt_insert k v files) dir = tree_digest sha files dir"
  using assms by (intro tree_digest_local) auto

lemma signature_not_in_trees [simp]:
  "\<not> starts_with signature_path ''app/''" "\<not> starts_with signature_path ''deps/''"
  by (simp_all add: signature_path_def)

lemma verify_refresh:
  "verify K \<lparr>c_manifest = refresh (sha256 K) m files, c_files = files\<rparr> = Inr ()"
  by (simp add: verify_iff refresh_def Let_def)

lemma sign_outcome:
  "sign K seed p = (q, Inr ()) \<longleftrightarrow>
     (\<exists>block bytes. sign_manifest K (refresh (sha256 K) (c_manifest p) (c_files p)) seed = Inr block \<and>
        block_to_vec_pretty K block = Inr bytes \<and>
        q = \<lparr>c_manifest = refresh (sha256 K) (c_manifest p) (c_files p),
             c_files = bt_insert signature_path bytes (c_files p)\<rparr>)"
  by (auto simp: sign_def Let_def result_simps rbind_eq_Inl put_file_def
      split: sum.splits prod.splits)

lemma signature_path_ok: "container_path signature_path \<and> \<not> reserved_name signature_path"
proof -
  have "check_container_path signature_path = Inr ()" "\<not> reserved_name signature_path"
    by code_simp+
  then show ?thesis by (simp add: check_container_path_iff)
qed

text \<open>
  C6: If signing succeeds, the container's digests match its files and its signature is valid under
  the signer's public key, and both stay so after any sequence of the reader's operations
  (identity, data, SQL data, slots, protection, storage mode, clearing), which keep the container
  well formed and its program, that is every other file and every other manifest field, untouched.
\<close>

theorem signing_survives_reader_operations:
  assumes "ed25519_ok K seed" and "block_json_ok K" and "container_inv p"
    and "sign K seed p = (q, Inr ())"
  shows "verify K (fold reader_step ops q) = Inr () \<and>
    signature_status_of K (fold reader_step ops q) = Inr (SigValid (to_hex (ed_public K seed))) \<and>
    container_inv (fold reader_step ops q) \<and> program_of (fold reader_step ops q) = program_of q"
proof -
  obtain block bytes where block: "sign_manifest K (refresh (sha256 K) (c_manifest p) (c_files p)) seed = Inr block"
    "block_to_vec_pretty K block = Inr bytes"
    and q: "q = \<lparr>c_manifest = refresh (sha256 K) (c_manifest p) (c_files p),
             c_files = bt_insert signature_path bytes (c_files p)\<rparr>"
    using assms(4) unfolding sign_outcome by blast
  have "b_version block = 1" "b_algo block = ''ed25519''" "b_extra block = []"
    using block(1) by (auto simp: sign_manifest_def result_simps)
  with block(2) assms(2) have "block_from_slice K bytes = Inr block"
    by (auto simp: block_json_ok_def)
  with assms(1) block(1) have "signature_status_of K q = Inr (SigValid (to_hex (ed_public K seed)))"
    by (simp add: q signature_status_of_def sign_then_verify)
  moreover have ok: "bt_ok (c_files p)"
    using assms(3) by (simp add: container_inv_def)
  then have "verify K q = Inr ()"
    by (simp add: q verify_iff refresh_def Let_def tree_digest_put_other)
  moreover have inv: "container_inv q"
    using put_file_inv [of p signature_path bytes] assms(3) signature_path_ok
    by (simp add: container_inv_def q put_file_def)
  moreover have inv': "container_inv (fold reader_step ops q)"
    and frame: "program_of (fold reader_step ops q) = program_of q"
    using inv by (rule reader.run_inv, rule reader.run_frame)
  moreover have "bt_ok (c_files q)" "bt_ok (c_files (fold reader_step ops q))"
    using inv inv' by (simp_all add: container_inv_def)
  ultimately show ?thesis
    using program_signature [OF frame] program_verify [OF frame] by simp
qed

definition sample_poid :: poid where
  "sample_poid = \<lparr>c_manifest = new_app ''com.example.x'' ''X'' ''1.0.0'' ''app/i'',
     c_files = [(''app/i'', [1])]\<rparr>"

lemma sample_poid_inv: "container_inv sample_poid"
proof -
  have "check_container_path ''app/i'' = Inr ()" by code_simp
  then show ?thesis
    by (simp add: container_inv_def sample_poid_def reserved_name_def check_container_path_iff)
qed

theorem signing_survives_reader_operations_witness:
  "verify sample_crates
     (fold reader_step [SetInstanceId 42, SetData [2], ConvertStorageMode Vault]
       (fst (sign sample_crates [7] sample_poid))) = Inr ()"
proof -
  have "snd (sign sample_crates [7] sample_poid) = Inr ()"
    by (simp add: sign_def Let_def sample_crates_def sign_manifest_def signature_payload_bytes_def)
  then have "sign sample_crates [7] sample_poid = (fst (sign sample_crates [7] sample_poid), Inr ())"
    by (simp add: prod_eq_iff)
  from signing_survives_reader_operations [OF sample_crates_ok(2,3) sample_poid_inv this]
  show ?thesis by blast
qed

section \<open>The update\<close>

lemma swap_fold:
  assumes "distinct (map fst new)"
  shows "bt_get (fold (\<lambda>(path, content) files. if P path then files
      else bt_insert path content files) new m) k =
    (if P k then bt_get m k else case bt_get new k of Some v \<Rightarrow> Some v | None \<Rightarrow> bt_get m k)"
  using assms
proof (induction new arbitrary: m)
  case (Cons e new)
  obtain path content where e: "e = (path, content)" by (cases e)
  with Cons.prems have "bt_get new path = None" by (auto simp: bt_get_None_iff)
  with Cons e show ?case by (auto split: option.split)
qed simp

lemma swap_fold_ok:
  "bt_ok m \<Longrightarrow> bt_ok (fold (\<lambda>(path, content) files. if P path then files
      else bt_insert path content files) new m)"
proof (induction new arbitrary: m)
  case (Cons e new)
  then show ?case by (cases e) simp
qed simp

lemma bt_get_swap_files:
  assumes "bt_ok new"
  shows "bt_get (swap_files old new) k =
    (if is_state_path k then bt_get old k else bt_get new k)"
  using assms
  by (simp add: swap_files_def swap_fold bt_ok_distinct bt_get_retain_key split: option.split)

lemma swap_files_ok: "bt_ok old \<Longrightarrow> bt_ok (swap_files old new)"
  by (simp add: swap_files_def swap_fold_ok)

lemma swap_files_trees:
  assumes "bt_ok old" "bt_ok new" "\<And>k. starts_with k dir \<Longrightarrow> \<not> is_state_path k"
  shows "tree_digest sha (swap_files old new) dir = tree_digest sha new dir"
proof (rule tree_digest_local)
  fix k assume "starts_with k dir"
  then have "\<not> is_state_path k" by (rule assms(3))
  then show "bt_get (swap_files old new) k = bt_get new k"
    using assms(2) by (simp add: bt_get_swap_files)
qed (simp_all add: assms swap_files_ok)

lemma update_program_iff:
  "update_program K p newer = Inr (q, r) \<longleftrightarrow>
     (\<exists>a b. m_app (c_manifest p) = Some a \<and> m_app (c_manifest newer) = Some b \<and> a_id a = a_id b) \<and>
     q = \<lparr>c_manifest = refresh (sha256 K)
            ((c_manifest newer)\<lparr>m_instance := m_instance (c_manifest p),
               m_storage := map_option (preserve_placement (c_manifest p))
                 (m_storage (c_manifest newer))\<rparr>)
            (swap_files (c_files p) (c_files newer)),
          c_files = swap_files (c_files p) (c_files newer)\<rparr> \<and>
     r = \<lparr>u_permissions_widened = permissions_widened (m_permissions (c_manifest p))
            (m_permissions (c_manifest newer)),
          u_old_schema_version = schema_version_of (c_manifest p),
          u_new_schema_version = schema_version_of (c_manifest newer)\<rparr>"
  by (auto simp: update_program_def result_simps Let_def)

lemma container_inv_iff:
  "container_inv p \<longleftrightarrow> bt_ok (c_files p) \<and>
     (\<forall>k. bt_get (c_files p) k \<noteq> None \<longrightarrow> container_path k \<and> \<not> reserved_name k)"
  by (auto simp: container_inv_def bt_get_None_iff)

lemma refresh_payload:
  assumes "case m_integrity m of
      Some g \<Rightarrow> g_app g = tree_digest sha files ''app/'' \<and> g_deps g = tree_digest sha files ''deps/''
    | None \<Rightarrow> tree_digest sha files ''app/'' = None \<and> tree_digest sha files ''deps/'' = None"
  shows "payload_of (refresh sha m files) = payload_of m"
  using assms by (auto simp: payload_of_def refresh_def split: option.splits)

text \<open>The placement the user chose, against what the new program declares.\<close>

definition placement_kept :: "manifest \<Rightarrow> storage \<Rightarrow> storage \<Rightarrow> bool" where
  "placement_kept old declared result \<longleftrightarrow>
     s_mode result = (case m_storage old of Some s \<Rightarrow> s_mode s | None \<Rightarrow> s_mode declared) \<and>
     s_protected result = Option.bind (m_storage old) s_protected \<and>
     s_slots result = (if Option.bind (m_storage old) s_slots = Some True then Some True
                       else s_slots declared) \<and>
     s_quota_mb result = s_quota_mb declared \<and>
     s_schema_version result = s_schema_version declared \<and>
     s_requires result = s_requires declared \<and> s_extra result = s_extra declared"

lemma preserve_placement_kept: "placement_kept old s (preserve_placement old s)"
  by (auto simp: placement_kept_def preserve_placement_def Let_def split: option.split)


definition sample_newer :: poid where
  "sample_newer = sample_poid\<lparr>c_manifest := (c_manifest sample_poid)\<lparr>m_app :=
     map_option (\<lambda>a. a\<lparr>a_version := ''2.0.0''\<rparr>) (m_app (c_manifest sample_poid))\<rparr>\<rparr>"

definition sample_signed :: poid where
  "sample_signed = fst (sign sample_crates [7] sample_newer)"

lemma sample_signed_sign: "sign sample_crates [7] sample_newer = (sample_signed, Inr ())"
proof -
  have "snd (sign sample_crates [7] sample_newer) = Inr ()"
    by (simp add: sign_def Let_def sample_crates_def sign_manifest_def signature_payload_bytes_def)
  then show ?thesis by (simp add: prod_eq_iff sample_signed_def)
qed

lemma sample_newer_inv: "container_inv sample_newer"
  using sample_poid_inv by (simp add: container_inv_def sample_newer_def)

lemma sample_signed_ok:
  "container_inv sample_signed" "verify sample_crates sample_signed = Inr ()"
  "signature_status_of sample_crates sample_signed = Inr (SigValid (to_hex (ed_public sample_crates [7])))"
proof -
  obtain block bytes where q: "sample_signed = \<lparr>c_manifest = refresh (sha256 sample_crates)
        (c_manifest sample_newer) (c_files sample_newer),
      c_files = bt_insert signature_path bytes (c_files sample_newer)\<rparr>"
    and block: "sign_manifest sample_crates (refresh (sha256 sample_crates)
        (c_manifest sample_newer) (c_files sample_newer)) [7] = Inr block"
      "block_to_vec_pretty sample_crates block = Inr bytes"
    using sample_signed_sign unfolding sign_outcome by blast
  have ok: "bt_ok (c_files sample_newer)"
    using sample_newer_inv by (simp add: container_inv_def)
  then show "verify sample_crates sample_signed = Inr ()"
    by (simp add: q verify_iff refresh_def Let_def tree_digest_put_other)
  show "container_inv sample_signed"
    using put_file_inv [OF sample_newer_inv, of signature_path bytes] signature_path_ok
    by (simp add: container_inv_def q put_file_def)
  have "b_version block = 1" "b_algo block = ''ed25519''" "b_extra block = []"
    using block(1) by (auto simp: sign_manifest_def result_simps)
  with block(2) have "block_from_slice sample_crates bytes = Inr block"
    using sample_crates_ok(3) by (auto simp: block_json_ok_def)
  with block(1) show "signature_status_of sample_crates sample_signed =
      Inr (SigValid (to_hex (ed_public sample_crates [7])))"
    by (simp add: q signature_status_of_def sign_then_verify sample_crates_ok)
qed

lemma sample_update:
  "\<exists>q r. update_program sample_crates sample_poid sample_signed = Inr (q, r)"
proof -
  have "m_app (c_manifest sample_signed) = m_app (c_manifest sample_newer)"
    by (simp add: sample_signed_def sign_def Let_def put_file_def split: sum.split)
  then show ?thesis
    by (simp add: update_program_iff sample_newer_def sample_poid_def new_app_def)
qed


section \<open>Permissions\<close>

datatype capability =
  Reach string | CallMcp string | OpenFiles | UseClipboard | UsePrinter | Notify

definition capabilities :: "permissions option \<Rightarrow> capability set" where
  "capabilities po =
     (case po of None \<Rightarrow> {}
      | Some p \<Rightarrow>
          Reach ` set (list_or_empty (p_network p)) \<union> CallMcp ` set (list_or_empty (p_mcp p)) \<union>
          {c. c = OpenFiles \<and> p_filesystem p = Some UserInitiated} \<union>
          {c. c = UseClipboard \<and> p_clipboard p = Some True} \<union>
          {c. c = UsePrinter \<and> p_print p = Some True} \<union>
          {c. c = Notify \<and> p_notifications p = Some True})"

text \<open>
  An update reports widened permissions, which forces a new consent, exactly when the newer
  manifest requests a capability (an origin, an MCP server, files, clipboard, printing,
  notifications) the old one did not.
\<close>

theorem permissions_widened_iff_new_capability:
  "permissions_widened old newer \<longleftrightarrow> \<not> capabilities newer \<subseteq> capabilities old"
proof -
  have def: "capabilities None = capabilities (Some permissions_default)"
    by (simp add: capabilities_def permissions_default_def list_or_empty_def)
  have some: "permissions_widened (Some p) (Some n) \<longleftrightarrow>
      \<not> capabilities (Some n) \<subseteq> capabilities (Some p)" for p n
    by (auto simp: permissions_widened_def capabilities_def Let_def list_ex_iff flag_widened_def)
  show ?thesis
  proof (cases newer)
    case None
    then show ?thesis by (simp add: permissions_widened_def capabilities_def)
  next
    case (Some n)
    have "permissions_widened None (Some n) \<longleftrightarrow> permissions_widened (Some permissions_default) (Some n)"
      by (simp add: permissions_widened_def)
    with Some some def show ?thesis by (cases old) metis+
  qed
qed

text \<open>
  The update keeps the user's storage mode but takes the backend requirement from the newer
  program. When the user had connected the instance and the newer program declares no backend,
  the updated manifest of an application or workspace fails validation, so that the container can
  no longer be packed and reopened.
\<close>

theorem update_of_connected_instance_breaks_manifest:
  assumes "update_program K p newer = Inr (q, r)"
    and "m_storage (c_manifest p) = Some s" and "s_mode s = Connection"
    and "m_storage (c_manifest newer) = Some t" and "s_requires t = None"
    and "m_type (c_manifest newer) \<noteq> DataType"
  shows "\<exists>e. validate (c_manifest q) = Inl e"
proof -
  have "\<exists>s'. m_storage (c_manifest q) = Some s' \<and> s_mode s' = Connection \<and> s_requires s' = None \<and>
      m_type (c_manifest q) \<noteq> DataType"
    using assms unfolding update_program_iff by (auto simp: preserve_placement_def Let_def)
  then have "\<not> manifest_ok (c_manifest q)"
    by (auto simp: manifest_ok_def runnable_ok_def storage_ok_def)
  then show ?thesis by (rule manifest_check.check_fails)
qed

theorem update_of_connected_instance_breaks_manifest_witness:
  "\<exists>q r e. update_program sample_crates (convert_storage_mode Connection sample_poid) sample_signed
      = Inr (q, r) \<and> validate (c_manifest q) = Inl e"
proof -
  let ?p = "convert_storage_mode Connection sample_poid"
  have app: "m_app (c_manifest ?p) = m_app (c_manifest sample_poid)"
    by (simp add: convert_storage_mode_def storage_mut_def remove_state_trees_def Let_def)
  with sample_update obtain q r where u: "update_program sample_crates ?p sample_signed = Inr (q, r)"
    unfolding update_program_iff by auto
  have "\<exists>s. m_storage (c_manifest ?p) = Some s \<and> s_mode s = Connection"
    by (simp add: convert_storage_mode_def storage_mut_def remove_state_trees_def Let_def)
  moreover have "\<exists>t. m_storage (c_manifest sample_signed) = Some t \<and> s_requires t = None"
    "m_type (c_manifest sample_signed) \<noteq> DataType"
    by (simp_all add: sample_signed_def sign_def Let_def put_file_def sample_newer_def
        sample_poid_def new_app_def split: sum.split)
  ultimately have "\<exists>e. validate (c_manifest q) = Inl e"
    using update_of_connected_instance_breaks_manifest [OF u] by blast
  with u show ?thesis by blast
qed

end
