(* ===== verification/Container_Reader.thy ===== *)
theory Container_Reader
  imports Containers
begin

text \<open>
  \<open>poid-core/src/read.rs\<close>: opening untrusted bytes. The raw check of the first local header, the
  manifest, the scan of every entry with the shared decompression budget, the rules per container
  type, and the conformance check on top. Acceptance is characterised exactly; what an accepted
  container guarantees follows from it.
\<close>

unbundle bit_operations_syntax

section \<open>The raw header check\<close>

definition mimetype_name :: string where "mimetype_name = ''mimetype''"
definition manifest_name :: string where "manifest_name = ''manifest.json''"
definition media_type :: string where "media_type = ''application/vnd.poid+zip''"

definition u16_at :: "byte list \<Rightarrow> nat \<Rightarrow> nat" where
  "u16_at bytes off = unat (bytes ! off) OR push_bit 8 (unat (bytes ! (off + 1)))"

definition get_range :: "byte list \<Rightarrow> nat \<Rightarrow> nat \<Rightarrow> byte list option" where
  "get_range bytes start stop =
     (if start \<le> stop \<and> stop \<le> length bytes then Some (take (stop - start) (drop start bytes)) else None)"

definition check_mimetype_raw :: "byte list \<Rightarrow> poid_error + unit" where
  "check_mimetype_raw bytes =
     (if length bytes < 30 \<or> take 4 bytes \<noteq> pk_magic then Inl NotZip
      else
        let flags = u16_at bytes 6; method = u16_at bytes 8;
            name_len = u16_at bytes 26; extra_len = u16_at bytes 28 in
        rbind (ok_or NotZip (get_range bytes 30 (30 + name_len))) (\<lambda>name.
        if name \<noteq> bytes_of mimetype_name then Inl (MimetypeNotFirst (from_utf8_lossy name))
        else if method \<noteq> 0 \<or> extra_len \<noteq> 0 \<or> flags AND 0x0008 \<noteq> 0 then Inl MimetypeNotStored
        else
          let size = u16_at bytes 18 OR push_bit 16 (u16_at bytes 20) in
          rbind (ok_or NotZip (get_range bytes (30 + name_len) (30 + name_len + size))) (\<lambda>content.
          if content \<noteq> bytes_of media_type then Inl MimetypeMismatch else Inr ())))"

section \<open>The manifest\<close>

definition manifest_parse :: "crates \<Rightarrow> byte list \<Rightarrow> manifest_error + manifest" where
  "manifest_parse K bytes = map_err Syntax (manifest_from_slice K bytes)"

definition to_json_bytes :: "crates \<Rightarrow> manifest \<Rightarrow> manifest_error + byte list" where
  "to_json_bytes K m = map_err Syntax (manifest_to_vec_pretty K m)"

definition read_manifest ::
  "crates \<Rightarrow> zip_archive \<Rightarrow> limits \<Rightarrow> nat \<Rightarrow> poid_error + (manifest \<times> nat)" where
  "read_manifest K archive l budget =
     rbind (ok_or ManifestMissing (z_index_for_name archive manifest_name)) (\<lambda>index.
     rbind (ok_or (CorruptEntry manifest_name) (by_index archive index)) (\<lambda>entry.
     rbind (check_method entry manifest_name) (\<lambda>_.
     rbind (ok_or (CorruptEntry manifest_name) (z_reader entry)) (\<lambda>reader.
     rbind (read_limited reader manifest_name (z_compressed entry) l budget) (\<lambda>(bytes, budget).
     rbind (map_err ManifestErr (manifest_parse K bytes)) (\<lambda>m. Inr (m, budget)))))))"

section \<open>The entries\<close>

type_synonym scan_state = "nat \<times> files \<times> string set"

definition trim_end_slashes :: "string \<Rightarrow> string" where
  "trim_end_slashes name = rev (dropWhile (\<lambda>c. c = CHR ''/'') (rev name))"

definition open_entry ::
  "crates \<Rightarrow> limits \<Rightarrow> nat \<times> zip_entry option \<Rightarrow> scan_state \<Rightarrow> poid_error + scan_state" where
  "open_entry K l ie st =
     (case ie of (i, eo) \<Rightarrow> case st of (budget, files, seen_fold) \<Rightarrow>
     rbind (ok_or (CorruptEntry (''entry #'' @ show_nat i)) eo) (\<lambda>entry.
     rbind (entry_name entry) (\<lambda>name.
     if z_is_dir entry then
       (let trimmed = trim_end_slashes name in
        if trimmed \<noteq> '''' then rbind (check_container_path trimmed) (\<lambda>_. Inr st) else Inr st)
     else
       rbind (check_container_path name) (\<lambda>_.
       rbind (check_not_special entry name) (\<lambda>_.
       rbind (check_method entry name) (\<lambda>_.
       rbind (ok_or (CorruptEntry name) (z_reader entry)) (\<lambda>reader.
       rbind (read_limited reader name (z_compressed entry) l budget) (\<lambda>(content, budget).
       rbind (scan_content (zip_new K) l name content 1 budget) (\<lambda>budget.
       if to_ascii_lowercase name \<in> seen_fold then Inl (DuplicatePath name)
       else Inr (budget,
         if name \<noteq> mimetype_name \<and> name \<noteq> manifest_name then bt_insert name content files else files,
         insert (to_ascii_lowercase name) seen_fold))))))))))"

definition has_tree :: "files \<Rightarrow> string \<Rightarrow> bool" where
  "has_tree files dir = list_ex (\<lambda>k. starts_with k dir) (bt_keys files)"

definition check_data_dir :: "files \<Rightarrow> string \<Rightarrow> poid_error + unit" where
  "check_data_dir files dir = (if has_tree files dir then Inl (DataContainerWithCode dir) else Inr ())"

definition check_type_rules :: "manifest \<Rightarrow> files \<Rightarrow> poid_error + unit" where
  "check_type_rules m files =
     (case m_type m of
        DataType \<Rightarrow> for_each (check_data_dir files) [''app/'', ''src/'', ''deps/'']
      | AppType \<Rightarrow>
          if \<not> has_tree files ''app/'' then Inl AppTreeMissing
          else (case m_entry m of
                  Some entry \<Rightarrow> if \<not> bt_contains files entry then Inl (EntryMissing entry) else Inr ()
                | None \<Rightarrow> Inr ())
      | WorkspaceType \<Rightarrow>
          if \<not> has_tree files ''app/'' then Inl AppTreeMissing
          else if \<not> has_tree files ''apps/'' then Inl WorkspaceAppsMissing
          else Inr ())"

definition mimetype_failure :: "crates \<Rightarrow> byte list \<Rightarrow> poid_error \<Rightarrow> poid_error" where
  "mimetype_failure K bytes e =
     (case e of
        MimetypeNotFirst _ \<Rightarrow>
          (case zip_new K bytes of
             Some archive \<Rightarrow> if z_index_for_name archive mimetype_name = None then MimetypeMissing else e
           | None \<Rightarrow> e)
      | _ \<Rightarrow> e)"

definition open_with_limits :: "crates \<Rightarrow> limits \<Rightarrow> byte list \<Rightarrow> poid_error + poid" where
  "open_with_limits K l bytes =
     rbind (map_err (mimetype_failure K bytes) (check_mimetype_raw bytes)) (\<lambda>_.
     rbind (ok_or NotZip (zip_new K bytes)) (\<lambda>archive.
     if length (z_entries archive) > max_entries l then Inl TooManyEntries
     else
       rbind (read_manifest K archive l (max_total_uncompressed l)) (\<lambda>(m, budget).
       rbind (map_err ManifestErr (validate m)) (\<lambda>_.
       rbind (fold_each (open_entry K l) (enumerate 0 (z_entries archive)) (budget, [], {}))
         (\<lambda>(budget, files, seen_fold).
       rbind (check_type_rules m files) (\<lambda>_.
         Inr \<lparr>c_manifest = m, c_files = files\<rparr>))))))"

definition open_poid :: "crates \<Rightarrow> byte list \<Rightarrow> poid_error + poid" where
  "open_poid K bytes = open_with_limits K limits_default bytes"

definition conformance_check :: "crates \<Rightarrow> limits \<Rightarrow> byte list \<Rightarrow> poid_error + poid" where
  "conformance_check K l bytes =
     rbind (open_with_limits K l bytes) (\<lambda>p.
     rbind (verify K p) (\<lambda>_.
     rbind (signature_status_of K p) (\<lambda>status.
       if status = SigInvalid then Inl SignatureInvalid else Inr p)))"

text \<open>Opening a file: its size is checked before it is read into memory.\<close>

record file_system =
  fs_metadata_len :: "string \<Rightarrow> string + nat"
  fs_read :: "string \<Rightarrow> string + byte list"

definition open_path_with_limits ::
  "crates \<Rightarrow> file_system \<Rightarrow> limits \<Rightarrow> string \<Rightarrow> poid_error + poid" where
  "open_path_with_limits K fs l path =
     rbind (map_err IoErr (fs_metadata_len fs path)) (\<lambda>len.
     if len > max_total_uncompressed l then Inl (ZipBombSize path)
     else rbind (map_err IoErr (fs_read fs path)) (\<lambda>bytes. open_with_limits K l bytes))"

section \<open>What the header check accepts\<close>

definition poid_header :: "byte list \<Rightarrow> bool" where
  "poid_header bytes \<longleftrightarrow> 62 \<le> length bytes \<and> take 4 bytes = pk_magic \<and>
     \<not> bit (bytes ! 6) 3 \<and> bytes ! 8 = 0 \<and> bytes ! 9 = 0 \<and>
     take 4 (drop 18 bytes) = [24, 0, 0, 0] \<and> take 4 (drop 26 bytes) = [8, 0, 0, 0] \<and>
     take 32 (drop 30 bytes) = bytes_of (mimetype_name @ media_type)"

lemma or_push_bit: "a < 2 ^ k \<Longrightarrow> a OR push_bit k b = a + 2 ^ k * (b :: nat)"
proof -
  assume a: "a < 2 ^ k"
  have "a + push_bit k b = a OR push_bit k b"
  proof (rule disjunctive_add)
    fix n
    have "\<not> bit a n" if "k \<le> n"
    proof -
      have "a < 2 ^ n" using a that by (meson less_le_trans one_le_numeral power_increasing)
      then show ?thesis by (simp add: bit_iff_odd)
    qed
    then show "\<not> bit a n \<or> \<not> bit (push_bit k b) n"
      by (auto simp: bit_push_bit_iff not_le)
  qed
  then show ?thesis by (simp add: push_bit_eq_mult mult.commute)
qed

lemma u16_at_eq: "u16_at bytes off = unat (bytes ! off) + 256 * unat (bytes ! (off + 1))"
  unfolding u16_at_def using or_push_bit [of "unat (bytes ! off)" 8] by simp

lemma u16_at_bound: "u16_at bytes off < 65536"
  using unat_byte_less [of "bytes ! off"] unat_byte_less [of "bytes ! (off + 1)"]
  unfolding u16_at_eq by linarith

lemma digit_sum_small: "n < m \<Longrightarrow> x + m * y = n \<longleftrightarrow> x = n \<and> y = (0 :: nat)"
  by (cases y) auto

lemma unat_eq_word: "n < 256 \<Longrightarrow> unat (b :: byte) = n \<longleftrightarrow> b = word_of_nat n"
  by (auto simp: unat_of_nat take_bit_eq_mod)

lemma u16_at_small: "n < 256 \<Longrightarrow> u16_at bytes off = n \<longleftrightarrow> bytes ! off = word_of_nat n \<and> bytes ! (off + 1) = 0"
proof -
  assume n: "n < 256"
  have "unat (bytes ! off) + 256 * unat (bytes ! (off + 1)) = n \<longleftrightarrow>
      unat (bytes ! off) = n \<and> unat (bytes ! (off + 1)) = 0"
    using n by (intro digit_sum_small) simp
  also have "\<dots> \<longleftrightarrow> bytes ! off = word_of_nat n \<and> bytes ! (off + 1) = 0"
    using n by (simp add: unat_eq_word unat_eq_0)
  finally show ?thesis by (simp add: u16_at_eq)
qed

lemma flag_bit_3: "u16_at bytes off AND 0x0008 \<noteq> 0 \<longleftrightarrow> bit (bytes ! off) 3"
proof -
  have "u16_at bytes off AND 2 ^ 3 = 0 \<longleftrightarrow> \<not> bit (u16_at bytes off) 3"
    by (rule and_exp_eq_0_iff_not_bit)
  moreover have "bit (u16_at bytes off) 3 \<longleftrightarrow> bit (bytes ! off) 3"
    by (simp add: u16_at_def bit_or_iff bit_push_bit_iff bit_unsigned_iff)
  ultimately show ?thesis by simp
qed

lemma get_range_Some:
  "get_range bytes start stop = Some x \<longleftrightarrow>
     start \<le> stop \<and> stop \<le> length bytes \<and> x = take (stop - start) (drop start bytes)"
  by (auto simp: get_range_def)

lemma take_drop_4: "i + 4 \<le> length xs \<Longrightarrow>
  take 4 (drop i xs) = [xs ! i, xs ! (i + 1), xs ! (i + 2), xs ! (i + 3)]"
  by (rule nth_equalityI) (auto simp: nth_Cons' less_Suc_eq numeral_eq_Suc)

lemma check_mimetype_raw_iff: "check_mimetype_raw bytes = Inr () \<longleftrightarrow> poid_header bytes"
proof -
  let ?size = "u16_at bytes 18 OR push_bit 16 (u16_at bytes 20)"
  have size: "?size = 24 \<longleftrightarrow> u16_at bytes 18 = 24 \<and> u16_at bytes 20 = 0"
    using u16_at_bound [of bytes 18] or_push_bit [of "u16_at bytes 18" 16 "u16_at bytes 20"]
      digit_sum_small [of 24 65536 "u16_at bytes 18" "u16_at bytes 20"] by simp
  have name_len: "length (bytes_of mimetype_name) = 8" and media_len: "length (bytes_of media_type) = 24"
    by (simp_all add: mimetype_name_def media_type_def)
  have "check_mimetype_raw bytes = Inr () \<longleftrightarrow>
      30 \<le> length bytes \<and> take 4 bytes = pk_magic \<and>
      30 + u16_at bytes 26 \<le> length bytes \<and>
      take (u16_at bytes 26) (drop 30 bytes) = bytes_of mimetype_name \<and>
      u16_at bytes 8 = 0 \<and> u16_at bytes 28 = 0 \<and> \<not> bit (bytes ! 6) 3 \<and>
      30 + u16_at bytes 26 + ?size \<le> length bytes \<and>
      take ?size (drop (30 + u16_at bytes 26) bytes) = bytes_of media_type"
    unfolding flag_bit_3 [symmetric]
    by (auto simp: check_mimetype_raw_def Let_def result_simps get_range_Some)
  also have "\<dots> \<longleftrightarrow> 62 \<le> length bytes \<and> take 4 bytes = pk_magic \<and> u16_at bytes 26 = 8 \<and>
      u16_at bytes 8 = 0 \<and> u16_at bytes 28 = 0 \<and> \<not> bit (bytes ! 6) 3 \<and>
      u16_at bytes 18 = 24 \<and> u16_at bytes 20 = 0 \<and>
      take 8 (drop 30 bytes) = bytes_of mimetype_name \<and> take 24 (drop 38 bytes) = bytes_of media_type"
    (is "?l \<longleftrightarrow> ?r")
  proof
    assume l: ?l
    then have "length (take (u16_at bytes 26) (drop 30 bytes)) = 8"
      using name_len by (elim conjE) (simp only:)
    moreover from l have "30 + u16_at bytes 26 \<le> length bytes" by (elim conjE)
    ultimately have n: "u16_at bytes 26 = 8" unfolding length_take length_drop by linarith
    from l have "length (take ?size (drop (30 + u16_at bytes 26) bytes)) = 24"
      using media_len by (elim conjE) (simp only:)
    moreover from l have "30 + u16_at bytes 26 + ?size \<le> length bytes" by (elim conjE)
    ultimately have s: "?size = 24" unfolding length_take length_drop by linarith
    from l n s show ?r by (simp add: size)
  next
    assume ?r
    moreover then have "?size = 24" by (simp add: size)
    ultimately show ?l by simp
  qed
  also have "\<dots> \<longleftrightarrow> poid_header bytes"
  proof -
    have "take 8 (drop 30 bytes) = bytes_of mimetype_name \<and> take 24 (drop 38 bytes) = bytes_of media_type
        \<longleftrightarrow> take 32 (drop 30 bytes) = bytes_of (mimetype_name @ media_type)" if "62 \<le> length bytes"
    proof -
      have "take 32 (drop 30 bytes) = take 8 (drop 30 bytes) @ take 24 (drop 38 bytes)"
        using take_add [of 8 24 "drop 30 bytes"] by simp
      then show ?thesis using name_len that by simp
    qed
    then show ?thesis
      unfolding poid_header_def
      by (auto simp: u16_at_small take_drop_4)
  qed
  finally show ?thesis .
qed

interpretation header_check: checker check_mimetype_raw poid_header
  by unfold_locales (rule check_mimetype_raw_iff)

section \<open>What the entry loop accepts\<close>

text \<open>What an accepted entry contributes: nothing for a directory, otherwise its name, its content
  and the bytes the archives inside it expand to.\<close>

type_synonym found_file = "string \<times> byte list \<times> nat"

definition regular_entry :: "zip_entry \<Rightarrow> bool" where
  "regular_entry e \<longleftrightarrow> \<not> z_is_symlink e \<and> (\<forall>mode\<in>set_option (z_unix_mode e). \<not> special_mode mode) \<and>
     z_method e \<in> {Stored, Deflated}"

definition file_entry_ok :: "crates \<Rightarrow> limits \<Rightarrow> zip_entry \<Rightarrow> found_file \<Rightarrow> bool" where
  "file_entry_ok K l e f \<longleftrightarrow> (case f of (name, content, used) \<Rightarrow>
     from_utf8 (z_name_raw e) = Some name \<and> \<not> z_is_dir e \<and> container_path name \<and> regular_entry e \<and>
     (\<exists>reader. z_reader e = Some reader \<and> payload reader = Some content) \<and>
     length content \<le> ratio_cap l (z_compressed e) \<and> clean (zip_new K) l 1 content used)"

definition dir_entry_ok :: "zip_entry \<Rightarrow> bool" where
  "dir_entry_ok e \<longleftrightarrow> z_is_dir e \<and>
     (\<exists>name. from_utf8 (z_name_raw e) = Some name \<and>
        (trim_end_slashes name = '''' \<or> container_path (trim_end_slashes name)))"

definition entry_ok :: "crates \<Rightarrow> limits \<Rightarrow> zip_entry option \<Rightarrow> found_file option \<Rightarrow> bool" where
  "entry_ok K l eo out \<longleftrightarrow> (\<exists>e. eo = Some e \<and>
     (case out of None \<Rightarrow> dir_entry_ok e | Some f \<Rightarrow> file_entry_ok K l e f))"

definition found_name :: "found_file \<Rightarrow> string" where "found_name f = fst f"

definition found_size :: "found_file \<Rightarrow> nat" where
  "found_size f = length (fst (snd f)) + snd (snd f)"

definition found_fold :: "found_file \<Rightarrow> string" where
  "found_fold f = to_ascii_lowercase (found_name f)"

definition add_found :: "found_file \<Rightarrow> files \<Rightarrow> files" where
  "add_found f files = (if reserved_name (found_name f) then files
     else bt_insert (found_name f) (fst (snd f)) files)"

lemma check_not_special_iff:
  "check_not_special e name = Inr () \<longleftrightarrow>
     \<not> z_is_symlink e \<and> (\<forall>mode\<in>set_option (z_unix_mode e). \<not> special_mode mode)"
  by (auto simp: check_not_special_def split: option.splits)

lemma reserved_name_iff: "reserved_name k \<longleftrightarrow> k = mimetype_name \<or> k = manifest_name"
  by (simp add: reserved_name_def mimetype_name_def manifest_name_def)

fun fits :: "found_file option \<Rightarrow> scan_state \<Rightarrow> bool" where
  "fits None st = True"
| "fits (Some f) (budget, files, seen) = (found_fold f \<notin> seen \<and> found_size f \<le> budget)"

fun add_outcome :: "found_file option \<Rightarrow> scan_state \<Rightarrow> scan_state" where
  "add_outcome None st = st"
| "add_outcome (Some f) (budget, files, seen) =
     (budget - found_size f, add_found f files, insert (found_fold f) seen)"

lemma open_entry_cases:
  "open_entry K l (i, eo) (budget, files, seen) = Inr st \<longleftrightarrow>
     (\<exists>out. entry_ok K l eo out \<and>
        (case out of None \<Rightarrow> st = (budget, files, seen)
         | Some f \<Rightarrow> found_fold f \<notin> seen \<and> found_size f \<le> budget \<and>
             st = (budget - found_size f, add_found f files, insert (found_fold f) seen)))"
proof (cases eo)
  case None
  then show ?thesis by (simp add: open_entry_def entry_ok_def)
next
  case (Some e)
  show ?thesis
  proof (cases "z_is_dir e")
    case True
    have "open_entry K l (i, eo) (budget, files, seen) = Inr st \<longleftrightarrow>
        dir_entry_ok e \<and> st = (budget, files, seen)"
      using Some True
      by (auto simp: open_entry_def entry_name_def result_simps Let_def check_container_path_iff
          dir_entry_ok_def)
    then show ?thesis
      using Some True by (auto simp: entry_ok_def file_entry_ok_def split: option.splits)
  next
    case False
    have "open_entry K l (i, eo) (budget, files, seen) = Inr st \<longleftrightarrow>
        (\<exists>f. file_entry_ok K l e f \<and> found_fold f \<notin> seen \<and> found_size f \<le> budget \<and>
             st = (budget - found_size f, add_found f files, insert (found_fold f) seen))"
    proof
      assume "open_entry K l (i, eo) (budget, files, seen) = Inr st"
      then obtain name reader content used where "from_utf8 (z_name_raw e) = Some name"
        "container_path name" "regular_entry e" "z_reader e = Some reader"
        "payload reader = Some content" "length content \<le> budget"
        "length content \<le> ratio_cap l (z_compressed e)" "used \<le> budget - length content"
        "clean (zip_new K) l 1 content used" "to_ascii_lowercase name \<notin> seen"
        "st = (budget - length content - used,
           if name \<noteq> mimetype_name \<and> name \<noteq> manifest_name then bt_insert name content files else files,
           insert (to_ascii_lowercase name) seen)"
        using Some False
        by (auto simp: open_entry_def entry_name_def result_simps check_container_path_iff
            check_not_special_iff check_method_iff read_limited_iff scan_content_iff regular_entry_def
            split: if_splits)
      with False show "\<exists>f. file_entry_ok K l e f \<and> found_fold f \<notin> seen \<and> found_size f \<le> budget \<and>
             st = (budget - found_size f, add_found f files, insert (found_fold f) seen)"
        by (intro exI [of _ "(name, content, used)"])
          (auto simp: file_entry_ok_def found_fold_def found_name_def found_size_def add_found_def
            reserved_name_iff)
    next
      assume "\<exists>f. file_entry_ok K l e f \<and> found_fold f \<notin> seen \<and> found_size f \<le> budget \<and>
             st = (budget - found_size f, add_found f files, insert (found_fold f) seen)"
      then obtain name content used where f: "file_entry_ok K l e (name, content, used)"
        "to_ascii_lowercase name \<notin> seen" "length content + used \<le> budget"
        "st = (budget - (length content + used), add_found (name, content, used) files,
           insert (to_ascii_lowercase name) seen)"
        by (auto simp: found_fold_def found_name_def found_size_def)
      then have "scan_content (zip_new K) l name content 1 (budget - length content) =
          Inr (budget - length content - used)"
        using scan_complete(1) [of "zip_new K" l 1 content used] by (auto simp: file_entry_ok_def)
      moreover from f obtain reader where "z_reader e = Some reader"
        "read_limited reader name (z_compressed e) l budget = Inr (content, budget - length content)"
        by (auto simp: file_entry_ok_def read_limited_iff)
      ultimately show "open_entry K l (i, eo) (budget, files, seen) = Inr st"
        using Some False f
        by (auto simp: open_entry_def entry_name_def file_entry_ok_def regular_entry_def
            check_container_path_iff [THEN iffD2] check_not_special_iff [THEN iffD2]
            check_method_iff [THEN iffD2] add_found_def found_name_def reserved_name_iff)
    qed
    then show ?thesis
      using Some False by (simp only: split_option_ex) (simp add: entry_ok_def dir_entry_ok_def)
  qed
qed

definition found_files :: "found_file option list \<Rightarrow> found_file list" where
  "found_files outs = List.map_filter id outs"

lemma found_files_simps [simp]:
  "found_files [] = []" "found_files (None # outs) = found_files outs"
  "found_files (Some f # outs) = f # found_files outs"
  by (simp_all add: found_files_def List.map_filter_simps)

lemma open_entry_iff:
  "open_entry K l ie st = Inr st' \<longleftrightarrow>
     (\<exists>out. entry_ok K l (snd ie) out \<and> fits out st \<and> st' = add_outcome out st)"
proof -
  obtain i eo budget files seen where "ie = (i, eo)" "st = (budget, files, seen)"
    by (cases ie; cases st) auto
  moreover have "(case out of None \<Rightarrow> st' = (budget, files, seen)
         | Some f \<Rightarrow> found_fold f \<notin> seen \<and> found_size f \<le> budget \<and>
             st' = (budget - found_size f, add_found f files, insert (found_fold f) seen)) \<longleftrightarrow>
      fits out (budget, files, seen) \<and> st' = add_outcome out (budget, files, seen)" for out
    by (cases out) auto
  ultimately show ?thesis by (simp add: open_entry_cases)
qed

fun loop_ok :: "crates \<Rightarrow> limits \<Rightarrow> zip_entry option list \<Rightarrow> scan_state \<Rightarrow> found_file option list
    \<Rightarrow> scan_state \<Rightarrow> bool" where
  "loop_ok K l [] st outs st' \<longleftrightarrow> outs = [] \<and> st' = st"
| "loop_ok K l (eo # es) st outs st' \<longleftrightarrow> (case outs of [] \<Rightarrow> False
     | out # outs' \<Rightarrow> entry_ok K l eo out \<and> fits out st \<and> loop_ok K l es (add_outcome out st) outs' st')"

lemma open_entries_loop:
  "fold_each (open_entry K l) (enumerate i es) st = Inr st' \<longleftrightarrow> (\<exists>outs. loop_ok K l es st outs st')"
proof (induction es arbitrary: i st)
  case (Cons eo es)
  have "fold_each (open_entry K l) (enumerate i (eo # es)) st = Inr st' \<longleftrightarrow>
      (\<exists>out outs. entry_ok K l eo out \<and> fits out st \<and> loop_ok K l es (add_outcome out st) outs st')"
    by (simp only: enumerate_simps fold_each.simps rbind_eq_Inr open_entry_iff Cons.IH snd_conv)
      blast
  also have "\<dots> \<longleftrightarrow> (\<exists>outs. loop_ok K l (eo # es) st outs st')"
    by (auto split: list.splits) (metis list.exhaust)
  finally show ?case .
qed auto

lemma loop_ok_iff:
  "loop_ok K l es (budget, files, seen) outs (budget', files', seen') \<longleftrightarrow>
     list_all2 (entry_ok K l) es outs \<and>
     distinct (map found_fold (found_files outs)) \<and>
     set (map found_fold (found_files outs)) \<inter> seen = {} \<and>
     sum_list (map found_size (found_files outs)) \<le> budget \<and>
     budget' = budget - sum_list (map found_size (found_files outs)) \<and>
     files' = fold add_found (found_files outs) files \<and>
     seen' = seen \<union> set (map found_fold (found_files outs))"
proof (induction es arbitrary: budget files seen outs)
  case (Cons eo es)
  show ?case
  proof (cases outs)
    case (Cons out outs')
    then show ?thesis
      by (cases out) (auto simp: Cons.IH)
  qed simp
qed auto

section \<open>What opening accepts\<close>

definition type_rules :: "manifest \<Rightarrow> files \<Rightarrow> bool" where
  "type_rules m files \<longleftrightarrow>
     (case m_type m of
        DataType \<Rightarrow> \<forall>k\<in>fst ` set files. \<forall>dir\<in>{''app/'', ''src/'', ''deps/''}. \<not> starts_with k dir
      | AppType \<Rightarrow> (\<exists>k\<in>fst ` set files. starts_with k ''app/'') \<and>
          (\<forall>entry\<in>set_option (m_entry m). entry \<in> fst ` set files)
      | WorkspaceType \<Rightarrow> (\<exists>k\<in>fst ` set files. starts_with k ''app/'') \<and>
          (\<exists>k\<in>fst ` set files. starts_with k ''apps/''))"

lemma has_tree_iff: "has_tree files dir \<longleftrightarrow> (\<exists>k\<in>fst ` set files. starts_with k dir)"
  by (simp add: has_tree_def list_ex_iff)

lemma check_data_dir_iff: "check_data_dir files dir = Inr () \<longleftrightarrow> \<not> has_tree files dir"
  by (simp add: check_data_dir_def)

interpretation data_dir_check: checker "check_data_dir files" "\<lambda>dir. \<not> has_tree files dir" for files
  by unfold_locales (rule check_data_dir_iff)

lemma check_type_rules_iff: "check_type_rules m files = Inr () \<longleftrightarrow> type_rules m files"
proof (cases "m_type m")
  case DataType
  have "check_type_rules m files = Inr () \<longleftrightarrow>
      list_all (\<lambda>dir. \<not> has_tree files dir) [''app/'', ''src/'', ''deps/'']"
    unfolding check_type_rules_def DataType container_type.case data_dir_check.for_each_check ..
  with DataType show ?thesis
    by (auto simp: type_rules_def has_tree_iff)
next
  case AppType
  then show ?thesis
    by (auto simp: check_type_rules_def type_rules_def has_tree_iff bt_contains_iff
        split: option.splits)
next
  case WorkspaceType
  then show ?thesis
    by (auto simp: check_type_rules_def type_rules_def has_tree_iff)
qed

definition files_of :: "found_file option list \<Rightarrow> files" where
  "files_of outs = fold add_found (found_files outs) []"

text \<open>The archive, the manifest with the budget left after it, and the outcome of every entry that
  make the bytes an acceptable container.\<close>

definition acceptable ::
  "crates \<Rightarrow> limits \<Rightarrow> byte list \<Rightarrow> zip_archive \<Rightarrow> manifest \<Rightarrow> nat \<Rightarrow> found_file option list \<Rightarrow> bool" where
  "acceptable K l bytes a m budget outs \<longleftrightarrow>
     poid_header bytes \<and> zip_new K bytes = Some a \<and> length (z_entries a) \<le> max_entries l \<and>
     read_manifest K a l (max_total_uncompressed l) = Inr (m, budget) \<and> manifest_ok m \<and>
     list_all2 (entry_ok K l) (z_entries a) outs \<and>
     distinct (map found_fold (found_files outs)) \<and>
     sum_list (map found_size (found_files outs)) \<le> budget \<and>
     type_rules m (files_of outs)"

lemma open_iff:
  "open_with_limits K l bytes = Inr p \<longleftrightarrow>
     (\<exists>a m budget outs. acceptable K l bytes a m budget outs \<and>
        p = \<lparr>c_manifest = m, c_files = files_of outs\<rparr>)"
proof -
  have loop: "fold_each (open_entry K l) (enumerate 0 es) (budget, [], {}) = Inr (b, files, seen) \<longleftrightarrow>
      (\<exists>outs. list_all2 (entry_ok K l) es outs \<and> distinct (map found_fold (found_files outs)) \<and>
        sum_list (map found_size (found_files outs)) \<le> budget \<and>
        b = budget - sum_list (map found_size (found_files outs)) \<and> files = files_of outs \<and>
        seen = set (map found_fold (found_files outs)))" for es budget b files seen
    by (simp add: open_entries_loop loop_ok_iff files_of_def)
  have "open_with_limits K l bytes = Inr p \<longleftrightarrow>
      (\<exists>a m budget b files seen. poid_header bytes \<and> zip_new K bytes = Some a \<and>
         length (z_entries a) \<le> max_entries l \<and>
         read_manifest K a l (max_total_uncompressed l) = Inr (m, budget) \<and> manifest_ok m \<and>
         fold_each (open_entry K l) (enumerate 0 (z_entries a)) (budget, [], {}) = Inr (b, files, seen) \<and>
         type_rules m files \<and> p = \<lparr>c_manifest = m, c_files = files\<rparr>)" (is "_ \<longleftrightarrow> ?r")
  proof
    assume "open_with_limits K l bytes = Inr p"
    then show ?r
      by (auto simp: open_with_limits_def result_simps check_mimetype_raw_iff validate_iff
          check_type_rules_iff not_less split: if_splits)
  next
    assume ?r
    then show "open_with_limits K l bytes = Inr p"
      by (auto simp: open_with_limits_def check_mimetype_raw_iff [THEN iffD2]
          validate_iff [THEN iffD2] check_type_rules_iff [THEN iffD2])
  qed
  then show ?thesis
    unfolding loop acceptable_def by blast
qed

section \<open>What an accepted container guarantees\<close>

lemma add_found_ok: "bt_ok m \<Longrightarrow> bt_ok (fold add_found fs m)"
  by (induction fs arbitrary: m) (auto simp: add_found_def)

lemma add_found_get:
  "distinct (map found_name fs) \<Longrightarrow>
   bt_get (fold add_found fs m) k = Some c \<longleftrightarrow>
     (\<exists>f\<in>set fs. found_name f = k \<and> \<not> reserved_name k \<and> fst (snd f) = c) \<or>
     ((\<forall>f\<in>set fs. found_name f \<noteq> k \<or> reserved_name k) \<and> bt_get m k = Some c)"
proof (induction fs arbitrary: m)
  case (Cons f fs)
  then have "found_name f \<notin> found_name ` set fs" by simp
  then have "\<forall>g\<in>set fs. found_name g \<noteq> found_name f" by (metis image_eqI)
  moreover have "bt_get (add_found f m) k =
      (if k = found_name f \<and> \<not> reserved_name k then Some (fst (snd f)) else bt_get m k)"
    by (auto simp: add_found_def)
  ultimately show ?case using Cons by auto
qed simp

lemma fold_names_distinct: "distinct (map found_fold fs) \<Longrightarrow> distinct (map found_name fs)"
  by (induction fs) (auto simp: found_fold_def)

lemma files_of_get:
  assumes "distinct (map found_fold (found_files outs))"
  shows "bt_get (files_of outs) k = Some c \<longleftrightarrow>
     (\<exists>f\<in>set (found_files outs). found_name f = k \<and> \<not> reserved_name k \<and> fst (snd f) = c)"
  unfolding files_of_def add_found_get [OF fold_names_distinct [OF assms]] by simp

lemma files_of_ok [simp]: "bt_ok (files_of outs)"
  by (simp add: files_of_def add_found_ok)

lemma sum_list_insert:
  "bt_get m k = None \<Longrightarrow>
     sum_list (map g (bt_insert k v m)) = g (k, v) + sum_list (map g m)" for g :: "_ \<Rightarrow> nat"
  by (induction k v m rule: bt_insert.induct) (auto split: if_splits)

lemma files_of_sum_le:
  assumes "distinct (map found_name fs)" "\<forall>f\<in>set fs. bt_get m (found_name f) = None"
    and "\<forall>f\<in>set fs. u (found_name f) = snd (snd f)"
  shows "sum_list (map (\<lambda>(k, c). length c + u k) (fold add_found fs m)) \<le>
     sum_list (map (\<lambda>(k, c). length c + u k) m) + sum_list (map found_size fs)"
  using assms
proof (induction fs arbitrary: m)
  case (Cons f fs)
  have "sum_list (map (\<lambda>(k, c). length c + u k) (add_found f m)) \<le>
      sum_list (map (\<lambda>(k, c). length c + u k) m) + found_size f"
    using Cons.prems by (auto simp: add_found_def sum_list_insert found_size_def)
  moreover have "found_name f \<notin> found_name ` set fs"
    using Cons.prems by simp
  then have "\<forall>g\<in>set fs. found_name g \<noteq> found_name f" by (metis image_eqI)
  with Cons.prems have "\<forall>g\<in>set fs. bt_get (add_found f m) (found_name g) = None"
    by (simp add: add_found_def)
  with Cons have "sum_list (map (\<lambda>(k, c). length c + u k) (fold add_found fs (add_found f m))) \<le>
      sum_list (map (\<lambda>(k, c). length c + u k) (add_found f m)) + sum_list (map found_size fs)"
    by auto
  ultimately show ?case by simp
qed simp

lemma outcome_member:
  "list_all2 (entry_ok K l) es outs \<Longrightarrow> f \<in> set (found_files outs) \<Longrightarrow>
     \<exists>e. Some e \<in> set es \<and> file_entry_ok K l e f"
proof (induction es outs rule: list_all2_induct)
  case (Cons eo es out outs)
  then show ?case by (cases out) (auto simp: entry_ok_def)
qed simp

lemma read_manifest_budget: "read_manifest K a l b = Inr (m, b') \<Longrightarrow> b' \<le> b"
  by (auto simp: read_manifest_def result_simps read_limited_iff)

lemma acceptable_container:
  assumes "acceptable K l bytes a m budget outs"
  shows "container_inv \<lparr>c_manifest = m, c_files = files_of outs\<rparr>"
    and "inj_on to_ascii_lowercase (fst ` set (files_of outs))"
    and "\<exists>u. (\<forall>(k, c)\<in>set (files_of outs). clean (zip_new K) l 1 c (u k)) \<and>
      sum_list (map (\<lambda>(k, c). length c + u k) (files_of outs)) \<le> max_total_uncompressed l"
proof -
  let ?fs = "found_files outs"
  have dist: "distinct (map found_fold ?fs)" and all: "list_all2 (entry_ok K l) (z_entries a) outs"
    and sum: "sum_list (map found_size ?fs) \<le> budget"
    using assms by (simp_all add: acceptable_def)
  note names = fold_names_distinct [OF dist]
  have good: "container_path (found_name f) \<and> clean (zip_new K) l 1 (fst (snd f)) (snd (snd f))"
    if "f \<in> set ?fs" for f
    using outcome_member [OF all that] by (auto simp: file_entry_ok_def found_name_def)
  have member: "(k, c) \<in> set (files_of outs) \<longleftrightarrow>
      (\<exists>f\<in>set ?fs. found_name f = k \<and> \<not> reserved_name k \<and> fst (snd f) = c)" for k c
    by (simp add: files_of_get [OF dist] bt_get_iff_set [symmetric])
  show "container_inv \<lparr>c_manifest = m, c_files = files_of outs\<rparr>"
    using good by (auto simp: container_inv_def member)
  show "inj_on to_ascii_lowercase (fst ` set (files_of outs))"
  proof (rule inj_onI)
    fix k k'
    assume "k \<in> fst ` set (files_of outs)" "k' \<in> fst ` set (files_of outs)"
      and fold: "to_ascii_lowercase k = to_ascii_lowercase k'"
    then obtain f g where fg: "f \<in> set ?fs" "g \<in> set ?fs" "found_name f = k" "found_name g = k'"
      unfolding image_iff by (metis member prod.collapse)
    with fold have "found_fold f = found_fold g" by (simp add: found_fold_def)
    moreover have "inj_on found_fold (set ?fs)"
      using dist by (simp add: distinct_map)
    ultimately show "k = k'" using fg by (metis inj_onD)
  qed
  define u where "u k = (case map_of (map (\<lambda>f. (found_name f, snd (snd f))) ?fs) k of
      Some n \<Rightarrow> n | None \<Rightarrow> 0)" for k
  have u: "u (found_name f) = snd (snd f)" if "f \<in> set ?fs" for f
  proof -
    have "map_of (map (\<lambda>f. (found_name f, snd (snd f))) ?fs) (found_name f) = Some (snd (snd f))"
      using names that by (intro map_of_is_SomeI) (auto simp: o_def)
    then show ?thesis by (simp add: u_def)
  qed
  have "sum_list (map (\<lambda>(k, c). length c + u k) (files_of outs)) \<le> sum_list (map found_size ?fs)"
    using files_of_sum_le [OF names, of "[]" u] u by (simp add: files_of_def)
  also have "\<dots> \<le> max_total_uncompressed l"
    using sum assms read_manifest_budget by (auto simp: acceptable_def intro: le_trans)
  finally show "\<exists>u. (\<forall>(k, c)\<in>set (files_of outs). clean (zip_new K) l 1 c (u k)) \<and>
      sum_list (map (\<lambda>(k, c). length c + u k) (files_of outs)) \<le> max_total_uncompressed l"
    using good u by (intro exI [of _ u]) (auto simp: member)
qed

text \<open>
  C8: \<open>open_with_limits\<close> returns a container exactly when the bytes start with the fixed
  \<open>mimetype\<close> header, parse as an archive within the entry limit whose manifest is readable and
  valid, every entry is a legal directory or a clean regular file with a legal path, no two file
  names agree up to ASCII case, everything expands within the byte budget, and the files satisfy
  the rules of the container's type; and then it is that manifest with those files.
\<close>

theorem open_accepts_exactly_acceptable_containers:
  "open_with_limits K l bytes = Inr p \<longleftrightarrow>
     (\<exists>a m budget outs. acceptable K l bytes a m budget outs \<and>
        p = \<lparr>c_manifest = m, c_files = files_of outs\<rparr>)"
  by (rule open_iff)


definition sample_bytes :: "byte list" where
  "sample_bytes = pk_magic @ replicate 14 0 @ [24, 0, 0, 0] @ replicate 4 0 @ [8, 0, 0, 0] @
     bytes_of (mimetype_name @ media_type)"

definition sample_archive :: zip_archive where
  "sample_archive =
     \<lparr>z_entries = [Some (sample_entry ''mimetype'' (bytes_of media_type)),
        Some (sample_entry ''manifest.json'' [1]), Some (sample_entry ''app/i'' [1])],
      z_index_for_name = (\<lambda>n. if n = manifest_name then Some 1 else None)\<rparr>"

definition sample_conformant :: poid where
  "sample_conformant = sample_poid\<lparr>c_manifest :=
     refresh sample_sha (c_manifest sample_poid) (c_files sample_poid)\<rparr>"

definition reader_crates_for :: "manifest \<Rightarrow> crates" where
  "reader_crates_for m = sample_crates
     \<lparr>zip_new := (\<lambda>bytes. if bytes = sample_bytes then Some sample_archive else None),
      manifest_from_slice := (\<lambda>_. Inr m)\<rparr>"

definition sample_reader_crates :: crates where
  "sample_reader_crates = reader_crates_for (c_manifest sample_conformant)"

lemma sample_header: "poid_header sample_bytes"
  unfolding poid_header_def sample_bytes_def
  by (simp add: pk_magic_def mimetype_name_def media_type_def numeral_eq_Suc)

lemma refresh_manifest_ok:
  assumes "manifest_ok m" "\<And>x. length (sha x) = 32"
  shows "manifest_ok (refresh sha m files)"
proof -
  have "integrity_ok g" if "m_integrity (refresh sha m files) = Some g" for g
    using refresh_integrity [OF that] tree_digest_hex [OF assms(2)]
    by (auto simp: integrity_ok_def)
  moreover have "m_integrity (refresh sha m files) \<noteq> None"
    by (simp add: refresh_def Let_def)
  ultimately show ?thesis
    using assms(1) by (auto simp: manifest_ok_def runnable_ok_def data_ok_def)
qed

lemma sample_poid_manifest_ok: "manifest_ok (c_manifest sample_poid)"
proof -
  have "is_reverse_dns ''com.example.x''" "is_semver ''1.0.0''" "check_container_path ''app/i'' = Inr ()"
    by code_simp+
  then show ?thesis
    unfolding sample_poid_def
    by (simp add: spec_names is_reverse_dns_iff is_semver_iff check_container_path_iff)
qed

lemma sample_manifest_ok: "manifest_ok (c_manifest sample_conformant)"
  using sample_poid_manifest_ok by (simp add: sample_conformant_def refresh_manifest_ok)

lemma sample_file_ok:
  assumes "check_container_path name = Inr ()" "is_ascii name" "\<not> has_exec_magic data"
    and "\<not> starts_with data pk_magic" "data \<noteq> []" "length data < 1000"
  shows "file_entry_ok (reader_crates_for m) limits_default (sample_entry name data) (name, data, 0)"
proof -
  have "clean (zip_new (reader_crates_for m)) limits_default 1 data 0"
    using assms by (intro plain)
  moreover have "\<not> special_mode 0x81A4"
    by (simp add: special_mode_def)
  ultimately show ?thesis
    using assms
    by (simp add: file_entry_ok_def sample_entry_def regular_entry_def from_utf8_ascii
        check_container_path_iff ratio_cap_def limits_default_def)
qed

lemma reader_opens_sample:
  assumes "manifest_ok m" "type_rules m (c_files sample_poid)"
  shows "open_with_limits (reader_crates_for m) limits_default sample_bytes =
    Inr \<lparr>c_manifest = m, c_files = c_files sample_poid\<rparr>"
proof -
  let ?outs = "[Some (''mimetype'', bytes_of media_type, 0), Some (''manifest.json'', [1], 0),
      Some (''app/i'', [1], 0)] :: found_file option list"
  have paths: "check_container_path ''mimetype'' = Inr ()" "check_container_path ''manifest.json'' = Inr ()"
    "check_container_path ''app/i'' = Inr ()"
    by code_simp+
  have magic: "\<not> has_exec_magic (bytes_of media_type)" "\<not> has_exec_magic [1]"
    "\<not> starts_with (bytes_of media_type) pk_magic" "\<not> starts_with [1] pk_magic"
    by (simp_all add: has_exec_magic_def exec_magics_def media_type_def pk_magic_def)
  have entries: "list_all2 (entry_ok (reader_crates_for m) limits_default) (z_entries sample_archive) ?outs"
    using sample_file_ok [OF paths(1) _ magic(1,3)] sample_file_ok [OF paths(2) _ magic(2,4)]
      sample_file_ok [OF paths(3) _ magic(2,4)]
    by (simp add: sample_archive_def entry_ok_def media_type_def)
  have "read_manifest (reader_crates_for m) sample_archive limits_default
      (max_total_uncompressed limits_default) =
      Inr (m, max_total_uncompressed limits_default - 1)"
    by (simp add: read_manifest_def sample_archive_def reader_crates_for_def by_index_def
        sample_entry_def check_method_def read_limited_def limits_default_def ratio_cap_def
        manifest_parse_def)
  moreover have files: "files_of ?outs = c_files sample_poid"
    by (simp add: files_of_def add_found_def found_name_def reserved_name_def sample_poid_def)
  moreover have "distinct (map found_fold (found_files ?outs))"
    by (simp add: found_fold_def found_name_def)
  moreover have "sum_list (map found_size (found_files ?outs)) \<le> max_total_uncompressed limits_default - 1"
    by (simp add: found_size_def media_type_def limits_default_def)
  ultimately have "acceptable (reader_crates_for m) limits_default sample_bytes sample_archive
      m (max_total_uncompressed limits_default - 1) ?outs"
    using entries sample_header assms
    by (simp add: acceptable_def reader_crates_for_def)
      (simp add: sample_archive_def limits_default_def)
  then show ?thesis
    unfolding open_iff using files by (intro exI conjI) (assumption, simp)
qed

lemma sample_open:
  "open_with_limits sample_reader_crates limits_default sample_bytes = Inr sample_conformant"
proof -
  have "type_rules (c_manifest sample_conformant) (c_files sample_poid)"
    by (simp add: type_rules_def sample_conformant_def sample_poid_def new_app_def)
  from reader_opens_sample [OF sample_manifest_ok this] show ?thesis
    by (simp add: sample_reader_crates_def sample_conformant_def)
qed


text \<open>
  The conformance check passes exactly the containers that open, whose stored digests equal the
  recomputed ones, and that are unsigned or carry a signature that verifies; the payload such a
  signature covers holds the digests of the files actually present.
\<close>

theorem conformance_check_exact:
  "(conformance_check K l bytes = Inr p \<longleftrightarrow>
      open_with_limits K l bytes = Inr p \<and> verify K p = Inr () \<and>
      (bt_get (c_files p) signature_path = None \<or>
       (\<exists>key. signature_status_of K p = Inr (SigValid key)))) \<and>
   (conformance_check K l bytes = Inr p \<longrightarrow>
      y_integrity_app (payload_of (c_manifest p)) = tree_digest (sha256 K) (c_files p) ''app/'' \<and>
      y_integrity_deps (payload_of (c_manifest p)) = tree_digest (sha256 K) (c_files p) ''deps/'')"
proof -
  have status: "(\<exists>s. signature_status_of K p = Inr s \<and> s \<noteq> SigInvalid) \<longleftrightarrow>
      bt_get (c_files p) signature_path = None \<or> (\<exists>key. signature_status_of K p = Inr (SigValid key))"
  proof (cases "bt_get (c_files p) signature_path")
    case (Some block)
    have "verify_block K (c_manifest p) block \<noteq> Inr Unsigned"
      by (auto simp: verify_block_def result_simps split: if_splits)
    with Some show ?thesis
      by (auto simp: signature_status_of_def) (metis signature_status.exhaust)
  qed (simp add: signature_status_of_def)
  have accept: "conformance_check K l bytes = Inr p \<longleftrightarrow>
      open_with_limits K l bytes = Inr p \<and> verify K p = Inr () \<and>
      (\<exists>s. signature_status_of K p = Inr s \<and> s \<noteq> SigInvalid)"
    by (auto simp: conformance_check_def result_simps split: if_splits)
  have "verify K p = Inr () \<Longrightarrow>
      y_integrity_app (payload_of (c_manifest p)) = tree_digest (sha256 K) (c_files p) ''app/'' \<and>
      y_integrity_deps (payload_of (c_manifest p)) = tree_digest (sha256 K) (c_files p) ''deps/''"
    by (auto simp: verify_iff payload_of_def split: option.splits)
  then show ?thesis unfolding accept status by blast
qed

theorem conformance_check_exact_witness:
  "conformance_check sample_reader_crates limits_default sample_bytes = Inr sample_conformant"
proof -
  have "verify sample_reader_crates sample_conformant = Inr ()"
    by (simp add: verify_iff sample_reader_crates_def reader_crates_for_def sample_crates_def sample_conformant_def
        refresh_def Let_def)
  moreover have "bt_get (c_files sample_conformant) signature_path = None"
    by (simp add: sample_conformant_def sample_poid_def signature_path_def)
  ultimately show ?thesis
    using conformance_check_exact [of sample_reader_crates limits_default sample_bytes sample_conformant]
      sample_open by blast
qed

end
