(* ===== verification/Container_Writer.thy ===== *)
theory Container_Writer
  imports Container_Reader
begin

text \<open>
  \<open>poid-core/src/write.rs\<close>: the builder and \<open>pack\<close>. What the writer produces opens again as the same
  container, under stated bounds; without them it does not, although the code's comment says the
  writer cannot produce a container that \<open>open\<close> would reject.
\<close>

section \<open>The builder\<close>

record poid_builder =
  bl_manifest :: manifest
  bl_files :: files

definition builder_new :: "manifest \<Rightarrow> poid_builder" where
  "builder_new m = \<lparr>bl_manifest = m, bl_files = []\<rparr>"

definition builder_file :: "string \<Rightarrow> byte list \<Rightarrow> poid_builder \<Rightarrow> poid_error + poid_builder" where
  "builder_file path content b =
     rbind (check_container_path path) (\<lambda>_.
     if path = mimetype_name \<or> path = manifest_name
     then Inl (InvalidPath path ''reserved name; the writer generates it'')
     else if bt_contains (bl_files b) path then Inl (DuplicatePath path)
     else Inr (b\<lparr>bl_files := bt_insert path content (bl_files b)\<rparr>))"

section \<open>Packing\<close>

definition check_unique :: "string \<Rightarrow> string set \<Rightarrow> poid_error + string set" where
  "check_unique path seen_fold =
     (if to_ascii_lowercase path \<in> seen_fold then Inl (DuplicatePath path)
      else Inr (insert (to_ascii_lowercase path) seen_fold))"

definition scan_file :: "crates \<Rightarrow> limits \<Rightarrow> string \<times> byte list \<Rightarrow> nat \<Rightarrow> poid_error + nat" where
  "scan_file K l pc budget = scan_content (zip_new K) l (fst pc) (snd pc) 1 budget"

definition zip_entries_of :: "byte list \<Rightarrow> files \<Rightarrow> zip_input" where
  "zip_entries_of manifest_json files =
     (mimetype_name, Stored, bytes_of media_type)
     # (manifest_name, Deflated, manifest_json)
     # map (\<lambda>(path, content). (path, Deflated, content)) files"

definition pack :: "crates \<Rightarrow> poid_builder \<Rightarrow> poid_error + byte list" where
  "pack K b =
     (let files = bl_files b; l = limits_default in
      rbind (fold_each check_unique (bt_keys files) {}) (\<lambda>_.
      rbind (fold_each (scan_file K l) files (max_total_uncompressed l)) (\<lambda>_.
      let m = refresh (sha256 K) (bl_manifest b) files in
      rbind (map_err ManifestErr (validate m)) (\<lambda>_.
      rbind (check_type_rules m files) (\<lambda>_.
      rbind (map_err ManifestErr (to_json_bytes K m)) (\<lambda>manifest_json.
        map_err IoErr (zip_write K (zip_entries_of manifest_json files))))))))"

definition to_bytes :: "crates \<Rightarrow> poid \<Rightarrow> poid_error + byte list" where
  "to_bytes K p = pack K \<lparr>bl_manifest = c_manifest p, bl_files = c_files p\<rparr>"

section \<open>What packing accepts\<close>

lemma check_unique_loop:
  "fold_each check_unique ks seen = Inr seen' \<longleftrightarrow>
     distinct (map to_ascii_lowercase ks) \<and> to_ascii_lowercase ` set ks \<inter> seen = {} \<and>
     seen' = seen \<union> to_ascii_lowercase ` set ks"
  by (induction ks arbitrary: seen) (auto simp: check_unique_def result_simps)

lemma scan_file_loop:
  "fold_each (scan_file K l) files budget = Inr left \<longleftrightarrow>
     (\<exists>us. list_all2 (\<lambda>pc u. clean (zip_new K) l 1 (snd pc) u) files us \<and>
        sum_list us \<le> budget \<and> left = budget - sum_list us)"
proof (induction files arbitrary: budget)
  case (Cons pc files)
  let ?all = "\<lambda>files us. list_all2 (\<lambda>pc u. clean (zip_new K) l 1 (snd pc) u) files us"
  show ?case
  proof
    assume "fold_each (scan_file K l) (pc # files) budget = Inr left"
    then obtain t where "scan_file K l pc budget = Inr t" "fold_each (scan_file K l) files t = Inr left"
      by (auto simp: result_simps)
    then obtain u us where "clean (zip_new K) l 1 (snd pc) u" "u \<le> budget" "t = budget - u"
      "?all files us" "sum_list us \<le> t" "left = t - sum_list us"
      unfolding Cons.IH scan_file_def scan_content_iff by blast
    then show "\<exists>us. ?all (pc # files) us \<and> sum_list us \<le> budget \<and> left = budget - sum_list us"
      by (intro exI [of _ "u # us"]) auto
  next
    assume "\<exists>us. ?all (pc # files) us \<and> sum_list us \<le> budget \<and> left = budget - sum_list us"
    then obtain u us where u: "clean (zip_new K) l 1 (snd pc) u" "u + sum_list us \<le> budget"
      "?all files us" "left = budget - (u + sum_list us)"
      by (auto simp: list_all2_Cons1)
    then have "fold_each (scan_file K l) files (budget - u) = Inr left"
      unfolding Cons.IH by (intro exI [of _ us]) auto
    moreover have "scan_file K l pc budget = Inr (budget - u)"
      using u scan_complete(1) [OF u(1)] by (simp add: scan_file_def)
    ultimately show "fold_each (scan_file K l) (pc # files) budget = Inr left"
      by simp
  qed
qed auto

lemma pack_iff:
  "pack K b = Inr bytes \<longleftrightarrow>
     (\<exists>us json. distinct (map to_ascii_lowercase (bt_keys (bl_files b))) \<and>
        list_all2 (\<lambda>pc u. clean (zip_new K) limits_default 1 (snd pc) u) (bl_files b) us \<and>
        sum_list us \<le> max_total_uncompressed limits_default \<and>
        manifest_ok (refresh (sha256 K) (bl_manifest b) (bl_files b)) \<and>
        type_rules (refresh (sha256 K) (bl_manifest b) (bl_files b)) (bl_files b) \<and>
        manifest_to_vec_pretty K (refresh (sha256 K) (bl_manifest b) (bl_files b)) = Inr json \<and>
        zip_write K (zip_entries_of json (bl_files b)) = Inr bytes)"
  by (auto simp: pack_def Let_def result_simps check_unique_loop scan_file_loop validate_iff
      check_type_rules_iff to_json_bytes_def)

lemma builder_file_inv:
  assumes "container_inv \<lparr>c_manifest = m, c_files = bl_files b\<rparr>" "builder_file path content b = Inr b'"
  shows "container_inv \<lparr>c_manifest = m, c_files = bl_files b'\<rparr>"
  using assms
proof -
  have "b' = b\<lparr>bl_files := bt_insert path content (bl_files b)\<rparr>" "container_path path"
    "\<not> reserved_name path"
    using assms(2)
    by (auto simp: builder_file_def result_simps check_container_path_iff reserved_name_iff
        split: if_splits)
  with put_file_inv [OF assms(1), of path content] show ?thesis
    by (simp add: put_file_def)
qed

section \<open>Documented behaviour of the \<open>zip\<close> and \<open>serde_json\<close> crates\<close>

definition entry_written :: "string \<times> compression_method \<times> byte list \<Rightarrow> zip_entry option \<Rightarrow> bool" where
  "entry_written w eo \<longleftrightarrow> (case w of (name, method, content) \<Rightarrow>
     \<exists>e reader. eo = Some e \<and> z_name_raw e = bytes_of name \<and> z_is_dir e = ends_with name ''/'' \<and>
       \<not> z_is_symlink e \<and> z_unix_mode e = Some 0x81A4 \<and> z_method e = method \<and>
       z_reader e = Some reader \<and> payload reader = Some content)"

text \<open>Reading back what was written: the same entries in the same order, found by name, and a stored
  first entry named \<open>mimetype\<close> at offset 0 without extra field or data descriptor.\<close>

definition zip_roundtrip :: "crates \<Rightarrow> bool" where
  "zip_roundtrip K \<longleftrightarrow>
     (\<forall>ws bytes. zip_write K ws = Inr bytes \<longrightarrow> distinct (map fst ws) \<longrightarrow>
        (\<exists>a. zip_new K bytes = Some a \<and> list_all2 entry_written ws (z_entries a) \<and>
           (\<forall>i<length ws. z_index_for_name a (fst (ws ! i)) = Some i)) \<and>
        (\<forall>rest. ws = (mimetype_name, Stored, bytes_of media_type) # rest \<longrightarrow> poid_header bytes))"

definition manifest_json_ok :: "crates \<Rightarrow> manifest \<Rightarrow> bool" where
  "manifest_json_ok K m \<longleftrightarrow>
     (\<forall>json. manifest_to_vec_pretty K m = Inr json \<longrightarrow>
        manifest_from_slice K json = Inr m \<and> starts_with json (bytes_of ''{''))"

section \<open>Reading back\<close>

lemma list_all2_map_entries:
  "list_all2 P (map f xs) ys \<longleftrightarrow> list_all2 (\<lambda>x. P (f x)) xs ys"
  by (simp add: list_all2_map1)

definition outcomes :: "byte list \<Rightarrow> files \<Rightarrow> nat list \<Rightarrow> found_file option list" where
  "outcomes json files us =
     Some (mimetype_name, bytes_of media_type, 0) # Some (manifest_name, json, 0) #
     map (\<lambda>((k, c), u). Some (k, c, u)) (zip files us)"

lemma found_files_outcomes:
  "found_files (outcomes json files us) =
     (mimetype_name, bytes_of media_type, 0) # (manifest_name, json, 0) #
     map (\<lambda>((k, c), u). (k, c, u)) (zip files us)"
proof -
  have "found_files (map (\<lambda>x. Some (f x)) xs) = map f xs" for f :: "'a \<Rightarrow> found_file" and xs
    by (induction xs) simp_all
  from this [of "\<lambda>((k, c), u). (k, c, u)" "zip files us"] show ?thesis
    by (simp add: outcomes_def split_def)
qed

lemma fold_add_found_plain:
  assumes "length us = length files" "\<forall>k\<in>fst ` set files. \<not> reserved_name k"
  shows "fold add_found (map (\<lambda>((k, c), u). (k, c, u)) (zip files us)) m =
    fold (\<lambda>(k, c). bt_insert k c) files m"
  using assms
proof (induction files us arbitrary: m rule: list_induct2')
  case (4 e files u us)
  then show ?case by (cases e) (simp add: add_found_def found_name_def)
qed auto

lemma files_of_outcomes:
  assumes "length us = length files" "container_inv \<lparr>c_manifest = m, c_files = files\<rparr>"
  shows "files_of (outcomes json files us) = files"
proof -
  have "files_of (outcomes json files us) = bt_of_list files"
    using assms fold_add_found_plain [OF assms(1), of "[]"]
    by (simp add: files_of_def found_files_outcomes add_found_def found_name_def reserved_name_iff
        container_inv_def bt_of_list_def)
  then show ?thesis using assms(2) by (simp add: bt_of_list_id container_inv_def)
qed

lemma map_zip_fst:
  "length us = length files \<Longrightarrow> map (\<lambda>((k, c), u). f k) (zip files us) = map (\<lambda>(k, c). f k) files"
  by (induction files us rule: list_induct2') auto

lemma written_file_ok:
  assumes "entry_written (name, method, content) eo" "method = Stored \<or> method = Deflated"
    and "container_path name" "from_utf8 (bytes_of name) = Some name"
    and "clean (zip_new K) l 1 content used"
    and "\<forall>e. eo = Some e \<longrightarrow> length content \<le> ratio_cap l (z_compressed e)"
  shows "entry_ok K l eo (Some (name, content, used))"
proof -
  have "\<not> ends_with name ''/''"
    using assms(3) container_path_not_slash_end by (auto simp: ends_with_iff)
  moreover have "\<not> special_mode 0x81A4"
    by (simp add: special_mode_def)
  ultimately show ?thesis
    using assms
    by (auto simp: entry_ok_def entry_written_def file_entry_ok_def regular_entry_def)
qed

text \<open>The bounds within which the reader accepts what the writer wrote: the entry limit, names that
  do not collide with the two generated entries on a case-folding file system, the total size, and
  the ratio cap on each entry (an entry of at most 1 MiB always meets it).\<close>

definition readable_back :: "crates \<Rightarrow> byte list \<Rightarrow> files \<Rightarrow> byte list \<Rightarrow> bool" where
  "readable_back K json files bytes \<longleftrightarrow>
     (let l = limits_default in
      length files + 2 \<le> max_entries l \<and>
      (\<forall>k\<in>fst ` set files. \<not> reserved_name (to_ascii_lowercase k) \<and>
         from_utf8 (bytes_of k) = Some k) \<and>
      (\<forall>us. list_all2 (\<lambda>pc u. clean (zip_new K) l 1 (snd pc) u) files us \<longrightarrow>
         24 + 2 * length json + sum_list (map (\<lambda>(k, c). length c) files) + sum_list us
           \<le> max_total_uncompressed l) \<and>
      (\<forall>a. zip_new K bytes = Some a \<longrightarrow>
         list_all2 (\<lambda>(n, m, c) eo. \<forall>e. eo = Some e \<longrightarrow> length c \<le> ratio_cap l (z_compressed e))
           (zip_entries_of json files) (z_entries a)))"

lemma reserved_fold [simp]:
  "to_ascii_lowercase mimetype_name = mimetype_name" "to_ascii_lowercase manifest_name = manifest_name"
  "mimetype_name \<noteq> manifest_name" "length media_type = 24"
  by code_simp+

lemma reserved_paths_ok:
  "container_path mimetype_name" "container_path manifest_name"
  "from_utf8 (bytes_of mimetype_name) = Some mimetype_name"
  "from_utf8 (bytes_of manifest_name) = Some manifest_name"
proof -
  have "check_container_path mimetype_name = Inr ()" "check_container_path manifest_name = Inr ()"
    by code_simp+
  then show "container_path mimetype_name" "container_path manifest_name"
    by (simp_all add: check_container_path_iff)
  show "from_utf8 (bytes_of mimetype_name) = Some mimetype_name"
    "from_utf8 (bytes_of manifest_name) = Some manifest_name"
    by (rule from_utf8_ascii, simp add: mimetype_name_def manifest_name_def)+
qed

lemma generated_clean:
  "clean zn l 1 (bytes_of media_type) 0"
  "starts_with json (bytes_of ''{'') \<Longrightarrow> clean zn l 1 json 0"
proof -
  show "clean zn l 1 (bytes_of media_type) 0"
    by (rule plain) (simp_all add: has_exec_magic_def exec_magics_def media_type_def pk_magic_def)
  assume "starts_with json (bytes_of ''{'')"
  then obtain rest where "json = 0x7b # rest" by (auto simp: starts_with_iff)
  then show "clean zn l 1 json 0"
    by (intro plain) (simp_all add: has_exec_magic_def exec_magics_def pk_magic_def)
qed

lemma sum_outcomes:
  "length us = length files \<Longrightarrow>
     sum_list (map found_size (found_files (outcomes json files us))) =
       24 + length json + sum_list (map (\<lambda>(k, c). length c) files) + sum_list us"
proof -
  assume "length us = length files"
  then have "sum_list (map found_size (map (\<lambda>((k, c), u). (k, c, u)) (zip files us))) =
      sum_list (map (\<lambda>(k, c). length c) files) + sum_list us"
    by (induction files us rule: list_induct2') (auto simp: found_size_def)
  then show ?thesis by (simp add: found_files_outcomes found_size_def)
qed

lemma folds_outcomes:
  "length us = length files \<Longrightarrow>
     map found_fold (found_files (outcomes json files us)) =
       mimetype_name # manifest_name # map to_ascii_lowercase (bt_keys files)"
proof -
  assume "length us = length files"
  then have "map found_fold (map (\<lambda>((k, c), u). (k, c, u)) (zip files us)) =
      map to_ascii_lowercase (bt_keys files)"
    by (induction files us rule: list_induct2') (auto simp: found_fold_def found_name_def bt_keys_def)
  then show ?thesis by (simp add: found_files_outcomes found_fold_def found_name_def)
qed

lemma written_entries_ok:
  assumes "list_all2 entry_written (zip_entries_of json files) es"
    and "list_all2 (\<lambda>(n, m, c) eo. \<forall>e. eo = Some e \<longrightarrow> length c \<le> ratio_cap l (z_compressed e))
      (zip_entries_of json files) es"
    and "list_all2 (\<lambda>pc u. clean (zip_new K) l 1 (snd pc) u) files us"
    and "clean (zip_new K) l 1 json 0"
    and "\<forall>k\<in>fst ` set files. container_path k \<and> from_utf8 (bytes_of k) = Some k"
  shows "list_all2 (entry_ok K l) es (outcomes json files us)"
proof -
  obtain e1 e2 rest where es: "es = e1 # e2 # rest"
    "entry_written (mimetype_name, Stored, bytes_of media_type) e1"
    "entry_written (manifest_name, Deflated, json) e2"
    "list_all2 entry_written (map (\<lambda>(path, content). (path, Deflated, content)) files) rest"
    using assms(1) by (auto simp: zip_entries_of_def list_all2_Cons1)
  have cap: "\<forall>e. e1 = Some e \<longrightarrow> length (bytes_of media_type) \<le> ratio_cap l (z_compressed e)"
    "\<forall>e. e2 = Some e \<longrightarrow> length json \<le> ratio_cap l (z_compressed e)"
    "list_all2 (\<lambda>(n, m, c) eo. \<forall>e. eo = Some e \<longrightarrow> length c \<le> ratio_cap l (z_compressed e))
      (map (\<lambda>(path, content). (path, Deflated, content)) files) rest"
    using assms(2) by (simp_all add: es zip_entries_of_def)
  have len: "length us = length files" "length rest = length files"
    using assms(3) es(4) by (auto dest: list_all2_lengthD)
  have "entry_ok K l (rest ! i) (map (\<lambda>((k, c), u). Some (k, c, u)) (zip files us) ! i)"
    if i: "i < length files" for i
  proof -
    obtain k c where f: "files ! i = (k, c)" by (cases "files ! i")
    have "entry_written (k, Deflated, c) (rest ! i)"
      using list_all2_nthD2 [OF es(4), of i] i len f by simp
    moreover have "\<forall>e. rest ! i = Some e \<longrightarrow> length c \<le> ratio_cap l (z_compressed e)"
      using list_all2_nthD2 [OF cap(3), of i] i len f by simp
    moreover have "clean (zip_new K) l 1 c (us ! i)"
      using list_all2_nthD [OF assms(3), of i] i f by simp
    moreover have "container_path k" "from_utf8 (bytes_of k) = Some k"
      using assms(5) nth_mem [OF i] f by force+
    ultimately show ?thesis
      using i len f by (auto intro: written_file_ok)
  qed
  then have "list_all2 (entry_ok K l) rest (map (\<lambda>((k, c), u). Some (k, c, u)) (zip files us))"
    using len by (simp add: list_all2_conv_all_nth)
  moreover have "entry_ok K l e1 (Some (mimetype_name, bytes_of media_type, 0))"
    using es(2) cap(1) reserved_paths_ok generated_clean(1) by (intro written_file_ok) auto
  moreover have "entry_ok K l e2 (Some (manifest_name, json, 0))"
    using es(3) cap(2) reserved_paths_ok assms(4) by (intro written_file_ok) auto
  ultimately show ?thesis
    by (simp add: outcomes_def es)
qed

lemma packed_opens:
  assumes "zip_roundtrip K" and "manifest_json_ok K (refresh (sha256 K) (bl_manifest b) (bl_files b))"
    and "container_inv \<lparr>c_manifest = bl_manifest b, c_files = bl_files b\<rparr>"
    and "pack K b = Inr bytes"
    and "\<And>json. manifest_to_vec_pretty K (refresh (sha256 K) (bl_manifest b) (bl_files b)) = Inr json \<Longrightarrow>
      readable_back K json (bl_files b) bytes"
  shows "open_poid K bytes = Inr \<lparr>c_manifest = refresh (sha256 K) (bl_manifest b) (bl_files b),
    c_files = bl_files b\<rparr>"
proof -
  let ?l = limits_default and ?files = "bl_files b"
  let ?m = "refresh (sha256 K) (bl_manifest b) ?files"
  obtain us json where p: "distinct (map to_ascii_lowercase (bt_keys ?files))"
    "list_all2 (\<lambda>pc u. clean (zip_new K) ?l 1 (snd pc) u) ?files us" "manifest_ok ?m"
    "type_rules ?m ?files" "manifest_to_vec_pretty K ?m = Inr json"
    "zip_write K (zip_entries_of json ?files) = Inr bytes"
    using assms(4) unfolding pack_iff by blast
  note fit = assms(5) [OF p(5), unfolded readable_back_def Let_def]
  have len: "length us = length ?files"
    using p(2) by (simp add: list_all2_lengthD)
  have keys: "map fst (zip_entries_of json ?files) = mimetype_name # manifest_name # bt_keys ?files"
    by (simp add: zip_entries_of_def bt_keys_def split_def)
  have unreserved: "\<forall>k\<in>set (bt_keys ?files). to_ascii_lowercase k \<noteq> mimetype_name \<and>
      to_ascii_lowercase k \<noteq> manifest_name"
    using fit by (auto simp: reserved_name_iff)
  then have dist: "distinct (mimetype_name # manifest_name # map to_ascii_lowercase (bt_keys ?files))"
    using p(1) by auto
  then have "distinct (map to_ascii_lowercase (map fst (zip_entries_of json ?files)))"
    unfolding keys by simp
  then have "distinct (map fst (zip_entries_of json ?files))"
    using distinct_map by blast
  then obtain a where a: "zip_new K bytes = Some a"
    "list_all2 entry_written (zip_entries_of json ?files) (z_entries a)"
    "\<forall>i<length (zip_entries_of json ?files). z_index_for_name a (fst (zip_entries_of json ?files ! i)) = Some i"
    and header: "poid_header bytes"
    using assms(1) p(6) unfolding zip_roundtrip_def zip_entries_of_def by blast
  have json: "manifest_from_slice K json = Inr ?m" "starts_with json (bytes_of ''{'')"
    using assms(2) p(5) by (auto simp: manifest_json_ok_def)
  have caps: "list_all2 (\<lambda>(n, m, c) eo. \<forall>e. eo = Some e \<longrightarrow> length c \<le> ratio_cap ?l (z_compressed e))
      (zip_entries_of json ?files) (z_entries a)"
    using fit a(1) by blast
  have total: "24 + 2 * length json + sum_list (map (\<lambda>(k, c). length c) ?files) + sum_list us
      \<le> max_total_uncompressed ?l"
    using fit p(2) by blast
  have entries: "list_all2 (entry_ok K ?l) (z_entries a) (outcomes json ?files us)"
    using written_entries_ok [OF a(2) caps p(2) generated_clean(2) [OF json(2)]] fit assms(3)
    by (auto simp: container_inv_def)
  have "z_index_for_name a manifest_name = Some 1"
    using a(3) [rule_format, of 1] by (simp add: zip_entries_of_def)
  moreover obtain e where e: "by_index a 1 = Some e" "entry_written (manifest_name, Deflated, json) (Some e)"
    "length json \<le> ratio_cap ?l (z_compressed e)"
    using a(2) caps by (auto simp: zip_entries_of_def list_all2_Cons1 by_index_def entry_written_def)
  moreover have "length json \<le> max_total_uncompressed ?l"
    using total by linarith
  ultimately have manifest: "read_manifest K a ?l (max_total_uncompressed ?l) =
      Inr (?m, max_total_uncompressed ?l - length json)"
    by (auto simp: read_manifest_def result_simps entry_written_def check_method_iff read_limited_iff
        manifest_parse_def json(1))
  have size: "length (z_entries a) \<le> max_entries ?l"
    using fit list_all2_lengthD [OF a(2)] by (simp add: zip_entries_of_def)
  have "acceptable K ?l bytes a ?m (max_total_uncompressed ?l - length json) (outcomes json ?files us)"
    unfolding acceptable_def
    using header a(1) size manifest p(3,4) entries dist total
    by (simp add: folds_outcomes [OF len] sum_outcomes [OF len] files_of_outcomes [OF len assms(3)])
  then have "open_with_limits K ?l bytes =
      Inr \<lparr>c_manifest = ?m, c_files = files_of (outcomes json ?files us)\<rparr>"
    unfolding open_iff by blast
  then show ?thesis
    by (simp add: open_poid_def files_of_outcomes [OF len assms(3)])
qed


lemma found_files_distinct_nth:
  "distinct (map found_fold (found_files outs)) \<Longrightarrow> i < j \<Longrightarrow> j < length outs \<Longrightarrow>
     outs ! i = Some f \<Longrightarrow> outs ! j = Some g \<Longrightarrow> found_fold f \<noteq> found_fold g"
proof (induction outs arbitrary: i j)
  case (Cons out outs)
  show ?case
  proof (cases i)
    case 0
    with Cons.prems obtain j' where "j = Suc j'" by (cases j) auto
    with 0 Cons.prems have "out = Some f" "outs ! j' = Some g" "j' < length outs" by auto
    then have "out = Some f" "Some g \<in> set outs"
      using nth_mem [of j' outs] by auto
    moreover have "Some g \<in> set outs \<Longrightarrow> g \<in> set (found_files outs)"
      by (induction outs) (auto, metis found_files_simps(2,3) list.set_intros(1,2) not_None_eq)
    ultimately show ?thesis
      using Cons.prems(1) by auto
  next
    case (Suc i')
    with Cons.prems obtain j' where "j = Suc j'" by (cases j) auto
    moreover have "distinct (map found_fold (found_files outs))"
      using Cons.prems(1) by (cases out) simp_all
    ultimately show ?thesis
      using Cons.prems Suc by (intro Cons.IH [of i' j']) simp_all
  qed
qed simp

lemma written_outcome:
  assumes "entry_written w eo" "entry_ok K l eo out" "container_path (fst w)"
    "from_utf8 (bytes_of (fst w)) = Some (fst w)"
  shows "\<exists>f. out = Some f \<and> found_name f = fst w"
proof -
  have "\<not> ends_with (fst w) ''/''"
    using assms(3) container_path_not_slash_end by (auto simp: ends_with_iff)
  with assms show ?thesis
    by (cases out)
      (auto simp: entry_written_def entry_ok_def dir_entry_ok_def file_entry_ok_def found_name_def)
qed

text \<open>
  The writer can produce a container that \<open>open\<close> rejects: a file whose name differs from
  \<open>mimetype\<close> or \<open>manifest.json\<close> only in case passes the builder and \<open>pack\<close>, and every archive
  that reads back the entries written is then refused.
\<close>

theorem pack_output_may_not_open:
  assumes "zip_roundtrip K" and "container_inv \<lparr>c_manifest = bl_manifest b, c_files = bl_files b\<rparr>"
    and "pack K b = Inr bytes" and "k \<in> fst ` set (bl_files b)"
    and "reserved_name (to_ascii_lowercase k)" and "from_utf8 (bytes_of k) = Some k"
  shows "\<exists>e. open_poid K bytes = Inl e"
proof (cases "open_poid K bytes")
  case (Inr p)
  let ?files = "bl_files b"
  obtain us json where w: "zip_write K (zip_entries_of json ?files) = Inr bytes"
    "distinct (map to_ascii_lowercase (bt_keys ?files))"
    using assms(3) unfolding pack_iff by blast
  from Inr obtain a m budget outs where acc: "acceptable K limits_default bytes a m budget outs"
    unfolding open_poid_def open_iff by blast
  have keys: "map fst (zip_entries_of json ?files) = mimetype_name # manifest_name # bt_keys ?files"
    by (simp add: zip_entries_of_def bt_keys_def split_def)
  have "\<forall>k\<in>set (bt_keys ?files). \<not> reserved_name k"
    using assms(2) by (auto simp: container_inv_def)
  moreover have "distinct (bt_keys ?files)"
    using assms(2) by (simp add: container_inv_def bt_ok_distinct bt_keys_def)
  ultimately have "distinct (map fst (zip_entries_of json ?files))"
    unfolding keys by (auto simp: reserved_name_iff)
  then have entries: "list_all2 entry_written (zip_entries_of json ?files) (z_entries a)"
    using assms(1) w(1) acc unfolding zip_roundtrip_def acceptable_def by (metis option.inject)
  have outs: "list_all2 (entry_ok K limits_default) (z_entries a) outs"
    and dist: "distinct (map found_fold (found_files outs))"
    using acc by (simp_all add: acceptable_def)
  note len = list_all2_lengthD [OF entries] list_all2_lengthD [OF outs]
  have named: "\<exists>f. outs ! i = Some f \<and> found_name f = name"
    if "i < length outs" "fst (zip_entries_of json ?files ! i) = name" "container_path name"
      "from_utf8 (bytes_of name) = Some name" for i name
    using written_outcome [of "zip_entries_of json ?files ! i" "z_entries a ! i"] that len
      list_all2_nthD [OF entries, of i] list_all2_nthD [OF outs, of i] by simp
  obtain i where i: "i < length ?files" "fst (?files ! i) = k"
    using assms(4) by (auto simp: in_set_conv_nth)
  have "fst (zip_entries_of json ?files ! (i + 2)) = k"
    using i by (auto simp: zip_entries_of_def split_def)
  moreover have "i + 2 < length outs"
    using i len by (simp add: zip_entries_of_def)
  moreover have "container_path k"
    using assms(2,4) by (auto simp: container_inv_def)
  ultimately obtain f where f: "outs ! (i + 2) = Some f" "found_name f = k"
    using named assms(6) by blast
  have "\<exists>j<2. fst (zip_entries_of json ?files ! j) = to_ascii_lowercase k"
    using assms(5) by (auto simp: reserved_name_iff zip_entries_of_def less_2_cases_iff)
  then obtain j where j: "j < 2" "fst (zip_entries_of json ?files ! j) = to_ascii_lowercase k"
    by blast
  have "container_path (to_ascii_lowercase k)"
    "from_utf8 (bytes_of (to_ascii_lowercase k)) = Some (to_ascii_lowercase k)"
    using assms(5) reserved_paths_ok by (auto simp: reserved_name_iff)
  moreover have "j < length outs"
    using j \<open>i + 2 < length outs\<close> by simp
  ultimately obtain g where g: "outs ! j = Some g" "found_name g = to_ascii_lowercase k"
    using named j by blast
  have "found_fold g \<noteq> found_fold f"
    by (rule found_files_distinct_nth [OF dist, of j "i + 2"])
      (use f(1) g(1) j \<open>i + 2 < length outs\<close> in simp_all)
  then show ?thesis using f g by (simp add: found_fold_def)
qed simp

section \<open>A concrete writer\<close>

definition sample_json :: "byte list" where
  "sample_json = bytes_of ''{}''"

definition written_entry :: "string \<times> compression_method \<times> byte list \<Rightarrow> zip_entry" where
  "written_entry w = (sample_entry (fst w) (snd (snd w)))\<lparr>z_method := fst (snd w)\<rparr>"

definition archive_of :: "zip_input \<Rightarrow> zip_archive" where
  "archive_of ws = \<lparr>z_entries = map (\<lambda>w. Some (written_entry w)) ws,
     z_index_for_name = (\<lambda>n. map_option fst (find (\<lambda>(i, w). fst w = n) (enumerate 0 ws)))\<rparr>"

definition sample_writer :: "files \<Rightarrow> crates" where
  "sample_writer files = sample_crates
     \<lparr>zip_new := (\<lambda>bytes. if bytes = sample_bytes
        then Some (archive_of (zip_entries_of sample_json files)) else None),
      zip_write := (\<lambda>ws. if ws = zip_entries_of sample_json files then Inr sample_bytes
        else Inl ''unsupported''),
      manifest_from_slice := (\<lambda>_. Inr (refresh sample_sha (c_manifest sample_poid) files)),
      manifest_to_vec_pretty := (\<lambda>_. Inr sample_json)\<rparr>"

definition sample_builder :: "files \<Rightarrow> poid_builder" where
  "sample_builder files = \<lparr>bl_manifest = c_manifest sample_poid, bl_files = files\<rparr>"

definition odd_files :: files where
  "odd_files = [(''Manifest.json'', [2]), (''app/i'', [1])]"

lemma sample_zip_roundtrip:
  assumes "distinct (map fst (zip_entries_of sample_json files))"
    and "\<forall>k\<in>fst ` set files. \<not> ends_with k ''/''"
  shows "zip_roundtrip (sample_writer files)"
proof -
  let ?ws = "zip_entries_of sample_json files"
  have "\<not> ends_with (fst w) ''/''" if "w \<in> set ?ws" for w
    using that assms(2)
    by (auto simp: zip_entries_of_def mimetype_name_def manifest_name_def ends_with_def)
  then have "entry_written w (Some (written_entry w))" if "w \<in> set ?ws" for w
    using that by (cases w) (force simp: entry_written_def written_entry_def sample_entry_def)
  then have "list_all2 entry_written ?ws (z_entries (archive_of ?ws))"
    by (simp add: archive_of_def list_all2_conv_all_nth)
  moreover have "z_index_for_name (archive_of ?ws) (fst (?ws ! i)) = Some i" if "i < length ?ws" for i
  proof -
    have "find (\<lambda>(j, w). fst w = fst (?ws ! i)) (enumerate 0 ?ws) = Some (i, ?ws ! i)"
      unfolding find_Some_iff using that assms(1)
      by (intro exI [of _ i]) (auto simp: nth_enumerate_eq distinct_conv_nth)
    then show ?thesis by (simp add: archive_of_def)
  qed
  ultimately show ?thesis
    using sample_header by (auto simp: zip_roundtrip_def sample_writer_def split: if_splits)
qed

lemma sample_pack:
  assumes "files = c_files sample_poid \<or> files = odd_files"
  shows "pack (sample_writer files) (sample_builder files) = Inr sample_bytes"
proof -
  have "clean zn limits_default 1 [x] 0" if "x = 1 \<or> x = 2" for zn x
    using that by (intro plain) (auto simp: has_exec_magic_def exec_magics_def pk_magic_def)
  then have "list_all2 (\<lambda>pc u. clean (zip_new (sample_writer files)) limits_default 1 (snd pc) u) files
      (replicate (length files) 0)"
    using assms by (auto simp: sample_poid_def odd_files_def)
  moreover have "distinct (map to_ascii_lowercase (bt_keys files))"
    using assms by (auto simp: sample_poid_def odd_files_def bt_keys_def)
  moreover have "manifest_ok (refresh sample_sha (c_manifest sample_poid) files)"
    using sample_poid_manifest_ok by (simp add: refresh_manifest_ok)
  moreover have "type_rules (refresh sample_sha (c_manifest sample_poid) files) files"
    using assms by (auto simp: type_rules_def odd_files_def sample_poid_def new_app_def)
  ultimately show ?thesis
    unfolding pack_iff sample_builder_def
    by (intro exI [of _ "replicate (length files) 0"] exI [of _ sample_json])
      (simp add: sample_writer_def sample_crates_def sum_list_replicate)
qed

lemma sample_files_ok:
  "container_inv \<lparr>c_manifest = m, c_files = c_files sample_poid\<rparr>"
  "container_inv \<lparr>c_manifest = m, c_files = odd_files\<rparr>"
  "zip_roundtrip (sample_writer (c_files sample_poid))" "zip_roundtrip (sample_writer odd_files)"
proof -
  have "check_container_path ''app/i'' = Inr ()" "check_container_path ''Manifest.json'' = Inr ()"
    by code_simp+
  then show "container_inv \<lparr>c_manifest = m, c_files = c_files sample_poid\<rparr>"
    "container_inv \<lparr>c_manifest = m, c_files = odd_files\<rparr>"
    by (simp_all add: container_inv_def sample_poid_def odd_files_def reserved_name_def
        check_container_path_iff)
  show "zip_roundtrip (sample_writer (c_files sample_poid))" "zip_roundtrip (sample_writer odd_files)"
    by (rule sample_zip_roundtrip; simp add: zip_entries_of_def sample_poid_def odd_files_def
        mimetype_name_def manifest_name_def ends_with_def)+
qed


theorem pack_output_may_not_open_witness:
  "\<exists>e. pack (sample_writer odd_files) (sample_builder odd_files) = Inr sample_bytes \<and>
     open_poid (sample_writer odd_files) sample_bytes = Inl e"
proof -
  have "from_utf8 (bytes_of ''Manifest.json'') = Some ''Manifest.json''"
    by (rule from_utf8_ascii) simp
  moreover have "reserved_name (to_ascii_lowercase ''Manifest.json'')"
    by code_simp
  moreover have "''Manifest.json'' \<in> fst ` set (bl_files (sample_builder odd_files))"
    by (simp add: sample_builder_def odd_files_def)
  ultimately show ?thesis
    using pack_output_may_not_open [OF sample_files_ok(4) _ sample_pack [of odd_files]]
      sample_files_ok(2) sample_pack [of odd_files]
    by (simp add: sample_builder_def)
qed

end
