(* ===== verification/Atomic_Files.thy ===== *)
theory Atomic_Files
  imports Rust_Text
begin

text \<open>
  Writing a file through a temporary one and a rename: \<open>atomic_write\<close> of \<open>poid-vault/src/store.rs\<close> and
  \<open>write_atomically\<close> of \<open>poid-connections/src/store.rs\<close> and \<open>bindings.rs\<close>. A disk maps paths, as their
  components, to contents; which of the operating system's steps fails is an argument. A step relation
  gives every state a crash may leave behind; both functions end in one of its final states.
\<close>

type_synonym path = "string list"
type_synonym disk = "path \<rightharpoonup> byte list"

text \<open>Which steps of the operating system fail; a failing write has written a part of the bytes.\<close>

record io_faults =
  f_dir :: bool
  f_open :: bool
  f_written :: "nat option"
  f_sync :: bool
  f_rename :: bool
  f_remove :: bool

definition no_faults :: io_faults where
  "no_faults = \<lparr>f_dir = False, f_open = False, f_written = None, f_sync = False, f_rename = False,
     f_remove = False\<rparr>"

definition written_part :: "io_faults \<Rightarrow> byte list \<Rightarrow> byte list" where
  "written_part f bytes = (case f_written f of None \<Rightarrow> bytes | Some n \<Rightarrow> take n bytes)"

section \<open>The vault's writer\<close>

definition temp_path_in :: "nat \<Rightarrow> nat \<Rightarrow> path \<Rightarrow> path" where
  "temp_path_in pid sequence dir = dir @ [''.tmp-'' @ show_nat pid @ ''-'' @ show_nat sequence]"

definition write_and_rename ::
  "io_faults \<Rightarrow> path \<Rightarrow> path \<Rightarrow> byte list \<Rightarrow> disk \<Rightarrow> (string + unit) \<times> disk" where
  "write_and_rename f tmp path bytes d =
     (if f_open f \<or> tmp \<in> dom d then (Inl ''open'', d)
      else
        let d = d(tmp \<mapsto> written_part f bytes) in
        if f_written f \<noteq> None then (Inl ''write'', d)
        else if f_sync f then (Inl ''sync'', d)
        else if f_rename f then (Inl ''rename'', d)
        else (Inr (), (d(path \<mapsto> bytes))(tmp := None)))"

definition atomic_write ::
  "io_faults \<Rightarrow> nat \<Rightarrow> nat \<Rightarrow> path \<Rightarrow> byte list \<Rightarrow> disk \<Rightarrow> (string + unit) \<times> disk" where
  "atomic_write f pid sequence path bytes d =
     (if path = [] then (Inl ''target path has no parent directory'', d)
      else if f_dir f then (Inl ''create_dir_all'', d)
      else
        let tmp = temp_path_in pid sequence (butlast path);
            (result, d) = write_and_rename f tmp path bytes d in
        case result of
          Inl e \<Rightarrow> (Inl e, if f_remove f then d else d(tmp := None))
        | Inr _ \<Rightarrow> (Inr (), d))"

section \<open>The registries' writer\<close>

text \<open>\<open>Path::with_extension\<close> replaces what follows the last dot of the file name; a leading dot does
  not start an extension.\<close>

definition file_stem :: "string \<Rightarrow> string" where
  "file_stem name = (case rsplit_once CHR ''.'' name of
     Some (stem, ext) \<Rightarrow> if stem = [] then name else stem | None \<Rightarrow> name)"

definition with_extension :: "path \<Rightarrow> string \<Rightarrow> path" where
  "with_extension path ext =
     (if path = [] then [] else butlast path @ [file_stem (last path) @ ''.'' @ ext])"

definition write_atomically ::
  "io_faults \<Rightarrow> path \<Rightarrow> byte list \<Rightarrow> disk \<Rightarrow> (string + unit) \<times> disk" where
  "write_atomically f path bytes d =
     (if f_dir f then (Inl ''create_dir_all'', d)
      else if f_open f then (Inl ''open'', d)
      else
        let tmp = with_extension path ''json.tmp'';
            d = d(tmp \<mapsto> written_part f bytes) in
        if f_written f \<noteq> None then (Inl ''write'', d)
        else if f_rename f then (Inl ''rename'', d)
        else (Inr (), (d(path \<mapsto> bytes))(tmp := None)))"

section \<open>Every state a crash may leave\<close>

datatype write_phase = Opening | Writing nat | Synced | Renamed | Failing | GaveUp

inductive write_step ::
  "path \<Rightarrow> path \<Rightarrow> byte list \<Rightarrow> write_phase \<times> disk \<Rightarrow> write_phase \<times> disk \<Rightarrow> bool"
  for tmp path :: path and bytes :: "byte list" where
  opened: "write_step tmp path bytes (Opening, d) (Writing 0, d(tmp \<mapsto> []))"
| wrote: "n < length bytes \<Longrightarrow>
    write_step tmp path bytes (Writing n, d) (Writing (Suc n), d(tmp \<mapsto> take (Suc n) bytes))"
| synced: "write_step tmp path bytes (Writing (length bytes), d) (Synced, d)"
| renamed: "write_step tmp path bytes (Synced, d) (Renamed, (d(path \<mapsto> bytes))(tmp := None))"
| failed: "ph \<noteq> Renamed \<Longrightarrow> ph \<noteq> GaveUp \<Longrightarrow> write_step tmp path bytes (ph, d) (Failing, d)"
| cleaned: "write_step tmp path bytes (Failing, d) (GaveUp, d(tmp := None))"
| left_over: "write_step tmp path bytes (Failing, d) (GaveUp, d)"

inductive_cases write_stepE: "write_step tmp path bytes (ph, d) s"

abbreviation write_reaches ::
  "path \<Rightarrow> path \<Rightarrow> byte list \<Rightarrow> write_phase \<times> disk \<Rightarrow> write_phase \<times> disk \<Rightarrow> bool" where
  "write_reaches tmp path bytes \<equiv> (write_step tmp path bytes)\<^sup>*\<^sup>*"

text \<open>What holds in every reachable state: the target is old until the rename, then new; nothing but
  the target and the temporary file ever changes; before the rename the temporary file is complete.\<close>

definition write_inv :: "path \<Rightarrow> path \<Rightarrow> byte list \<Rightarrow> disk \<Rightarrow> write_phase \<times> disk \<Rightarrow> bool" where
  "write_inv tmp path bytes d0 s \<longleftrightarrow> (case s of (ph, d) \<Rightarrow>
     (\<forall>q. q \<noteq> path \<longrightarrow> q \<noteq> tmp \<longrightarrow> d q = d0 q) \<and>
     d path = (if ph = Renamed then Some bytes else d0 path) \<and>
     (ph = Renamed \<longrightarrow> d tmp = None) \<and> (\<forall>n. ph = Writing n \<longrightarrow> n \<le> length bytes \<and> d tmp = Some (take n bytes)) \<and>
     (ph = Synced \<longrightarrow> d tmp = Some bytes))"

lemma write_inv_step:
  assumes "tmp \<noteq> path" "write_step tmp path bytes s s'" "write_inv tmp path bytes d0 s"
  shows "write_inv tmp path bytes d0 s'"
  using assms(2,3,1) by (cases rule: write_step.cases) (auto simp: write_inv_def)

lemma write_reaches_inv:
  assumes "tmp \<noteq> path" "write_reaches tmp path bytes (Opening, d0) s"
  shows "write_inv tmp path bytes d0 s"
  using assms(2)
proof (induction rule: rtranclp_induct)
  case base
  then show ?case by (simp add: write_inv_def)
next
  case (step s s')
  with write_inv_step [OF assms(1)] show ?case by blast
qed

lemma writing_reaches:
  "n \<le> length bytes \<Longrightarrow> write_reaches tmp path bytes (Opening, d) (Writing n, d(tmp \<mapsto> take n bytes))"
proof (induction n)
  case 0
  show ?case unfolding take_0 by (rule r_into_rtranclp) (rule opened)
next
  case (Suc n)
  then have "write_step tmp path bytes (Writing n, d(tmp \<mapsto> take n bytes))
      (Writing (Suc n), (d(tmp \<mapsto> take n bytes))(tmp \<mapsto> take (Suc n) bytes))"
    by (intro wrote) simp
  then have "write_step tmp path bytes (Writing n, d(tmp \<mapsto> take n bytes))
      (Writing (Suc n), d(tmp \<mapsto> take (Suc n) bytes))"
    by (simp only: fun_upd_upd)
  moreover have "write_reaches tmp path bytes (Opening, d) (Writing n, d(tmp \<mapsto> take n bytes))"
    by (rule Suc.IH) (use Suc.prems in simp)
  ultimately show ?case by (rule rtranclp.rtrancl_into_rtrancl [rotated])
qed

lemma failing_reaches:
  assumes "write_reaches tmp path bytes (Opening, d) (ph, d')" "ph \<noteq> Renamed" "ph \<noteq> GaveUp"
  shows "write_reaches tmp path bytes (Opening, d) (GaveUp, d'(tmp := None))"
    and "write_reaches tmp path bytes (Opening, d) (GaveUp, d')"
proof -
  have f: "write_reaches tmp path bytes (Opening, d) (Failing, d')"
    using assms failed by (meson rtranclp.rtrancl_into_rtrancl)
  from f cleaned show "write_reaches tmp path bytes (Opening, d) (GaveUp, d'(tmp := None))"
    by (meson rtranclp.rtrancl_into_rtrancl)
  from f left_over show "write_reaches tmp path bytes (Opening, d) (GaveUp, d')"
    by (meson rtranclp.rtrancl_into_rtrancl)
qed

lemma renamed_reaches:
  assumes "write_reaches tmp path bytes (Opening, d) (Writing (length bytes), d')"
  shows "write_reaches tmp path bytes (Opening, d) (Synced, d')"
    and "write_reaches tmp path bytes (Opening, d) (Renamed, (d'(path \<mapsto> bytes))(tmp := None))"
proof -
  show s: "write_reaches tmp path bytes (Opening, d) (Synced, d')"
    using assms synced by (meson rtranclp.rtrancl_into_rtrancl)
  show "write_reaches tmp path bytes (Opening, d) (Renamed, (d'(path \<mapsto> bytes))(tmp := None))"
    using s renamed by (meson rtranclp.rtrancl_into_rtrancl)
qed

lemma partial_reaches:
  "write_reaches tmp path bytes (Opening, d)
     (Writing (min n (length bytes)), d(tmp \<mapsto> take n bytes))"
  using writing_reaches [of "min n (length bytes)" bytes tmp path d]
  by (cases "n \<le> length bytes") (simp_all add: min_def)

lemma all_reaches:
  "write_reaches tmp path bytes (Opening, d) (Writing (length bytes), d(tmp \<mapsto> bytes))"
  using writing_reaches [of "length bytes" bytes tmp path d] by simp

abbreviation final_phase :: "string + unit \<Rightarrow> write_phase" where
  "final_phase r \<equiv> if r = Inr () then Renamed else GaveUp"

lemma opening_gives_up:
  "write_reaches tmp path bytes (Opening, d) (GaveUp, d)"
  "write_reaches tmp path bytes (Opening, d) (GaveUp, d(tmp := None))"
  using failing_reaches [of tmp path bytes d Opening d] by simp_all

lemma write_and_rename_reaches:
  assumes "write_and_rename f tmp path bytes d = (r, d')"
  shows "(r = Inr () \<longrightarrow> write_reaches tmp path bytes (Opening, d) (Renamed, d')) \<and>
    (r \<noteq> Inr () \<longrightarrow> write_reaches tmp path bytes (Opening, d) (GaveUp, d') \<and>
       write_reaches tmp path bytes (Opening, d) (GaveUp, d'(tmp := None)))"
proof (cases "f_open f \<or> tmp \<in> dom d")
  case True
  with assms show ?thesis using opening_gives_up [of tmp path bytes d]
    by (auto simp: write_and_rename_def)
next
  case False
  then have same: "d(tmp := None) = d" by (auto simp: domIff)
  show ?thesis
  proof (cases "f_written f")
    case (Some n)
    with False assms show ?thesis
      using failing_reaches [OF partial_reaches [of tmp path bytes d n]]
      by (auto simp: same write_and_rename_def written_part_def Let_def)
  next
    case None
    with False assms show ?thesis
      using failing_reaches [OF all_reaches [of tmp path bytes d]]
        renamed_reaches [OF all_reaches [of tmp path bytes d]]
      by (auto simp: same write_and_rename_def written_part_def Let_def split: if_splits)
  qed
qed

lemma atomic_write_reaches:
  assumes "atomic_write f pid sequence path bytes d = (r, d')"
  shows "write_reaches (temp_path_in pid sequence (butlast path)) path bytes (Opening, d) (final_phase r, d')"
proof (cases "path = [] \<or> f_dir f")
  case True
  with assms show ?thesis
    using opening_gives_up(1) [of "temp_path_in pid sequence (butlast path)" path bytes d]
    by (auto simp: atomic_write_def split: if_splits)
next
  case False
  obtain r1 d1 where w: "write_and_rename f (temp_path_in pid sequence (butlast path)) path bytes d = (r1, d1)"
    by (cases "write_and_rename f (temp_path_in pid sequence (butlast path)) path bytes d")
  from False assms w write_and_rename_reaches [OF w] show ?thesis
    by (cases r1) (auto simp: atomic_write_def Let_def split: if_splits)
qed

lemma write_atomically_reaches:
  assumes "write_atomically f path bytes d = (r, d')"
  shows "write_reaches (with_extension path ''json.tmp'') path bytes (Opening, d) (final_phase r, d')"
proof (cases "f_dir f \<or> f_open f")
  case True
  with assms show ?thesis
    using opening_gives_up(1) [of "with_extension path ''json.tmp''" path bytes d]
    by (auto simp: write_atomically_def split: if_splits)
next
  case False
  show ?thesis
  proof (cases "f_written f")
    case (Some n)
    with False assms show ?thesis
      using failing_reaches [OF partial_reaches [of "with_extension path ''json.tmp''" path bytes d n]]
      by (auto simp: write_atomically_def written_part_def Let_def)
  next
    case None
    with False assms show ?thesis
      using failing_reaches [OF all_reaches [of "with_extension path ''json.tmp''" path bytes d]]
        renamed_reaches [OF all_reaches [of "with_extension path ''json.tmp''" path bytes d]]
      by (auto simp: write_atomically_def written_part_def Let_def split: if_splits)
  qed
qed

text \<open>The temporary file of the registries never is the file itself.\<close>

lemma file_stem_prefix: "\<exists>t. name = file_stem name @ t \<and> (t = [] \<or> (\<exists>e. t = CHR ''.'' # e \<and> CHR ''.'' \<notin> set e))"
  by (auto simp: file_stem_def rsplit_once_eq_Some split: option.split)

lemma with_extension_neq: "path \<noteq> [] \<Longrightarrow> with_extension path ''json.tmp'' \<noteq> path"
proof
  assume "path \<noteq> []" "with_extension path ''json.tmp'' = path"
  then have "last path = file_stem (last path) @ ''.json.tmp''"
    by (metis append_butlast_last_id butlast_snoc last_snoc with_extension_def append_Cons append_Nil)
  moreover obtain t where "last path = file_stem (last path) @ t"
    "t = [] \<or> (\<exists>e. t = CHR ''.'' # e \<and> CHR ''.'' \<notin> set e)"
    using file_stem_prefix [of "last path"] by blast
  ultimately have "t = ''.json.tmp''" by (metis same_append_eq)
  with \<open>t = [] \<or> _\<close> show False by auto
qed

lemma write_atomically_target:
  "path \<noteq> [] \<Longrightarrow> write_atomically f path bytes d = (Inr (), d') \<Longrightarrow> d' path = Some bytes"
  "path \<noteq> [] \<Longrightarrow> write_atomically f path bytes d = (Inl e, d') \<Longrightarrow> d' path = d path"
  using with_extension_neq [of path]
  by (auto simp: write_atomically_def Let_def split: if_splits)



end
