(* ===== verification/Container_Files.thy ===== *)
theory Container_Files
  imports Container_Writer Atomic_Files
begin

text \<open>
  \<open>Poid::save_path\<close> of \<open>poid-core/src/poid.rs\<close>: the container's bytes reach its path through a temporary
  file beside it (the \<open>tempfile\<close> crate, which removes its file when a step fails).
\<close>

definition save_path :: "crates \<Rightarrow> bool \<Rightarrow> poid \<Rightarrow> path \<Rightarrow> disk \<Rightarrow> (poid_error + unit) \<times> disk" where
  "save_path K fails p path d =
     (case to_bytes K p of
        Inl e \<Rightarrow> (Inl e, d)
      | Inr bytes \<Rightarrow> if fails then (Inl (IoErr ''save''), d) else (Inr (), d(path \<mapsto> bytes)))"

lemma save_path_frame: "save_path K fails p path d = (r, d') \<Longrightarrow> q \<noteq> path \<Longrightarrow> d' q = d q"
  by (auto simp: save_path_def split: sum.splits if_splits)

lemma save_path_failed: "save_path K fails p path d = (Inl e, d') \<Longrightarrow> d' = d"
  by (auto simp: save_path_def split: sum.splits if_splits)

lemma save_path_done:
  "save_path K fails p path d = (Inr u, d') \<longleftrightarrow> (\<exists>bytes. to_bytes K p = Inr bytes \<and> \<not> fails \<and> d' = d(path \<mapsto> bytes))"
  by (auto simp: save_path_def split: sum.splits if_splits)

end
