(* ===== verification/Broker_Errors.thy ===== *)
theory Broker_Errors
  imports Manifests
begin

text \<open>
  \<open>poid-broker/src/error.rs\<close> and \<open>connection.rs\<close>: the six error codes an application may see, the
  richer errors the reader keeps for its own log, addresses and origins as data, and connections
  as the policy layer knows them (identity, kind, label and origins, never a secret).
\<close>

section \<open>Addresses and origins\<close>

text \<open>\<open>Ipv4Addr\<close> is its 32 bits, \<open>Ipv6Addr\<close> its eight 16-bit segments.\<close>

datatype ipv6 = Ipv6 u16 u16 u16 u16 u16 u16 u16 u16

datatype ip_addr = V4 u32 | V6 ipv6

datatype scheme = Http | Https

record origin =
  o_scheme :: scheme
  o_host :: string
  o_port :: nat

section \<open>Error codes\<close>

datatype error_code =
  PermissionDenied | QuotaExceeded | NotAvailable | ConnectionRequired | InvalidArgument | Internal

fun error_code_str :: "error_code \<Rightarrow> string" where
  "error_code_str PermissionDenied = ''PERMISSION_DENIED''"
| "error_code_str QuotaExceeded = ''QUOTA_EXCEEDED''"
| "error_code_str NotAvailable = ''NOT_AVAILABLE''"
| "error_code_str ConnectionRequired = ''CONNECTION_REQUIRED''"
| "error_code_str InvalidArgument = ''INVALID_ARGUMENT''"
| "error_code_str Internal = ''INTERNAL''"

fun message :: "error_code \<Rightarrow> string" where
  "message PermissionDenied = ''this application has not been granted that''"
| "message QuotaExceeded = ''this application has used all the space it is allowed''"
| "message NotAvailable = ''this reader cannot do that''"
| "message ConnectionRequired = ''this application needs a connection that is not set up''"
| "message InvalidArgument = ''the request was not valid''"
| "message Internal = ''something went wrong inside the reader''"

datatype safe_error = SafeError error_code

fun safe_error_text :: "safe_error \<Rightarrow> string" where
  "safe_error_text (SafeError c) = error_code_str c @ '': '' @ message c"

datatype policy_error =
  OriginNotAllowed string
| AddressBlocked string ip_addr string
| NoUsableAddress string
| MalformedOrigin string string
| NoSatisfyingConnection string
| BindingUnsatisfiable string string
| BindingMissing string

fun safe :: "policy_error \<Rightarrow> safe_error" where
  "safe (OriginNotAllowed _) = SafeError PermissionDenied"
| "safe (AddressBlocked _ _ _) = SafeError PermissionDenied"
| "safe (NoUsableAddress _) = SafeError NotAvailable"
| "safe (MalformedOrigin _ _) = SafeError InvalidArgument"
| "safe (NoSatisfyingConnection _) = SafeError ConnectionRequired"
| "safe (BindingUnsatisfiable _ _) = SafeError ConnectionRequired"
| "safe (BindingMissing _) = SafeError ConnectionRequired"

section \<open>Connections\<close>

datatype connection_kind = CKv | CSql | CDocs | CFiles | CAi | CMcp | CNet | CSync

fun connection_kind_str :: "connection_kind \<Rightarrow> string" where
  "connection_kind_str CKv = ''kv''"
| "connection_kind_str CSql = ''sql''"
| "connection_kind_str CDocs = ''docs''"
| "connection_kind_str CFiles = ''files''"
| "connection_kind_str CAi = ''ai''"
| "connection_kind_str CMcp = ''mcp''"
| "connection_kind_str CNet = ''net''"
| "connection_kind_str CSync = ''sync''"

definition kind_satisfies :: "connection_kind \<Rightarrow> require_kind \<Rightarrow> bool" where
  "kind_satisfies kind req \<longleftrightarrow>
     (kind, req) \<in> {(CKv, Kv), (CSql, Kv), (CSql, Sql), (CSql, Docs), (CDocs, Docs), (CFiles, Files)}"

type_synonym connection_id = string

record connection_ref =
  n_id :: connection_id
  n_kind :: connection_kind
  n_label :: string
  n_origins :: "origin list"

definition satisfies :: "connection_ref \<Rightarrow> require_kind \<Rightarrow> bool" where
  "satisfies c req = kind_satisfies (n_kind c) req"

definition covers :: "connection_ref \<Rightarrow> origin \<Rightarrow> bool" where
  "covers c origin = list_ex (\<lambda>o'. o' = origin) (n_origins c)"

fun require_kind_str :: "require_kind \<Rightarrow> string" where
  "require_kind_str Kv = ''kv''"
| "require_kind_str Sql = ''sql''"
| "require_kind_str Docs = ''docs''"
| "require_kind_str Files = ''files''"

lemma covers_iff: "covers c origin \<longleftrightarrow> origin \<in> set (n_origins c)"
  by (auto simp: covers_def list_ex_iff)

text \<open>Whatever the reader-side error was, what an application gets is one of six constants.\<close>

lemma safe_text_constant:
  "safe_error_text (safe e) \<in> (\<lambda>c. safe_error_text (SafeError c)) `
     {PermissionDenied, NotAvailable, InvalidArgument, ConnectionRequired}"
  by (cases e) simp_all

end
