(* ===== verification/Broker_Bindings.thy ===== *)
theory Broker_Bindings
  imports Broker_Errors
begin

text \<open>
  \<open>poid-broker/src/binding.rs\<close>: which configured connections are offered for a manifest's
  requirement, and how a recorded decision is resolved. The hint of the manifest only orders the
  offer; a message of the application is not an input of any function here.
\<close>

record binding_request =
  q_require :: require_kind
  q_request_hint :: "string option"

definition from_manifest :: "storage_requires \<Rightarrow> binding_request" where
  "from_manifest r = \<lparr>q_require = q_kind r, q_request_hint = q_hint r\<rparr>"

datatype binding = BindConnection connection_id | KeepLocal

datatype resolved = ResolvedConnection connection_ref | ResolvedLocal

text \<open>A stable sort by a boolean key keeps the order within the two groups.\<close>

definition hint_key :: "string \<Rightarrow> connection_ref \<Rightarrow> bool" where
  "hint_key hint c \<longleftrightarrow> \<not> contains (to_ascii_lowercase (n_label c)) hint"

definition candidates :: "binding_request \<Rightarrow> connection_ref list \<Rightarrow> connection_ref list" where
  "candidates request available =
     (let matching = filter (\<lambda>c. satisfies c (q_require request)) available
      in case q_request_hint request of
           None \<Rightarrow> matching
         | Some hint \<Rightarrow> sort_key (\<lambda>c. hint_key (to_ascii_lowercase hint) c) matching)"

definition resolve ::
  "binding_request \<Rightarrow> binding \<Rightarrow> connection_ref list \<Rightarrow> policy_error + resolved" where
  "resolve request bind available =
     (case bind of
        KeepLocal \<Rightarrow> Inr ResolvedLocal
      | BindConnection cid \<Rightarrow>
          rbind (ok_or (BindingMissing cid) (find (\<lambda>c. n_id c = cid) available)) (\<lambda>c.
          if \<not> satisfies c (q_require request)
          then Inl (BindingUnsatisfiable cid (require_kind_str (q_require request)))
          else Inr (ResolvedConnection c)))"

definition unbound :: "binding_request \<Rightarrow> policy_error" where
  "unbound request = NoSatisfyingConnection (require_kind_str (q_require request))"

lemma insort_key_False: "\<not> P x \<Longrightarrow> insort_key P x xs = x # xs"
  by (cases xs) simp_all

lemma insort_key_True:
  "P x \<Longrightarrow> \<forall>y\<in>set ys. \<not> P y \<Longrightarrow> \<forall>z\<in>set zs. P z \<Longrightarrow> insort_key P x (ys @ zs) = ys @ x # zs"
proof (induction ys)
  case Nil
  then show ?case by (cases zs) simp_all
qed simp

lemma sort_key_bool: "sort_key P xs = filter (\<lambda>x. \<not> P x) xs @ filter P xs"
  by (induction xs) (simp_all add: insort_key_False insort_key_True)

text \<open>
  The connections offered for a requirement are exactly the configured ones that can serve it,
  each once per entry, in configuration order except that those whose label contains the hint (up
  to ASCII case) come first: the hint reorders and never selects.
\<close>

theorem candidates_offer_all_satisfying:
  "candidates request available =
     (let serving = filter (\<lambda>c. satisfies c (q_require request)) available
      in case q_request_hint request of
           None \<Rightarrow> serving
         | Some hint \<Rightarrow>
             filter (\<lambda>c. contains (to_ascii_lowercase (n_label c)) (to_ascii_lowercase hint)) serving @
             filter (\<lambda>c. \<not> contains (to_ascii_lowercase (n_label c)) (to_ascii_lowercase hint)) serving) \<and>
   set (candidates request available) = {c \<in> set available. kind_satisfies (n_kind c) (q_require request)}"
proof -
  have eq: "candidates request available =
     (let serving = filter (\<lambda>c. satisfies c (q_require request)) available
      in case q_request_hint request of
           None \<Rightarrow> serving
         | Some hint \<Rightarrow>
             filter (\<lambda>c. contains (to_ascii_lowercase (n_label c)) (to_ascii_lowercase hint)) serving @
             filter (\<lambda>c. \<not> contains (to_ascii_lowercase (n_label c)) (to_ascii_lowercase hint)) serving)"
    by (simp add: candidates_def Let_def sort_key_bool hint_key_def split: option.split)
  moreover have "set (candidates request available) =
      {c \<in> set available. kind_satisfies (n_kind c) (q_require request)}"
    unfolding eq by (auto simp: Let_def satisfies_def split: option.split)
  ultimately show ?thesis by blast
qed

text \<open>
  Resolving a recorded decision serves storage from a connection only if the user recorded that
  very connection, it is still configured and can serve the manifest's requirement; otherwise it
  stays local exactly when the user said so, and every failure reaches the application as
  \<open>CONNECTION_REQUIRED\<close>, whatever the record or the configuration holds.
\<close>

theorem resolve_follows_the_recorded_decision:
  "(resolve request bind available = Inr ResolvedLocal \<longleftrightarrow> bind = KeepLocal) \<and>
   (resolve request bind available = Inr (ResolvedConnection c) \<longleftrightarrow>
      bind = BindConnection (n_id c) \<and> find (\<lambda>d. n_id d = n_id c) available = Some c \<and>
      kind_satisfies (n_kind c) (q_require request)) \<and>
   (resolve request bind available = Inl e \<longrightarrow> safe e = SafeError ConnectionRequired)"
proof (cases bind)
  case (BindConnection cid)
  have "find (\<lambda>d. n_id d = cid) available = Some c \<Longrightarrow> n_id c = cid"
    by (auto simp: find_Some_iff)
  then show ?thesis
    using BindConnection
    by (auto simp: resolve_def result_simps rbind_eq_Inl satisfies_def ok_or_def split: option.splits)
qed (simp add: resolve_def)

theorem resolve_follows_the_recorded_decision_witness:
  "safe (BindingMissing ''gone'') = SafeError ConnectionRequired"
  using resolve_follows_the_recorded_decision
    [of "\<lparr>q_require = Sql, q_request_hint = None\<rparr>" "BindConnection ''gone''" "[]" undefined
      "BindingMissing ''gone''"]
  by (simp add: resolve_def)

end
