(* ===== verification/Ip_Text.thy ===== *)
theory Ip_Text
  imports Broker_Errors
begin

text \<open>
  The address parsers of Rust's \<open>core::net\<close> that the broker calls through \<open>FromStr\<close>: dotted
  decimal without leading zeros, and IPv6 with at most one \<open>::\<close> and an optional dotted tail. Each
  reader returns its value and the unread rest, or \<open>None\<close> having consumed nothing.
\<close>

section \<open>Readers\<close>

definition read_given_char :: "char \<Rightarrow> string \<Rightarrow> string option" where
  "read_given_char c s = (case s of [] \<Rightarrow> None | d # t \<Rightarrow> if d = c then Some t else None)"

definition to_digit :: "nat \<Rightarrow> char \<Rightarrow> nat option" where
  "to_digit radix c = (case hex_value c of None \<Rightarrow> None | Some d \<Rightarrow> if d < radix then Some d else None)"

fun read_digits :: "nat \<Rightarrow> nat \<Rightarrow> nat \<Rightarrow> nat \<Rightarrow> string \<Rightarrow> (nat \<times> nat \<times> string) option" where
  "read_digits radix max_digits n count [] = Some (n, count, [])"
| "read_digits radix max_digits n count (c # s) =
     (case to_digit radix c of
        None \<Rightarrow> Some (n, count, c # s)
      | Some d \<Rightarrow> if count + 1 > max_digits then None
          else read_digits radix max_digits (n * radix + d) (count + 1) s)"

definition read_number :: "nat \<Rightarrow> nat \<Rightarrow> bool \<Rightarrow> nat \<Rightarrow> string \<Rightarrow> (nat \<times> string) option" where
  "read_number radix max_digits allow_zero_prefix max_value s =
     (case read_digits radix max_digits 0 0 s of
        None \<Rightarrow> None
      | Some (n, count, rest) \<Rightarrow>
          if count = 0 then None
          else if \<not> allow_zero_prefix \<and> starts_with s ''0'' \<and> 1 < count then None
          else if n \<le> max_value then Some (n, rest) else None)"

definition read_separator ::
  "char \<Rightarrow> nat \<Rightarrow> (string \<Rightarrow> ('a \<times> string) option) \<Rightarrow> string \<Rightarrow> ('a \<times> string) option" where
  "read_separator sep i inner s =
     (if i > 0 then Option.bind (read_given_char sep s) inner else inner s)"

definition read_octet :: "nat \<Rightarrow> string \<Rightarrow> (nat \<times> string) option" where
  "read_octet i s = read_separator CHR ''.'' i (read_number 10 3 False 255) s"

definition read_ipv4 :: "string \<Rightarrow> (u32 \<times> string) option" where
  "read_ipv4 s =
     Option.bind (read_octet 0 s) (\<lambda>(a, s).
     Option.bind (read_octet 1 s) (\<lambda>(b, s).
     Option.bind (read_octet 2 s) (\<lambda>(c, s).
     Option.bind (read_octet 3 s) (\<lambda>(d, s).
       Some (word_of_nat (((a * 256 + b) * 256 + c) * 256 + d), s)))))"

definition parse_ipv4 :: "string \<Rightarrow> u32 option" where
  "parse_ipv4 s =
     (if length s > 15 then None
      else case read_ipv4 s of Some (a, []) \<Rightarrow> Some a | _ \<Rightarrow> None)"

fun read_groups :: "nat \<Rightarrow> nat \<Rightarrow> nat \<Rightarrow> u16 list \<Rightarrow> string \<Rightarrow> u16 list \<times> bool \<times> string" where
  "read_groups 0 limit i groups s = (groups, False, s)"
| "read_groups (Suc left) limit i groups s =
     (case (if i < limit - 1 then read_separator CHR '':'' i read_ipv4 s else None) of
        Some (v4, rest) \<Rightarrow>
          (groups @ [word_of_nat (unat v4 div 65536), word_of_nat (unat v4 mod 65536)], True, rest)
      | None \<Rightarrow>
          (case read_separator CHR '':'' i (read_number 16 4 True 65535) s of
             Some (g, rest) \<Rightarrow> read_groups left limit (i + 1) (groups @ [word_of_nat g]) rest
           | None \<Rightarrow> (groups, False, s)))"

definition ipv6_of_groups :: "u16 list \<Rightarrow> ipv6" where
  "ipv6_of_groups g = Ipv6 (g ! 0) (g ! 1) (g ! 2) (g ! 3) (g ! 4) (g ! 5) (g ! 6) (g ! 7)"

definition read_ipv6 :: "string \<Rightarrow> (ipv6 \<times> string) option" where
  "read_ipv6 s =
     (case read_groups 8 8 0 [] s of
        (head, head_ipv4, rest) \<Rightarrow>
          if length head = 8 then Some (ipv6_of_groups head, rest)
          else if head_ipv4 then None
          else
            Option.bind (read_given_char CHR '':'' rest) (\<lambda>rest.
            Option.bind (read_given_char CHR '':'' rest) (\<lambda>rest.
              (let limit = 8 - (length head + 1) in
               case read_groups limit limit 0 [] rest of
                 (tail, tail_ipv4, rest) \<Rightarrow>
                   Some (ipv6_of_groups (head @ replicate (8 - length head - length tail) 0 @ tail),
                     rest)))))"

definition parse_ipv6 :: "string \<Rightarrow> ipv6 option" where
  "parse_ipv6 s = (case read_ipv6 s of Some (a, []) \<Rightarrow> Some a | _ \<Rightarrow> None)"

section \<open>The characters of an address\<close>

definition ip_char :: "char \<Rightarrow> bool" where
  "ip_char c \<longleftrightarrow> hex_value c \<noteq> None \<or> c = CHR '':'' \<or> c = CHR ''.''"

definition reads :: "string \<Rightarrow> string \<Rightarrow> bool" where
  "reads s rest \<longleftrightarrow> (\<exists>consumed. s = consumed @ rest \<and> (\<forall>c\<in>set consumed. ip_char c))"

lemma reads_refl [simp]: "reads s s"
  by (simp add: reads_def)

lemma reads_trans: "reads s t \<Longrightarrow> reads t u \<Longrightarrow> reads s u"
  unfolding reads_def by (metis Un_iff append.assoc set_append)

lemma reads_all: "reads s [] \<Longrightarrow> c \<in> set s \<Longrightarrow> ip_char c"
  by (auto simp: reads_def)

lemma read_given_char_reads:
  "read_given_char c s = Some t \<Longrightarrow> c \<in> {CHR '':'', CHR ''.''} \<Longrightarrow> reads s t"
  unfolding reads_def
  by (intro exI [of _ "[c]"]) (auto simp: read_given_char_def ip_char_def split: list.splits if_splits)

lemma read_digits_reads: "read_digits r m n k s = Some (n', k', t) \<Longrightarrow> reads s t"
proof (induction r m n k s rule: read_digits.induct)
  case (2 r m n k c s)
  show ?case
  proof (cases "to_digit r c")
    case (Some d)
    with 2 have "reads s t" by (auto split: if_splits)
    moreover have "ip_char c"
      using Some by (auto simp: to_digit_def ip_char_def split: option.splits)
    ultimately show ?thesis
      unfolding reads_def by (metis append_Cons set_ConsD)
  qed (use 2 in simp)
qed simp

lemma read_number_reads: "read_number r m z v s = Some (n, t) \<Longrightarrow> reads s t"
  by (auto simp: read_number_def split: option.splits if_splits dest: read_digits_reads)

lemma read_separator_reads:
  assumes "read_separator sep i inner s = Some (x, t)" "sep \<in> {CHR '':'', CHR ''.''}"
    and "\<And>u. inner u = Some (x, t) \<Longrightarrow> reads u t"
  shows "reads s t"
  using assms
  by (auto simp: read_separator_def bind_eq_Some_conv split: if_splits
      intro: reads_trans read_given_char_reads)

lemma read_octet_reads: "read_octet i s = Some (x, t) \<Longrightarrow> reads s t"
  unfolding read_octet_def by (erule read_separator_reads) (auto intro: read_number_reads)

lemma read_ipv4_reads: "read_ipv4 s = Some (x, t) \<Longrightarrow> reads s t"
  by (auto simp: read_ipv4_def bind_eq_Some_conv) (metis reads_trans read_octet_reads)

lemma read_groups_reads: "read_groups n l i g s = (g', b, t) \<Longrightarrow> reads s t"
proof (induction n l i g s rule: read_groups.induct)
  case (2 left limit i groups s)
  show ?case
  proof (cases "if i < limit - 1 then read_separator CHR '':'' i read_ipv4 s else None")
    case None
    show ?thesis
    proof (cases "read_separator CHR '':'' i (read_number 16 4 True 65535) s")
      case (Some p)
      obtain x rest where p: "p = (x, rest)" by (cases p)
      have "reads s rest"
        using Some unfolding p by (rule read_separator_reads) (auto intro: read_number_reads)
      moreover have "reads rest t"
        using 2(1) [OF None Some p [symmetric]] 2(2) None Some p by simp
      ultimately show ?thesis by (rule reads_trans)
    qed (use 2(2) None in simp)
  next
    case (Some p)
    obtain x rest where p: "p = (x, rest)" by (cases p)
    from Some p have "read_separator CHR '':'' i read_ipv4 s = Some (x, rest)"
      by (simp split: if_splits)
    then have "reads s rest"
      by (rule read_separator_reads) (auto intro: read_ipv4_reads)
    with 2(2) Some p show ?thesis by simp
  qed
qed simp

lemma read_ipv6_reads:
  assumes "read_ipv6 s = Some (x, t)"
  shows "reads s t"
proof -
  obtain head v4 rest where head: "read_groups 8 8 0 [] s = (head, v4, rest)"
    by (metis prod_cases3)
  note front = read_groups_reads [OF head]
  show ?thesis
  proof (cases "length head = 8")
    case False
    let ?limit = "8 - (length head + 1)"
    from assms False head obtain u w where "read_given_char CHR '':'' rest = Some u"
      "read_given_char CHR '':'' u = Some w"
      and t: "(case read_groups ?limit ?limit 0 [] w of (tail, tail_ipv4, rest) \<Rightarrow>
        Some (ipv6_of_groups (head @ replicate (8 - length head - length tail) 0 @ tail), rest)) = Some (x, t)"
      by (auto simp: read_ipv6_def Let_def bind_eq_Some_conv split: if_splits)
    then have "reads rest w"
      by (meson insertI1 read_given_char_reads reads_trans)
    moreover have "reads w t"
      using t by (cases "read_groups ?limit ?limit 0 [] w") (auto dest: read_groups_reads)
    ultimately show ?thesis
      using front reads_trans by blast
  qed (use assms head front in \<open>auto simp: read_ipv6_def\<close>)
qed

lemma parse_ipv6_chars:
  assumes "parse_ipv6 s = Some a" "c \<in> set s"
  shows "ip_char c"
proof -
  have "read_ipv6 s = Some (a, [])"
    using assms(1) by (auto simp: parse_ipv6_def split: option.splits list.splits)
  then show ?thesis by (metis assms(2) read_ipv6_reads reads_all)
qed

end
