(* ===== verification/Broker_Network.thy ===== *)
theory Broker_Network
  imports Ip_Text
begin

text \<open>
  \<open>poid-broker/src/network.rs\<close>: parsing of origins and of the origin of a request URL, the policy as
  the intersection of what the manifest declares and the user approves, and the classification of
  addresses, with IPv4 addresses embedded in IPv6 ones unwrapped first.
\<close>

unbundle bit_operations_syntax

section \<open>Origins\<close>

fun scheme_str :: "scheme \<Rightarrow> string" where
  "scheme_str Http = ''http''"
| "scheme_str Https = ''https''"

fun default_port :: "scheme \<Rightarrow> nat" where
  "default_port Http = 80"
| "default_port Https = 443"

definition is_whitespace :: "nat \<Rightarrow> bool" where
  "is_whitespace n \<longleftrightarrow> (9 \<le> n \<and> n \<le> 13) \<or> n = 32 \<or> n = 0x85 \<or> n = 0xA0 \<or> n = 0x1680 \<or>
     (0x2000 \<le> n \<and> n \<le> 0x200A) \<or> n = 0x2028 \<or> n = 0x2029 \<or> n = 0x202F \<or> n = 0x205F \<or> n = 0x3000"

definition is_control :: "nat \<Rightarrow> bool" where
  "is_control n \<longleftrightarrow> n < 32 \<or> (127 \<le> n \<and> n < 160)"

definition forbidden_char :: "nat \<Rightarrow> bool" where
  "forbidden_char n \<longleftrightarrow> is_whitespace n \<or> is_control n \<or> n \<in> {0x3B, 0x27, 0x22, 0x2C}"

definition split_authority :: "string \<Rightarrow> scheme \<Rightarrow> (string \<times> nat) option" where
  "split_authority rest sch =
     (case split_once CHR '']'' rest of
        Some (before, tail) \<Rightarrow>
          (let host = before @ '']'' in
           if tail = '''' then Some (host, default_port sch)
           else Option.bind (strip_prefix '':'' tail)
             (\<lambda>p. map_option (\<lambda>port. (host, port)) (parse_u16 p)))
      | None \<Rightarrow>
          (case rsplit_once CHR '':'' rest of
             Some (host, port) \<Rightarrow> map_option (\<lambda>port. (host, port)) (parse_u16 port)
           | None \<Rightarrow> Some (rest, default_port sch)))"

definition bracketed :: "string \<Rightarrow> string option" where
  "bracketed host = Option.bind (strip_prefix ''['' host) (strip_suffix '']'')"

definition valid_label :: "string \<Rightarrow> bool" where
  "valid_label label \<longleftrightarrow> label \<noteq> [] \<and> length label \<le> 63 \<and> \<not> starts_with label ''-'' \<and>
     \<not> ends_with label ''-'' \<and> list_all (\<lambda>c. is_ascii_alphanumeric c \<or> c = CHR ''-'') label"

definition valid_host :: "string \<Rightarrow> bool" where
  "valid_host host =
     (case bracketed host of
        Some inner \<Rightarrow> parse_ipv6 inner \<noteq> None
      | None \<Rightarrow>
          if host = [] \<or> length host > 253 \<or> starts_with host ''.'' \<or> ends_with host ''.'' then False
          else list_all valid_label (split_on CHR ''.'' host))"

definition parse_scheme :: "string \<Rightarrow> scheme option" where
  "parse_scheme s =
     (if to_ascii_lowercase s = ''http'' then Some Http
      else if to_ascii_lowercase s = ''https'' then Some Https else None)"

definition strip_slash :: "string \<Rightarrow> string" where
  "strip_slash rest = (case strip_suffix ''/'' rest of Some r \<Rightarrow> r | None \<Rightarrow> rest)"

definition parse_authority :: "(string \<Rightarrow> policy_error) \<Rightarrow> scheme \<Rightarrow> string \<Rightarrow> policy_error + origin" where
  "parse_authority bad sch rest =
     (if CHR ''/'' \<in> set rest then Inl (bad ''an origin has no path'')
      else if CHR ''?'' \<in> set rest \<or> CHR ''#'' \<in> set rest
        then Inl (bad ''an origin has no query or fragment'')
      else if CHR ''@'' \<in> set rest then Inl (bad ''an origin must not carry credentials'')
      else if rest = [] then Inl (bad ''it has no host'')
      else
        rbind (ok_or (bad ''its port is not a number'') (split_authority rest sch)) (\<lambda>(host, port).
          (let host = to_ascii_lowercase host in
           if \<not> valid_host host
           then Inl (bad ''its host is not a valid hostname or IP literal'')
           else Inr \<lparr>o_scheme = sch, o_host = host, o_port = port\<rparr>)))"

definition origin_parse :: "string \<Rightarrow> policy_error + origin" where
  "origin_parse value_str =
     (let bad = MalformedOrigin value_str in
      if list_ex forbidden_char (chars_of value_str)
      then Inl (bad ''it contains whitespace or punctuation that is not allowed here'')
      else if CHR ''*'' \<in> set value_str
      then Inl (bad ''wildcards are not supported; list each origin'')
      else
        rbind (ok_or (bad ''it has no scheme'') (split_once_str ''://'' value_str)) (\<lambda>(sch, rest).
        rbind (ok_or (bad ''only http and https origins can be allowlisted'') (parse_scheme sch))
          (\<lambda>sch. parse_authority bad sch (strip_slash rest))))"

definition url_authority :: "string \<Rightarrow> string" where
  "url_authority rest = takeWhile (\<lambda>c. c \<noteq> CHR ''/'' \<and> c \<noteq> CHR ''?'' \<and> c \<noteq> CHR ''#'') rest"

definition of_url :: "string \<Rightarrow> policy_error + origin" where
  "of_url url =
     rbind (ok_or (MalformedOrigin url ''it has no scheme'') (split_once_str ''://'' url))
       (\<lambda>(sch, rest). origin_parse (sch @ ''://'' @ url_authority rest))"

definition literal_address :: "origin \<Rightarrow> ip_addr option" where
  "literal_address org =
     (case bracketed (o_host org) of
        Some inner \<Rightarrow> map_option V6 (parse_ipv6 inner)
      | None \<Rightarrow> map_option V4 (parse_ipv4 (o_host org)))"

definition origin_display :: "origin \<Rightarrow> string" where
  "origin_display org = scheme_str (o_scheme org) @ ''://'' @ o_host org @
     (if o_port org \<noteq> default_port (o_scheme org) then '':'' @ show_nat (o_port org) else [])"

section \<open>Classification of addresses\<close>

definition octet :: "nat \<Rightarrow> u32 \<Rightarrow> nat" where
  "octet i a = unat (drop_bit (24 - 8 * i) a AND 0xff)"

definition v4_of_octets :: "nat list \<Rightarrow> u32" where
  "v4_of_octets n = word_of_nat (((n ! 0 * 256 + n ! 1) * 256 + n ! 2) * 256 + n ! 3)"

definition in_net :: "u32 \<Rightarrow> nat list \<Rightarrow> nat \<Rightarrow> bool" where
  "in_net bits net prefix_len =
     (let mask = (if prefix_len = 0 then 0 else push_bit (32 - prefix_len) (- 1))
      in (bits AND mask) = (v4_of_octets net AND mask))"

definition is_multicast_v4 :: "u32 \<Rightarrow> bool" where
  "is_multicast_v4 a \<longleftrightarrow> 224 \<le> octet 0 a \<and> octet 0 a \<le> 239"

definition classify_v4 :: "u32 \<Rightarrow> string option" where
  "classify_v4 addr =
     (let a = octet 0 addr; b = octet 1 addr in
      if in_net addr [0, 0, 0, 0] 8 then Some ''an unspecified or this-network address''
      else if a = 10 \<or> in_net addr [172, 16, 0, 0] 12 \<or> (a = 192 \<and> b = 168)
        then Some ''a private address''
      else if in_net addr [100, 64, 0, 0] 10 then Some ''a carrier-grade NAT address''
      else if a = 127 then Some ''a loopback address''
      else if in_net addr [169, 254, 0, 0] 16 then Some ''a link-local address''
      else if in_net addr [192, 0, 0, 0] 24 then Some ''an IETF protocol assignment''
      else if in_net addr [192, 0, 2, 0] 24 \<or> in_net addr [198, 51, 100, 0] 24 \<or>
        in_net addr [203, 0, 113, 0] 24 then Some ''a documentation address''
      else if in_net addr [192, 88, 99, 0] 24 then Some ''a 6to4 relay anycast address''
      else if in_net addr [198, 18, 0, 0] 15 then Some ''a benchmarking address''
      else if is_multicast_v4 addr then Some ''a multicast address''
      else if in_net addr [240, 0, 0, 0] 4 then Some ''a reserved address''
      else None)"

definition from_pair :: "u16 \<Rightarrow> u16 \<Rightarrow> u32" where
  "from_pair hi lo = push_bit 16 (ucast hi) OR ucast lo"

fun embedded_v4 :: "ipv6 \<Rightarrow> u32 option" where
  "embedded_v4 (Ipv6 a b c d e f g h) =
     (if a = 0 \<and> b = 0 \<and> c = 0 \<and> d = 0 \<and> e = 0 \<and> f = 0xffff then Some (from_pair g h)
      else if a = 0 \<and> b = 0 \<and> c = 0 \<and> d = 0 \<and> e = 0 \<and> f = 0 \<and> \<not> (g = 0 \<and> h \<le> 1)
        then Some (from_pair g h)
      else if a = 0x0064 \<and> b = 0xff9b then Some (from_pair g h)
      else if a = 0x2002 then Some (from_pair b c)
      else None)"

fun classify_v6_plain :: "ipv6 \<Rightarrow> string option" where
  "classify_v6_plain (Ipv6 a b c d e f g h) =
     (if [a, b, c, d, e, f, g, h] = [0, 0, 0, 0, 0, 0, 0, 0] then Some ''an unspecified address''
      else if [a, b, c, d, e, f, g, h] = [0, 0, 0, 0, 0, 0, 0, 1] then Some ''a loopback address''
      else if a AND 0xfe00 = 0xfc00 then Some ''a unique-local address''
      else if a AND 0xffc0 = 0xfe80 then Some ''a link-local address''
      else if a AND 0xff00 = 0xff00 then Some ''a multicast address''
      else if a = 0x0100 \<and> b = 0 \<and> c = 0 \<and> d = 0 then Some ''a discard-only address''
      else if a = 0x2001 \<and> b = 0x0db8 then Some ''a documentation address''
      else if a = 0x2001 \<and> b AND 0xfe00 = 0 then Some ''an IETF protocol assignment''
      else None)"

definition classify_v6 :: "ipv6 \<Rightarrow> string option" where
  "classify_v6 addr =
     (case embedded_v4 addr of Some v4 \<Rightarrow> classify_v4 v4 | None \<Rightarrow> classify_v6_plain addr)"

fun classify :: "ip_addr \<Rightarrow> string option" where
  "classify (V4 a) = classify_v4 a"
| "classify (V6 a) = classify_v6 a"

section \<open>The policy\<close>

record network_policy =
  y_approved :: "origin list"
  y_allow_private :: bool

definition policy_new :: "origin list \<Rightarrow> origin list \<Rightarrow> network_policy" where
  "policy_new declared approved =
     \<lparr>y_approved = filter (\<lambda>org. org \<in> set approved) declared, y_allow_private = False\<rparr>"

definition with_private_addresses_allowed :: "network_policy \<Rightarrow> bool \<Rightarrow> network_policy" where
  "with_private_addresses_allowed p allow = p\<lparr>y_allow_private := allow\<rparr>"

definition check_origin :: "network_policy \<Rightarrow> origin \<Rightarrow> policy_error + unit" where
  "check_origin p org =
     (if org \<in> set (y_approved p) then Inr () else Inl (OriginNotAllowed (origin_display org)))"

definition check_address :: "network_policy \<Rightarrow> string \<Rightarrow> ip_addr \<Rightarrow> policy_error + unit" where
  "check_address p host address =
     (case classify address of
        None \<Rightarrow> Inr ()
      | Some reason \<Rightarrow>
          if y_allow_private p then Inr () else Inl (AddressBlocked host address reason))"

definition usable_addresses ::
  "network_policy \<Rightarrow> string \<Rightarrow> ip_addr list \<Rightarrow> policy_error + ip_addr list" where
  "usable_addresses p host addrs =
     (let usable = filter (\<lambda>a. is_ok (check_address p host a)) addrs
      in if usable = [] then Inl (NoUsableAddress host) else Inr usable)"

section \<open>Parsed origins are canonical\<close>

definition origin_ok :: "origin \<Rightarrow> bool" where
  "origin_ok org \<longleftrightarrow> valid_host (o_host org) \<and> to_ascii_lowercase (o_host org) = o_host org \<and>
     o_port org < 65536"

definition host_char :: "char \<Rightarrow> bool" where
  "host_char c \<longleftrightarrow> is_ascii_alphanumeric c \<or> c \<in> {CHR ''-'', CHR ''.'', CHR ''['', CHR '']'', CHR '':''}"

definition plain_url_char :: "char \<Rightarrow> bool" where
  "plain_url_char c \<longleftrightarrow> host_char c \<or> c = CHR ''/''"

lemma hex_alphanumeric: "hex_value c \<noteq> None \<Longrightarrow> is_ascii_alphanumeric c"
  by (auto simp: hex_value_def ascii_class_defs Let_def split: if_splits)

lemma bracketed_Some: "bracketed host = Some inner \<longleftrightarrow> host = ''['' @ inner @ '']''"
  by (auto simp: bracketed_def bind_eq_Some_conv strip_prefix_eq_Some strip_suffix_eq_Some)

lemma alphanumeric_host_char: "is_ascii_alphanumeric c \<Longrightarrow> host_char c"
  by (simp add: host_char_def)

lemma ip_char_host: "ip_char c \<Longrightarrow> host_char c \<and> c \<noteq> CHR '']'' \<and> c \<noteq> CHR ''[''"
proof -
  assume "ip_char c"
  then consider "hex_value c \<noteq> None" | "c = CHR '':''" | "c = CHR ''.''"
    by (auto simp: ip_char_def)
  then show ?thesis
  proof cases
    case 1
    moreover have "hex_value CHR '']'' = None" "hex_value CHR ''['' = None" by code_simp+
    ultimately have "c \<noteq> CHR '']'' \<and> c \<noteq> CHR ''[''" by auto
    with 1 show ?thesis by (simp add: alphanumeric_host_char hex_alphanumeric)
  qed (simp_all add: host_char_def)
qed

lemma valid_host_bracketed:
  assumes "valid_host host" "bracketed host = Some inner"
  shows "\<forall>c\<in>set inner. ip_char c"
  using assms by (auto simp: valid_host_def dest: parse_ipv6_chars)

lemma valid_host_plain:
  assumes "valid_host host" "bracketed host = None" "c \<in> set host"
  shows "is_ascii_alphanumeric c \<or> c = CHR ''-'' \<or> c = CHR ''.''"
proof (cases "c = CHR ''.''")
  case False
  from assms(1,2) have labels: "list_all valid_label (split_on CHR ''.'' host)"
    by (auto simp: valid_host_def split: if_splits)
  from False assms(3) obtain l where "l \<in> set (split_on CHR ''.'' host)" "c \<in> set l"
    using in_split_on [of "CHR ''.''" host c] by blast
  with labels show ?thesis by (auto simp: list_all_iff valid_label_def)
qed simp

lemma valid_host_chars: "valid_host host \<Longrightarrow> c \<in> set host \<Longrightarrow> host_char c"
proof (cases "bracketed host")
  case None
  assume "valid_host host" "c \<in> set host"
  with valid_host_plain [OF this(1) None this(2)] show ?thesis by (auto simp: host_char_def)
next
  case (Some inner)
  assume v: "valid_host host" "c \<in> set host"
  with Some have "c = CHR ''['' \<or> c = CHR '']'' \<or> c \<in> set inner"
    by (auto simp: bracketed_Some)
  with valid_host_bracketed [OF v(1) Some] ip_char_host show ?thesis
    by (auto simp: host_char_def)
qed

lemma valid_host_not_empty: "valid_host host \<Longrightarrow> host \<noteq> []"
  by (auto simp: valid_host_def bracketed_def strip_prefix_def)

lemma plain_url_char_ok:
  "plain_url_char c \<Longrightarrow> of_char c < (128 :: nat) \<and> \<not> forbidden_char (of_char c) \<and> c \<noteq> CHR ''*''"
  by (auto simp: plain_url_char_def host_char_def ascii_class_defs forbidden_char_def is_whitespace_def
      is_control_def Let_def)

lemma host_char_not [simp]:
  "\<not> host_char CHR ''/''" "\<not> host_char CHR ''?''" "\<not> host_char CHR ''#''" "\<not> host_char CHR ''@''"
  by code_simp+

lemma digit_host_char: "is_ascii_digit c \<Longrightarrow> host_char c"
  by (simp add: host_char_def is_ascii_alphanumeric_def)

lemma split_scheme: "CHR '':'' \<notin> set a \<Longrightarrow> split_once_str ''://'' (a @ ''://'' @ b) = Some (a, b)"
  by (induction a) (auto simp: numeral_eq_Suc)

definition port_suffix :: "scheme \<Rightarrow> nat \<Rightarrow> string" where
  "port_suffix sch port = (if port \<noteq> default_port sch then '':'' @ show_nat port else [])"

lemma port_suffix_chars: "c \<in> set (port_suffix sch port) \<Longrightarrow> host_char c"
  by (auto simp: port_suffix_def host_char_def [of "CHR '':''"] intro: set_show_nat digit_host_char
      split: if_splits)

lemma digits_no_colon: "CHR '':'' \<notin> set (show_nat n)" "CHR '']'' \<notin> set (show_nat n)"
proof -
  have "\<not> is_ascii_digit CHR '':''" "\<not> is_ascii_digit CHR '']''" by code_simp+
  then show "CHR '':'' \<notin> set (show_nat n)" "CHR '']'' \<notin> set (show_nat n)"
    using set_show_nat by blast+
qed

lemma split_authority_display:
  assumes "valid_host host" "port < 65536"
  shows "split_authority (host @ port_suffix sch port) sch = Some (host, port)"
proof (cases "bracketed host")
  case (Some inner)
  have "CHR '']'' \<notin> set (''['' @ inner)"
    using valid_host_bracketed [OF assms(1) Some] ip_char_host by auto
  then have "split_once CHR '']'' (host @ port_suffix sch port) = Some (''['' @ inner, port_suffix sch port)"
    using Some by (simp add: bracketed_Some split_once_eq_Some)
  then show ?thesis
    using Some assms(2)
    by (simp add: split_authority_def bracketed_Some port_suffix_def Let_def strip_prefix_def
        parse_u16_show)
next
  case None
  have no: "CHR '']'' \<notin> set host" "CHR '':'' \<notin> set host"
    using valid_host_plain [OF assms(1) None, of "CHR '']''"]
      valid_host_plain [OF assms(1) None, of "CHR '':''"]
    by (auto simp: ascii_class_defs)
  then have "split_once CHR '']'' (host @ port_suffix sch port) = None"
    by (auto simp: split_once_eq_None port_suffix_def digits_no_colon)
  moreover have "rsplit_once CHR '':'' (host @ port_suffix sch port) =
      (if port \<noteq> default_port sch then Some (host, show_nat port) else None)"
    using no by (auto simp: rsplit_once_eq_Some rsplit_once_eq_None port_suffix_def digits_no_colon)
  ultimately show ?thesis
    using assms(2) by (auto simp: split_authority_def port_suffix_def parse_u16_show)
qed

lemma origin_display_eq:
  "origin_display org = scheme_str (o_scheme org) @ ''://'' @ o_host org @
     port_suffix (o_scheme org) (o_port org)"
  by (simp add: origin_display_def port_suffix_def)

lemma strip_slash_plain: "CHR ''/'' \<notin> set rest \<Longrightarrow> strip_slash rest = rest"
  by (auto simp: strip_slash_def strip_suffix_eq_Some split: option.split)

lemma parse_display:
  assumes "origin_ok org"
  shows "origin_parse (origin_display org) = Inr org"
proof -
  let ?rest = "o_host org @ port_suffix (o_scheme org) (o_port org)"
  from assms have valid: "valid_host (o_host org)" and low: "to_ascii_lowercase (o_host org) = o_host org"
    and port: "o_port org < 65536"
    by (simp_all add: origin_ok_def)
  have rest: "\<forall>c\<in>set ?rest. host_char c"
    using valid_host_chars [OF valid] port_suffix_chars by auto
  have sch: "\<forall>c\<in>set (scheme_str (o_scheme org)). is_ascii_alphanumeric c \<and> c \<noteq> CHR '':''"
    by (cases "o_scheme org") (auto simp: ascii_class_defs)
  have all: "\<forall>c\<in>set (origin_display org). plain_url_char c"
    using rest sch by (auto simp: origin_display_eq plain_url_char_def host_char_def)
  have "is_ascii (origin_display org)"
    using all plain_url_char_ok by (auto simp: is_ascii_def list_all_iff)
  then have "\<not> list_ex forbidden_char (chars_of (origin_display org))"
    using all plain_url_char_ok by (auto simp: chars_of_ascii list_ex_iff)
  moreover have "CHR ''*'' \<notin> set (origin_display org)"
    using all plain_url_char_ok by blast
  moreover have "split_once_str ''://'' (origin_display org) = Some (scheme_str (o_scheme org), ?rest)"
    unfolding origin_display_eq using sch by (intro split_scheme) blast
  moreover have "parse_scheme (scheme_str (o_scheme org)) = Some (o_scheme org)"
    by (cases "o_scheme org") (simp_all add: parse_scheme_def to_ascii_lowercase_char_def
        is_ascii_uppercase_def)
  moreover have slash: "CHR ''/'' \<notin> set ?rest" "CHR ''?'' \<notin> set ?rest" "CHR ''#'' \<notin> set ?rest"
    "CHR ''@'' \<notin> set ?rest"
    using rest host_char_not by blast+
  moreover have "?rest \<noteq> []"
    using valid_host_not_empty [OF valid] by simp
  moreover have "split_authority ?rest (o_scheme org) = Some (o_host org, o_port org)"
    by (rule split_authority_display [OF valid port])
  ultimately show ?thesis
    using valid low
    by (simp add: origin_parse_def parse_authority_def Let_def strip_slash_plain del: set_append)
qed

lemma split_authority_port: "split_authority rest sch = Some (host, port) \<Longrightarrow> port < 65536"
  by (cases sch) (auto simp: split_authority_def Let_def bind_eq_Some_conv
      split: option.splits if_splits dest: parse_u16_bound)

lemma parse_authority_ok:
  "parse_authority bad sch rest = Inr org \<Longrightarrow> origin_ok org \<and> o_scheme org = sch \<and> CHR ''@'' \<notin> set rest"
  by (auto simp: parse_authority_def result_simps origin_ok_def Let_def split: if_splits
      dest: split_authority_port)

lemma parse_scheme_no_at: "parse_scheme s = Some sch \<Longrightarrow> CHR ''@'' \<notin> set s"
proof
  assume "parse_scheme s = Some sch" "CHR ''@'' \<in> set s"
  then have "to_ascii_lowercase_char CHR ''@'' \<in> set (to_ascii_lowercase s)"
    "to_ascii_lowercase s = ''http'' \<or> to_ascii_lowercase s = ''https''"
    by (auto simp: parse_scheme_def to_ascii_lowercase_def split: if_splits)
  moreover have "to_ascii_lowercase_char CHR ''@'' = CHR ''@''" by code_simp
  ultimately show False by auto
qed

lemma strip_slash_chars: "c \<in> set rest \<Longrightarrow> c \<noteq> CHR ''/'' \<Longrightarrow> c \<in> set (strip_slash rest)"
  by (auto simp: strip_slash_def strip_suffix_eq_Some split: option.split)

lemma origin_parse_ok:
  assumes "origin_parse v = Inr org"
  shows "origin_ok org" "CHR ''@'' \<notin> set v" "CHR ''*'' \<notin> set v"
proof -
  obtain sch rest s where v: "split_once_str ''://'' v = Some (sch, rest)" "parse_scheme sch = Some s"
    "parse_authority (MalformedOrigin v) s (strip_slash rest) = Inr org" "CHR ''*'' \<notin> set v"
    using assms by (auto simp: origin_parse_def Let_def result_simps split: if_splits)
  from parse_authority_ok [OF v(3)] show "origin_ok org" by blast
  have "CHR ''@'' \<notin> set rest"
    using parse_authority_ok [OF v(3)] strip_slash_chars by blast
  with parse_scheme_no_at [OF v(2)] show "CHR ''@'' \<notin> set v"
    unfolding split_once_str_Some [OF v(1)] by simp
  show "CHR ''*'' \<notin> set v" by (rule v(4))
qed

text \<open>
  A parsed origin is canonical: its host is a valid lowercase name or IPv6 literal, its port is
  a 16-bit number, and printing it and parsing the text again gives the same origin, so that
  equality of origins is equality of what they print. No value with credentials or a wildcard
  parses.
\<close>

theorem origin_parse_display_roundtrip:
  "(origin_parse v = Inr org \<longrightarrow> origin_ok org \<and> CHR ''@'' \<notin> set v \<and> CHR ''*'' \<notin> set v) \<and>
   (origin_ok org \<longleftrightarrow> origin_parse (origin_display org) = Inr org)"
  using origin_parse_ok parse_display by blast

lemma sample_origin_ok: "origin_ok \<lparr>o_scheme = Http, o_host = ''x.com'', o_port = 80\<rparr>"
  by (simp add: origin_ok_def valid_host_def bracketed_def strip_prefix_def valid_label_def
      ends_with_def to_ascii_lowercase_char_def ascii_class_defs)

theorem origin_parse_display_roundtrip_witness:
  "CHR ''@'' \<notin> set ''http://x.com''"
proof -
  have "origin_display \<lparr>o_scheme = Http, o_host = ''x.com'', o_port = 80\<rparr> = ''http://x.com''"
    by (simp add: origin_display_def)
  then have "origin_parse ''http://x.com'' = Inr \<lparr>o_scheme = Http, o_host = ''x.com'', o_port = 80\<rparr>"
    using sample_origin_ok origin_parse_display_roundtrip by metis
  then show ?thesis using origin_parse_display_roundtrip by blast
qed

lemma url_authority_append:
  assumes "\<forall>c\<in>set a. c \<noteq> CHR ''/'' \<and> c \<noteq> CHR ''?'' \<and> c \<noteq> CHR ''#''"
    and "t = [] \<or> hd t \<in> {CHR ''/'', CHR ''?'', CHR ''#''}"
  shows "url_authority (a @ t) = a"
  using assms unfolding url_authority_def by (cases t) (auto simp: takeWhile_append)

lemma of_url_display:
  assumes "origin_ok org" "t = [] \<or> hd t \<in> {CHR ''/'', CHR ''?'', CHR ''#''}"
  shows "of_url (origin_display org @ t) = Inr org"
proof -
  let ?rest = "o_host org @ port_suffix (o_scheme org) (o_port org)"
  have "\<forall>c\<in>set ?rest. host_char c"
    using assms(1) valid_host_chars port_suffix_chars by (auto simp: origin_ok_def)
  then have rest: "\<forall>c\<in>set ?rest. c \<noteq> CHR ''/'' \<and> c \<noteq> CHR ''?'' \<and> c \<noteq> CHR ''#''"
    using host_char_not by blast
  have "CHR '':'' \<notin> set (scheme_str (o_scheme org))"
    by (cases "o_scheme org") auto
  then have "split_once_str ''://'' (scheme_str (o_scheme org) @ ''://'' @ ?rest @ t) =
      Some (scheme_str (o_scheme org), ?rest @ t)"
    by (rule split_scheme)
  then have "of_url (origin_display org @ t) = origin_parse (scheme_str (o_scheme org) @ ''://'' @ ?rest)"
    using url_authority_append [OF rest assms(2)] by (simp add: of_url_def origin_display_eq)
  also have "\<dots> = Inr org"
    using parse_display [OF assms(1)] by (simp add: origin_display_eq)
  finally show ?thesis .
qed

text \<open>
  The origin of a request URL is read from exactly its authority: a URL that starts with an
  origin's text followed by a path, query or fragment has that origin; and whenever an origin is
  read, it is the parsed value of \<open>scheme://authority\<close>, where the authority is everything up to the
  first \<open>/\<close>, \<open>?\<close> or \<open>#\<close> and holds no credentials.
\<close>

theorem of_url_reads_the_authority:
  "(origin_ok org \<and> (t = [] \<or> hd t \<in> {CHR ''/'', CHR ''?'', CHR ''#''}) \<longrightarrow>
      of_url (origin_display org @ t) = Inr org) \<and>
   (of_url url = Inr org \<longrightarrow>
      (\<exists>sch authority tail. url = sch @ ''://'' @ authority @ tail \<and>
         (tail = [] \<or> hd tail \<in> {CHR ''/'', CHR ''?'', CHR ''#''}) \<and>
         CHR ''@'' \<notin> set authority \<and> origin_parse (sch @ ''://'' @ authority) = Inr org))"
proof (intro conjI impI)
  assume "origin_ok org \<and> (t = [] \<or> hd t \<in> {CHR ''/'', CHR ''?'', CHR ''#''})"
  then show "of_url (origin_display org @ t) = Inr org" by (intro of_url_display) auto
next
  assume "of_url url = Inr org"
  then obtain sch rest where u: "split_once_str ''://'' url = Some (sch, rest)"
    "origin_parse (sch @ ''://'' @ url_authority rest) = Inr org"
    by (auto simp: of_url_def result_simps)
  let ?P = "\<lambda>c. c \<noteq> CHR ''/'' \<and> c \<noteq> CHR ''?'' \<and> c \<noteq> CHR ''#''"
  have "url = sch @ ''://'' @ url_authority rest @ dropWhile ?P rest"
    unfolding url_authority_def using split_once_str_Some [OF u(1)] by simp
  moreover have "dropWhile ?P rest = [] \<or> hd (dropWhile ?P rest) \<in> {CHR ''/'', CHR ''?'', CHR ''#''}"
    using hd_dropWhile [of ?P rest] by blast
  moreover have "CHR ''@'' \<notin> set (url_authority rest)"
    using origin_parse_ok(2) [OF u(2)] by simp
  ultimately show "\<exists>sch authority tail. url = sch @ ''://'' @ authority @ tail \<and>
      (tail = [] \<or> hd tail \<in> {CHR ''/'', CHR ''?'', CHR ''#''}) \<and>
      CHR ''@'' \<notin> set authority \<and> origin_parse (sch @ ''://'' @ authority) = Inr org"
    using u(2) by blast
qed

theorem of_url_reads_the_authority_witness:
  "of_url ''http://x.com/a@b'' = Inr \<lparr>o_scheme = Http, o_host = ''x.com'', o_port = 80\<rparr>"
proof -
  let ?org = "\<lparr>o_scheme = Http, o_host = ''x.com'', o_port = 80\<rparr>"
  have "of_url (origin_display ?org @ ''/a@b'') = Inr ?org"
    using of_url_reads_the_authority [of ?org "''/a@b''"] sample_origin_ok by simp
  moreover have "origin_display ?org = ''http://x.com''"
    by (simp add: origin_display_def)
  ultimately show ?thesis by simp
qed


section \<open>IPv4 classification is a table of disjoint intervals\<close>

lemma mask_eq_iff:
  fixes a b :: "'a::len word"
  assumes "n \<le> LENGTH('a)"
  shows "a AND push_bit n (-1) = b AND push_bit n (-1) \<longleftrightarrow> unat a div 2 ^ n = unat b div 2 ^ n"
proof -
  have "x AND push_bit n (-1) = push_bit n (drop_bit n x)" for x :: "'a word"
    by (rule bit_word_eqI) (auto simp: bit_simps)
  moreover have "push_bit n (drop_bit n a) = push_bit n (drop_bit n b) \<longleftrightarrow> drop_bit n a = drop_bit n b"
  proof
    assume e: "push_bit n (drop_bit n a) = push_bit n (drop_bit n b)"
    have d: "drop_bit n (push_bit n (drop_bit n x)) = drop_bit n x" for x :: "'a word"
      by (rule bit_word_eqI) (auto simp: bit_simps dest: bit_imp_le_length)
    from e have "drop_bit n (push_bit n (drop_bit n a)) = drop_bit n (push_bit n (drop_bit n b))" by simp
    then show "drop_bit n a = drop_bit n b" unfolding d .
  qed simp
  moreover have "drop_bit n a = drop_bit n b \<longleftrightarrow> unat a div 2 ^ n = unat b div 2 ^ n"
    by (simp only: word_unat_eq_iff unat_drop_bit_eq) (simp add: drop_bit_eq_div)
  ultimately show ?thesis by simp
qed

definition in_interval :: "nat \<Rightarrow> nat \<Rightarrow> nat \<Rightarrow> bool" where
  "in_interval lo hi n \<longleftrightarrow> lo \<le> n \<and> n \<le> hi"

lemma div_interval: "0 < c \<Longrightarrow> n div c = k \<longleftrightarrow> in_interval (k * c) (k * c + (c - 1)) n" for n :: nat
proof
  assume "0 < c" "n div c = k"
  then have "n = k * c + n mod c" "n mod c < c" by auto
  then show "in_interval (k * c) (k * c + (c - 1)) n" unfolding in_interval_def by linarith
next
  assume "0 < c" "in_interval (k * c) (k * c + (c - 1)) n"
  then show "n div c = k" by (intro div_nat_eqI) (auto simp: in_interval_def mult.commute)
qed

lemma in_net_interval:
  assumes "0 < p" "p \<le> 32" "unat (v4_of_octets net) div 2 ^ (32 - p) * 2 ^ (32 - p) = lo"
    and "hi = lo + (2 ^ (32 - p) - 1)"
  shows "in_net a net p \<longleftrightarrow> in_interval lo hi (unat a)"
proof -
  have "in_net a net p \<longleftrightarrow> unat a div 2 ^ (32 - p) = unat (v4_of_octets net) div 2 ^ (32 - p)"
    using assms mask_eq_iff [of "32 - p" a "v4_of_octets net"] by (simp add: in_net_def Let_def)
  then show ?thesis using assms(3,4) by (simp add: div_interval)
qed

lemma octet_eq: "octet i a = unat a div 2 ^ (24 - 8 * i) mod 256"
proof -
  have "(0xff :: u32) = mask 8" by (simp add: mask_numeral)
  then have "octet i a = unat (take_bit 8 (drop_bit (24 - 8 * i) a))"
    by (simp only: octet_def take_bit_eq_mask)
  also have "\<dots> = take_bit 8 (drop_bit (24 - 8 * i) (unat a))"
    by (simp only: unsigned_take_bit_eq unat_drop_bit_eq)
  finally show ?thesis by (simp add: take_bit_eq_mod drop_bit_eq_div)
qed

lemma pair256: "b < 256 \<Longrightarrow> l < 256 \<Longrightarrow> a * 256 + b = h * 256 + l \<longleftrightarrow> a = h \<and> b = l" for a b h l :: nat
proof
  assume lt: "b < 256" "l < 256" and e: "a * 256 + b = h * 256 + l"
  from lt have "(a * 256 + b) mod 256 = b" "(h * 256 + l) mod 256 = l" by simp_all
  with e have "b = l" by metis
  with e show "a = h \<and> b = l" by simp
qed simp

lemma octet_intervals:
  "octet 0 a = k \<longleftrightarrow> in_interval (k * 2 ^ 24) (k * 2 ^ 24 + (2 ^ 24 - 1)) (unat a)"
  "octet 0 a = h \<and> octet 1 a = l \<longleftrightarrow> l < 256 \<and> 
     in_interval ((h * 256 + l) * 2 ^ 16) ((h * 256 + l) * 2 ^ 16 + (2 ^ 16 - 1)) (unat a)"
  "is_multicast_v4 a \<longleftrightarrow> in_interval 0xE0000000 0xEFFFFFFF (unat a)"
proof -
  have lt: "unat a < 2 ^ 32" using unsigned_less [of a] by simp
  then have o0: "octet 0 a = unat a div 2 ^ 24" by (simp add: octet_eq)
  then show "octet 0 a = k \<longleftrightarrow> in_interval (k * 2 ^ 24) (k * 2 ^ 24 + (2 ^ 24 - 1)) (unat a)"
    by (simp add: div_interval)
  have "unat a div 2 ^ 16 = octet 0 a * 256 + octet 1 a" "octet 1 a < 256"
    using o0 div_mult2_eq [of "unat a" "2 ^ 16" "2 ^ 8"] by (simp_all add: octet_eq)
  then have "octet 0 a = h \<and> octet 1 a = l \<longleftrightarrow> l < 256 \<and> unat a div 2 ^ 16 = h * 256 + l"
    using pair256 [of "octet 1 a" l "octet 0 a" h] by metis
  then show "octet 0 a = h \<and> octet 1 a = l \<longleftrightarrow> l < 256 \<and> 
     in_interval ((h * 256 + l) * 2 ^ 16) ((h * 256 + l) * 2 ^ 16 + (2 ^ 16 - 1)) (unat a)"
    by (simp add: div_interval)
  show "is_multicast_v4 a \<longleftrightarrow> in_interval 0xE0000000 0xEFFFFFFF (unat a)"
    using o0 by (auto simp: is_multicast_v4_def in_interval_def)
qed

definition special_v4 :: "(nat \<times> nat \<times> string) list" where
  "special_v4 =
    [(0x00000000, 0x00FFFFFF, ''an unspecified or this-network address''),
     (0x0A000000, 0x0AFFFFFF, ''a private address''),
     (0xAC100000, 0xAC1FFFFF, ''a private address''),
     (0xC0A80000, 0xC0A8FFFF, ''a private address''),
     (0x64400000, 0x647FFFFF, ''a carrier-grade NAT address''),
     (0x7F000000, 0x7FFFFFFF, ''a loopback address''),
     (0xA9FE0000, 0xA9FEFFFF, ''a link-local address''),
     (0xC0000000, 0xC00000FF, ''an IETF protocol assignment''),
     (0xC0000200, 0xC00002FF, ''a documentation address''),
     (0xC6336400, 0xC63364FF, ''a documentation address''),
     (0xCB007100, 0xCB0071FF, ''a documentation address''),
     (0xC0586300, 0xC05863FF, ''a 6to4 relay anycast address''),
     (0xC6120000, 0xC613FFFF, ''a benchmarking address''),
     (0xE0000000, 0xEFFFFFFF, ''a multicast address''),
     (0xF0000000, 0xFFFFFFFF, ''a reserved address'')]"

lemma in_nets:
  "in_net a [0, 0, 0, 0] 8 \<longleftrightarrow> in_interval 0x00000000 0x00FFFFFF (unat a)"
  "in_net a [172, 16, 0, 0] 12 \<longleftrightarrow> in_interval 0xAC100000 0xAC1FFFFF (unat a)"
  "in_net a [100, 64, 0, 0] 10 \<longleftrightarrow> in_interval 0x64400000 0x647FFFFF (unat a)"
  "in_net a [169, 254, 0, 0] 16 \<longleftrightarrow> in_interval 0xA9FE0000 0xA9FEFFFF (unat a)"
  "in_net a [192, 0, 0, 0] 24 \<longleftrightarrow> in_interval 0xC0000000 0xC00000FF (unat a)"
  "in_net a [192, 0, 2, 0] 24 \<longleftrightarrow> in_interval 0xC0000200 0xC00002FF (unat a)"
  "in_net a [198, 51, 100, 0] 24 \<longleftrightarrow> in_interval 0xC6336400 0xC63364FF (unat a)"
  "in_net a [203, 0, 113, 0] 24 \<longleftrightarrow> in_interval 0xCB007100 0xCB0071FF (unat a)"
  "in_net a [192, 88, 99, 0] 24 \<longleftrightarrow> in_interval 0xC0586300 0xC05863FF (unat a)"
  "in_net a [198, 18, 0, 0] 15 \<longleftrightarrow> in_interval 0xC6120000 0xC613FFFF (unat a)"
  "in_net a [240, 0, 0, 0] 4 \<longleftrightarrow> in_interval 0xF0000000 0xFFFFFFFF (unat a)"
  by (rule in_net_interval; simp add: v4_of_octets_def)+

lemma octet_nets:
  "octet 0 a = 10 \<longleftrightarrow> in_interval 0x0A000000 0x0AFFFFFF (unat a)"
  "octet 0 a = 127 \<longleftrightarrow> in_interval 0x7F000000 0x7FFFFFFF (unat a)"
  "octet 0 a = 192 \<and> octet 1 a = 168 \<longleftrightarrow> in_interval 0xC0A80000 0xC0A8FFFF (unat a)"
  using octet_intervals(1) [of a 10] octet_intervals(1) [of a 127] octet_intervals(2) [of a 192 168]
  by simp_all

text \<open>
  C11: The bit masks and octet tests of the IPv4 classification are equivalent to a table of numeric
  intervals: an address is refused exactly when its 32-bit value lies in one of the listed special
  ranges, with the reason of that range; the ranges do not overlap, so the order of the tests does
  not matter.
\<close>

theorem classify_v4_is_interval_table:
  "classify_v4 a =
     map_option (\<lambda>(lo, hi, why). why) (List.find (\<lambda>(lo, hi, why). lo \<le> unat a \<and> unat a \<le> hi) special_v4) \<and>
   sorted_wrt (\<lambda>(lo1, hi1, _) (lo2, hi2, _). hi1 < lo2 \<or> hi2 < lo1) special_v4"
proof
  show "classify_v4 a =
     map_option (\<lambda>(lo, hi, why). why) (List.find (\<lambda>(lo, hi, why). lo \<le> unat a \<and> unat a \<le> hi) special_v4)"
    unfolding classify_v4_def Let_def in_nets octet_nets octet_intervals(3) special_v4_def in_interval_def
    by simp
qed (simp add: special_v4_def)

section \<open>IPv4 addresses embedded in IPv6\<close>

lemma from_pair_split: "from_pair (ucast (drop_bit 16 v)) (ucast v) = v" for v :: u32
  by (rule bit_word_eqI) (auto simp: from_pair_def bit_simps)

text \<open>The spellings of an IPv4 address as IPv6, for an address \<open>v\<close> and free segments \<open>x1 \<dots> x5\<close>.\<close>

definition hi16 :: "u32 \<Rightarrow> u16" where
  "hi16 v = ucast (drop_bit 16 v)"

definition lo16 :: "u32 \<Rightarrow> u16" where
  "lo16 v = ucast v"

inductive spells :: "ipv6 \<Rightarrow> u32 \<Rightarrow> bool" where
  mapped: "spells (Ipv6 0 0 0 0 0 0xffff (hi16 v) (lo16 v)) v"
| compatible: "1 < v \<Longrightarrow> spells (Ipv6 0 0 0 0 0 0 (hi16 v) (lo16 v)) v"
| nat64: "spells (Ipv6 0x64 0xff9b x1 x2 x3 x4 (hi16 v) (lo16 v)) v"
| six_to_four: "spells (Ipv6 0x2002 (hi16 v) (lo16 v) x1 x2 x3 x4 x5) v"

lemma pair_halves: "from_pair (hi16 v) (lo16 v) = v"
  by (simp add: hi16_def lo16_def from_pair_split)

lemma halves_pair: "hi16 (from_pair g h) = g" "lo16 (from_pair g h) = h"
  by (rule bit_word_eqI, auto simp: hi16_def lo16_def from_pair_def bit_simps dest: bit_imp_le_length)+

lemma low_halves: "hi16 v = 0 \<and> lo16 v \<le> 1 \<longleftrightarrow> v \<le> 1"
proof -
  have lt: "unat v < 65536 * 65536" using unsigned_less [of v] by simp
  have "unat (hi16 v) = unat v div 65536" "unat (lo16 v) = unat v mod 65536"
    unfolding hi16_def lo16_def unsigned_ucast_eq unat_drop_bit_eq
    using lt by (simp_all add: drop_bit_eq_div take_bit_eq_mod less_mult_imp_div_less)
  then show ?thesis
    by (auto simp: word_unat_eq_iff word_le_nat_alt)
qed

lemma four_cases:
  "(if p then Some x else if q then Some x else if r then Some x else if t then Some y else None) = Some v
   \<Longrightarrow> p \<and> v = x \<or> q \<and> v = x \<or> r \<and> v = x \<or> t \<and> v = y"
  by (auto split: if_splits)

lemma embedded_v4_spells: "embedded_v4 addr = Some v \<Longrightarrow> spells addr v"
proof (cases addr)
  case (Ipv6 a b c d e f g h)
  assume "embedded_v4 addr = Some v"
  from four_cases [OF this [unfolded Ipv6 embedded_v4.simps]] show ?thesis
  proof (elim disjE conjE)
    assume "a = 0" "b = 0" "c = 0" "d = 0" "e = 0" "f = 0xffff" "v = from_pair g h"
    then show ?thesis using mapped [of v] by (simp add: Ipv6 halves_pair)
  next
    assume e: "a = 0" "b = 0" "c = 0" "d = 0" "e = 0" "f = 0" "\<not> (g = 0 \<and> h \<le> 1)" "v = from_pair g h"
    then have "\<not> v \<le> 1" using low_halves [of v] halves_pair [of g h] by metis
    then have "1 < v" by (simp only: not_le)
    then show ?thesis using compatible [of v] e by (simp add: Ipv6 halves_pair)
  next
    assume "a = 0x64" "b = 0xff9b" "v = from_pair g h"
    then show ?thesis using nat64 [of c d e f v] by (simp add: Ipv6 halves_pair)
  next
    assume "a = 0x2002" "v = from_pair b c"
    then show ?thesis using six_to_four [of v d e f g h] by (simp add: Ipv6 halves_pair)
  qed
qed

lemma spells_embedded_v4: "spells addr v \<Longrightarrow> embedded_v4 addr = Some v"
proof (induction rule: spells.induct)
  case (compatible v)
  then have "\<not> (hi16 v = 0 \<and> lo16 v \<le> 1)" using low_halves [of v] by auto
  then show ?case unfolding embedded_v4.simps by (simp add: pair_halves)
qed (simp_all add: pair_halves)

lemma embedded_v4_iff: "embedded_v4 addr = Some v \<longleftrightarrow> spells addr v"
  using embedded_v4_spells spells_embedded_v4 by blast

lemma local_blocks_refused:
  assumes "a AND 0xfe00 = 0xfc00 \<or> a AND 0xffc0 = 0xfe80"
  shows "classify_v6 (Ipv6 a b c d e f g h) \<noteq> None"
proof -
  from assms have "a \<noteq> 0 \<and> a \<noteq> 0x64 \<and> a \<noteq> 0x2002" by auto
  then have "embedded_v4 (Ipv6 a b c d e f g h) = None" by simp
  then have plain: "classify_v6 (Ipv6 a b c d e f g h) = classify_v6_plain (Ipv6 a b c d e f g h)"
    by (simp only: classify_v6_def option.case)
  show ?thesis
    unfolding plain classify_v6_plain.simps using assms by (elim disjE) simp_all
qed

text \<open>
  C12: An IPv4 address wearing any of its IPv6 spellings (mapped, compatible, NAT64, 6to4) is judged
  as the IPv4 address it is; the unwrapping finds an address exactly when the IPv6 address is such a
  spelling of it; and the unspecified and loopback addresses, the unique-local and link-local
  blocks stay refused.
\<close>

theorem embedded_addresses_are_unwrapped:
  "(spells addr v \<longleftrightarrow> embedded_v4 addr = Some v) \<and>
   (spells addr v \<longrightarrow> classify (V6 addr) = classify (V4 v)) \<and>
   classify (V6 (Ipv6 0 0 0 0 0 0 0 0)) \<noteq> None \<and> classify (V6 (Ipv6 0 0 0 0 0 0 0 1)) \<noteq> None \<and>
   (a AND 0xfe00 = 0xfc00 \<or> a AND 0xffc0 = 0xfe80 \<longrightarrow> classify (V6 (Ipv6 a b c d e f g h)) \<noteq> None)"
proof (intro conjI impI)
  show "spells addr v \<longleftrightarrow> embedded_v4 addr = Some v" by (rule embedded_v4_iff [symmetric])
  show "classify (V6 addr) = classify (V4 v)" if "spells addr v"
    using spells_embedded_v4 [OF that] by (simp add: classify_v6_def)
  show "classify (V6 (Ipv6 a b c d e f g h)) \<noteq> None" if "a AND 0xfe00 = 0xfc00 \<or> a AND 0xffc0 = 0xfe80"
    unfolding classify.simps using that by (rule local_blocks_refused)
qed (simp_all add: classify_v6_def)

text \<open>The witness: \<open>64:ff9b::7f00:1\<close> is \<open>127.0.0.1\<close>.\<close>

theorem embedded_addresses_are_unwrapped_witness:
  "classify (V6 (Ipv6 0x64 0xff9b 0 0 0 0 0x7f00 1)) = Some ''a loopback address'' \<and>
   classify (V6 (Ipv6 0xfd00 0 0 0 0 0 0 1)) \<noteq> None"
proof
  have "hi16 0x7f000001 = 0x7f00" "lo16 0x7f000001 = 1" by (simp_all add: hi16_def lo16_def)
  then have "spells (Ipv6 0x64 0xff9b 0 0 0 0 0x7f00 1) 0x7f000001"
    using nat64 [of 0 0 0 0 "0x7f000001"] by simp
  then have "classify (V6 (Ipv6 0x64 0xff9b 0 0 0 0 0x7f00 1)) = classify (V4 0x7f000001)"
    using embedded_addresses_are_unwrapped by blast
  also have "\<dots> = Some ''a loopback address''"
    by (simp add: classify_v4_def Let_def octet_def in_net_def v4_of_octets_def push_bit_eq_mult)
  finally show "classify (V6 (Ipv6 0x64 0xff9b 0 0 0 0 0x7f00 1)) = Some ''a loopback address''" .
  show "classify (V6 (Ipv6 0xfd00 0 0 0 0 0 0 1)) \<noteq> None"
    using embedded_addresses_are_unwrapped [of _ _ "0xfd00"] by simp
qed

section \<open>The policy\<close>

lemma check_origin_iff: "check_origin p org = Inr () \<longleftrightarrow> org \<in> set (y_approved p)"
  by (simp add: check_origin_def)

lemma check_address_iff:
  "check_address p host a = Inr () \<longleftrightarrow> classify a = None \<or> y_allow_private p"
  by (auto simp: check_address_def split: option.split)

interpretation origin_check: checker "check_origin p" "\<lambda>org. org \<in> set (y_approved p)"
  by unfold_locales (rule check_origin_iff)

interpretation address_check: checker "check_address p host" "\<lambda>a. classify a = None \<or> y_allow_private p"
  by unfold_locales (rule check_address_iff)

lemma usable_addresses_eq:
  "usable_addresses p host addrs =
     (let ok = filter (\<lambda>a. classify a = None \<or> y_allow_private p) addrs
      in if ok = [] then Inl (NoUsableAddress host) else Inr ok)"
proof -
  have "is_ok (check_address p host a) \<longleftrightarrow> classify a = None \<or> y_allow_private p" for a
    using check_address_iff [of p host a] by (cases "check_address p host a") auto
  then show ?thesis by (simp add: usable_addresses_def)
qed

text \<open>
  C13: The policy is an intersection that fails closed: an origin passes exactly when it is both
  declared and approved, whatever else is set; without the managed override the addresses offered
  for a connection are exactly the resolved ones that are in no special range, in their order, and
  an empty offer is an error naming the host.
\<close>

theorem network_policy_is_intersection:
  "(check_origin (with_private_addresses_allowed (policy_new declared approved) allow) org = Inr () \<longleftrightarrow>
      org \<in> set declared \<and> org \<in> set approved) \<and>
   (usable_addresses (policy_new declared approved) host addrs = Inr ok \<longleftrightarrow>
      ok = filter (\<lambda>a. classify a = None) addrs \<and> ok \<noteq> []) \<and>
   (usable_addresses (policy_new declared approved) host addrs = Inl err \<longleftrightarrow>
      filter (\<lambda>a. classify a = None) addrs = [] \<and> err = NoUsableAddress host)"
  by (auto simp: origin_check.check_iff usable_addresses_eq policy_new_def
      with_private_addresses_allowed_def Let_def)

end
