(* ===== verification/Policy_Messages.thy ===== *)
theory Policy_Messages
  imports Broker_Network
begin

text \<open>
  The texts of the policy errors of \<open>poid-broker/src/error.rs\<close>, for the user's log, and the
  standard library's \<open>Display\<close> of the addresses in them.
\<close>

section \<open>Addresses\<close>

text \<open>\<open>{:x}\<close>\<close>

fun show_hex :: "nat \<Rightarrow> string" where
  "show_hex n = (if n < 16 then [hex_char n] else show_hex (n div 16) @ [hex_char (n mod 16)])"

declare show_hex.simps [simp del]

definition ipv4_display :: "u32 \<Rightarrow> string" where
  "ipv4_display a = join_with CHR ''.'' (map (\<lambda>i. show_nat (octet i a)) [0, 1, 2, 3])"

fun segments :: "ipv6 \<Rightarrow> u16 list" where
  "segments (Ipv6 a b c d e f g h) = [a, b, c, d, e, f, g, h]"

text \<open>The first of the longest runs of zero segments, as its start and length.\<close>

fun zero_run :: "nat \<Rightarrow> nat \<times> nat \<Rightarrow> nat \<times> nat \<Rightarrow> u16 list \<Rightarrow> nat \<times> nat" where
  "zero_run i current longest [] = longest"
| "zero_run i current longest (s # ss) =
     (if s = 0 then
        let current = (if snd current = 0 then i else fst current, snd current + 1)
        in zero_run (i + 1) current (if snd current > snd longest then current else longest) ss
      else zero_run (i + 1) (0, 0) longest ss)"

definition fmt_subslice :: "u16 list \<Rightarrow> string" where
  "fmt_subslice ss = join_with CHR '':'' (map (\<lambda>s. show_hex (unat s)) ss)"

definition ipv6_display :: "ipv6 \<Rightarrow> string" where
  "ipv6_display a =
     (let ss = segments a in
      if take 6 ss = [0, 0, 0, 0, 0, 0xffff] then ''::ffff:'' @ ipv4_display (from_pair (ss ! 6) (ss ! 7))
      else
        let (start, len) = zero_run 0 (0, 0) (0, 0) ss in
        if len > 1 then fmt_subslice (take start ss) @ ''::'' @ fmt_subslice (drop (start + len) ss)
        else fmt_subslice ss)"

fun ip_display :: "ip_addr \<Rightarrow> string" where
  "ip_display (V4 a) = ipv4_display a"
| "ip_display (V6 a) = ipv6_display a"

section \<open>Errors\<close>

fun policy_error_text :: "policy_error \<Rightarrow> string" where
  "policy_error_text (OriginNotAllowed org) =
     ''origin `'' @ org @ ''` is not in this application'' @ [CHR 0x27] @ ''s approved allowlist''"
| "policy_error_text (AddressBlocked host address reason) =
     ''`'' @ host @ ''` resolves to '' @ ip_display address @ '', which is '' @ reason"
| "policy_error_text (NoUsableAddress host) =
     ''`'' @ host @ ''` did not resolve to any address the broker may use''"
| "policy_error_text (MalformedOrigin v why) = ''`'' @ v @ ''` is not a usable origin ('' @ why @ '')''"
| "policy_error_text (NoSatisfyingConnection req) =
     ''no configured connection can serve a `'' @ req @ ''` requirement''"
| "policy_error_text (BindingUnsatisfiable c req) =
     ''connection `'' @ c @ ''` cannot serve a `'' @ req @ ''` requirement''"
| "policy_error_text (BindingMissing c) = ''connection `'' @ c @ ''` is no longer configured''"

end
