(* ===== verification/Connection_Errors.thy ===== *)
theory Connection_Errors
  imports Rust_Text
begin

text \<open>
  \<open>poid-connections/src/error.rs\<close>: what can go wrong in the connection registry, the secret store, the
  brokered request path and the SQL path. No variant carries a secret.
\<close>

datatype connection_error =
  SecretStoreFailed (failed_operation: string) (failed_connection: string)
| SecretMissing string
| NotFound string
| Duplicate string
| RegistryFailed (registry_operation: string) (registry_path: string)
| InvalidSecret string
| InvalidConfig string
| NetworkFailed string
| SqlFailed string

end
