(* ===== verification/Brokered_Fetch.thy ===== *)
theory Brokered_Fetch
  imports Policy_Messages Connection_Errors
begin

text \<open>
  \<open>poid-connections/src/http.rs\<close>: one request made on an application's behalf, with redirects followed
  by the broker itself, each hop checked again. The HTTP client and the resolver are a parameter with a
  state of its own, so that every hop may meet a different network; every run leaves a trace of the
  names looked up and the requests sent, and the safety properties are about that trace.
\<close>

section \<open>Requests, responses and bounds\<close>

definition forbidden_request_headers :: "string list" where
  "forbidden_request_headers =
     [''authorization'', ''cookie'', ''proxy-authorization'', ''host'', ''content-length'']"

definition forbidden_response_headers :: "string list" where
  "forbidden_response_headers = [''set-cookie'', ''set-cookie2'']"

text \<open>The timeout in seconds.\<close>

record fetch_limits =
  fl_max_body_bytes :: nat
  fl_max_redirects :: nat
  fl_timeout :: nat

definition fetch_limits_default :: fetch_limits where
  "fetch_limits_default =
     \<lparr>fl_max_body_bytes = 8 * 1024 * 1024, fl_max_redirects = 5, fl_timeout = 30\<rparr>"

record fetch_request =
  fq_url :: string
  fq_method :: string
  fq_headers :: "(string \<times> string) list"
  fq_body :: "string option"

record fetch_response =
  fp_status :: nat
  fp_status_text :: string
  fp_headers :: "(string \<times> string) list"
  fp_body :: string

type_synonym origin_credentials = "(origin \<times> string) list"

definition credentials_new :: origin_credentials where
  "credentials_new = []"

definition credentials_insert :: "origin \<Rightarrow> string \<Rightarrow> origin_credentials \<Rightarrow> origin_credentials" where
  "credentials_insert org credential entries = entries @ [(org, credential)]"

definition for_origin :: "origin_credentials \<Rightarrow> origin \<Rightarrow> string option" where
  "for_origin entries org = map_option snd (find (\<lambda>(o', _). o' = org) entries)"

section \<open>The network\<close>

text \<open>
  What is handed to the HTTP client for one hop: the address its host name is pinned to, the timeout,
  and the request. A response has its status, its headers (lower-case names; \<open>None\<close> for a value that
  is not visible text) and its chunks, a failed one as \<open>Inl ()\<close>.
\<close>

record http_request =
  hr_pin :: "string \<times> ip_addr \<times> nat"
  hr_timeout :: nat
  hr_method :: string
  hr_url :: string
  hr_headers :: "(string \<times> string) list"
  hr_bearer :: "string option"
  hr_body :: "string option"

record http_response =
  hp_status :: nat
  hp_headers :: "(string \<times> string option) list"
  hp_chunks :: "(unit + byte list) list"

record 'w network_stack =
  ns_lookup :: "string \<Rightarrow> nat \<Rightarrow> 'w \<Rightarrow> ip_addr list option \<times> 'w"
  ns_client_ok :: "string \<times> ip_addr \<times> nat \<Rightarrow> bool"
  ns_method_ok :: "string \<Rightarrow> bool"
  ns_send :: "http_request \<Rightarrow> 'w \<Rightarrow> (string + http_response) \<times> 'w"
  ns_canonical_reason :: "nat \<Rightarrow> string option"

text \<open>A lookup is recorded with its answer.\<close>

datatype net_event = Lookup string nat "ip_addr list option" | Sent http_request

section \<open>One hop\<close>

definition network_err :: "policy_error + 'a \<Rightarrow> connection_error + 'a" where
  "network_err r = map_err (\<lambda>e. NetworkFailed (policy_error_text e)) r"

definition resolve_addresses ::
  "'w network_stack \<Rightarrow> network_policy \<Rightarrow> origin \<Rightarrow> 'w \<Rightarrow>
   (policy_error + ip_addr list) \<times> net_event list \<times> 'w" where
  "resolve_addresses N p org w =
     (case literal_address org of
        Some literal \<Rightarrow> (rbind (check_address p (o_host org) literal) (\<lambda>_. Inr [literal]), [], w)
      | None \<Rightarrow>
          (case ns_lookup N (o_host org) (o_port org) w of
             (None, w) \<Rightarrow> (Inl (NoUsableAddress (o_host org)), [Lookup (o_host org) (o_port org) None], w)
           | (Some resolved, w) \<Rightarrow>
               (usable_addresses p (o_host org) resolved,
                [Lookup (o_host org) (o_port org) (Some resolved)], w)))"

definition bare_host :: "origin \<Rightarrow> string" where
  "bare_host org =
     rev (dropWhile (\<lambda>c. c = CHR '']'') (rev (dropWhile (\<lambda>c. c = CHR ''['') (o_host org))))"

definition allowed_headers :: "(string \<times> string) list \<Rightarrow> (string \<times> string) list" where
  "allowed_headers headers =
     filter (\<lambda>(name, _). to_ascii_lowercase name \<notin> set forbidden_request_headers) headers"

definition resolve_redirect :: "string \<Rightarrow> string \<Rightarrow> connection_error + string" where
  "resolve_redirect current location =
     (if contains location ''://'' then Inr location
      else
        rbind (network_err (of_url current)) (\<lambda>org.
          (case strip_prefix ''/'' location of
             Some path \<Rightarrow> Inr (origin_display org @ ''/'' @ path)
           | None \<Rightarrow> Inr (origin_display org @ ''/'' @ location))))"

definition visible_headers :: "(string \<times> string option) list \<Rightarrow> (string \<times> string) list" where
  "visible_headers headers =
     List.map_filter (\<lambda>(name, v). map_option (Pair name) v)
       (filter (\<lambda>(name, _). to_ascii_lowercase name \<notin> set forbidden_response_headers) headers)"

fun read_chunks :: "nat \<Rightarrow> byte list \<Rightarrow> (unit + byte list) list \<Rightarrow> connection_error + byte list" where
  "read_chunks cap buffer [] = Inr buffer"
| "read_chunks cap buffer (Inl _ # rest) = Inl (NetworkFailed ''the response ended unexpectedly'')"
| "read_chunks cap buffer (Inr chunk # rest) =
     (if length buffer + length chunk > cap
      then Inl (NetworkFailed (''the response is larger than '' @ show_nat cap @ '' bytes''))
      else read_chunks cap (buffer @ chunk) rest)"

definition read_response :: "'w network_stack \<Rightarrow> http_response \<Rightarrow> nat \<Rightarrow> connection_error + fetch_response" where
  "read_response N response cap =
     rbind (read_chunks cap [] (hp_chunks response)) (\<lambda>buffer.
       Inr \<lparr>fp_status = hp_status response,
            fp_status_text = (case ns_canonical_reason N (hp_status response) of Some t \<Rightarrow> t | None \<Rightarrow> []),
            fp_headers = visible_headers (hp_headers response),
            fp_body = from_utf8_lossy buffer\<rparr>)"

definition is_redirection :: "nat \<Rightarrow> bool" where
  "is_redirection status \<longleftrightarrow> 300 \<le> status \<and> status < 400"

definition location_header :: "http_response \<Rightarrow> string option" where
  "location_header response =
     (case find (\<lambda>(name, _). name = ''location'') (hp_headers response) of
        Some (_, v) \<Rightarrow> v | None \<Rightarrow> None)"

text \<open>What a redirect leaves of the method and the body.\<close>

definition redirect_to_get :: "nat \<Rightarrow> string \<Rightarrow> bool" where
  "redirect_to_get status verb \<longleftrightarrow> status = 303 \<or> (status \<in> {301, 302} \<and> verb \<noteq> ''GET'')"

type_synonym hop = "string \<times> string \<times> string option"

datatype hop_result = Again hop | Finished fetch_response

definition after_response ::
  "'w network_stack \<Rightarrow> fetch_limits \<Rightarrow> hop \<Rightarrow> http_response \<Rightarrow> connection_error + hop_result" where
  "after_response N l h response =
     (case h of (url, verb, body) \<Rightarrow>
        if is_redirection (hp_status response) then
          rbind (ok_or (NetworkFailed ''a redirect without a destination'') (location_header response)) (\<lambda>location.
          rbind (resolve_redirect url location) (\<lambda>url.
            Inr (Again (if redirect_to_get (hp_status response) verb then (url, ''GET'', None)
                        else (url, verb, body)))))
        else rbind (read_response N response (fl_max_body_bytes l)) (\<lambda>r. Inr (Finished r)))"

definition send_hop ::
  "'w network_stack \<Rightarrow> fetch_limits \<Rightarrow> origin \<Rightarrow> http_request \<Rightarrow> hop \<Rightarrow> 'w \<Rightarrow>
   (connection_error + hop_result) \<times> net_event list \<times> 'w" where
  "send_hop N l org req h w =
     (case ns_send N req w of
        (Inl e, w) \<Rightarrow>
          (Inl (NetworkFailed (''request to '' @ origin_display org @ '' failed: '' @ e)), [Sent req], w)
      | (Inr response, w) \<Rightarrow> (after_response N l h response, [Sent req], w))"

definition hop_request ::
  "fetch_request \<Rightarrow> origin_credentials \<Rightarrow> fetch_limits \<Rightarrow> origin \<Rightarrow> ip_addr \<Rightarrow> hop \<Rightarrow> http_request" where
  "hop_request request credentials l org pinned h =
     (case h of (url, verb, body) \<Rightarrow>
        \<lparr>hr_pin = (bare_host org, pinned, o_port org), hr_timeout = fl_timeout l, hr_method = verb,
         hr_url = url, hr_headers = allowed_headers (fq_headers request),
         hr_bearer = for_origin credentials org, hr_body = body\<rparr>)"

definition connect_hop ::
  "'w network_stack \<Rightarrow> fetch_request \<Rightarrow> origin_credentials \<Rightarrow> fetch_limits \<Rightarrow> origin \<Rightarrow> hop \<Rightarrow>
   ip_addr list \<Rightarrow> 'w \<Rightarrow> (connection_error + hop_result) \<times> net_event list \<times> 'w" where
  "connect_hop N request credentials l org h addresses w =
     (case addresses of
        [] \<Rightarrow> (Inl (NetworkFailed ''no usable address''), [], w)
      | pinned # _ \<Rightarrow>
          let req = hop_request request credentials l org pinned h in
          if \<not> ns_client_ok N (hr_pin req)
          then (Inl (NetworkFailed ''the network stack could not be started''), [], w)
          else if \<not> ns_method_ok N (hr_method req)
          then (Inl (NetworkFailed (''`'' @ hr_method req @ ''` is not an HTTP method'')), [], w)
          else send_hop N l org req h w)"

definition fetch_hop ::
  "'w network_stack \<Rightarrow> fetch_request \<Rightarrow> network_policy \<Rightarrow> origin_credentials \<Rightarrow> fetch_limits \<Rightarrow> hop \<Rightarrow> 'w \<Rightarrow>
   (connection_error + hop_result) \<times> net_event list \<times> 'w" where
  "fetch_hop N request p credentials l h w =
     (case rbind (network_err (of_url (fst h))) (\<lambda>org.
             rbind (network_err (check_origin p org)) (\<lambda>_. Inr org)) of
        Inl e \<Rightarrow> (Inl e, [], w)
      | Inr org \<Rightarrow>
          (case resolve_addresses N p org w of
             (Inl e, evs, w) \<Rightarrow> (Inl (NetworkFailed (policy_error_text e)), evs, w)
           | (Inr addresses, evs, w) \<Rightarrow>
               (let (res, evs', w) = connect_hop N request credentials l org h addresses w
                in (res, evs @ evs', w))))"

section \<open>The loop\<close>

fun fetch_hops ::
  "'w network_stack \<Rightarrow> fetch_request \<Rightarrow> network_policy \<Rightarrow> origin_credentials \<Rightarrow> fetch_limits \<Rightarrow> nat \<Rightarrow> hop \<Rightarrow> 'w \<Rightarrow>
   (connection_error + fetch_response) \<times> net_event list \<times> 'w" where
  "fetch_hops N request p credentials l 0 h w =
     (Inl (NetworkFailed (''more than '' @ show_nat (fl_max_redirects l) @ '' redirects'')), [], w)"
| "fetch_hops N request p credentials l (Suc n) h w =
     (case fetch_hop N request p credentials l h w of
        (Inl e, evs, w) \<Rightarrow> (Inl e, evs, w)
      | (Inr (Finished r), evs, w) \<Rightarrow> (Inr r, evs, w)
      | (Inr (Again h'), evs, w) \<Rightarrow>
          (let (res, evs', w) = fetch_hops N request p credentials l n h' w in (res, evs @ evs', w)))"

definition brokered_fetch ::
  "'w network_stack \<Rightarrow> fetch_request \<Rightarrow> network_policy \<Rightarrow> origin_credentials \<Rightarrow> fetch_limits \<Rightarrow> 'w \<Rightarrow>
   (connection_error + fetch_response) \<times> net_event list \<times> 'w" where
  "brokered_fetch N request p credentials l w =
     fetch_hops N request p credentials l (fl_max_redirects l + 1)
       (fq_url request, fq_method request, fq_body request) w"

section \<open>What may happen on the network\<close>

text \<open>A request that may be sent: its URL's origin is approved, it is pinned to an address the policy
  lets through, it carries the credential of exactly that origin or none, and no forbidden header.\<close>

definition sent_ok :: "network_policy \<Rightarrow> origin_credentials \<Rightarrow> origin \<Rightarrow> ip_addr \<Rightarrow> http_request \<Rightarrow> bool" where
  "sent_ok p credentials org a r \<longleftrightarrow>
     of_url (hr_url r) = Inr org \<and> org \<in> set (y_approved p) \<and>
     hr_pin r = (bare_host org, a, o_port org) \<and> check_address p (o_host org) a = Inr () \<and>
     hr_bearer r = for_origin credentials org \<and>
     list_all (\<lambda>(name, _). to_ascii_lowercase name \<notin> set forbidden_request_headers) (hr_headers r)"

text \<open>The events of one hop: at most one lookup, of an approved origin's host, then at most one request,
  pinned to an address of the answer; no lookup for a literal address.\<close>

inductive hop_ok :: "network_policy \<Rightarrow> origin_credentials \<Rightarrow> net_event list \<Rightarrow> bool"
  for p :: network_policy and credentials :: origin_credentials where
  nothing: "hop_ok p credentials []"
| looked_up: "org \<in> set (y_approved p) \<Longrightarrow> literal_address org = None \<Longrightarrow>
    hop_ok p credentials [Lookup (o_host org) (o_port org) answer]"
| sent_literal: "literal_address org = Some a \<Longrightarrow> sent_ok p credentials org a r \<Longrightarrow>
    hop_ok p credentials [Sent r]"
| sent_resolved: "literal_address org = None \<Longrightarrow> a \<in> set answer \<Longrightarrow> sent_ok p credentials org a r \<Longrightarrow>
    hop_ok p credentials [Lookup (o_host org) (o_port org) (Some answer), Sent r]"

lemma allowed_headers_ok:
  "list_all (\<lambda>(name, _). to_ascii_lowercase name \<notin> set forbidden_request_headers) (allowed_headers hs)"
  by (auto simp: allowed_headers_def list_all_iff)

lemma hop_request_ok:
  assumes "of_url (fst h) = Inr org" "org \<in> set (y_approved p)" "check_address p (o_host org) a = Inr ()"
  shows "sent_ok p credentials org a (hop_request request credentials l org a h)"
  using assms allowed_headers_ok [of "fq_headers request"]
  by (cases h) (simp add: sent_ok_def hop_request_def)

lemma connect_hop_events:
  assumes "connect_hop N request credentials l org h addresses w = (res, evs, w')"
  shows "evs = [] \<or> (\<exists>a rest. addresses = a # rest \<and> evs = [Sent (hop_request request credentials l org a h)])"
  using assms by (auto simp: connect_hop_def send_hop_def Let_def split: list.splits if_splits prod.splits sum.splits)

lemma usable_addresses_checked:
  "usable_addresses p host addrs = Inr (a # rest) \<Longrightarrow> a \<in> set addrs \<and> check_address p host a = Inr ()"
  by (auto simp: usable_addresses_def Let_def is_ok_def filter_eq_Cons_iff split: if_splits sum.splits)

lemma resolve_addresses_cases:
  assumes "resolve_addresses N p org w = (r, evs, w')"
  obtains (literal) a where "literal_address org = Some a" "evs = []"
      "r = Inr [a] \<Longrightarrow> check_address p (o_host org) a = Inr ()" "\<And>as. r = Inr as \<Longrightarrow> as = [a]"
  | (resolved) answer where "literal_address org = None" "evs = [Lookup (o_host org) (o_port org) answer]"
      "\<And>a as. r = Inr (a # as) \<Longrightarrow>
        (\<exists>addrs. answer = Some addrs \<and> a \<in> set addrs) \<and> check_address p (o_host org) a = Inr ()"
proof (cases "literal_address org")
  case None
  obtain q w2 where q: "ns_lookup N (o_host org) (o_port org) w = (q, w2)" by (cases "ns_lookup N (o_host org) (o_port org) w")
  show ?thesis
  proof (rule resolved [OF None, of q])
    show "evs = [Lookup (o_host org) (o_port org) q]"
      using assms None q by (auto simp: resolve_addresses_def split: option.splits)
    show "(\<exists>addrs. q = Some addrs \<and> a \<in> set addrs) \<and> check_address p (o_host org) a = Inr ()"
      if "r = Inr (a # as)" for a as
      using assms None q that usable_addresses_checked [of p "o_host org" _ a as]
      by (auto simp: resolve_addresses_def split: option.splits)
  qed
next
  case (Some a)
  with assms show ?thesis
    by (intro literal [OF Some]) (auto simp: resolve_addresses_def result_simps)
qed

lemma fetch_hop_ok:
  assumes "fetch_hop N request p credentials l h w = (res, evs, w')"
  shows "hop_ok p credentials evs"
proof (cases "rbind (network_err (of_url (fst h))) (\<lambda>org. rbind (network_err (check_origin p org)) (\<lambda>_. Inr org))")
  case (Inl e)
  with assms show ?thesis by (auto simp: fetch_hop_def intro: hop_ok.intros(1))
next
  case Org: (Inr org)
  then have org: "of_url (fst h) = Inr org" "org \<in> set (y_approved p)"
    by (auto simp: network_err_def result_simps check_origin_def split: if_splits)
  obtain r evs1 w1 where ra: "resolve_addresses N p org w = (r, evs1, w1)"
    by (cases "resolve_addresses N p org w")
  show ?thesis
  proof (cases r)
    case (Inl e)
    with assms Org ra have "evs = evs1" by (simp add: fetch_hop_def)
    with ra org show ?thesis by (cases rule: resolve_addresses_cases) (auto intro: hop_ok.intros)
  next
    case r: (Inr addresses)
    obtain res2 evs2 w2 where ch: "connect_hop N request credentials l org h addresses w1 = (res2, evs2, w2)"
      by (cases "connect_hop N request credentials l org h addresses w1")
    with assms Org ra r have evs: "evs = evs1 @ evs2" by (simp add: fetch_hop_def)
    from ra show ?thesis
    proof (cases rule: resolve_addresses_cases)
      case (literal a)
      with r have "check_address p (o_host org) a = Inr ()" "addresses = [a]" by auto
      with connect_hop_events [OF ch] hop_request_ok [OF org] literal evs show ?thesis
        by (auto intro: hop_ok.intros)
    next
      case (resolved answer)
      from connect_hop_events [OF ch] show ?thesis
      proof
        assume "evs2 = []"
        with resolved org evs show ?thesis by (auto intro: hop_ok.intros)
      next
        assume "\<exists>a rest. addresses = a # rest \<and> evs2 = [Sent (hop_request request credentials l org a h)]"
        then obtain a rest where a: "addresses = a # rest" "evs2 = [Sent (hop_request request credentials l org a h)]"
          by blast
        with resolved(3) r obtain addrs where "answer = Some addrs" "a \<in> set addrs"
          "check_address p (o_host org) a = Inr ()" by blast
        with resolved(1,2) evs a(2) hop_request_ok [OF org] show ?thesis
          by (auto intro!: sent_resolved)
      qed
    qed
  qed
qed

lemma fetch_hops_ok:
  "fetch_hops N request p credentials l n h w = (res, evs, w') \<Longrightarrow>
     \<exists>hops. evs = concat hops \<and> length hops \<le> n \<and> list_all (hop_ok p credentials) hops"
proof (induction n arbitrary: h w res evs w')
  case 0
  then show ?case by (intro exI [of _ "[]"]) simp
next
  case (Suc n)
  obtain r evs1 w1 where hop: "fetch_hop N request p credentials l h w = (r, evs1, w1)"
    by (cases "fetch_hop N request p credentials l h w")
  note ok = fetch_hop_ok [OF hop]
  show ?case
  proof (cases "\<exists>h'. r = Inr (Again h')")
    case True
    then obtain h' where h': "r = Inr (Again h')" ..
    obtain res2 evs2 w2 where rest: "fetch_hops N request p credentials l n h' w1 = (res2, evs2, w2)"
      by (cases "fetch_hops N request p credentials l n h' w1")
    from Suc.IH [OF rest] obtain hops where
      "evs2 = concat hops" "length hops \<le> n" "list_all (hop_ok p credentials) hops" by blast
    with Suc.prems hop h' rest ok show ?thesis by (intro exI [of _ "evs1 # hops"]) simp
  next
    case False
    with Suc.prems hop have "evs = evs1" by (auto split: sum.splits hop_result.splits)
    with ok show ?thesis by (intro exI [of _ "[evs1]"]) simp
  qed
qed

text \<open>
  C18: Whatever the network does, the trace of a brokered request is made of at most
  \<open>max_redirects + 1\<close> hops, and each hop is one the policy allows: a name is looked up only for an
  origin the application declared and the user approved, a request is sent only to such an origin, on
  an address of the lookup just made that the policy lets through (or its literal address), with the
  credential of exactly that origin or none, and without a forbidden header.
\<close>

theorem fetch_stays_within_policy:
  "case brokered_fetch N request p credentials l w of (res, evs, w') \<Rightarrow>
     \<exists>hops. evs = concat hops \<and> length hops \<le> fl_max_redirects l + 1 \<and>
       list_all (hop_ok p credentials) hops"
  using fetch_hops_ok [of N request p credentials l "fl_max_redirects l + 1"
      "(fq_url request, fq_method request, fq_body request)" w]
  by (simp add: brokered_fetch_def split: prod.split)

section \<open>What comes back\<close>

definition chunks_total :: "(unit + byte list) list \<Rightarrow> nat" where
  "chunks_total cs = sum_list (map (case_sum (\<lambda>_. 0) length) cs)"

lemma read_chunks_ok:
  "read_chunks cap buffer cs = Inr out \<Longrightarrow>
     out = buffer @ concat (map projr cs) \<and> list_all (\<lambda>c. \<not> isl c) cs \<and>
     (length buffer \<le> cap \<longrightarrow> length out \<le> cap)"
  by (induction cap buffer cs rule: read_chunks.induct) (auto split: if_splits)

lemma read_chunks_complete:
  "list_all (\<lambda>c. \<not> isl c) cs \<Longrightarrow> length buffer + chunks_total cs \<le> cap \<Longrightarrow>
     read_chunks cap buffer cs = Inr (buffer @ concat (map projr cs))"
  by (induction cap buffer cs rule: read_chunks.induct) (auto simp: chunks_total_def)

lemma chunks_total_concat: "list_all (\<lambda>c. \<not> isl c) cs \<Longrightarrow> chunks_total cs = length (concat (map projr cs))"
  by (induction cs) (auto simp: chunks_total_def split: sum.splits)

lemma read_chunks_error: "read_chunks cap buffer cs = Inl e \<Longrightarrow> \<exists>reason. e = NetworkFailed reason"
  by (induction cap buffer cs rule: read_chunks.induct) (auto split: if_splits)

definition response_of :: "'w network_stack \<Rightarrow> http_response \<Rightarrow> fetch_response" where
  "response_of N response =
     \<lparr>fp_status = hp_status response,
      fp_status_text = (case ns_canonical_reason N (hp_status response) of Some t \<Rightarrow> t | None \<Rightarrow> []),
      fp_headers = visible_headers (hp_headers response),
      fp_body = from_utf8_lossy (concat (map projr (hp_chunks response)))\<rparr>"

text \<open>
  A response is read exactly when no chunk fails and all of them fit in the cap together; then the
  application gets the status, the headers without the forbidden and unreadable ones, and the whole
  body, and never more than the cap is buffered.
\<close>

theorem read_response_exact:
  "read_response N response cap = Inr r \<longleftrightarrow>
     list_all (\<lambda>c. \<not> isl c) (hp_chunks response) \<and> chunks_total (hp_chunks response) \<le> cap \<and>
     r = response_of N response"
proof
  assume "read_response N response cap = Inr r"
  then obtain buffer where b: "read_chunks cap [] (hp_chunks response) = Inr buffer" "r = response_of N response"
    using read_chunks_ok by (fastforce simp: read_response_def response_of_def result_simps)
  from read_chunks_ok [OF b(1)] b(2) chunks_total_concat
  show "list_all (\<lambda>c. \<not> isl c) (hp_chunks response) \<and> chunks_total (hp_chunks response) \<le> cap \<and>
      r = response_of N response" by force
next
  assume "list_all (\<lambda>c. \<not> isl c) (hp_chunks response) \<and> chunks_total (hp_chunks response) \<le> cap \<and>
      r = response_of N response"
  with read_chunks_complete [of "hp_chunks response" "[]" cap]
  show "read_response N response cap = Inr r"
    by (simp add: read_response_def response_of_def)
qed

section \<open>Redirects\<close>

lemma resolve_relative:
  assumes "of_url current = Inr org" "\<not> contains location ''://''"
  shows "resolve_redirect current location =
    Inr (origin_display org @ ''/'' @ (case strip_prefix ''/'' location of Some path \<Rightarrow> path | None \<Rightarrow> location))"
  using assms by (simp add: resolve_redirect_def network_err_def split: option.splits)

lemma of_url_ok: "of_url url = Inr org \<Longrightarrow> origin_ok org"
  by (auto simp: of_url_def result_simps dest: origin_parse_ok)

text \<open>
  A redirect to a location without a scheme never leaves the origin of the hop it came from, not
  even one that starts with two slashes; it is taken from the root of that origin, whatever the path of
  the current URL. A location with a scheme is taken as it is.
\<close>

theorem relative_redirect_keeps_origin:
  assumes "of_url current = Inr org" "\<not> contains location ''://''"
  shows "\<exists>url. resolve_redirect current location = Inr url \<and> of_url url = Inr org \<and>
    (of_url current' = Inr org \<longrightarrow> resolve_redirect current' location = Inr url)"
proof -
  let ?path = "case strip_prefix ''/'' location of Some path \<Rightarrow> path | None \<Rightarrow> location"
  let ?url = "origin_display org @ ''/'' @ ?path"
  have "of_url ?url = Inr org"
    by (rule of_url_display [OF of_url_ok [OF assms(1)]]) simp
  with assms resolve_relative show ?thesis by blast
qed

text \<open>The witness: a location relative to a directory is taken from the root.\<close>

theorem relative_redirect_keeps_origin_witness:
  "resolve_redirect ''http://x.com/a/b'' ''c'' = resolve_redirect ''http://x.com'' ''c'' \<and>
   (\<exists>url. resolve_redirect ''http://x.com/a/b'' ''//evil.test/c'' = Inr url \<and>
      of_url url = Inr \<lparr>o_scheme = Http, o_host = ''x.com'', o_port = 80\<rparr>)"
proof -
  let ?org = "\<lparr>o_scheme = Http, o_host = ''x.com'', o_port = 80\<rparr>"
  have "origin_display ?org = ''http://x.com''" by (simp add: origin_display_def)
  then have o: "of_url ''http://x.com/a/b'' = Inr ?org" "of_url ''http://x.com'' = Inr ?org"
    using of_url_display [OF sample_origin_ok, of "''/a/b''"] of_url_display [OF sample_origin_ok, of "[]"] by simp_all
  have c: "\<not> contains ''c'' ''://''" "\<not> contains ''//evil.test/c'' ''://''" by (simp_all add: starts_with_def)
  from relative_redirect_keeps_origin [OF o(1) c(1), of "''http://x.com''"]
    relative_redirect_keeps_origin [OF o(1) c(2)] o(2)
  show ?thesis by auto
qed

end
