(* ===== verification/Text_Replace.thy ===== *)
theory Text_Replace
  imports Rust_Text
begin

text \<open>Searching and replacing in strings as the Rust standard library does it: \<open>str::replace\<close>, \<open>str::find\<close>,
  \<open>str::rfind\<close> and \<open>str::lines\<close>, over the bytes of the UTF-8 encoding.\<close>

section \<open>Replacing\<close>

text \<open>\<open>str::replace\<close> for a pattern that is not empty: matches from the left, not overlapping.\<close>

function replace_all :: "string \<Rightarrow> string \<Rightarrow> string \<Rightarrow> string" where
  "replace_all pat new [] = []"
| "replace_all pat new (c # s) =
     (if pat \<noteq> [] \<and> starts_with (c # s) pat then new @ replace_all pat new (drop (length pat) (c # s))
      else c # replace_all pat new s)"
  by pat_completeness auto
termination
  by (relation "measure (\<lambda>(pat, new, s). length s)") auto

lemma contains_append: "contains b g \<Longrightarrow> contains (a @ b) g" "contains a g \<Longrightarrow> contains (a @ b) g"
  unfolding contains_iff by (metis append.assoc)+

lemma replace_step:
  "pat \<noteq> [] \<and> starts_with (c # s) pat \<Longrightarrow>
     replace_all pat new (c # s) = new @ replace_all pat new (drop (length pat) (c # s))"
  "\<not> (pat \<noteq> [] \<and> starts_with (c # s) pat) \<Longrightarrow> replace_all pat new (c # s) = c # replace_all pat new s"
  unfolding replace_all.simps(2) by (simp_all only: if_True if_False simp_thms)

text \<open>Nothing to replace.\<close>

lemma replace_absent: "\<not> contains s pat \<Longrightarrow> replace_all pat new s = s"
proof (induction pat new s rule: replace_all.induct)
  case (2 pat new c s)
  have no: "\<not> (pat \<noteq> [] \<and> starts_with (c # s) pat)" and "\<not> contains s pat" using 2(3) by simp_all
  with 2(2) [OF no] show ?case unfolding replace_step(2) [OF no] by simp
qed simp

section \<open>Finding\<close>

text \<open>The position of the first occurrence.\<close>

fun find_str :: "string \<Rightarrow> string \<Rightarrow> nat option" where
  "find_str pat [] = (if pat = [] then Some 0 else None)"
| "find_str pat (c # s) = (if starts_with (c # s) pat then Some 0 else map_option Suc (find_str pat s))"

text \<open>The position of the last.\<close>

fun rfind_str :: "string \<Rightarrow> string \<Rightarrow> nat option" where
  "rfind_str pat [] = (if pat = [] then Some 0 else None)"
| "rfind_str pat (c # s) =
     (case rfind_str pat s of
        Some n \<Rightarrow> Some (Suc n)
      | None \<Rightarrow> if starts_with (c # s) pat then Some 0 else None)"

lemma starts_with_length: "starts_with s p \<Longrightarrow> length p \<le> length s"
  unfolding starts_with_iff by (metis le_add1 length_append)

lemma find_str_Some: "find_str pat s = Some n \<Longrightarrow> n + length pat \<le> length s \<and> starts_with (drop n s) pat"
proof (induction s arbitrary: n)
  case (Cons c s)
  show ?case
  proof (cases "starts_with (c # s) pat")
    case True
    moreover from this have "length pat \<le> length (c # s)" by (rule starts_with_length)
    ultimately show ?thesis using Cons.prems by simp
  next
    case False
    with Cons.prems obtain m where "find_str pat s = Some m" "n = Suc m" by auto
    with Cons.IH show ?thesis by simp
  qed
qed (simp split: if_splits)

lemma find_str_None: "find_str pat s = None \<longleftrightarrow> \<not> contains s pat"
  by (induction s) auto

lemma rfind_str_Some: "rfind_str pat s = Some n \<Longrightarrow> n + length pat \<le> length s \<and> starts_with (drop n s) pat"
proof (induction s arbitrary: n)
  case (Cons c s)
  show ?case
  proof (cases "rfind_str pat s")
    case None
    with Cons.prems have "starts_with (c # s) pat" "n = 0" by (simp_all split: if_splits)
    moreover from this(1) have "length pat \<le> length (c # s)" by (rule starts_with_length)
    ultimately show ?thesis by simp
  next
    case (Some m)
    with Cons.prems Cons.IH show ?thesis by auto
  qed
qed (simp split: if_splits)

section \<open>Lines\<close>

definition strip_cr :: "string \<Rightarrow> string" where
  "strip_cr s = (case strip_suffix [CHR 0x0D] s of Some t \<Rightarrow> t | None \<Rightarrow> s)"

text \<open>Each line without its line break; a last line without one keeps a carriage return.\<close>

definition lines_of :: "string \<Rightarrow> string list" where
  "lines_of s =
     (let parts = split_on CHR 0x0A s in
      map strip_cr (butlast parts) @ (if last parts = [] then [] else [last parts]))"

end
