(* ===== verification/Broker_Redaction.thy ===== *)
theory Broker_Redaction
  imports Text_Replace "HOL-Library.List_Lexorder" "HOL-Library.Char_ord"
begin

text \<open>
  \<open>poid-broker/src/scrub.rs\<close>: the redactor for diagnostics the user reads. Registered secrets are kept
  longest first; redaction replaces every secret and its percent-encoded form by a marker. Redacted
  text leaks nothing, provided no form of a secret overlaps the marker itself; a secret that does is
  a counterexample to the claim of the comment on \<open>leaks\<close>.
\<close>

section \<open>The redactor\<close>

definition redacted :: string where
  "redacted = ''[redacted]''"

definition min_redactable_len :: nat where
  "min_redactable_len = 6"

text \<open>\<open>sort_by\<close> is a stable sort by a comparison; here by decreasing length, then by content.\<close>

fun insert_by :: "('a \<Rightarrow> 'a \<Rightarrow> bool) \<Rightarrow> 'a \<Rightarrow> 'a list \<Rightarrow> 'a list" where
  "insert_by le x [] = [x]"
| "insert_by le x (y # ys) = (if le x y then x # y # ys else y # insert_by le x ys)"

fun sort_by :: "('a \<Rightarrow> 'a \<Rightarrow> bool) \<Rightarrow> 'a list \<Rightarrow> 'a list" where
  "sort_by le [] = []"
| "sort_by le (x # xs) = insert_by le x (sort_by le xs)"

definition not_after :: "string \<Rightarrow> string \<Rightarrow> bool" where
  "not_after a b \<longleftrightarrow> length b < length a \<or> (length a = length b \<and> a \<le> b)"

definition insert_secret :: "string \<Rightarrow> string list \<Rightarrow> string list" where
  "insert_secret secret secrets =
     (if length secret < min_redactable_len \<or> secret \<in> set secrets then secrets
      else sort_by not_after (secrets @ [secret]))"

definition extend_secrets :: "string list \<Rightarrow> string list \<Rightarrow> string list" where
  "extend_secrets new secrets = fold insert_secret new secrets"

text \<open>\<open>{byte:02X}\<close>\<close>

definition upper_hex :: "nat \<Rightarrow> char" where
  "upper_hex n = (if n < 10 then char_of (48 + n) else char_of (55 + n))"

definition unreserved :: "char \<Rightarrow> bool" where
  "unreserved c \<longleftrightarrow> is_ascii_alphanumeric c \<or> c \<in> {CHR ''-'', CHR ''.'', CHR ''_'', CHR ''~''}"

definition percent_byte :: "char \<Rightarrow> string" where
  "percent_byte c =
     (if unreserved c then [c]
      else [CHR ''%'', upper_hex (of_char c div 16), upper_hex (of_char c mod 16)])"

definition percent_encode :: "string \<Rightarrow> string" where
  "percent_encode value = concat (map percent_byte value)"

text \<open>The two forms of a secret, in the order of a \<open>BTreeSet\<close>.\<close>

definition encodings :: "string \<Rightarrow> string list" where
  "encodings secret =
     (let e = percent_encode secret in
      if e = secret then [secret] else if secret < e then [secret, e] else [e, secret])"

definition redact_form :: "string \<Rightarrow> string \<Rightarrow> string" where
  "redact_form form out = (if contains out form then replace_all form redacted out else out)"

definition redact :: "string list \<Rightarrow> string \<Rightarrow> string" where
  "redact secrets msg = fold (\<lambda>secret out. fold redact_form (encodings secret) out) secrets msg"

definition leaks :: "string list \<Rightarrow> string \<Rightarrow> bool" where
  "leaks secrets msg = list_ex (\<lambda>form. contains msg form) (concat (map encodings secrets))"

section \<open>The registered secrets\<close>

definition redactor_inv :: "string list \<Rightarrow> bool" where
  "redactor_inv secrets \<longleftrightarrow> sorted_wrt not_after secrets \<and> distinct secrets \<and>
     (\<forall>s\<in>set secrets. min_redactable_len \<le> length s)"

lemma not_after_total: "not_after a b \<or> not_after b a"
  by (auto simp: not_after_def)

lemma not_after_trans: "not_after a b \<Longrightarrow> not_after b c \<Longrightarrow> not_after a c"
  by (auto simp: not_after_def)

lemma set_insert_by [simp]: "set (insert_by le x xs) = insert x (set xs)"
  by (induction xs) auto

lemma set_sort_by [simp]: "set (sort_by le xs) = set xs"
  by (induction xs) auto

lemma distinct_insert_by: "distinct (insert_by le x xs) \<longleftrightarrow> x \<notin> set xs \<and> distinct xs"
  by (induction xs) auto

lemma distinct_sort_by [simp]: "distinct (sort_by le xs) \<longleftrightarrow> distinct xs"
  by (induction xs) (auto simp: distinct_insert_by)

lemma sorted_insert_by:
  "sorted_wrt not_after xs \<Longrightarrow> sorted_wrt not_after (insert_by not_after x xs)"
proof (induction xs)
  case (Cons a xs)
  show ?case
  proof (cases "not_after x a")
    case True
    with Cons.prems show ?thesis by (auto intro: not_after_trans)
  next
    case False
    with not_after_total have "not_after a x" by blast
    with False Cons show ?thesis by auto
  qed
qed simp

lemma sorted_sort_by: "sorted_wrt not_after (sort_by not_after xs)"
  by (induction xs) (auto intro: sorted_insert_by)

lemma insert_secret_inv: "redactor_inv secrets \<Longrightarrow> redactor_inv (insert_secret secret secrets)"
  by (auto simp: redactor_inv_def insert_secret_def sorted_sort_by)

lemma set_insert_secret:
  "set (insert_secret secret secrets) =
     set secrets \<union> (if min_redactable_len \<le> length secret then {secret} else {})"
  by (auto simp: insert_secret_def)

lemma extend_secrets_inv:
  "redactor_inv secrets \<Longrightarrow> redactor_inv (extend_secrets new secrets) \<and>
     set (extend_secrets new secrets) = set secrets \<union> {s \<in> set new. 6 \<le> length s}"
  unfolding extend_secrets_def
proof (induction new arbitrary: secrets)
  case (Cons x new)
  from Cons.IH [OF insert_secret_inv [OF Cons.prems, of x]] show ?case
    by (auto simp: set_insert_secret min_redactable_len_def)
qed simp

lemma redactor_secrets_long:
  "redactor_inv (extend_secrets new [])" "set (extend_secrets new []) = {s \<in> set new. 6 \<le> length s}"
  using extend_secrets_inv [of "[]" new] by (simp_all add: redactor_inv_def)

text \<open>
  However secrets are registered, the redactor holds exactly the distinct ones of at least six
  bytes, ordered longest first, so a secret that contains another is always replaced before it.
\<close>

theorem redactor_holds_long_secrets_longest_first:
  "redactor_inv (extend_secrets new []) \<and>
   set (extend_secrets new []) = {s \<in> set new. 6 \<le> length s} \<and>
   sorted_wrt (\<lambda>a b. length b \<le> length a) (extend_secrets new [])"
proof (intro conjI)
  show inv: "redactor_inv (extend_secrets new [])"
    and "set (extend_secrets new []) = {s \<in> set new. 6 \<le> length s}"
    by (rule redactor_secrets_long)+
  from inv have "sorted_wrt not_after (extend_secrets new [])"
    by (simp add: redactor_inv_def)
  then show "sorted_wrt (\<lambda>a b. length b \<le> length a) (extend_secrets new [])"
    by (rule sorted_wrt_mono_rel [rotated]) (auto simp: not_after_def)
qed

section \<open>Redaction\<close>

lemma contains_cut: "c \<notin> set g \<Longrightarrow> contains (a @ c # b) g \<longleftrightarrow> contains a g \<or> contains b g"
proof
  assume c: "c \<notin> set g" and "contains (a @ c # b) g"
  then obtain x y where e: "a @ c # b = x @ g @ y" by (auto simp: contains_iff)
  then consider z where "a = x @ z" "z @ c # b = g @ y" | z where "x = a @ z" "c # b = z @ g @ y"
    unfolding append_eq_append_conv2 by blast
  then show "contains a g \<or> contains b g"
  proof cases
    case 1
    then consider w where "z = g @ w" | w where "g = z @ w" "c # b = w @ y"
      unfolding append_eq_append_conv2 by auto
    then show ?thesis
    proof cases
      case 1
      with \<open>a = x @ z\<close> show ?thesis by (auto simp: contains_iff)
    next
      case 2
      with c have "w = []" by (cases w) auto
      with 2 \<open>a = x @ z\<close> have "a = x @ g @ []" by simp
      then show ?thesis unfolding contains_iff by blast
    qed
  next
    case 2
    then show ?thesis
    proof (cases z)
      case Nil
      with 2 c have "g = []" by (cases g) auto
      then show ?thesis by (auto simp: contains_iff)
    next
      case (Cons d z')
      with 2 have "b = z' @ g @ y" by simp
      then show ?thesis by (auto simp: contains_iff)
    qed
  qed
qed (auto simp: contains_iff, (metis append.assoc append_Cons)+)

definition disjoint_from_marker :: "string \<Rightarrow> bool" where
  "disjoint_from_marker g \<longleftrightarrow> CHR ''['' \<notin> set g \<and> CHR '']'' \<notin> set g \<and> \<not> contains ''redacted'' g"

lemma contains_marker:
  assumes "disjoint_from_marker g"
  shows "contains (a @ redacted @ b) g \<longleftrightarrow> contains a g \<or> contains b g"
proof -
  have "contains (a @ redacted @ b) g \<longleftrightarrow> contains a g \<or> contains (''redacted'' @ CHR '']'' # b) g"
    using assms contains_cut [of "CHR ''[''" g a] by (simp add: redacted_def disjoint_from_marker_def)
  also have "\<dots> \<longleftrightarrow> contains a g \<or> contains b g"
    using assms contains_cut [of "CHR '']''" g "''redacted''" b] by (simp add: disjoint_from_marker_def)
  finally show ?thesis .
qed

text \<open>Replacing turns text into unmatched pieces and markers.\<close>

lemma replace_keeps_absent:
  assumes "disjoint_from_marker g" "\<not> contains (p @ msg) g"
  shows "\<not> contains (p @ replace_all pat redacted msg) g"
  using assms(2)
proof (induction pat redacted msg arbitrary: p rule: replace_all.induct)
  case (2 pat c s)
  show ?case
  proof (cases "pat \<noteq> [] \<and> starts_with (c # s) pat")
    case True
    let ?rest = "drop (length pat) (c # s)"
    have "\<not> contains ?rest g" "\<not> contains p g"
      using 2(3) contains_append(1) [of ?rest g "p @ take (length pat) (c # s)"]
        contains_append(2) [of p g "c # s"] by auto
    then show ?thesis
      using 2(1) [OF True, of "[]"] unfolding replace_step(1) [OF True]
      by (simp add: contains_marker [OF assms(1)])
  next
    case False
    with 2(2) [OF False, of "p @ [c]"] 2(3) show ?thesis unfolding replace_step(2) [OF False] by simp
  qed
qed simp

lemma replace_removes:
  assumes "disjoint_from_marker pat" "pat \<noteq> []"
  shows "\<not> contains (replace_all pat redacted msg) pat"
proof -
  have gen: "\<not> contains (p @ replace_all pat redacted msg) pat"
    if "\<not> (\<exists>a b. p @ msg = a @ pat @ b \<and> length a < length p)" for p
    using that assms
  proof (induction pat redacted msg arbitrary: p rule: replace_all.induct)
    case (1 pat)
    then show ?case by (auto simp: contains_iff)
  next
    case (2 pat c s)
    let ?occ = "\<lambda>p msg. \<exists>a b. p @ msg = a @ pat @ b \<and> length a < length p"
    show ?case
    proof (cases "pat \<noteq> [] \<and> starts_with (c # s) pat")
      case True
      have "\<not> contains p pat"
      proof
        assume "contains p pat"
        then obtain a b where ab: "p = a @ pat @ b" by (auto simp: contains_iff)
        with True have "length a < length p" by simp
        moreover from ab have "p @ c # s = a @ pat @ (b @ c # s)" by simp
        ultimately show False using 2(3) by blast
      qed
      with 2(1) [OF True, of "[]"] 2(4,5) show ?thesis
        unfolding replace_step(1) [OF True] by (simp add: contains_marker [OF 2(4)])
    next
      case False
      have "\<not> ?occ (p @ [c]) s"
      proof
        assume "?occ (p @ [c]) s"
        then obtain a b where ab: "p @ c # s = a @ pat @ b" "length a \<le> length p" by auto
        moreover have "\<not> length a < length p" using ab(1) 2(3) by blast
        ultimately have "length a = length p" by simp
        with ab(1) have "c # s = pat @ b" by simp
        then have "starts_with (c # s) pat" unfolding starts_with_iff by blast
        with False 2(5) show False by blast
      qed
      with 2(2) [OF False, of "p @ [c]"] 2(4,5) show ?thesis unfolding replace_step(2) [OF False] by simp
    qed
  qed
  from gen [of "[]"] show ?thesis by simp
qed

lemma replace_marks: "contains msg pat \<Longrightarrow> pat \<noteq> [] \<Longrightarrow> contains (replace_all pat new msg) new"
proof (induction pat new msg rule: replace_all.induct)
  case (2 pat new c s)
  show ?case
  proof (cases "pat \<noteq> [] \<and> starts_with (c # s) pat")
    case True
    show ?thesis unfolding replace_step(1) [OF True] by (simp add: contains_append(2))
  next
    case False
    with 2 have "contains (replace_all pat new s) new" by simp
    then show ?thesis unfolding replace_step(2) [OF False] using contains_append(1) [of _ new "[c]"] by simp
  qed
qed simp

lemma redact_form_absent:
  assumes "disjoint_from_marker form" "form \<noteq> []"
  shows "\<not> contains (redact_form form msg) form"
  using replace_removes [OF assms] by (simp add: redact_form_def)

lemma redact_form_keeps_absent:
  "disjoint_from_marker g \<Longrightarrow> \<not> contains msg g \<Longrightarrow> \<not> contains (redact_form form msg) g"
  using replace_keeps_absent [of g "[]"] by (simp add: redact_form_def)

lemma redact_forms_keep_absent:
  "disjoint_from_marker g \<Longrightarrow> \<not> contains msg g \<Longrightarrow> \<not> contains (fold redact_form forms msg) g"
  by (induction forms arbitrary: msg) (simp_all add: redact_form_keeps_absent)

lemma redact_forms_clean:
  "\<forall>form\<in>set forms. disjoint_from_marker form \<and> form \<noteq> [] \<Longrightarrow>
     \<forall>form\<in>set forms. \<not> contains (fold redact_form forms msg) form"
proof (induction forms arbitrary: msg)
  case (Cons form forms)
  then have "\<not> contains (fold redact_form forms (redact_form form msg)) form"
    by (intro redact_forms_keep_absent redact_form_absent) auto
  with Cons show ?case by simp
qed simp

lemma redact_eq: "redact secrets msg = fold redact_form (concat (map encodings secrets)) msg"
  unfolding redact_def by (induction secrets arbitrary: msg) simp_all

lemma leaks_iff: "leaks secrets msg \<longleftrightarrow> (\<exists>form\<in>set (concat (map encodings secrets)). contains msg form)"
  by (simp add: leaks_def list_ex_iff)

lemma fold_redact_id:
  "\<forall>form\<in>set forms. \<not> contains msg form \<Longrightarrow> fold redact_form forms msg = msg"
  by (induction forms) (simp_all add: redact_form_def)

lemma set_encodings: "set (encodings secret) = {secret, percent_encode secret}"
  by (auto simp: encodings_def Let_def)

lemma percent_encode_empty: "percent_encode secret = [] \<longleftrightarrow> secret = []"
  by (cases secret) (simp_all add: percent_encode_def percent_byte_def)

definition marker_safe :: "string list \<Rightarrow> bool" where
  "marker_safe secrets \<longleftrightarrow>
     (\<forall>s\<in>set secrets. disjoint_from_marker s \<and> disjoint_from_marker (percent_encode s))"

text \<open>
  C14: Redaction is complete: with any secrets registered, as long as no form of a secret overlaps the
  marker, the redacted text contains no registered secret, neither verbatim nor percent-encoded,
  even where secrets overlap each other; and a text that leaks nothing is returned unchanged.
\<close>

theorem redacted_text_leaks_nothing:
  "(marker_safe (extend_secrets new []) \<longrightarrow>
      \<not> leaks (extend_secrets new []) (redact (extend_secrets new []) msg)) \<and>
   (\<not> leaks secrets msg \<longrightarrow> redact secrets msg = msg)"
proof (intro conjI impI)
  let ?secrets = "extend_secrets new []"
  assume "marker_safe ?secrets"
  moreover have "[] \<notin> set ?secrets"
    using redactor_secrets_long [of new] by auto
  ultimately have "\<forall>form\<in>set (concat (map encodings ?secrets)). disjoint_from_marker form \<and> form \<noteq> []"
    by (auto simp: marker_safe_def set_encodings percent_encode_empty)
  then show "\<not> leaks ?secrets (redact ?secrets msg)"
    unfolding leaks_iff redact_eq using redact_forms_clean by blast
next
  assume "\<not> leaks secrets msg"
  then show "redact secrets msg = msg"
    unfolding leaks_iff redact_eq using fold_redact_id by blast
qed

theorem redacted_text_leaks_nothing_witness:
  "\<not> leaks [''hunter2''] (redact [''hunter2''] ''password hunter2 refused'')"
proof -
  have s: "extend_secrets [''hunter2''] [] = [''hunter2'']"
    by (simp add: extend_secrets_def insert_secret_def min_redactable_len_def)
  have "percent_encode ''hunter2'' = ''hunter2''"
    by (simp add: percent_encode_def percent_byte_def unreserved_def ascii_class_defs)
  moreover have "disjoint_from_marker ''hunter2''"
    by (simp add: disjoint_from_marker_def starts_with_def)
  ultimately have "marker_safe (extend_secrets [''hunter2''] [])"
    by (simp add: s marker_safe_def)
  then show ?thesis
    using redacted_text_leaks_nothing [of "[''hunter2'']"] unfolding s by blast
qed

text \<open>
  The side condition is needed: a secret that is a part of the word \<open>redacted\<close> survives
  redaction, because the marker that replaces it contains it, so \<open>leaks\<close> stays true for every text
  the secret occurs in.
\<close>

theorem secret_inside_marker_survives:
  assumes "contains ''redacted'' secret" "percent_encode secret = secret" "secret \<noteq> []"
    and "contains msg secret"
  shows "leaks [secret] (redact [secret] msg)"
proof -
  have "contains redacted ''redacted''"
    unfolding contains_iff redacted_def by (intro exI [of _ "''[''"] exI [of _ "'']''"]) simp
  then have "contains redacted secret" using assms(1) by (rule contains_trans)
  moreover have "contains (replace_all secret redacted msg) redacted"
    by (rule replace_marks) (use assms in simp_all)
  ultimately have "contains (replace_all secret redacted msg) secret" by (blast intro: contains_trans)
  with assms show ?thesis
    by (simp add: leaks_def redact_def encodings_def redact_form_def)
qed

theorem secret_inside_marker_survives_witness:
  "leaks [''redacted''] (redact [''redacted''] ''key redacted'')"
proof (rule secret_inside_marker_survives)
  show "contains ''redacted'' ''redacted''" by simp
  show "percent_encode ''redacted'' = ''redacted''"
    by (simp add: percent_encode_def percent_byte_def unreserved_def ascii_class_defs)
  show "contains ''key redacted'' ''redacted''" by (simp add: starts_with_def)
qed simp

end
