(* ===== verification/Dsn_Parsing.thy ===== *)
theory Dsn_Parsing
  imports Connection_Errors Broker_Redaction
begin

text \<open>
  \<open>poid-connections/src/dsn.rs\<close>: a connection string is split into the target that may be written
  down and the password that may not. Acceptance is characterised exactly; the target does not depend
  on the password; percent-encoded parts decode to what was encoded.
\<close>

section \<open>Targets and parsed connection strings\<close>

record sql_target =
  t_host :: string
  t_port :: nat
  t_database :: string
  t_user :: string

definition target_display :: "sql_target \<Rightarrow> string" where
  "target_display t = t_user t @ ''@'' @ t_host t @ '':'' @ show_nat (t_port t) @ ''/'' @ t_database t"

record parsed_dsn =
  d_target :: sql_target
  d_password :: string

definition percent_escape :: "byte list \<Rightarrow> byte option" where
  "percent_escape rest =
     (if 2 \<le> length rest then Option.bind (from_utf8 (take 2 rest)) u8_from_hex else None)"

function percent_decode_bytes :: "byte list \<Rightarrow> byte list" where
  "percent_decode_bytes [] = []"
| "percent_decode_bytes (b # rest) =
     (if b = 0x25 then
        (case percent_escape rest of
           Some byte \<Rightarrow> byte # percent_decode_bytes (drop 2 rest)
         | None \<Rightarrow> b # percent_decode_bytes rest)
      else b # percent_decode_bytes rest)"
  by pat_completeness auto
termination
  by (relation "measure length") auto

definition percent_decode :: "string \<Rightarrow> string" where
  "percent_decode value = from_utf8_lossy (percent_decode_bytes (bytes_of value))"

definition default_sql_port :: nat where
  "default_sql_port = 5432"

definition split_host_port :: "string \<Rightarrow> (string \<times> nat) option" where
  "split_host_port authority =
     (case split_once CHR '']'' authority of
        Some (before, tail) \<Rightarrow>
          (let host = before @ '']'' in
           if tail = '''' then Some (host, default_sql_port)
           else Option.bind (strip_prefix '':'' tail)
             (\<lambda>p. map_option (\<lambda>port. (host, port)) (parse_u16 p)))
      | None \<Rightarrow>
          (case rsplit_once CHR '':'' authority of
             Some (host, port) \<Rightarrow> map_option (\<lambda>port. (host, port)) (parse_u16 port)
           | None \<Rightarrow> Some (authority, default_sql_port)))"

definition strip_scheme :: "string \<Rightarrow> string option" where
  "strip_scheme dsn =
     (case strip_prefix ''postgresql://'' dsn of
        Some rest \<Rightarrow> Some rest
      | None \<Rightarrow> strip_prefix ''postgres://'' dsn)"

definition before_query :: "string \<Rightarrow> string" where
  "before_query rest = takeWhile (\<lambda>c. c \<noteq> CHR ''?'' \<and> c \<noteq> CHR ''#'') rest"

definition split_userinfo :: "string \<Rightarrow> string \<times> string" where
  "split_userinfo userinfo =
     (case split_once CHR '':'' userinfo of Some (u, p) \<Rightarrow> (u, p) | None \<Rightarrow> (userinfo, ''''))"

definition parse_dsn :: "string \<Rightarrow> connection_error + parsed_dsn" where
  "parse_dsn dsn =
     rbind (ok_or (InvalidConfig ''it must start with postgres:// or postgresql://'') (strip_scheme dsn))
       (\<lambda>rest.
     rbind (ok_or (InvalidConfig ''it has no user'') (rsplit_once CHR ''@'' (before_query rest)))
       (\<lambda>(userinfo, hostpath).
     let (user, password) = split_userinfo userinfo;
         user = percent_decode user; password = percent_decode password in
     if user = '''' then Inl (InvalidConfig ''it has no user'')
     else
       rbind (ok_or (InvalidConfig ''it names no database'') (split_once CHR ''/'' hostpath))
         (\<lambda>(authority, database).
       let database = percent_decode database in
       if database = '''' then Inl (InvalidConfig ''it names no database'')
       else
         rbind (ok_or (InvalidConfig ''its port is not a number'') (split_host_port authority))
           (\<lambda>(host, port).
         if host = '''' then Inl (InvalidConfig ''it has no host'')
         else Inr \<lparr>d_target = \<lparr>t_host = host, t_port = port, t_database = database, t_user = user\<rparr>,
                   d_password = password\<rparr>))))"

section \<open>What a connection string is\<close>

definition dsn_scheme :: "string \<Rightarrow> bool" where
  "dsn_scheme sch \<longleftrightarrow> sch = ''postgresql://'' \<or> sch = ''postgres://''"

definition query_tail :: "string \<Rightarrow> bool" where
  "query_tail tail \<longleftrightarrow> tail = [] \<or> hd tail = CHR ''?'' \<or> hd tail = CHR ''#''"

definition no_query :: "string \<Rightarrow> bool" where
  "no_query s \<longleftrightarrow> CHR ''?'' \<notin> set s \<and> CHR ''#'' \<notin> set s"

text \<open>The text a password contributes: nothing, or a colon and the password as written.\<close>

definition password_part :: "string option \<Rightarrow> string" where
  "password_part pw = (case pw of None \<Rightarrow> [] | Some p \<Rightarrow> CHR '':'' # p)"

definition dsn_text :: "string \<Rightarrow> string \<Rightarrow> string option \<Rightarrow> string \<Rightarrow> string \<Rightarrow> string \<Rightarrow> string" where
  "dsn_text sch user pw authority database tail =
     sch @ user @ password_part pw @ ''@'' @ authority @ ''/'' @ database @ tail"

definition dsn_parts_ok :: "string \<Rightarrow> string \<Rightarrow> string option \<Rightarrow> string \<Rightarrow> string \<Rightarrow> string \<Rightarrow> bool" where
  "dsn_parts_ok sch user pw authority database tail \<longleftrightarrow>
     dsn_scheme sch \<and> query_tail tail \<and> no_query user \<and> no_query authority \<and> no_query database \<and>
     (case pw of None \<Rightarrow> True | Some p \<Rightarrow> no_query p) \<and>
     CHR '':'' \<notin> set user \<and> CHR ''/'' \<notin> set authority \<and>
     CHR ''@'' \<notin> set authority \<and> CHR ''@'' \<notin> set database"

definition dsn_value :: "string \<Rightarrow> string option \<Rightarrow> string \<Rightarrow> nat \<Rightarrow> string \<Rightarrow> parsed_dsn" where
  "dsn_value user pw host port database =
     \<lparr>d_target = \<lparr>t_host = host, t_port = port, t_database = percent_decode database,
                  t_user = percent_decode user\<rparr>,
      d_password = percent_decode (case pw of None \<Rightarrow> [] | Some p \<Rightarrow> p)\<rparr>"

lemma strip_scheme_eq:
  "strip_scheme dsn = Some rest \<longleftrightarrow> (\<exists>sch. dsn_scheme sch \<and> dsn = sch @ rest)"
proof -
  have other: "strip_prefix ''postgresql://'' (''postgres://'' @ r) = None" for r
    by (simp add: strip_prefix_def starts_with_def)
  show ?thesis
  proof (cases "strip_prefix ''postgresql://'' dsn")
    case None
    then have "\<not> (\<exists>r. dsn = ''postgresql://'' @ r)"
      using strip_prefix_eq_Some [of "''postgresql://''" dsn] by auto
    with None show ?thesis
      unfolding strip_scheme_def dsn_scheme_def by (auto simp: strip_prefix_eq_Some)
  next
    case (Some r)
    then have "dsn = ''postgresql://'' @ r" by (simp add: strip_prefix_eq_Some)
    moreover have "dsn \<noteq> ''postgres://'' @ r'" for r' using other [of r'] Some by auto
    ultimately show ?thesis
      using Some unfolding strip_scheme_def dsn_scheme_def by auto
  qed
qed

lemma before_query_eq:
  "before_query rest = r \<longleftrightarrow> no_query r \<and> (\<exists>tail. query_tail tail \<and> rest = r @ tail)"
proof
  assume r: "before_query rest = r"
  let ?P = "\<lambda>c. c \<noteq> CHR ''?'' \<and> c \<noteq> CHR ''#''"
  have "rest = r @ dropWhile ?P rest" unfolding r [symmetric] before_query_def by simp
  moreover have "query_tail (dropWhile ?P rest)"
    using hd_dropWhile [of ?P rest] by (auto simp: query_tail_def)
  moreover have "no_query r"
    using r by (auto simp: no_query_def before_query_def dest: set_takeWhileD)
  ultimately show "no_query r \<and> (\<exists>tail. query_tail tail \<and> rest = r @ tail)" by blast
next
  assume "no_query r \<and> (\<exists>tail. query_tail tail \<and> rest = r @ tail)"
  then obtain tail where "no_query r" "query_tail tail" "rest = r @ tail" by blast
  then show "before_query rest = r"
    by (cases tail) (auto simp: before_query_def no_query_def query_tail_def takeWhile_append
        takeWhile_eq_all_conv)
qed

lemma split_userinfo_eq:
  "split_userinfo info = (u, p) \<longleftrightarrow>
     (\<exists>pw. info = u @ password_part pw \<and> CHR '':'' \<notin> set u \<and> p = (case pw of None \<Rightarrow> [] | Some p \<Rightarrow> p))"
proof
  assume l: "split_userinfo info = (u, p)"
  show "\<exists>pw. info = u @ password_part pw \<and> CHR '':'' \<notin> set u \<and> p = (case pw of None \<Rightarrow> [] | Some p \<Rightarrow> p)"
  proof (cases "split_once CHR '':'' info")
    case None
    with l show ?thesis
      by (intro exI [of _ None]) (auto simp: split_userinfo_def password_part_def split_once_eq_None)
  next
    case (Some up)
    with l have "split_once CHR '':'' info = Some (u, p)" by (simp add: split_userinfo_def split: prod.splits)
    then show ?thesis
      by (intro exI [of _ "Some p"]) (auto simp: password_part_def split_once_eq_Some)
  qed
next
  assume "\<exists>pw. info = u @ password_part pw \<and> CHR '':'' \<notin> set u \<and> p = (case pw of None \<Rightarrow> [] | Some p \<Rightarrow> p)"
  then obtain pw where pw: "info = u @ password_part pw" "CHR '':'' \<notin> set u"
    "p = (case pw of None \<Rightarrow> [] | Some p \<Rightarrow> p)" by blast
  show "split_userinfo info = (u, p)"
  proof (cases pw)
    case None
    with pw have "split_once CHR '':'' info = None" by (simp add: split_once_eq_None password_part_def)
    with None pw show ?thesis by (simp add: split_userinfo_def password_part_def)
  next
    case (Some q)
    with pw have "split_once CHR '':'' info = Some (u, q)"
      by (simp add: split_once_eq_Some password_part_def)
    with Some pw show ?thesis by (simp add: split_userinfo_def)
  qed
qed

lemma parse_dsn_steps:
  "parse_dsn dsn = Inr v \<longleftrightarrow>
     (\<exists>rest info hostpath user p authority database host port.
        strip_scheme dsn = Some rest \<and>
        rsplit_once CHR ''@'' (before_query rest) = Some (info, hostpath) \<and>
        split_userinfo info = (user, p) \<and> percent_decode user \<noteq> [] \<and>
        split_once CHR ''/'' hostpath = Some (authority, database) \<and> percent_decode database \<noteq> [] \<and>
        split_host_port authority = Some (host, port) \<and> host \<noteq> [] \<and>
        v = \<lparr>d_target = \<lparr>t_host = host, t_port = port, t_database = percent_decode database,
                         t_user = percent_decode user\<rparr>, d_password = percent_decode p\<rparr>)"
  (is "?l \<longleftrightarrow> ?r")
proof
  assume l: ?l
  from l obtain rest where 1: "strip_scheme dsn = Some rest"
    by (cases "strip_scheme dsn") (simp_all add: parse_dsn_def)
  from l 1 obtain info hostpath where 2: "rsplit_once CHR ''@'' (before_query rest) = Some (info, hostpath)"
    by (cases "rsplit_once CHR ''@'' (before_query rest)") (auto simp: parse_dsn_def)
  obtain user p where 3: "split_userinfo info = (user, p)" by (cases "split_userinfo info")
  from l 1 2 3 have 4: "percent_decode user \<noteq> []" by (auto simp: parse_dsn_def)
  from l 1 2 3 4 obtain authority database where 5: "split_once CHR ''/'' hostpath = Some (authority, database)"
    by (cases "split_once CHR ''/'' hostpath") (auto simp: parse_dsn_def)
  from l 1 2 3 4 5 have 6: "percent_decode database \<noteq> []" by (auto simp: parse_dsn_def)
  from l 1 2 3 4 5 6 obtain host port where 7: "split_host_port authority = Some (host, port)"
    by (cases "split_host_port authority") (auto simp: parse_dsn_def)
  from l 1 2 3 4 5 6 7 have 8: "host \<noteq> []" by (auto simp: parse_dsn_def)
  from l 1 2 3 4 5 6 7 8 show ?r by (auto simp: parse_dsn_def)
next
  assume ?r
  then show ?l
    by (elim exE conjE) (simp only: parse_dsn_def ok_or_simps rbind_Inr Let_def prod.case if_False simp_thms)
qed

lemma parse_dsn_iff:
  "parse_dsn dsn = Inr v \<longleftrightarrow>
     (\<exists>sch user pw authority database tail host port.
        dsn = dsn_text sch user pw authority database tail \<and>
        dsn_parts_ok sch user pw authority database tail \<and>
        percent_decode user \<noteq> [] \<and> percent_decode database \<noteq> [] \<and>
        split_host_port authority = Some (host, port) \<and> host \<noteq> [] \<and>
        v = dsn_value user pw host port database)"
  (is "?l \<longleftrightarrow> ?r")
proof
  assume ?l
  then obtain rest info hostpath user p authority database host port where
    steps: "strip_scheme dsn = Some rest"
      "rsplit_once CHR ''@'' (before_query rest) = Some (info, hostpath)"
      "split_userinfo info = (user, p)" "split_once CHR ''/'' hostpath = Some (authority, database)"
    and ok: "percent_decode user \<noteq> []" "percent_decode database \<noteq> []"
      "split_host_port authority = Some (host, port)" "host \<noteq> []"
    and v: "v = \<lparr>d_target = \<lparr>t_host = host, t_port = port, t_database = percent_decode database,
                 t_user = percent_decode user\<rparr>, d_password = percent_decode p\<rparr>"
    unfolding parse_dsn_steps by blast
  from steps(1) obtain sch where sch: "dsn_scheme sch" "dsn = sch @ rest" by (auto simp: strip_scheme_eq)
  from before_query_eq [of rest "before_query rest"] obtain tail where
    tail: "query_tail tail" "rest = before_query rest @ tail" "no_query (before_query rest)" by blast
  from steps(3) obtain pw where pw: "info = user @ password_part pw" "CHR '':'' \<notin> set user"
    "p = (case pw of None \<Rightarrow> [] | Some p \<Rightarrow> p)" by (auto simp: split_userinfo_eq)
  have at: "before_query rest = info @ CHR ''@'' # hostpath" "CHR ''@'' \<notin> set hostpath"
    and slash: "hostpath = authority @ CHR ''/'' # database" "CHR ''/'' \<notin> set authority"
    using steps(2,4) by (auto simp: rsplit_once_eq_Some split_once_eq_Some)
  have "dsn = dsn_text sch user pw authority database tail"
    using sch(2) tail(2) pw(1) at(1) slash(1) by (simp add: dsn_text_def)
  moreover have "dsn_parts_ok sch user pw authority database tail"
    using sch(1) tail(1,3) pw at slash
    by (cases pw) (auto simp: dsn_parts_ok_def no_query_def password_part_def)
  moreover have "v = dsn_value user pw host port database"
    using v pw(3) by (simp add: dsn_value_def)
  ultimately show ?r using ok by blast
next
  assume ?r
  then obtain sch user pw authority database tail host port where
    dsn: "dsn = dsn_text sch user pw authority database tail"
    and ok: "dsn_parts_ok sch user pw authority database tail"
    and vals: "percent_decode user \<noteq> []" "percent_decode database \<noteq> []"
      "split_host_port authority = Some (host, port)" "host \<noteq> []"
    and v: "v = dsn_value user pw host port database" by blast
  let ?info = "user @ password_part pw" and ?hostpath = "authority @ CHR ''/'' # database"
  let ?rest = "?info @ CHR ''@'' # ?hostpath"
  from dsn ok have "strip_scheme dsn = Some (?rest @ tail)"
    by (auto simp: strip_scheme_eq dsn_text_def dsn_parts_ok_def)
  moreover have "before_query (?rest @ tail) = ?rest"
    unfolding before_query_eq using ok
    by (cases pw) (auto simp: dsn_parts_ok_def no_query_def password_part_def)
  moreover have "rsplit_once CHR ''@'' ?rest = Some (?info, ?hostpath)"
    using ok by (simp add: rsplit_once_eq_Some dsn_parts_ok_def)
  moreover have "split_userinfo ?info = (user, case pw of None \<Rightarrow> [] | Some p \<Rightarrow> p)"
    unfolding split_userinfo_eq using ok by (auto simp: dsn_parts_ok_def)
  moreover have "split_once CHR ''/'' ?hostpath = Some (authority, database)"
    using ok by (simp add: split_once_eq_Some dsn_parts_ok_def)
  ultimately show ?l
    unfolding parse_dsn_steps using vals v by (auto simp: dsn_value_def)
qed

lemma dsn_parts_other_password:
  "dsn_parts_ok sch user pw authority database tail \<Longrightarrow> (\<forall>p. pw' = Some p \<longrightarrow> no_query p) \<Longrightarrow>
     dsn_parts_ok sch user pw' authority database tail"
  by (auto simp: dsn_parts_ok_def split: option.splits)

lemma parse_dsn_text:
  assumes "dsn_parts_ok sch user pw authority database tail"
    and "percent_decode user \<noteq> []" "percent_decode database \<noteq> []"
    and "split_host_port authority = Some (host, port)" "host \<noteq> []"
  shows "parse_dsn (dsn_text sch user pw authority database tail) = Inr (dsn_value user pw host port database)"
  unfolding parse_dsn_iff using assms by blast

text \<open>
  What may be written down does not depend on the password: every accepted connection string is
  some text with a password, and with any other password in its place that has no \<open>?\<close> or \<open>#\<close> it is
  accepted again, with the same target and the new password.
\<close>

theorem dsn_target_independent_of_password:
  assumes "parse_dsn dsn = Inr v"
  shows "\<exists>pre pw post. dsn = pre @ password_part pw @ post \<and>
           d_password v = percent_decode (case pw of None \<Rightarrow> [] | Some p \<Rightarrow> p) \<and>
           (\<forall>p. no_query p \<longrightarrow> parse_dsn (pre @ password_part (Some p) @ post) =
              Inr \<lparr>d_target = d_target v, d_password = percent_decode p\<rparr>)"
proof -
  from assms obtain sch user pw authority database tail host port where
    dsn: "dsn = dsn_text sch user pw authority database tail"
    and ok: "dsn_parts_ok sch user pw authority database tail"
    and vals: "percent_decode user \<noteq> []" "percent_decode database \<noteq> []"
      "split_host_port authority = Some (host, port)" "host \<noteq> []"
    and v: "v = dsn_value user pw host port database"
    unfolding parse_dsn_iff by blast
  let ?pre = "sch @ user" and ?post = "''@'' @ authority @ ''/'' @ database @ tail"
  have "parse_dsn (?pre @ password_part (Some p) @ ?post) =
      Inr \<lparr>d_target = d_target v, d_password = percent_decode p\<rparr>" if "no_query p" for p
    using parse_dsn_text [OF dsn_parts_other_password [OF ok, of "Some p"] vals] that v
    by (simp add: dsn_text_def dsn_value_def)
  moreover have "dsn = ?pre @ password_part pw @ ?post" using dsn by (simp add: dsn_text_def)
  moreover have "d_password v = percent_decode (case pw of None \<Rightarrow> [] | Some p \<Rightarrow> p)"
    using v by (simp add: dsn_value_def)
  ultimately show ?thesis by blast
qed

lemma byte_percent: "(word_of_nat (of_char c) :: byte) = 0x25 \<longleftrightarrow> c = CHR ''%''"
  using bytes_of_inj [of "[c]" "''%''"] by (simp del: bytes_of_inj)

lemma percent_decode_plain:
  assumes "from_utf8 (bytes_of s) = Some s" "CHR ''%'' \<notin> set s"
  shows "percent_decode s = s"
proof -
  have "percent_decode_bytes (bytes_of s) = bytes_of s"
    using assms(2) by (induction s) (auto simp: byte_percent)
  with assms(1) show ?thesis by (simp add: percent_decode_def from_utf8_lossy_valid)
qed

lemma sample_dsn:
  "parse_dsn ''postgres://u:p@h/d'' =
     Inr \<lparr>d_target = \<lparr>t_host = ''h'', t_port = 5432, t_database = ''d'', t_user = ''u''\<rparr>, d_password = ''p''\<rparr>"
proof -
  have "percent_decode ''u'' = ''u''" "percent_decode ''d'' = ''d''" "percent_decode ''p'' = ''p''"
    by (rule percent_decode_plain, rule from_utf8_ascii, simp, simp)+
  moreover have "split_host_port ''h'' = Some (''h'', 5432)"
    by (simp add: split_host_port_def rsplit_once_def default_sql_port_def)
  ultimately show ?thesis
    using parse_dsn_text [of "''postgres://''" "''u''" "Some ''p''" "''h''" "''d''" "[]" "''h''" 5432]
    by (simp add: dsn_text_def dsn_value_def dsn_parts_ok_def dsn_scheme_def query_tail_def no_query_def
        password_part_def)
qed

theorem dsn_target_independent_of_password_witness:
  "\<exists>pre pw post. ''postgres://u:p@h/d'' = pre @ password_part pw @ post \<and>
     (\<forall>p. no_query p \<longrightarrow> parse_dsn (pre @ password_part (Some p) @ post) =
        Inr \<lparr>d_target = \<lparr>t_host = ''h'', t_port = 5432, t_database = ''d'', t_user = ''u''\<rparr>,
             d_password = percent_decode p\<rparr>)"
  using dsn_target_independent_of_password [OF sample_dsn] by (simp only: parsed_dsn.simps) blast

section \<open>Percent-encoded parts\<close>

lemma hex_value_upper: "n < 16 \<Longrightarrow> hex_value (upper_hex n) = Some n"
  by (auto simp: hex_value_def upper_hex_def is_ascii_digit_def)

lemma upper_hex_ascii: "n < 16 \<Longrightarrow> of_char (upper_hex n) < (128 :: nat)"
  by (simp add: upper_hex_def)

lemma upper_hex_no_plus: "n < 16 \<Longrightarrow> upper_hex n \<noteq> CHR ''+''"
  using hex_value_upper [of n] by (auto simp: hex_value_def is_ascii_digit_def)

lemma percent_escape_hex:
  assumes "h < 16" "l < 16"
  shows "percent_escape (bytes_of [upper_hex h, upper_hex l] @ rest) = Some (word_of_nat (16 * h + l))"
proof -
  have "from_utf8 (bytes_of [upper_hex h, upper_hex l]) = Some [upper_hex h, upper_hex l]"
    using assms by (intro from_utf8_ascii) (simp add: upper_hex_ascii)
  moreover have "u8_from_hex [upper_hex h, upper_hex l] = Some (word_of_nat (16 * h + l))"
    using assms upper_hex_no_plus [of h]
    by (simp add: u8_from_hex_def strip_plus_def hex_value_upper)
  ultimately show ?thesis by (simp add: percent_escape_def)
qed

lemma percent_not_unreserved: "\<not> unreserved CHR ''%''"
  by (simp add: unreserved_def ascii_class_defs)

lemma decode_percent_byte:
  "percent_decode_bytes (bytes_of (percent_byte c) @ rest) = bytes_of [c] @ percent_decode_bytes rest"
proof (cases "unreserved c")
  case True
  then have "c \<noteq> CHR ''%''" using percent_not_unreserved by auto
  with True show ?thesis by (simp add: percent_byte_def byte_percent)
next
  case False
  let ?h = "of_char c div 16 :: nat" and ?l = "of_char c mod 16 :: nat"
  have "(of_char c :: nat) < 256" by simp
  then have "?h < 16" "?l < 16" by (simp_all add: less_mult_imp_div_less)
  from percent_escape_hex [OF this, of rest] False show ?thesis
    by (simp add: percent_byte_def)
qed

lemma decode_percent_encode: "percent_decode_bytes (bytes_of (percent_encode s)) = bytes_of s"
proof (induction s)
  case (Cons c s)
  then show ?case
    using decode_percent_byte [of c "bytes_of (percent_encode s)"]
    by (simp add: percent_encode_def)
qed (simp add: percent_encode_def)

lemma percent_roundtrip: "from_utf8 (bytes_of s) = Some s \<Longrightarrow> percent_decode (percent_encode s) = s"
  by (simp add: percent_decode_def decode_percent_encode from_utf8_lossy_valid)

lemma percent_encode_chars: "c \<in> set (percent_encode s) \<Longrightarrow> unreserved c \<or> c = CHR ''%''"
proof -
  assume "c \<in> set (percent_encode s)"
  then obtain d where d: "c \<in> set (percent_byte d)" by (auto simp: percent_encode_def)
  have "of_char d div 16 < (16 :: nat)" "of_char d mod 16 < (16 :: nat)"
    by (simp_all add: less_mult_imp_div_less)
  then have "unreserved (upper_hex (of_char d div 16))" "unreserved (upper_hex (of_char d mod 16))"
    by (auto simp: unreserved_def upper_hex_def ascii_class_defs)
  with d show ?thesis by (auto simp: percent_byte_def split: if_splits)
qed

lemma percent_encode_free:
  "CHR ''?'' \<notin> set (percent_encode s)" "CHR ''#'' \<notin> set (percent_encode s)"
  "CHR ''@'' \<notin> set (percent_encode s)" "CHR '':'' \<notin> set (percent_encode s)"
  "CHR ''/'' \<notin> set (percent_encode s)"
  by (auto dest!: percent_encode_chars simp: unreserved_def ascii_class_defs)

definition plain_host :: "string \<Rightarrow> bool" where
  "plain_host host \<longleftrightarrow> host \<noteq> [] \<and> no_query host \<and> set host \<inter> {CHR '':'', CHR ''/'', CHR ''@'', CHR '']''} = {}"

text \<open>
  A connection string built from percent-encoded parts is read back as exactly those parts:
  whatever text user, password and database are, including the characters that separate the parts.
  The encoder is the one the redactor searches with, so a password that went into a connection
  string encoded is recognised in diagnostics.
\<close>

theorem encoded_dsn_roundtrip:
  assumes "from_utf8 (bytes_of user) = Some user" "from_utf8 (bytes_of pw) = Some pw"
    and "from_utf8 (bytes_of database) = Some database"
    and "user \<noteq> []" "database \<noteq> []" "plain_host host" "port < 65536"
  shows "parse_dsn (''postgres://'' @ percent_encode user @ '':'' @ percent_encode pw @ ''@'' @ host @
           '':'' @ show_nat port @ ''/'' @ percent_encode database) =
         Inr \<lparr>d_target = \<lparr>t_host = host, t_port = port, t_database = database, t_user = user\<rparr>,
              d_password = pw\<rparr> \<and>
         percent_encode pw \<in> set (encodings pw)"
proof
  let ?authority = "host @ '':'' @ show_nat port"
  have digits: "c \<notin> set (show_nat port)" if "\<not> is_ascii_digit c" for c
    using that set_show_nat by blast
  have none: "\<not> is_ascii_digit CHR '']''" "\<not> is_ascii_digit CHR '':''" "\<not> is_ascii_digit CHR ''/''"
    "\<not> is_ascii_digit CHR ''@''" "\<not> is_ascii_digit CHR ''?''" "\<not> is_ascii_digit CHR ''#''"
    by (simp_all add: is_ascii_digit_def)
  have "split_once CHR '']'' ?authority = None"
    using assms(6) digits none by (auto simp: split_once_eq_None plain_host_def)
  moreover have "rsplit_once CHR '':'' ?authority = Some (host, show_nat port)"
    using digits none by (auto simp: rsplit_once_eq_Some)
  ultimately have "split_host_port ?authority = Some (host, port)"
    using assms(7) by (simp add: split_host_port_def parse_u16_show)
  moreover have "dsn_parts_ok ''postgres://'' (percent_encode user) (Some (percent_encode pw)) ?authority
      (percent_encode database) []"
    using assms(6) digits none
    by (auto simp: dsn_parts_ok_def dsn_scheme_def query_tail_def no_query_def plain_host_def
        percent_encode_free)
  ultimately show "parse_dsn (''postgres://'' @ percent_encode user @ '':'' @ percent_encode pw @ ''@'' @
      host @ '':'' @ show_nat port @ ''/'' @ percent_encode database) =
      Inr \<lparr>d_target = \<lparr>t_host = host, t_port = port, t_database = database, t_user = user\<rparr>,
           d_password = pw\<rparr>"
    using parse_dsn_text [of "''postgres://''" "percent_encode user" "Some (percent_encode pw)" ?authority
        "percent_encode database" "[]" host port] assms
    by (simp add: percent_roundtrip dsn_text_def dsn_value_def password_part_def plain_host_def)
  show "percent_encode pw \<in> set (encodings pw)" by (simp add: set_encodings)
qed

theorem encoded_dsn_roundtrip_witness:
  "parse_dsn (''postgres://'' @ percent_encode ''app'' @ '':'' @ percent_encode ''p@ss:w/rd'' @ ''@'' @
     ''db.example.com'' @ '':'' @ show_nat 6543 @ ''/'' @ percent_encode ''data'') =
   Inr \<lparr>d_target = \<lparr>t_host = ''db.example.com'', t_port = 6543, t_database = ''data'', t_user = ''app''\<rparr>,
        d_password = ''p@ss:w/rd''\<rparr>"
proof (rule encoded_dsn_roundtrip [THEN conjunct1])
  show "from_utf8 (bytes_of ''app'') = Some ''app''" by (rule from_utf8_ascii) simp
  show "from_utf8 (bytes_of ''p@ss:w/rd'') = Some ''p@ss:w/rd''" by (rule from_utf8_ascii) simp
  show "from_utf8 (bytes_of ''data'') = Some ''data''" by (rule from_utf8_ascii) simp
qed (simp_all add: plain_host_def no_query_def)

end
