(* ===== verification/Connection_Records.thy ===== *)
theory Connection_Records
  imports Dsn_Parsing Broker_Network Btree_Map
begin

text \<open>
  \<open>poid-connections/src/record.rs\<close> and \<open>secret.rs\<close>: what the registry file holds, none of it a
  secret; and the contract of a secret store, with the two implementations of it, the operating
  system's keychain (its crate is a parameter) and the store of the tests.
\<close>

section \<open>Records\<close>

datatype connection_config = SqlConfig sql_target | NetConfig "origin list"

fun config_kind :: "connection_config \<Rightarrow> connection_kind" where
  "config_kind (SqlConfig _) = CSql"
| "config_kind (NetConfig _) = CNet"

fun join_str :: "string \<Rightarrow> string list \<Rightarrow> string" where
  "join_str sep [] = []"
| "join_str sep [x] = x"
| "join_str sep (x # y # xs) = x @ sep @ join_str sep (y # xs)"

fun config_display :: "connection_config \<Rightarrow> string" where
  "config_display (SqlConfig t) = target_display t"
| "config_display (NetConfig origins) = join_str '', '' (map origin_display origins)"

record connection_record =
  r_id :: connection_id
  r_label :: string
  r_config :: connection_config

definition record_kind :: "connection_record \<Rightarrow> connection_kind" where
  "record_kind r = config_kind (r_config r)"

definition to_ref :: "connection_record \<Rightarrow> connection_ref" where
  "to_ref r =
     \<lparr>n_id = r_id r, n_kind = record_kind r, n_label = r_label r,
      n_origins = (case r_config r of NetConfig origins \<Rightarrow> origins | SqlConfig _ \<Rightarrow> [])\<rparr>"

record registry_file =
  rf_version :: nat
  rf_connections :: "connection_record list"

definition registry_version :: nat where
  "registry_version = 1"

section \<open>The contract of a secret store\<close>

record 's secret_ops =
  so_set :: "string \<Rightarrow> string \<Rightarrow> 's \<Rightarrow> (connection_error + unit) \<times> 's"
  so_get :: "string \<Rightarrow> 's \<Rightarrow> connection_error + string"
  so_delete :: "string \<Rightarrow> 's \<Rightarrow> (connection_error + unit) \<times> 's"

text \<open>The provided method of the trait: whether a secret is stored, without passing it on.\<close>

definition has_secret :: "'s secret_ops \<Rightarrow> string \<Rightarrow> 's \<Rightarrow> connection_error + bool" where
  "has_secret S c s =
     (case so_get S c s of
        Inr _ \<Rightarrow> Inr True
      | Inl (SecretMissing _) \<Rightarrow> Inr False
      | Inl e \<Rightarrow> Inl e)"

text \<open>The errors a secret store reports.\<close>

fun secret_error :: "connection_error \<Rightarrow> bool" where
  "secret_error (SecretStoreFailed _ _) = True"
| "secret_error (SecretMissing _) = True"
| "secret_error (InvalidSecret _) = True"
| "secret_error _ = False"

locale secret_store =
  fixes S :: "'s secret_ops"
    and contents :: "'s \<Rightarrow> string \<rightharpoonup> string"
  assumes set_done: "so_set S c x s = (Inr (), s') \<Longrightarrow> contents s' = (contents s)(c \<mapsto> x)"
    and set_refused: "so_set S c x s = (Inl e, s') \<Longrightarrow> contents s' = contents s"
    and set_error: "so_set S c x s = (Inl e, s') \<Longrightarrow> secret_error e"
    and set_not_empty: "fst (so_set S c '''' s) \<noteq> Inr ()"
    and get_found: "so_get S c s = Inr x \<Longrightarrow> contents s c = Some x"
    and get_missing: "so_get S c s = Inl (SecretMissing c') \<Longrightarrow> contents s c = None"
    and delete_done: "so_delete S c s = (Inr (), s') \<Longrightarrow> contents s' = (contents s)(c := None)"
    and delete_refused: "so_delete S c s = (Inl e, s') \<Longrightarrow> contents s' = contents s"
    and delete_error: "so_delete S c s = (Inl e, s') \<Longrightarrow> secret_error e"
begin

lemma deleted_not_found:
  assumes "so_delete S c s = (Inr (), s')"
  shows "so_get S c s' \<noteq> Inr x"
  using delete_done [OF assms] get_found [of c s' x] by auto

lemma get_after_set:
  assumes "so_set S c x s = (Inr (), s')" "so_get S c s' = Inr y"
  shows "y = x"
  using set_done [OF assms(1)] get_found [OF assms(2)] by simp

lemma other_secrets_kept:
  "so_set S c x s = (r, s') \<Longrightarrow> d \<noteq> c \<Longrightarrow> contents s' d = contents s d"
  "so_delete S c s = (r, s') \<Longrightarrow> d \<noteq> c \<Longrightarrow> contents s' d = contents s d"
  by (cases r; simp add: set_done set_refused) (cases r; simp add: delete_done delete_refused)

end

section \<open>The keychain\<close>

text \<open>The \<open>keyring\<close> crate is a parameter, with a state of its own.\<close>

datatype keyring_error = NoEntry | OtherKeyringError

record 'w keyring =
  kr_entry :: "string \<Rightarrow> string \<Rightarrow> bool"
  kr_set_password :: "string \<Rightarrow> string \<Rightarrow> string \<Rightarrow> 'w \<Rightarrow> (keyring_error + unit) \<times> 'w"
  kr_get_password :: "string \<Rightarrow> string \<Rightarrow> 'w \<Rightarrow> keyring_error + string"
  kr_delete_credential :: "string \<Rightarrow> string \<Rightarrow> 'w \<Rightarrow> (keyring_error + unit) \<times> 'w"

definition keychain_service :: string where
  "keychain_service = ''dev.poid.studio''"

definition entry_check :: "'w keyring \<Rightarrow> string \<Rightarrow> connection_error + unit" where
  "entry_check K c =
     (if kr_entry K keychain_service c then Inr () else Inl (SecretStoreFailed ''address'' c))"

definition keyring_set :: "'w keyring \<Rightarrow> string \<Rightarrow> string \<Rightarrow> 'w \<Rightarrow> (connection_error + unit) \<times> 'w" where
  "keyring_set K c secret w =
     (if secret = '''' then (Inl (InvalidSecret ''it is empty''), w)
      else case entry_check K c of
        Inl e \<Rightarrow> (Inl e, w)
      | Inr _ \<Rightarrow>
          (case kr_set_password K keychain_service c secret w of
             (Inr _, w) \<Rightarrow> (Inr (), w)
           | (Inl _, w) \<Rightarrow> (Inl (SecretStoreFailed ''store'' c), w)))"

definition keyring_get :: "'w keyring \<Rightarrow> string \<Rightarrow> 'w \<Rightarrow> connection_error + string" where
  "keyring_get K c w =
     rbind (entry_check K c) (\<lambda>_.
       map_err (\<lambda>e. case e of NoEntry \<Rightarrow> SecretMissing c | OtherKeyringError \<Rightarrow> SecretStoreFailed ''read'' c)
         (kr_get_password K keychain_service c w))"

definition keyring_delete :: "'w keyring \<Rightarrow> string \<Rightarrow> 'w \<Rightarrow> (connection_error + unit) \<times> 'w" where
  "keyring_delete K c w =
     (case entry_check K c of
        Inl e \<Rightarrow> (Inl e, w)
      | Inr _ \<Rightarrow>
          (case kr_delete_credential K keychain_service c w of
             (Inr _, w) \<Rightarrow> (Inr (), w)
           | (Inl NoEntry, w) \<Rightarrow> (Inr (), w)
           | (Inl OtherKeyringError, w) \<Rightarrow> (Inl (SecretStoreFailed ''remove'' c), w)))"

definition keyring_store :: "'w keyring \<Rightarrow> 'w secret_ops" where
  "keyring_store K = \<lparr>so_set = keyring_set K, so_get = keyring_get K, so_delete = keyring_delete K\<rparr>"

text \<open>The documented behaviour of the crate: an entry holds at most one password per service and
  account; a failing call changes nothing.\<close>

definition keyring_ok :: "'w keyring \<Rightarrow> ('w \<Rightarrow> string \<rightharpoonup> string) \<Rightarrow> bool" where
  "keyring_ok K entries \<longleftrightarrow>
     (\<forall>c x w. let (r, w') = kr_set_password K keychain_service c x w in
        entries w' = (case r of Inr _ \<Rightarrow> (entries w)(c \<mapsto> x) | Inl _ \<Rightarrow> entries w)) \<and>
     (\<forall>c w. case kr_get_password K keychain_service c w of
        Inr x \<Rightarrow> entries w c = Some x | Inl NoEntry \<Rightarrow> entries w c = None | Inl _ \<Rightarrow> True) \<and>
     (\<forall>c w. let (r, w') = kr_delete_credential K keychain_service c w in
        (case r of Inr _ \<Rightarrow> entries w' = (entries w)(c := None)
         | Inl NoEntry \<Rightarrow> entries w' = entries w \<and> entries w c = None
         | Inl _ \<Rightarrow> entries w' = entries w))"

lemma keyring_set_cases:
  "keyring_set K c x w = (r, w') \<Longrightarrow>
     (w' = w \<and> r \<noteq> Inr ()) \<or>
     (x \<noteq> [] \<and> (\<exists>q. kr_set_password K keychain_service c x w = (q, w') \<and> (r = Inr () \<longleftrightarrow> isl q = False)))"
  by (auto simp: keyring_set_def entry_check_def split: if_splits prod.splits sum.splits)

lemma keyring_delete_cases:
  "keyring_delete K c w = (r, w') \<Longrightarrow>
     (w' = w \<and> r \<noteq> Inr ()) \<or>
     (\<exists>q. kr_delete_credential K keychain_service c w = (q, w') \<and> (r = Inr () \<longleftrightarrow> q \<noteq> Inl OtherKeyringError))"
  by (auto simp: keyring_delete_def entry_check_def split: if_splits prod.splits sum.splits keyring_error.splits)

lemma keyring_errors:
  "keyring_set K c x w = (Inl e, w') \<Longrightarrow> secret_error e"
  "keyring_delete K c w = (Inl e, w') \<Longrightarrow> secret_error e"
  by (auto simp: keyring_set_def keyring_delete_def entry_check_def
      split: if_splits prod.splits sum.splits keyring_error.splits)

lemma keyring_okD:
  assumes "keyring_ok K entries"
  shows "kr_set_password K keychain_service c x w = (r, w') \<Longrightarrow>
      entries w' = (case r of Inr _ \<Rightarrow> (entries w)(c \<mapsto> x) | Inl _ \<Rightarrow> entries w)"
    and "kr_get_password K keychain_service c w = Inr y \<Longrightarrow> entries w c = Some y"
    and "kr_get_password K keychain_service c w = Inl NoEntry \<Longrightarrow> entries w c = None"
    and "kr_delete_credential K keychain_service c w = (Inr (), w') \<Longrightarrow> entries w' = (entries w)(c := None)"
    and "kr_delete_credential K keychain_service c w = (Inl NoEntry, w') \<Longrightarrow> entries w' = entries w \<and> entries w c = None"
    and "kr_delete_credential K keychain_service c w = (Inl OtherKeyringError, w') \<Longrightarrow> entries w' = entries w"
proof -
  from assms have s: "let (r, w') = kr_set_password K keychain_service c x w in
      entries w' = (case r of Inr _ \<Rightarrow> (entries w)(c \<mapsto> x) | Inl _ \<Rightarrow> entries w)"
    and g: "case kr_get_password K keychain_service c w of
        Inr x \<Rightarrow> entries w c = Some x | Inl NoEntry \<Rightarrow> entries w c = None | Inl _ \<Rightarrow> True"
    and d: "let (r, w') = kr_delete_credential K keychain_service c w in
        (case r of Inr _ \<Rightarrow> entries w' = (entries w)(c := None)
         | Inl NoEntry \<Rightarrow> entries w' = entries w \<and> entries w c = None
         | Inl _ \<Rightarrow> entries w' = entries w)"
    unfolding keyring_ok_def by blast+
  show "kr_set_password K keychain_service c x w = (r, w') \<Longrightarrow>
      entries w' = (case r of Inr _ \<Rightarrow> (entries w)(c \<mapsto> x) | Inl _ \<Rightarrow> entries w)"
    using s by simp
  show "kr_get_password K keychain_service c w = Inr y \<Longrightarrow> entries w c = Some y"
    "kr_get_password K keychain_service c w = Inl NoEntry \<Longrightarrow> entries w c = None"
    using g by simp_all
  show "kr_delete_credential K keychain_service c w = (Inr (), w') \<Longrightarrow> entries w' = (entries w)(c := None)"
    "kr_delete_credential K keychain_service c w = (Inl NoEntry, w') \<Longrightarrow> entries w' = entries w \<and> entries w c = None"
    "kr_delete_credential K keychain_service c w = (Inl OtherKeyringError, w') \<Longrightarrow> entries w' = entries w"
    using d by simp_all
qed

lemma keyring_get_Inr: "keyring_get K c w = Inr y \<Longrightarrow> kr_get_password K keychain_service c w = Inr y"
  by (auto simp: keyring_get_def result_simps)

lemma keyring_get_missing:
  "keyring_get K c w = Inl (SecretMissing c') \<Longrightarrow> kr_get_password K keychain_service c w = Inl NoEntry"
  by (cases "kr_get_password K keychain_service c w")
    (auto simp: keyring_get_def entry_check_def split: if_splits keyring_error.splits)

lemma keyring_is_secret_store:
  assumes "keyring_ok K entries"
  shows "secret_store (keyring_store K) entries"
proof
  note ok = keyring_okD [OF assms]
  fix c x s s' e c'
  show "entries s' = (entries s)(c \<mapsto> x)" if "so_set (keyring_store K) c x s = (Inr (), s')"
    using keyring_set_cases [of K c x s "Inr ()" s'] ok(1) [of c x s _ s'] that
    by (auto simp: keyring_store_def split: sum.splits)
  show "entries s' = entries s" if "so_set (keyring_store K) c x s = (Inl e, s')"
    using keyring_set_cases [of K c x s "Inl e" s'] ok(1) [of c x s _ s'] that
    by (auto simp: keyring_store_def split: sum.splits)
  show "secret_error e" if "so_set (keyring_store K) c x s = (Inl e, s')"
    using keyring_errors(1) that by (simp add: keyring_store_def)
  show "secret_error e" if "so_delete (keyring_store K) c s = (Inl e, s')"
    using keyring_errors(2) that by (simp add: keyring_store_def)
  show "fst (so_set (keyring_store K) c '''' s) \<noteq> Inr ()"
    by (simp add: keyring_store_def keyring_set_def)
  show "entries s c = Some x" if "so_get (keyring_store K) c s = Inr x"
    using ok(2) [OF keyring_get_Inr, of c s x] that by (simp add: keyring_store_def)
  show "entries s c = None" if "so_get (keyring_store K) c s = Inl (SecretMissing c')"
    using ok(3) [OF keyring_get_missing, of c s c'] that by (simp add: keyring_store_def)
  show "entries s' = (entries s)(c := None)" if "so_delete (keyring_store K) c s = (Inr (), s')"
  proof -
    from that keyring_delete_cases [of K c s "Inr ()" s'] obtain q where
      "kr_delete_credential K keychain_service c s = (q, s')" "q \<noteq> Inl OtherKeyringError"
      by (auto simp: keyring_store_def)
    then consider "kr_delete_credential K keychain_service c s = (Inr (), s')"
      | "kr_delete_credential K keychain_service c s = (Inl NoEntry, s')"
      by (cases q; metis keyring_error.exhaust old.unit.exhaust)
    then show ?thesis
      using ok(4,5) [of c s s'] by cases (simp_all add: fun_upd_idem)
  qed
  show "entries s' = entries s" if "so_delete (keyring_store K) c s = (Inl e, s')"
    using keyring_delete_cases [of K c s "Inl e" s'] ok(6) [of c s s'] that
    by (auto simp: keyring_store_def)
qed

section \<open>The store of the tests\<close>

text \<open>A map behind a mutex; a poisoned mutex refuses every operation.\<close>

record memory_store =
  ms_secrets :: "(string, string) btree"
  ms_poisoned :: bool

definition memory_set ::
  "string \<Rightarrow> string \<Rightarrow> memory_store \<Rightarrow> (connection_error + unit) \<times> memory_store" where
  "memory_set c secret s =
     (if secret = '''' then (Inl (InvalidSecret ''it is empty''), s)
      else if ms_poisoned s then (Inl (SecretStoreFailed ''store'' c), s)
      else (Inr (), s\<lparr>ms_secrets := bt_insert c secret (ms_secrets s)\<rparr>))"

definition memory_get :: "string \<Rightarrow> memory_store \<Rightarrow> connection_error + string" where
  "memory_get c s =
     (if ms_poisoned s then Inl (SecretStoreFailed ''read'' c)
      else ok_or (SecretMissing c) (bt_get (ms_secrets s) c))"

definition memory_delete ::
  "string \<Rightarrow> memory_store \<Rightarrow> (connection_error + unit) \<times> memory_store" where
  "memory_delete c s =
     (if ms_poisoned s then (Inl (SecretStoreFailed ''remove'' c), s)
      else (Inr (), s\<lparr>ms_secrets := bt_remove c (ms_secrets s)\<rparr>))"

definition memory_ops :: "memory_store secret_ops" where
  "memory_ops = \<lparr>so_set = memory_set, so_get = memory_get, so_delete = memory_delete\<rparr>"

definition memory_contents :: "memory_store \<Rightarrow> string \<rightharpoonup> string" where
  "memory_contents s = (\<lambda>c. bt_get (ms_secrets s) c)"

interpretation memory: secret_store memory_ops memory_contents
  by unfold_locales
    (auto simp: memory_ops_def memory_set_def memory_get_def memory_delete_def memory_contents_def
      ok_or_def fun_eq_iff split: if_splits option.splits)

end
