(* ===== verification/Connection_Registry.thy ===== *)
theory Connection_Registry
  imports Connection_Records Atomic_Files
begin

text \<open>
  \<open>poid-connections/src/store.rs\<close>: the registry of connections, its records in a file and its secrets
  in a secret store. What reaches the file does not depend on any secret; after a successful
  operation the file reads back as the records; a removal whose secret could not be deleted cannot be
  repeated.
\<close>

section \<open>What the user types\<close>

datatype new_connection = NewSql string | NewNet "origin list" string

fun new_kind :: "new_connection \<Rightarrow> connection_kind" where
  "new_kind (NewSql _) = CSql"
| "new_kind (NewNet _ _) = CNet"

definition blank :: "string \<Rightarrow> bool" where
  "blank s \<longleftrightarrow> list_all is_whitespace (chars_of s)"

fun split_input :: "new_connection \<Rightarrow> connection_error + (connection_config \<times> string)" where
  "split_input (NewSql dsn) = rbind (parse_dsn dsn) (\<lambda>parsed. Inr (SqlConfig (d_target parsed), dsn))"
| "split_input (NewNet origins token) =
     (if origins = [] then Inl (InvalidConfig ''it covers no origins, so nothing would ever use it'')
      else if blank token then Inl (InvalidSecret ''it is empty'')
      else Inr (NetConfig origins, token))"

section \<open>The store and its environment\<close>

text \<open>\<open>serde_json\<close> for the registry file is a parameter.\<close>

record registry_json =
  j_to_string :: "registry_file \<Rightarrow> string option"
  j_from_str :: "string \<Rightarrow> registry_file option"

record 's connection_store =
  st_path :: path
  st_secrets :: 's
  st_records :: "connection_record list"

definition path_text :: "path \<Rightarrow> string" where
  "path_text p = join_str ''/'' p"

definition open_store ::
  "registry_json \<Rightarrow> bool \<Rightarrow> path \<Rightarrow> 's \<Rightarrow> disk \<Rightarrow> connection_error + 's connection_store" where
  "open_store J read_fails path secrets d =
     rbind
       (case d path of
          Some bytes \<Rightarrow>
            rbind (ok_or (RegistryFailed ''read'' (path_text path))
              (if read_fails then None else from_utf8 bytes)) (\<lambda>text0.
            rbind (ok_or (RegistryFailed ''parsed'' (path_text path)) (j_from_str J text0)) (\<lambda>file.
              Inr (rf_connections file)))
        | None \<Rightarrow> Inr [])
       (\<lambda>records. Inr \<lparr>st_path = path, st_secrets = secrets, st_records = records\<rparr>)"

definition records_of :: "'s connection_store \<Rightarrow> connection_record list" where
  "records_of st = st_records st"

definition refs :: "'s connection_store \<Rightarrow> connection_ref list" where
  "refs st = map to_ref (st_records st)"

definition get_record :: "'s connection_store \<Rightarrow> connection_id \<Rightarrow> connection_record option" where
  "get_record st cid = find (\<lambda>r. r_id r = cid) (st_records st)"

definition store_has_secret :: "'s secret_ops \<Rightarrow> 's connection_store \<Rightarrow> connection_id \<Rightarrow> connection_error + bool" where
  "store_has_secret S st cid = has_secret S cid (st_secrets st)"

definition persist :: "registry_json \<Rightarrow> io_faults \<Rightarrow> 's connection_store \<Rightarrow> disk \<Rightarrow> (connection_error + unit) \<times> disk" where
  "persist J f st d =
     (case j_to_string J \<lparr>rf_version = registry_version, rf_connections = st_records st\<rparr> of
        None \<Rightarrow> (Inl (RegistryFailed ''written'' (path_text (st_path st))), d)
      | Some text0 \<Rightarrow>
          (case write_atomically f (st_path st) (bytes_of text0) d of
             (Inr _, d) \<Rightarrow> (Inr (), d)
           | (Inl _, d) \<Rightarrow> (Inl (RegistryFailed ''written'' (path_text (st_path st))), d)))"

fun replace_first :: "('a \<Rightarrow> bool) \<Rightarrow> 'a \<Rightarrow> 'a list \<Rightarrow> 'a list option" where
  "replace_first P y [] = None"
| "replace_first P y (x # xs) = (if P x then Some (y # xs) else map_option ((#) x) (replace_first P y xs))"

definition put_record :: "connection_record \<Rightarrow> connection_record list \<Rightarrow> connection_record list" where
  "put_record r rs = (case replace_first (\<lambda>x. r_id x = r_id r) r rs of Some rs' \<Rightarrow> rs' | None \<Rightarrow> rs @ [r])"

definition upsert ::
  "'s secret_ops \<Rightarrow> registry_json \<Rightarrow> io_faults \<Rightarrow> connection_id \<Rightarrow> string \<Rightarrow> new_connection \<Rightarrow>
   's connection_store \<times> disk \<Rightarrow> (connection_error + unit) \<times> 's connection_store \<times> disk" where
  "upsert S J f cid label input = (\<lambda>(st, d).
     case split_input input of
       Inl e \<Rightarrow> (Inl e, st, d)
     | Inr (config, secret) \<Rightarrow>
         (case so_set S cid secret (st_secrets st) of
            (Inl e, s) \<Rightarrow> (Inl e, st\<lparr>st_secrets := s\<rparr>, d)
          | (Inr _, s) \<Rightarrow>
              (let st = st\<lparr>st_secrets := s,
                     st_records := put_record \<lparr>r_id = cid, r_label = label, r_config = config\<rparr> (st_records st)\<rparr>;
                   (res, d) = persist J f st d
               in (res, st, d))))"

fun relabel_first :: "connection_id \<Rightarrow> string \<Rightarrow> connection_record list \<Rightarrow> connection_record list option" where
  "relabel_first cid label [] = None"
| "relabel_first cid label (r # rs) =
     (if r_id r = cid then Some (r\<lparr>r_label := label\<rparr> # rs)
      else map_option ((#) r) (relabel_first cid label rs))"

definition rename_connection ::
  "registry_json \<Rightarrow> io_faults \<Rightarrow> connection_id \<Rightarrow> string \<Rightarrow>
   's connection_store \<times> disk \<Rightarrow> (connection_error + unit) \<times> 's connection_store \<times> disk" where
  "rename_connection J f cid label = (\<lambda>(st, d).
     case relabel_first cid label (st_records st) of
       None \<Rightarrow> (Inl (NotFound cid), st, d)
     | Some rs \<Rightarrow>
         (let st = st\<lparr>st_records := rs\<rparr>; (res, d) = persist J f st d in (res, st, d)))"

definition without_id :: "connection_id \<Rightarrow> connection_record list \<Rightarrow> connection_record list" where
  "without_id cid rs = filter (\<lambda>r. r_id r \<noteq> cid) rs"

definition remove_connection ::
  "'s secret_ops \<Rightarrow> registry_json \<Rightarrow> io_faults \<Rightarrow> connection_id \<Rightarrow>
   's connection_store \<times> disk \<Rightarrow> (connection_error + unit) \<times> 's connection_store \<times> disk" where
  "remove_connection S J f cid = (\<lambda>(st, d).
     let before = length (st_records st);
         st = st\<lparr>st_records := without_id cid (st_records st)\<rparr> in
     if length (st_records st) = before then (Inl (NotFound cid), st, d)
     else
       (case so_delete S cid (st_secrets st) of
          (Inl e, s) \<Rightarrow> (Inl e, st\<lparr>st_secrets := s\<rparr>, d)
        | (Inr _, s) \<Rightarrow>
            (let st = st\<lparr>st_secrets := s\<rparr>; (res, d) = persist J f st d in (res, st, d))))"

definition read_secret :: "'s secret_ops \<Rightarrow> 's connection_store \<Rightarrow> connection_id \<Rightarrow> connection_error + string" where
  "read_secret S st cid =
     (if get_record st cid = None then Inl (NotFound cid) else so_get S cid (st_secrets st))"

definition store_redactor :: "'s secret_ops \<Rightarrow> 's connection_store \<Rightarrow> string list" where
  "store_redactor S st =
     fold (\<lambda>r redactor. case so_get S (r_id r) (st_secrets st) of
        Inr secret \<Rightarrow> insert_secret secret redactor | Inl _ \<Rightarrow> redactor) (st_records st) []"

datatype registry_op =
  Upsert connection_id string new_connection
| Rename connection_id string
| Remove connection_id

fun registry_step ::
  "'s secret_ops \<Rightarrow> registry_json \<Rightarrow> io_faults \<times> registry_op \<Rightarrow>
   's connection_store \<times> disk \<Rightarrow> (connection_error + unit) \<times> 's connection_store \<times> disk" where
  "registry_step S J (f, Upsert cid label input) w = upsert S J f cid label input w"
| "registry_step S J (f, Rename cid label) w = rename_connection J f cid label w"
| "registry_step S J (f, Remove cid) w = remove_connection S J f cid w"

fun run_registry ::
  "'s secret_ops \<Rightarrow> registry_json \<Rightarrow> (io_faults \<times> registry_op) list \<Rightarrow>
   's connection_store \<times> disk \<Rightarrow> (connection_error + unit) list \<times> 's connection_store \<times> disk" where
  "run_registry S J [] w = ([], w)"
| "run_registry S J (op # ops) w =
     (let (res, w) = registry_step S J op w; (outs, w) = run_registry S J ops w in (res # outs, w))"

section \<open>No secret reaches the file\<close>

text \<open>Inputs that differ at most in what they keep secret, and operations on such inputs.\<close>

definition public_part :: "new_connection \<Rightarrow> connection_error + connection_config" where
  "public_part input = rbind (split_input input) (\<lambda>(config, secret). Inr config)"

fun same_op :: "registry_op \<Rightarrow> registry_op \<Rightarrow> bool" where
  "same_op (Upsert c l a) (Upsert c' l' b) \<longleftrightarrow> c = c' \<and> l = l' \<and> public_part a = public_part b"
| "same_op op op' \<longleftrightarrow> op = op'"

lemma persist_cong:
  assumes "st_path st = st_path st'" "st_records st = st_records st'"
  shows "persist J f st d = persist J f st' d"
  unfolding persist_def assms ..

lemma persist_error: "persist J f st d = (Inl e, d') \<Longrightarrow> \<not> secret_error e"
  by (auto simp: persist_def split: option.splits prod.splits sum.splits)

lemma upsert_set_refused:
  assumes "split_input input = Inr (config, secret)" "so_set S cid secret (st_secrets st) = (Inl e, s)"
  shows "upsert S J f cid label input (st, d) = (Inl e, st\<lparr>st_secrets := s\<rparr>, d)"
  using assms by (simp add: upsert_def)

lemma upsert_set_done:
  assumes "split_input input = Inr (config, secret)" "so_set S cid secret (st_secrets st) = (Inr (), s)"
    and "st1 = st\<lparr>st_secrets := s,
      st_records := put_record \<lparr>r_id = cid, r_label = label, r_config = config\<rparr> (st_records st)\<rparr>"
    and "persist J f st1 d = (res, d1)"
  shows "upsert S J f cid label input (st, d) = (res, st1, d1)"
  using assms by (simp add: upsert_def Let_def)

lemma upsert_cases:
  assumes "upsert S J f cid label input (st, d) = (res, st1, d1)"
  obtains (bad_input) e where "split_input input = Inl e" "res = Inl e" "st1 = st" "d1 = d"
  | (refused) config secret e s where "split_input input = Inr (config, secret)"
      "so_set S cid secret (st_secrets st) = (Inl e, s)" "res = Inl e" "st1 = st\<lparr>st_secrets := s\<rparr>" "d1 = d"
  | (stored) config secret s where "split_input input = Inr (config, secret)"
      "so_set S cid secret (st_secrets st) = (Inr (), s)"
      "st1 = st\<lparr>st_secrets := s,
         st_records := put_record \<lparr>r_id = cid, r_label = label, r_config = config\<rparr> (st_records st)\<rparr>"
      "persist J f st1 d = (res, d1)"
proof (cases "split_input input")
  case (Inl e)
  with assms that(1) show ?thesis by (simp add: upsert_def)
next
  case (Inr cs)
  obtain config secret where cs: "split_input input = Inr (config, secret)" using Inr by (cases cs) simp
  obtain r s where set: "so_set S cid secret (st_secrets st) = (r, s)"
    by (cases "so_set S cid secret (st_secrets st)")
  show ?thesis
  proof (cases r)
    case (Inl e)
    with assms cs set upsert_set_refused [OF cs, of S cid st e s J f label d] show ?thesis
      by (intro that(2)) auto
  next
    case (Inr u)
    let ?st1 = "st\<lparr>st_secrets := s,
      st_records := put_record \<lparr>r_id = cid, r_label = label, r_config = config\<rparr> (st_records st)\<rparr>"
    obtain res' d' where "persist J f ?st1 d = (res', d')" by (cases "persist J f ?st1 d")
    with assms cs set Inr upsert_set_done [OF cs, of S cid st s ?st1 label J f d] show ?thesis
      by (intro that(3)) auto
  qed
qed

lemma public_part_eq:
  "public_part a = public_part b \<Longrightarrow> split_input a = Inl e \<Longrightarrow> split_input b = Inl e"
  "public_part a = public_part b \<Longrightarrow> split_input a = Inr (config, x) \<Longrightarrow> \<exists>y. split_input b = Inr (config, y)"
  by (cases "split_input b"; auto simp: public_part_def split: prod.splits)+

definition same_records :: "'s connection_store \<Rightarrow> 't connection_store \<Rightarrow> bool" where
  "same_records st st' \<longleftrightarrow> st_path st = st_path st' \<and> st_records st = st_records st'"

lemma persist_same: "same_records st st' \<Longrightarrow> persist J f st d = persist J f st' d"
  unfolding persist_def same_records_def by (elim conjE) (simp only:)

lemma upsert_same:
  assumes S: "secret_store S contents" and S': "secret_store S' contents'"
    and same: "public_part a = public_part b" "same_records st st'"
    and l: "upsert S J f cid label a (st, d) = (res, st1, d1)"
    and r: "upsert S' J f cid label b (st', d) = (res, st1', d1')"
  shows "same_records st1 st1' \<and> d1 = d1'"
  using l
proof (cases rule: upsert_cases)
  case (bad_input e)
  with public_part_eq(1) [OF same(1)] have "split_input b = Inl e" by simp
  with r have "st1' = st'" "d1' = d" by (auto simp: upsert_def)
  with bad_input same show ?thesis by simp
next
  case (refused config secret e s)
  with public_part_eq(2) [OF same(1)] obtain y where y: "split_input b = Inr (config, y)" by blast
  have e: "secret_error e" by (rule secret_store.set_error [OF S refused(2)])
  from r show ?thesis
  proof (cases rule: upsert_cases)
    case (stored config' x s')
    with refused e persist_error [of J f st1' d] show ?thesis by auto
  qed (use y refused same in \<open>auto simp: same_records_def\<close>)
next
  case (stored config secret s)
  with public_part_eq(2) [OF same(1)] obtain y where y: "split_input b = Inr (config, y)" by blast
  from r show ?thesis
  proof (cases rule: upsert_cases)
    case (refused config' y' e s')
    have "secret_error e" by (rule secret_store.set_error [OF S' refused(2)])
    with refused stored persist_error [of J f st1 d] show ?thesis by auto
  next
    case (stored config' y' s')
    with y \<open>split_input a = Inr (config, secret)\<close> have "same_records st1 st1'"
      using same \<open>st1 = _\<close> by (simp add: same_records_def)
    with persist_same [of st1 st1' J f d] \<open>persist J f st1 d = _\<close> stored(4) show ?thesis by simp
  qed (use y in auto)
qed

lemma remove_cases:
  assumes "remove_connection S J f cid (st, d) = (res, st1, d1)"
  obtains (absent) "without_id cid (st_records st) = st_records st" "res = Inl (NotFound cid)"
      "st1 = st" "d1 = d"
  | (kept) e s where "without_id cid (st_records st) \<noteq> st_records st"
      "so_delete S cid (st_secrets st) = (Inl e, s)" "res = Inl e" "d1 = d"
      "st1 = st\<lparr>st_records := without_id cid (st_records st), st_secrets := s\<rparr>"
  | (removed) s where "without_id cid (st_records st) \<noteq> st_records st"
      "so_delete S cid (st_secrets st) = (Inr (), s)"
      "st1 = st\<lparr>st_records := without_id cid (st_records st), st_secrets := s\<rparr>"
      "persist J f st1 d = (res, d1)"
proof -
  let ?rs = "without_id cid (st_records st)"
  have len: "length ?rs = length (st_records st) \<longleftrightarrow> ?rs = st_records st"
    unfolding without_id_def by (metis filter_id_conv length_filter_less less_irrefl)
  obtain r s where del: "so_delete S cid (st_secrets st) = (r, s)" by (cases "so_delete S cid (st_secrets st)")
  show ?thesis
  proof (cases "?rs = st_records st")
    case True
    then have "st\<lparr>st_records := ?rs\<rparr> = st" by simp
    with assms True have "res = Inl (NotFound cid)" "st1 = st" "d1 = d"
      by (auto simp: remove_connection_def Let_def)
    with True that(1) show ?thesis by blast
  next
    case False
    then have n: "length ?rs \<noteq> length (st_records st)" using len by blast
    show ?thesis
    proof (cases r)
      case (Inl e)
      with del n have "remove_connection S J f cid (st, d) = (Inl e, st\<lparr>st_records := ?rs, st_secrets := s\<rparr>, d)"
        by (simp add: remove_connection_def Let_def)
      with assms del Inl False show ?thesis by (intro that(2)) auto
    next
      case (Inr u)
      let ?st1 = "st\<lparr>st_records := ?rs, st_secrets := s\<rparr>"
      obtain res' d' where p: "persist J f ?st1 d = (res', d')" by (cases "persist J f ?st1 d")
      with del n Inr have "remove_connection S J f cid (st, d) = (res', ?st1, d')"
        by (simp add: remove_connection_def Let_def)
      with assms del Inr False p show ?thesis by (intro that(3)) auto
    qed
  qed
qed

lemma remove_same:
  assumes S: "secret_store S contents" and S': "secret_store S' contents'"
    and same: "same_records st st'"
    and l: "remove_connection S J f cid (st, d) = (res, st1, d1)"
    and r: "remove_connection S' J f cid (st', d) = (res, st1', d1')"
  shows "same_records st1 st1' \<and> d1 = d1'"
proof -
  have rs: "st_records st' = st_records st" using same by (simp add: same_records_def)
  from l show ?thesis
  proof (cases rule: remove_cases)
    case absent
    with r rs same show ?thesis by (auto simp: remove_connection_def Let_def same_records_def)
  next
    case (kept e s)
    have e: "secret_error e" by (rule secret_store.delete_error [OF S kept(2)])
    from r show ?thesis
    proof (cases rule: remove_cases)
      case (removed s')
      with kept e persist_error [of J f st1' d] show ?thesis by auto
    qed (use kept rs same in \<open>auto simp: same_records_def\<close>)
  next
    case (removed s)
    from r show ?thesis
    proof (cases rule: remove_cases)
      case (kept e s')
      have "secret_error e" by (rule secret_store.delete_error [OF S' kept(2)])
      with kept removed persist_error [of J f st1 d] show ?thesis by auto
    next
      case (removed s')
      with rs same \<open>st1 = _\<close> have "same_records st1 st1'" by (simp add: same_records_def)
      with persist_same [of st1 st1' J f d] \<open>persist J f st1 d = _\<close> removed(4) show ?thesis by simp
    qed (use removed rs in auto)
  qed
qed

lemma rename_same:
  assumes "same_records st st'"
    and "rename_connection J f cid label (st, d) = (res, st1, d1)"
    and "rename_connection J f cid label (st', d) = (res', st1', d1')"
  shows "same_records st1 st1' \<and> d1 = d1'"
proof (cases "relabel_first cid label (st_records st)")
  case None
  with assms show ?thesis by (auto simp: rename_connection_def same_records_def)
next
  case (Some rs)
  have "same_records (st\<lparr>st_records := rs\<rparr>) (st'\<lparr>st_records := rs\<rparr>)"
    using assms(1) by (simp add: same_records_def)
  moreover from this have "persist J f (st\<lparr>st_records := rs\<rparr>) d = persist J f (st'\<lparr>st_records := rs\<rparr>) d"
    by (rule persist_same)
  ultimately show ?thesis
    using assms Some by (auto simp: rename_connection_def same_records_def split: prod.splits)
qed

lemma step_same:
  assumes "secret_store S contents" "secret_store S' contents'" "same_op op op'" "same_records st st'"
    and "registry_step S J (f, op) (st, d) = (res, st1, d1)"
    and "registry_step S' J (f, op') (st', d) = (res, st1', d1')"
  shows "same_records st1 st1' \<and> d1 = d1'"
proof (cases op)
  case (Upsert c l a)
  with assms(3) obtain b where "op' = Upsert c l b" "public_part a = public_part b"
    by (cases op') auto
  with Upsert assms(5,6) show ?thesis
    by (intro upsert_same [OF assms(1,2) _ assms(4)]) (auto simp only: registry_step.simps)
next
  case (Rename c l)
  with assms(3) have "op' = op" by (cases op') auto
  with Rename assms(5,6) show ?thesis
    by (intro rename_same [OF assms(4)]) (auto simp only: registry_step.simps)
next
  case (Remove c)
  with assms(3) have "op' = op" by (cases op') auto
  with Remove assms(5,6) show ?thesis
    by (intro remove_same [OF assms(1,2,4)]) (auto simp only: registry_step.simps)
qed


text \<open>A sample session: one connection stored, in a file that only ever holds it.\<close>

definition sample_origin :: origin where
  "sample_origin = \<lparr>o_scheme = Http, o_host = ''x.com'', o_port = 80\<rparr>"

definition sample_record :: connection_record where
  "sample_record = \<lparr>r_id = ''c1'', r_label = ''Mail'', r_config = NetConfig [sample_origin]\<rparr>"

definition sample_registry_json :: registry_json where
  "sample_registry_json =
     \<lparr>j_to_string = (\<lambda>file. if file = \<lparr>rf_version = 1, rf_connections = [sample_record]\<rparr> then Some ''{}'' else None),
      j_from_str = (\<lambda>t. if t = ''{}'' then Some \<lparr>rf_version = 1, rf_connections = [sample_record]\<rparr> else None)\<rparr>"

definition sample_path :: path where
  "sample_path = [''cfg'', ''connections.json'']"

definition sample_store :: "connection_record list \<Rightarrow> (string, string) btree \<Rightarrow> bool \<Rightarrow> memory_store connection_store" where
  "sample_store rs secrets poisoned =
     \<lparr>st_path = sample_path, st_secrets = \<lparr>ms_secrets = secrets, ms_poisoned = poisoned\<rparr>, st_records = rs\<rparr>"

definition sample_upsert :: "string \<Rightarrow> registry_op" where
  "sample_upsert token = Upsert ''c1'' ''Mail'' (NewNet [sample_origin] token)"

lemma sample_tokens: "\<not> blank ''t1''" "\<not> blank ''t2''"
  by code_simp+

lemma sample_persist:
  "st_path st = sample_path \<Longrightarrow> st_records st = [sample_record] \<Longrightarrow>
     persist sample_registry_json no_faults st Map.empty = (Inr (), [sample_path \<mapsto> bytes_of ''{}''])"
  by (simp add: persist_def sample_registry_json_def registry_version_def write_atomically_def no_faults_def Let_def
      written_part_def with_extension_neq [THEN not_sym] fun_eq_iff sample_path_def with_extension_def
      file_stem_def rsplit_once_def)

lemma sample_upsert_step:
  "\<not> blank token \<Longrightarrow> token \<noteq> [] \<Longrightarrow>
     registry_step memory_ops sample_registry_json (no_faults, sample_upsert token)
       (sample_store [] [] False, Map.empty) =
     (Inr (), sample_store [sample_record] (bt_insert ''c1'' token []) False,
      [sample_path \<mapsto> bytes_of ''{}''])"
  unfolding sample_upsert_def registry_step.simps
  by (rule upsert_set_done [where config = "NetConfig [sample_origin]" and secret = token])
    (auto simp: memory_ops_def memory_set_def sample_store_def put_record_def sample_record_def
      sample_persist [unfolded sample_record_def])


section \<open>The registry is a map of records and a map of secrets\<close>

text \<open>The documented behaviour of \<open>serde_json\<close>: what was written as JSON is valid text and reads back.\<close>

definition registry_json_ok :: "registry_json \<Rightarrow> bool" where
  "registry_json_ok J \<longleftrightarrow>
     (\<forall>file t. j_to_string J file = Some t \<longrightarrow> j_from_str J t = Some file \<and> from_utf8 (bytes_of t) = Some t)"

definition registry_effect ::
  "registry_op \<Rightarrow> (connection_id \<rightharpoonup> connection_record) \<Rightarrow> (connection_id \<rightharpoonup> connection_record)" where
  "registry_effect op m =
     (case op of
        Upsert c l input \<Rightarrow>
          (case split_input input of
             Inr (config, secret) \<Rightarrow> m(c \<mapsto> \<lparr>r_id = c, r_label = l, r_config = config\<rparr>) | Inl _ \<Rightarrow> m)
      | Rename c l \<Rightarrow> m(c := map_option (\<lambda>r. r\<lparr>r_label := l\<rparr>) (m c))
      | Remove c \<Rightarrow> m(c := None))"

definition secret_effect :: "registry_op \<Rightarrow> (string \<rightharpoonup> string) \<Rightarrow> (string \<rightharpoonup> string)" where
  "secret_effect op m =
     (case op of
        Upsert c l input \<Rightarrow> (case split_input input of Inr (config, secret) \<Rightarrow> m(c \<mapsto> secret) | Inl _ \<Rightarrow> m)
      | Rename c l \<Rightarrow> m
      | Remove c \<Rightarrow> m(c := None))"

lemma replace_first_None: "replace_first P y xs = None \<longleftrightarrow> find P xs = None"
  by (induction xs) auto

lemma find_replace_first:
  "replace_first (\<lambda>x. r_id x = r_id r) r rs = Some rs' \<Longrightarrow>
     find (\<lambda>x. r_id x = c) rs' = (if c = r_id r then Some r else find (\<lambda>x. r_id x = c) rs)"
  by (induction rs arbitrary: rs') (auto split: if_splits)

lemma ids_replace_first:
  "replace_first (\<lambda>x. r_id x = r_id r) r rs = Some rs' \<Longrightarrow> map r_id rs' = map r_id rs"
  by (induction rs arbitrary: rs') (auto split: if_splits)

lemma find_append_last: "find P xs = None \<Longrightarrow> find P (xs @ [x]) = (if P x then Some x else None)"
  by (induction xs) (auto split: if_splits)

lemma find_append_other: "\<not> P x \<Longrightarrow> find P (xs @ [x]) = find P xs"
  by (induction xs) auto

lemma find_put_record:
  "find (\<lambda>x. r_id x = c) (put_record r rs) = (if c = r_id r then Some r else find (\<lambda>x. r_id x = c) rs)"
proof (cases "replace_first (\<lambda>x. r_id x = r_id r) r rs")
  case None
  then have n: "find (\<lambda>x. r_id x = r_id r) rs = None" by (simp add: replace_first_None)
  show ?thesis
  proof (cases "c = r_id r")
    case True
    with None n show ?thesis by (simp add: put_record_def find_append_last)
  next
    case False
    with None show ?thesis by (simp add: put_record_def find_append_other)
  qed
next
  case (Some rs')
  with find_replace_first [OF Some] show ?thesis by (simp add: put_record_def)
qed

lemma distinct_put_record: "distinct (map r_id rs) \<Longrightarrow> distinct (map r_id (put_record r rs))"
proof (cases "replace_first (\<lambda>x. r_id x = r_id r) r rs")
  case None
  then have "r_id r \<notin> r_id ` set rs" by (auto simp: replace_first_None find_None_iff)
  with None show "distinct (map r_id rs) \<Longrightarrow> ?thesis" by (simp add: put_record_def)
next
  case (Some rs')
  with ids_replace_first [OF Some] show "distinct (map r_id rs) \<Longrightarrow> ?thesis" by (simp add: put_record_def)
qed

lemma find_relabel:
  "relabel_first cid l rs = Some rs' \<Longrightarrow>
     find (\<lambda>x. r_id x = c) rs' =
       (if c = cid then map_option (\<lambda>r. r\<lparr>r_label := l\<rparr>) (find (\<lambda>x. r_id x = c) rs)
        else find (\<lambda>x. r_id x = c) rs)"
  by (induction rs arbitrary: rs') (auto split: if_splits)

lemma ids_relabel: "relabel_first cid l rs = Some rs' \<Longrightarrow> map r_id rs' = map r_id rs"
  by (induction rs arbitrary: rs') (auto split: if_splits)

lemma find_without_id:
  "find (\<lambda>x. r_id x = c) (without_id cid rs) = (if c = cid then None else find (\<lambda>x. r_id x = c) rs)"
  by (induction rs) (auto simp: without_id_def)

lemma distinct_without_id: "distinct (map r_id rs) \<Longrightarrow> distinct (map r_id (without_id cid rs))"
  by (simp add: without_id_def distinct_map_filter)

lemma persist_reopens:
  assumes "registry_json_ok J" "st_path st \<noteq> []" "persist J f st d = (Inr (), d')"
  shows "open_store J False (st_path st) ss d' =
    Inr \<lparr>st_path = st_path st, st_secrets = ss, st_records = st_records st\<rparr>"
proof -
  let ?file = "\<lparr>rf_version = registry_version, rf_connections = st_records st\<rparr>"
  from assms(3) obtain t where t: "j_to_string J ?file = Some t"
    "write_atomically f (st_path st) (bytes_of t) d = (Inr (), d')"
    by (auto simp: persist_def split: option.splits prod.splits sum.splits)
  from t(2) have "d' (st_path st) = Some (bytes_of t)"
    by (rule write_atomically_target(1) [OF assms(2)])
  moreover have "j_from_str J t = Some ?file" "from_utf8 (bytes_of t) = Some t"
    using assms(1) t(1) by (auto simp: registry_json_ok_def)
  ultimately show ?thesis by (simp add: open_store_def)
qed

lemma get_record_fun: "get_record st = (\<lambda>c. find (\<lambda>x. r_id x = c) (st_records st))"
  by (rule ext) (simp add: get_record_def)

text \<open>
  C17: A successful operation does to the records, as a map from ids, and to the stored secrets
  exactly what it says: an upsert sets both, a rename only the label, a removal drops both, and no
  other connection changes. Ids stay distinct, and the file, read again, gives the same records.
\<close>

theorem registry_step_refines_map:
  assumes "secret_store S contents" "registry_json_ok J" "st_path st \<noteq> []"
    and "registry_step S J (f, op) (st, d) = (Inr (), st', d')"
  shows "get_record st' = registry_effect op (get_record st) \<and>
    contents (st_secrets st') = secret_effect op (contents (st_secrets st)) \<and>
    (distinct (map r_id (st_records st)) \<longrightarrow> distinct (map r_id (st_records st'))) \<and>
    open_store J False (st_path st) ss d' =
      Inr \<lparr>st_path = st_path st, st_secrets = ss, st_records = st_records st'\<rparr>"
proof (cases op)
  case (Upsert c l input)
  with assms(4) have "upsert S J f c l input (st, d) = (Inr (), st', d')" by simp
  then show ?thesis
  proof (cases rule: upsert_cases)
    case (stored config secret s)
    have "contents s = (contents (st_secrets st))(c \<mapsto> secret)"
      by (rule secret_store.set_done [OF assms(1) stored(2)])
    moreover have "st_path st' = st_path st" using stored(3) by simp
    ultimately show ?thesis
      using stored persist_reopens [OF assms(2) _ stored(4), of ss] assms(3)
      by (auto simp: Upsert registry_effect_def secret_effect_def get_record_fun find_put_record
          distinct_put_record fun_eq_iff)
  qed simp_all
next
  case (Rename c l)
  with assms(4) obtain rs where rs: "relabel_first c l (st_records st) = Some rs"
    "st' = st\<lparr>st_records := rs\<rparr>" "persist J f st' d = (Inr (), d')"
    by (cases "relabel_first c l (st_records st)") (auto simp: rename_connection_def Let_def split: prod.splits)
  with persist_reopens [OF assms(2) _ rs(3), of ss] assms(3) show ?thesis
    by (auto simp: Rename registry_effect_def secret_effect_def get_record_fun find_relabel [OF rs(1)]
        ids_relabel [OF rs(1)] fun_eq_iff)
next
  case (Remove c)
  with assms(4) have "remove_connection S J f c (st, d) = (Inr (), st', d')" by simp
  then show ?thesis
  proof (cases rule: remove_cases)
    case (removed s)
    have "contents s = (contents (st_secrets st))(c := None)"
      by (rule secret_store.delete_done [OF assms(1) removed(2)])
    moreover have "st_path st' = st_path st" using removed(3) by simp
    ultimately show ?thesis
      using removed persist_reopens [OF assms(2) _ removed(4), of ss] assms(3)
      by (auto simp: Remove registry_effect_def secret_effect_def get_record_fun find_without_id
          distinct_without_id fun_eq_iff)
  qed simp_all
qed

lemma sample_registry_json_ok: "registry_json_ok sample_registry_json"
proof -
  have "from_utf8 (bytes_of ''{}'') = Some ''{}''" by (rule from_utf8_ascii) simp
  then show ?thesis by (simp add: registry_json_ok_def sample_registry_json_def)
qed

text \<open>The witness: storing the sample connection.\<close>

theorem registry_step_refines_map_witness:
  "let st = sample_store [sample_record] (bt_insert ''c1'' ''t1'' []) False;
       d = [sample_path \<mapsto> bytes_of ''{}''] in
   get_record st = [''c1'' \<mapsto> sample_record] \<and> memory_contents (st_secrets st) = [''c1'' \<mapsto> ''t1''] \<and>
   open_store sample_registry_json False sample_path () d =
     Inr \<lparr>st_path = sample_path, st_secrets = (), st_records = [sample_record]\<rparr>"
proof -
  let ?st0 = "sample_store [] [] False"
  have p: "st_path ?st0 = sample_path" "sample_path \<noteq> []" by (simp_all add: sample_store_def sample_path_def)
  have e: "get_record ?st0 = Map.empty" "memory_contents (st_secrets ?st0) = Map.empty"
    by (simp_all add: fun_eq_iff get_record_def sample_store_def memory_contents_def)
  have sp: "split_input (NewNet [sample_origin] ''t1'') = Inr (NetConfig [sample_origin], ''t1'')"
    using sample_tokens by simp
  show ?thesis
    using registry_step_refines_map [OF memory.secret_store_axioms sample_registry_json_ok _
        sample_upsert_step [OF sample_tokens(1)], of "()"] p e sp
    by (simp add: Let_def registry_effect_def secret_effect_def sample_upsert_def sample_record_def)
      (simp add: sample_store_def)
qed

text \<open>
  When the secret of a connection cannot be deleted, the removal fails with the connection
  dropped from the records in memory, while the file still lists it and the secret is still stored;
  repeating the removal only reports that there is no such connection, and never deletes the secret.
\<close>

theorem failed_removal_cannot_be_repeated:
  assumes "secret_store S contents" "get_record st cid \<noteq> None"
    and "so_delete S cid (st_secrets st) = (Inl e, s)"
  shows "\<exists>st'. remove_connection S J f cid (st, d) = (Inl e, st', d) \<and> get_record st' cid = None \<and>
    contents (st_secrets st') = contents (st_secrets st) \<and>
    remove_connection S J f' cid (st', d') = (Inl (NotFound cid), st', d')"
proof -
  let ?rs = "without_id cid (st_records st)"
  let ?st = "st\<lparr>st_records := ?rs, st_secrets := s\<rparr>"
  have "cid \<in> r_id ` set (st_records st)"
    using assms(2) by (auto simp: get_record_def find_None_iff)
  then have "length ?rs \<noteq> length (st_records st)"
    by (metis (mono_tags, lifting) imageE length_filter_less less_irrefl without_id_def)
  with assms(3) have "remove_connection S J f cid (st, d) = (Inl e, ?st, d)"
    by (simp add: remove_connection_def Let_def)
  moreover have "remove_connection S J f' cid (?st, d') = (Inl (NotFound cid), ?st, d')"
    by (simp add: remove_connection_def Let_def without_id_def)
  moreover have "get_record ?st cid = None"
    by (simp add: get_record_def find_without_id)
  moreover have "contents s = contents (st_secrets st)"
    by (rule secret_store.delete_refused [OF assms(1,3)])
  ultimately show ?thesis by (intro exI [of _ ?st]) simp
qed

text \<open>The witness: a store whose lock is poisoned refuses the deletion.\<close>

theorem failed_removal_cannot_be_repeated_witness:
  "\<exists>st'. remove_connection memory_ops sample_registry_json no_faults ''c1''
       (sample_store [sample_record] (bt_insert ''c1'' ''t1'' []) True, Map.empty) =
       (Inl (SecretStoreFailed ''remove'' ''c1''), st', Map.empty) \<and>
     get_record st' ''c1'' = None \<and> memory_contents (st_secrets st') ''c1'' = Some ''t1''"
proof -
  let ?st = "sample_store [sample_record] (bt_insert ''c1'' ''t1'' []) True"
  have "get_record ?st ''c1'' \<noteq> None" by (simp add: get_record_def sample_store_def sample_record_def)
  moreover have "so_delete memory_ops ''c1'' (st_secrets ?st) =
      (Inl (SecretStoreFailed ''remove'' ''c1''), st_secrets ?st)"
    by (simp add: memory_ops_def memory_delete_def sample_store_def)
  moreover have "memory_contents (st_secrets ?st) ''c1'' = Some ''t1''"
    by (simp add: memory_contents_def sample_store_def)
  ultimately show ?thesis
    using failed_removal_cannot_be_repeated [OF memory.secret_store_axioms, of ?st] by metis
qed

end
