(* ===== verification/Binding_Registry.thy ===== *)
theory Binding_Registry
  imports Connection_Registry Broker_Bindings
begin

text \<open>
  \<open>poid-connections/src/bindings.rs\<close>: the decisions of the user, which connection serves which
  document. The file is keyed by one string per document, so the first thing to prove is that two
  documents never share a key; then the store refines a map from documents to decisions, and the file
  is in step with it after every operation that succeeds and unchanged by one that fails.
\<close>

section \<open>Decisions\<close>

datatype recorded_binding = RecordedConnection connection_id | RecordedLocal

fun to_binding :: "recorded_binding \<Rightarrow> binding" where
  "to_binding (RecordedConnection cid) = BindConnection cid"
| "to_binding RecordedLocal = KeepLocal"

definition binding_key :: "string \<Rightarrow> string \<Rightarrow> string" where
  "binding_key app_id instance_id = show_nat (length app_id) @ '':'' @ app_id @ instance_id"

record bindings_file =
  bf_version :: nat
  bf_bindings :: "(string, recorded_binding) btree"

definition bindings_version :: nat where
  "bindings_version = 1"

section \<open>The store\<close>

text \<open>\<open>serde_json\<close> for the file is a parameter.\<close>

record bindings_json =
  bj_to_string :: "bindings_file \<Rightarrow> string option"
  bj_from_str :: "string \<Rightarrow> bindings_file option"

record binding_store =
  bs_path :: path
  bs_bindings :: "(string, recorded_binding) btree"

definition open_bindings :: "bindings_json \<Rightarrow> bool \<Rightarrow> path \<Rightarrow> disk \<Rightarrow> connection_error + binding_store" where
  "open_bindings J read_fails path d =
     rbind
       (case d path of
          Some bytes \<Rightarrow>
            rbind (ok_or (RegistryFailed ''read'' (path_text path))
              (if read_fails then None else from_utf8 bytes)) (\<lambda>text0.
            rbind (ok_or (RegistryFailed ''parsed'' (path_text path)) (bj_from_str J text0)) (\<lambda>file.
              Inr (bf_bindings file)))
        | None \<Rightarrow> Inr [])
       (\<lambda>bindings. Inr \<lparr>bs_path = path, bs_bindings = bindings\<rparr>)"

definition get_binding :: "binding_store \<Rightarrow> string \<Rightarrow> string \<Rightarrow> recorded_binding option" where
  "get_binding st app_id instance_id = bt_get (bs_bindings st) (binding_key app_id instance_id)"

definition persist_bindings ::
  "bindings_json \<Rightarrow> io_faults \<Rightarrow> binding_store \<Rightarrow> disk \<Rightarrow> (connection_error + unit) \<times> disk" where
  "persist_bindings J f st d =
     (case bj_to_string J \<lparr>bf_version = bindings_version, bf_bindings = bs_bindings st\<rparr> of
        None \<Rightarrow> (Inl (RegistryFailed ''written'' (path_text (bs_path st))), d)
      | Some text0 \<Rightarrow>
          (case write_atomically f (bs_path st) (bytes_of text0) d of
             (Inr _, d) \<Rightarrow> (Inr (), d)
           | (Inl _, d) \<Rightarrow> (Inl (RegistryFailed ''written'' (path_text (bs_path st))), d)))"

definition set_binding ::
  "bindings_json \<Rightarrow> io_faults \<Rightarrow> string \<Rightarrow> string \<Rightarrow> recorded_binding \<Rightarrow>
   binding_store \<times> disk \<Rightarrow> (connection_error + unit) \<times> binding_store \<times> disk" where
  "set_binding J f app_id instance_id b = (\<lambda>(st, d).
     let st = st\<lparr>bs_bindings := bt_insert (binding_key app_id instance_id) b (bs_bindings st)\<rparr>;
         (res, d) = persist_bindings J f st d
     in (res, st, d))"

definition clear_binding ::
  "bindings_json \<Rightarrow> io_faults \<Rightarrow> string \<Rightarrow> string \<Rightarrow>
   binding_store \<times> disk \<Rightarrow> (connection_error + unit) \<times> binding_store \<times> disk" where
  "clear_binding J f app_id instance_id = (\<lambda>(st, d).
     let st = st\<lparr>bs_bindings := bt_remove (binding_key app_id instance_id) (bs_bindings st)\<rparr>;
         (res, d) = persist_bindings J f st d
     in (res, st, d))"

fun names_connection :: "connection_id \<Rightarrow> recorded_binding \<Rightarrow> bool" where
  "names_connection c (RecordedConnection cid) \<longleftrightarrow> cid = c"
| "names_connection c RecordedLocal \<longleftrightarrow> False"

definition forget_connection ::
  "bindings_json \<Rightarrow> io_faults \<Rightarrow> connection_id \<Rightarrow>
   binding_store \<times> disk \<Rightarrow> (connection_error + nat) \<times> binding_store \<times> disk" where
  "forget_connection J f connection = (\<lambda>(st, d).
     let before = length (bs_bindings st);
         st = st\<lparr>bs_bindings := bt_retain (\<lambda>_ b. \<not> names_connection connection b) (bs_bindings st)\<rparr>;
         removed = before - length (bs_bindings st)
     in
     if removed > 0 then
       (case persist_bindings J f st d of
          (Inl e, d) \<Rightarrow> (Inl e, st, d)
        | (Inr _, d) \<Rightarrow> (Inr removed, st, d))
     else (Inr removed, st, d))"

datatype binding_op =
  SetBinding string string recorded_binding
| ClearBinding string string
| ForgetConnection connection_id

fun binding_step ::
  "bindings_json \<Rightarrow> io_faults \<Rightarrow> binding_op \<Rightarrow>
   binding_store \<times> disk \<Rightarrow> (connection_error + unit) \<times> binding_store \<times> disk" where
  "binding_step J f (SetBinding a i b) w = set_binding J f a i b w"
| "binding_step J f (ClearBinding a i) w = clear_binding J f a i w"
| "binding_step J f (ForgetConnection c) w =
     (case forget_connection J f c w of (Inl e, w) \<Rightarrow> (Inl e, w) | (Inr _, w) \<Rightarrow> (Inr (), w))"

section \<open>Keys\<close>

lemma colon_no_digit: "\<not> is_ascii_digit CHR '':''"
  by (simp add: is_ascii_digit_def)

lemma digits_then_colon:
  assumes "list_all is_ascii_digit ds" "list_all is_ascii_digit ds'" "ds @ CHR '':'' # s = ds' @ CHR '':'' # s'"
  shows "ds = ds' \<and> s = s'"
proof -
  have "takeWhile is_ascii_digit (ds @ CHR '':'' # s) = ds" "takeWhile is_ascii_digit (ds' @ CHR '':'' # s') = ds'"
    using assms(1,2) colon_no_digit by (simp_all add: takeWhile_append2 list_all_iff)
  with assms(3) have "ds = ds'" by metis
  with assms(3) show ?thesis by simp
qed

lemma binding_key_eq [simp]: "binding_key a i = binding_key a' i' \<longleftrightarrow> a = a' \<and> i = i'"
proof
  assume eq: "binding_key a i = binding_key a' i'"
  then have "show_nat (length a) @ CHR '':'' # (a @ i) = show_nat (length a') @ CHR '':'' # (a' @ i')"
    by (simp add: binding_key_def)
  from digits_then_colon [OF show_nat_digits show_nat_digits this] have "length a = length a' \<and> a @ i = a' @ i'"
    by (simp only: show_nat_inject)
  then show "a = a' \<and> i = i'" by (elim conjE) (simp add: append_eq_append_conv)
qed simp

text \<open>
  Two documents never share a key: whatever characters the ids contain, the key of an application
  id and an instance id determines both.
\<close>

theorem binding_key_injective:
  "binding_key a i = binding_key a' i' \<longleftrightarrow> a = a' \<and> i = i'"
  by (rule binding_key_eq)

section \<open>The store is a map from documents to decisions\<close>

text \<open>The documented behaviour of \<open>serde_json\<close>.\<close>

definition bindings_json_ok :: "bindings_json \<Rightarrow> bool" where
  "bindings_json_ok J \<longleftrightarrow>
     (\<forall>file t. bj_to_string J file = Some t \<longrightarrow> bj_from_str J t = Some file \<and> from_utf8 (bytes_of t) = Some t)"

definition decisions :: "binding_store \<Rightarrow> string \<times> string \<rightharpoonup> recorded_binding" where
  "decisions st = (\<lambda>(a, i). get_binding st a i)"

definition binding_effect ::
  "binding_op \<Rightarrow> (string \<times> string \<rightharpoonup> recorded_binding) \<Rightarrow> (string \<times> string \<rightharpoonup> recorded_binding)" where
  "binding_effect op m =
     (case op of
        SetBinding a i b \<Rightarrow> m((a, i) \<mapsto> b)
      | ClearBinding a i \<Rightarrow> m((a, i) := None)
      | ForgetConnection c \<Rightarrow> (\<lambda>k. case m k of Some b \<Rightarrow> if names_connection c b then None else Some b | None \<Rightarrow> None))"

definition in_step :: "bindings_json \<Rightarrow> binding_store \<Rightarrow> disk \<Rightarrow> bool" where
  "in_step J st d \<longleftrightarrow> open_bindings J False (bs_path st) d = Inr st"

lemma persist_bindings_cases:
  assumes "persist_bindings J f st d = (res, d')" "bs_path st \<noteq> []" "bindings_json_ok J"
  shows "case res of Inr _ \<Rightarrow> in_step J st d' | Inl _ \<Rightarrow> d' (bs_path st) = d (bs_path st)"
proof (cases "bj_to_string J \<lparr>bf_version = bindings_version, bf_bindings = bs_bindings st\<rparr>")
  case None
  with assms(1) show ?thesis by (auto simp: persist_bindings_def)
next
  case (Some t)
  obtain r d2 where w: "write_atomically f (bs_path st) (bytes_of t) d = (r, d2)"
    by (cases "write_atomically f (bs_path st) (bytes_of t) d")
  from assms(3) Some have t: "bj_from_str J t = Some \<lparr>bf_version = bindings_version, bf_bindings = bs_bindings st\<rparr>"
    "from_utf8 (bytes_of t) = Some t"
    by (auto simp: bindings_json_ok_def)
  show ?thesis
  proof (cases r)
    case (Inl e)
    with assms(1) Some w have "res = Inl (RegistryFailed ''written'' (path_text (bs_path st)))" "d' = d2"
      by (auto simp: persist_bindings_def)
    with w Inl write_atomically_target(2) [OF assms(2)] show ?thesis by simp
  next
    case (Inr u)
    with assms(1) Some w have "res = Inr ()" "d' = d2" by (auto simp: persist_bindings_def)
    moreover have "d2 (bs_path st) = Some (bytes_of t)"
      using w Inr by (intro write_atomically_target(1) [OF assms(2)]) simp
    ultimately show ?thesis using t by (simp add: in_step_def open_bindings_def)
  qed
qed

lemma open_bindings_cong: "d' path = d path \<Longrightarrow> open_bindings J r path d' = open_bindings J r path d"
  by (simp add: open_bindings_def)

lemma bt_retain_length: "length m \<le> length (bt_retain P m) \<Longrightarrow> bt_retain P m = m"
  unfolding bt_retain_def by (metis filter_id_conv length_filter_less not_le)

text \<open>What every operation does to the store in memory, whether or not it can be written.\<close>

definition binding_memory :: "binding_op \<Rightarrow> binding_store \<Rightarrow> binding_store" where
  "binding_memory op st =
     (case op of
        SetBinding a i b \<Rightarrow> st\<lparr>bs_bindings := bt_insert (binding_key a i) b (bs_bindings st)\<rparr>
      | ClearBinding a i \<Rightarrow> st\<lparr>bs_bindings := bt_remove (binding_key a i) (bs_bindings st)\<rparr>
      | ForgetConnection c \<Rightarrow> st\<lparr>bs_bindings := bt_retain (\<lambda>_ b. \<not> names_connection c b) (bs_bindings st)\<rparr>)"

lemma binding_step_cases:
  assumes "binding_step J f op (st, d) = (res, st', d')"
  shows "st' = binding_memory op st \<and>
    (persist_bindings J f st' d = (res, d') \<or> res = Inr () \<and> st' = st \<and> d' = d)"
proof (cases op)
  case (ForgetConnection c)
  let ?st = "st\<lparr>bs_bindings := bt_retain (\<lambda>_ b. \<not> names_connection c b) (bs_bindings st)\<rparr>"
  have st': "st' = ?st"
    using assms ForgetConnection
    by (auto simp: forget_connection_def Let_def split: if_splits prod.splits sum.splits)
  show ?thesis
  proof (cases "length (bs_bindings st) - length (bs_bindings ?st) > 0")
    case True
    with assms ForgetConnection have "persist_bindings J f ?st d = (res, d')"
      by (auto simp: forget_connection_def Let_def split: prod.splits sum.splits)
    with st' ForgetConnection show ?thesis by (simp add: binding_memory_def)
  next
    case False
    then have "?st = st" using bt_retain_length [of "bs_bindings st"] by simp
    moreover from False assms ForgetConnection have "res = Inr ()" "d' = d"
      by (auto simp: forget_connection_def Let_def split: prod.splits sum.splits)
    ultimately show ?thesis using st' ForgetConnection by (simp add: binding_memory_def)
  qed
qed (use assms in \<open>auto simp: set_binding_def clear_binding_def binding_memory_def Let_def split: prod.splits\<close>)

lemma decisions_memory:
  assumes "bt_ok (bs_bindings st)"
  shows "decisions (binding_memory op st) = binding_effect op (decisions st)"
    and "bt_ok (bs_bindings (binding_memory op st))"
    and "bs_path (binding_memory op st) = bs_path st"
  using assms binding_key_eq
  by (cases op; auto simp: binding_memory_def binding_effect_def decisions_def get_binding_def fun_eq_iff
      bt_get_retain split: option.split)+

text \<open>
  C19: Every operation does to the map from documents to decisions exactly what it says, also when the
  file cannot be written: a decision concerns one document, clearing forgets one, and deleting a
  connection forgets exactly the decisions that name it, never a recorded decline. If the file was in
  step with the store, then after a success it is again, and after a failure it still holds what it
  held before.
\<close>

theorem binding_step_refines_map:
  assumes "bindings_json_ok J" "bs_path st \<noteq> []" "bt_ok (bs_bindings st)" "in_step J st d"
    and "binding_step J f op (st, d) = (res, st', d')"
  shows "decisions st' = binding_effect op (decisions st) \<and> bt_ok (bs_bindings st') \<and>
    in_step J (case res of Inr _ \<Rightarrow> st' | Inl _ \<Rightarrow> st) d'"
proof -
  note c = binding_step_cases [OF assms(5)]
  have m: "decisions st' = binding_effect op (decisions st)" "bt_ok (bs_bindings st')" "bs_path st' = bs_path st"
    using c decisions_memory [OF assms(3), of op] by simp_all
  have "in_step J (case res of Inr _ \<Rightarrow> st' | Inl _ \<Rightarrow> st) d'"
  proof (cases "persist_bindings J f st' d = (res, d')")
    case True
    from persist_bindings_cases [OF True _ assms(1)] m(3) assms(2,4) open_bindings_cong [of d' "bs_path st" d J False]
    show ?thesis by (auto simp: in_step_def split: sum.splits)
  next
    case False
    with c assms(4) show ?thesis by auto
  qed
  with m show ?thesis by simp
qed

text \<open>The witness: recording a decision, once with a disk that works and once with a failing rename.\<close>

definition sample_bindings :: "(string, recorded_binding) btree" where
  "sample_bindings = [(binding_key ''app'' ''i1'', RecordedLocal)]"

definition sample_bindings_json :: bindings_json where
  "sample_bindings_json =
     \<lparr>bj_to_string = (\<lambda>file. if file = \<lparr>bf_version = 1, bf_bindings = sample_bindings\<rparr> then Some ''{}'' else None),
      bj_from_str = (\<lambda>t. if t = ''{}'' then Some \<lparr>bf_version = 1, bf_bindings = sample_bindings\<rparr> else None)\<rparr>"

lemma sample_bindings_json_ok: "bindings_json_ok sample_bindings_json"
proof -
  have "from_utf8 (bytes_of ''{}'') = Some ''{}''" by (rule from_utf8_ascii) simp
  then show ?thesis by (simp add: bindings_json_ok_def sample_bindings_json_def)
qed

theorem binding_step_refines_map_witness:
  "let st = \<lparr>bs_path = sample_path, bs_bindings = []\<rparr>;
       op = SetBinding ''app'' ''i1'' RecordedLocal;
       (res, st1, d1) = binding_step sample_bindings_json no_faults op (st, Map.empty);
       (res2, st2, d2) = binding_step sample_bindings_json (no_faults\<lparr>f_rename := True\<rparr>) op (st, Map.empty)
   in res = Inr () \<and> is_ok res2 = False \<and>
      decisions st1 = [(''app'', ''i1'') \<mapsto> RecordedLocal] \<and> decisions st2 = decisions st1 \<and>
      in_step sample_bindings_json st1 d1 \<and> in_step sample_bindings_json st d2"
proof -
  let ?st = "\<lparr>bs_path = sample_path, bs_bindings = []\<rparr>"
  let ?op = "SetBinding ''app'' ''i1'' RecordedLocal"
  obtain res1 st1 d1 where r1: "binding_step sample_bindings_json no_faults ?op (?st, Map.empty) = (res1, st1, d1)"
    by (cases "binding_step sample_bindings_json no_faults ?op (?st, Map.empty)")
  obtain res2 st2 d2 where
    r2: "binding_step sample_bindings_json (no_faults\<lparr>f_rename := True\<rparr>) ?op (?st, Map.empty) = (res2, st2, d2)"
    by (cases "binding_step sample_bindings_json (no_faults\<lparr>f_rename := True\<rparr>) ?op (?st, Map.empty)")
  have ok: "bs_path ?st \<noteq> []" "bt_ok (bs_bindings ?st)" "in_step sample_bindings_json ?st Map.empty"
    by (simp_all add: sample_path_def in_step_def open_bindings_def)
  have res: "res1 = Inr ()" "\<not> is_ok res2"
    using r1 r2 by (auto simp: set_binding_def Let_def persist_bindings_def sample_bindings_json_def bindings_version_def
        sample_bindings_def write_atomically_def no_faults_def written_part_def is_ok_def split: prod.splits sum.splits)
  have e: "binding_effect ?op (decisions ?st) = [(''app'', ''i1'') \<mapsto> RecordedLocal]"
    by (auto simp: binding_effect_def decisions_def get_binding_def fun_eq_iff)
  from binding_step_refines_map [OF sample_bindings_json_ok ok r1]
    binding_step_refines_map [OF sample_bindings_json_ok ok r2] res e r1 r2
  show ?thesis by (cases res2) (simp_all add: is_ok_def)
qed

end
