(* ===== verification/Vault_Errors.thy ===== *)
theory Vault_Errors
  imports Prelude
begin

text \<open>
  \<open>poid-vault/src/error.rs\<close>, and the shape of the vault's operations: a state, threaded through steps
  that may fail, where a failing step leaves the state it has reached.
\<close>

datatype vault_error =
  VaultIo string
| VaultCorrupt string
| VaultQuota nat nat
| VaultInvalid string
| VaultCrypto string

text \<open>\<open>?\<close> on a call that may change the state.\<close>

definition sbind :: "('e + 'a) \<times> 's \<Rightarrow> ('a \<Rightarrow> 's \<Rightarrow> ('e + 'b) \<times> 's) \<Rightarrow> ('e + 'b) \<times> 's" where
  "sbind m f = (case m of (Inl e, s) \<Rightarrow> (Inl e, s) | (Inr x, s) \<Rightarrow> f x s)"

lemma sbind_simps [simp]:
  "sbind (Inl e, s) f = (Inl e, s)" "sbind (Inr x, s) f = f x s"
  by (simp_all add: sbind_def)

lemma sbind_eq_Inr:
  "sbind m f = (Inr y, s') \<longleftrightarrow> (\<exists>x s. m = (Inr x, s) \<and> f x s = (Inr y, s'))"
  by (cases m; cases "fst m") (auto simp: sbind_def)

lemma sbind_eq_Inl:
  "sbind m f = (Inl e, s') \<longleftrightarrow> m = (Inl e, s') \<or> (\<exists>x s. m = (Inr x, s) \<and> f x s = (Inl e, s'))"
  by (cases m; cases "fst m") (auto simp: sbind_def)

text \<open>From \<open>AutomergeError\<close>: whatever the engine reports is a corrupt entry.\<close>

definition am_err :: "(string + 'a) \<times> 's \<Rightarrow> (vault_error + 'a) \<times> 's" where
  "am_err m = (case m of (r, s) \<Rightarrow> (map_err VaultCorrupt r, s))"

lemma am_err_eq [simp]:
  "am_err m = (Inr x, s) \<longleftrightarrow> m = (Inr x, s)"
  by (cases m; cases "fst m") (auto simp: am_err_def)

lemma am_err_Inl: "am_err m = (Inl e, s) \<longleftrightarrow> (\<exists>t. m = (Inl t, s) \<and> e = VaultCorrupt t)"
  by (cases m; cases "fst m") (auto simp: am_err_def)

end
