(* ===== verification/Vault_Documents.thy ===== *)
theory Vault_Documents
  imports Vault_Errors Rust_Strings
begin

text \<open>
  \<open>poid-vault/src/doc.rs\<close>: the memory of one instance, a CRDT document with slots of atomic values. The
  CRDT engine (\<open>automerge\<close>) and \<open>serde_json\<close> are parameters; what is proved needs of the engine only
  that its objects form a tree of maps. The document then refines a map from slots and keys to values.
\<close>

section \<open>The engine\<close>

type_synonym objid = nat

datatype am_value = AmMap objid | AmStr string | AmOther

record 'd automerge =
  am_new :: 'd
  am_load :: "byte list \<Rightarrow> string + 'd"
  am_save :: "'d \<Rightarrow> byte list \<times> 'd"
  am_merge :: "'d \<Rightarrow> 'd \<Rightarrow> (string + unit) \<times> 'd"
  am_get :: "'d \<Rightarrow> objid \<Rightarrow> string \<Rightarrow> string + am_value option"
  am_put :: "objid \<Rightarrow> string \<Rightarrow> string \<Rightarrow> 'd \<Rightarrow> (string + unit) \<times> 'd"
  am_put_object :: "objid \<Rightarrow> string \<Rightarrow> 'd \<Rightarrow> (string + objid) \<times> 'd"
  am_delete :: "objid \<Rightarrow> string \<Rightarrow> 'd \<Rightarrow> (string + unit) \<times> 'd"
  am_keys :: "'d \<Rightarrow> objid \<Rightarrow> string list"
  am_heads :: "'d \<Rightarrow> byte list list \<times> 'd"
  am_save_after :: "byte list list \<Rightarrow> 'd \<Rightarrow> byte list \<times> 'd"
  am_load_incremental :: "byte list \<Rightarrow> 'd \<Rightarrow> (string + unit) \<times> 'd"

definition am_root :: objid where
  "am_root = 0"

record 'v serde_value =
  sv_to_string :: "'v \<Rightarrow> string option"
  sv_from_str :: "string \<Rightarrow> 'v option"

definition default_slot :: string where
  "default_slot = []"

section \<open>The document\<close>

definition doc_new :: "'d automerge \<Rightarrow> 'd" where
  "doc_new A = am_new A"

definition doc_load :: "'d automerge \<Rightarrow> byte list \<Rightarrow> vault_error + 'd" where
  "doc_load A bytes = map_err VaultCorrupt (am_load A bytes)"

definition doc_save :: "'d automerge \<Rightarrow> 'd \<Rightarrow> byte list \<times> 'd" where
  "doc_save A d = am_save A d"

definition doc_merge_bytes :: "'d automerge \<Rightarrow> byte list \<Rightarrow> 'd \<Rightarrow> (vault_error + unit) \<times> 'd" where
  "doc_merge_bytes A other d =
     (case doc_load A other of
        Inl e \<Rightarrow> (Inl e, d)
      | Inr other \<Rightarrow> am_err (am_merge A d other))"

definition doc_heads :: "'d automerge \<Rightarrow> 'd \<Rightarrow> byte list list \<times> 'd" where
  "doc_heads A d = am_heads A d"

definition doc_changes_since :: "'d automerge \<Rightarrow> byte list list \<Rightarrow> 'd \<Rightarrow> byte list \<times> 'd" where
  "doc_changes_since A heads d = am_save_after A heads d"

definition doc_apply_changes :: "'d automerge \<Rightarrow> byte list \<Rightarrow> 'd \<Rightarrow> (vault_error + unit) \<times> 'd" where
  "doc_apply_changes A changes d = am_err (am_load_incremental A changes d)"

definition get_map :: "'d automerge \<Rightarrow> 'd \<Rightarrow> objid \<Rightarrow> string \<Rightarrow> objid option" where
  "get_map A d parent prop = (case am_get A d parent prop of Inr (Some (AmMap i)) \<Rightarrow> Some i | _ \<Rightarrow> None)"

definition kv_map :: "'d automerge \<Rightarrow> 'd \<Rightarrow> string \<Rightarrow> objid option" where
  "kv_map A d slot =
     Option.bind (get_map A d am_root ''slots'') (\<lambda>slots.
     Option.bind (get_map A d slots slot) (\<lambda>slot. get_map A d slot ''kv''))"

text \<open>The map under a property, made when it is missing.\<close>

definition ensure_map :: "'d automerge \<Rightarrow> objid \<Rightarrow> string \<Rightarrow> 'd \<Rightarrow> (vault_error + objid) \<times> 'd" where
  "ensure_map A parent prop d =
     (case get_map A d parent prop of
        Some i \<Rightarrow> (Inr i, d)
      | None \<Rightarrow> am_err (am_put_object A parent prop d))"

definition kv_map_mut :: "'d automerge \<Rightarrow> string \<Rightarrow> 'd \<Rightarrow> (vault_error + objid) \<times> 'd" where
  "kv_map_mut A slot d =
     sbind (ensure_map A am_root ''slots'' d) (\<lambda>slots d.
     sbind (ensure_map A slots slot d) (\<lambda>slot_obj d.
     ensure_map A slot_obj ''kv'' d))"

definition doc_slots :: "'d automerge \<Rightarrow> 'd \<Rightarrow> string list" where
  "doc_slots A d =
     (case get_map A d am_root ''slots'' of
        Some slots \<Rightarrow> sort (am_keys A d slots)
      | None \<Rightarrow> [])"

definition current_slot :: "'d automerge \<Rightarrow> 'd \<Rightarrow> string" where
  "current_slot A d = (case am_get A d am_root ''current'' of Inr (Some (AmStr s)) \<Rightarrow> s | _ \<Rightarrow> default_slot)"

definition set_current_slot :: "'d automerge \<Rightarrow> string \<Rightarrow> 'd \<Rightarrow> (vault_error + unit) \<times> 'd" where
  "set_current_slot A slot d = am_err (am_put A am_root ''current'' slot d)"

definition kv_get :: "'d automerge \<Rightarrow> 'v serde_value \<Rightarrow> 'd \<Rightarrow> string \<Rightarrow> string \<Rightarrow> vault_error + 'v option" where
  "kv_get A V d slot key =
     (case kv_map A d slot of
        None \<Rightarrow> Inr None
      | Some kv \<Rightarrow>
          (case am_get A d kv key of
             Inr (Some (AmStr raw)) \<Rightarrow>
               (case sv_from_str V raw of
                  None \<Rightarrow> Inl (VaultCorrupt ''stored value is not JSON'')
                | Some v \<Rightarrow> Inr (Some v))
           | _ \<Rightarrow> Inr None))"

definition kv_set :: "'d automerge \<Rightarrow> 'v serde_value \<Rightarrow> string \<Rightarrow> string \<Rightarrow> 'v \<Rightarrow> 'd \<Rightarrow> (vault_error + unit) \<times> 'd" where
  "kv_set A V slot key v d =
     (case sv_to_string V v of
        None \<Rightarrow> (Inl (VaultInvalid ''value is not valid JSON''), d)
      | Some raw \<Rightarrow>
          sbind (kv_map_mut A slot d) (\<lambda>kv d. am_err (am_put A kv key raw d)))"

definition kv_delete :: "'d automerge \<Rightarrow> string \<Rightarrow> string \<Rightarrow> 'd \<Rightarrow> (vault_error + unit) \<times> 'd" where
  "kv_delete A slot key d =
     (case kv_map A d slot of
        None \<Rightarrow> (Inr (), d)
      | Some kv \<Rightarrow>
          (case am_get A d kv key of
             Inl e \<Rightarrow> (Inl (VaultCorrupt e), d)
           | Inr None \<Rightarrow> (Inr (), d)
           | Inr (Some _) \<Rightarrow> am_err (am_delete A kv key d)))"

definition kv_list :: "'d automerge \<Rightarrow> 'd \<Rightarrow> string \<Rightarrow> string option \<Rightarrow> string list" where
  "kv_list A d slot pre =
     (case kv_map A d slot of
        None \<Rightarrow> []
      | Some kv \<Rightarrow>
          sort (filter (\<lambda>k. case pre of None \<Rightarrow> True | Some p \<Rightarrow> starts_with k p) (am_keys A d kv)))"

fun delete_keys :: "'d automerge \<Rightarrow> objid \<Rightarrow> string list \<Rightarrow> 'd \<Rightarrow> (vault_error + unit) \<times> 'd" where
  "delete_keys A kv [] d = (Inr (), d)"
| "delete_keys A kv (k # ks) d = sbind (am_err (am_delete A kv k d)) (\<lambda>_ d. delete_keys A kv ks d)"

definition kv_clear :: "'d automerge \<Rightarrow> string \<Rightarrow> 'd \<Rightarrow> (vault_error + unit) \<times> 'd" where
  "kv_clear A slot d =
     (case kv_map A d slot of
        None \<Rightarrow> (Inr (), d)
      | Some kv \<Rightarrow> delete_keys A kv (am_keys A d kv) d)"

definition value_len :: "'d automerge \<Rightarrow> 'd \<Rightarrow> objid \<Rightarrow> string \<Rightarrow> nat" where
  "value_len A d kv k = (case am_get A d kv k of Inr (Some (AmStr v)) \<Rightarrow> length v | _ \<Rightarrow> 0)"

definition slot_usage :: "'d automerge \<Rightarrow> 'd \<Rightarrow> string \<Rightarrow> nat" where
  "slot_usage A d slot =
     (case kv_map A d slot of
        None \<Rightarrow> 0
      | Some kv \<Rightarrow> sum_list (map (\<lambda>k. length k + value_len A d kv k) (am_keys A d kv)))"

definition total_usage :: "'d automerge \<Rightarrow> 'd \<Rightarrow> nat" where
  "total_usage A d = sum_list (map (slot_usage A d) (doc_slots A d))"

end
