(* ===== verification/Vault_Memory.thy ===== *)
theory Vault_Memory
  imports Vault_Documents
begin

text \<open>
  What an instance's document promises: it is a map from slots and keys to values. Setting, deleting
  and clearing touch exactly the named entries, the slots do not see each other, and the quota's count
  is the size of what is stored. The engine is assumed to keep a tree of maps, as documented.
\<close>

section \<open>The documented behaviour of the engine\<close>

definition am_child :: "'d automerge \<Rightarrow> 'd \<Rightarrow> objid \<Rightarrow> string \<Rightarrow> objid \<Rightarrow> bool" where
  "am_child A d parent prop i \<longleftrightarrow> am_get A d parent prop = Inr (Some (AmMap i))"

text \<open>A document: reading an object of it does not fail, its maps form a tree under the root, and the
  keys of a map are exactly the properties that hold something.\<close>

definition am_doc :: "'d automerge \<Rightarrow> ('d \<Rightarrow> objid set) \<Rightarrow> 'd \<Rightarrow> bool" where
  "am_doc A objects d \<longleftrightarrow>
     am_root \<in> objects d \<and>
     (\<forall>p\<in>objects d. \<forall>k. is_ok (am_get A d p k)) \<and>
     (\<forall>p\<in>objects d. \<forall>k i. am_child A d p k i \<longrightarrow> i \<in> objects d \<and> i \<noteq> am_root) \<and>
     (\<forall>p\<in>objects d. \<forall>q\<in>objects d. \<forall>k l i. am_child A d p k i \<longrightarrow> am_child A d q l i \<longrightarrow> p = q \<and> k = l) \<and>
     (\<forall>p\<in>objects d. distinct (am_keys A d p) \<and> (\<forall>k. k \<in> set (am_keys A d p) \<longleftrightarrow> am_get A d p k \<noteq> Inr None))"

text \<open>What the mutating calls do when they succeed; one that fails changes nothing.\<close>

definition put_law :: "'d automerge \<Rightarrow> ('d \<Rightarrow> objid set) \<Rightarrow> bool" where
  "put_law A objects \<longleftrightarrow> (\<forall>d p k s r d'. am_doc A objects d \<longrightarrow> p \<in> objects d \<longrightarrow> am_put A p k s d = (r, d') \<longrightarrow>
     (case r of Inl _ \<Rightarrow> d' = d
      | Inr _ \<Rightarrow> am_doc A objects d' \<and> objects d' = objects d \<and>
          am_get A d' = (am_get A d)(p := (am_get A d p)(k := Inr (Some (AmStr s))))))"

definition put_object_law :: "'d automerge \<Rightarrow> ('d \<Rightarrow> objid set) \<Rightarrow> bool" where
  "put_object_law A objects \<longleftrightarrow>
     (\<forall>d p k r d'. am_doc A objects d \<longrightarrow> p \<in> objects d \<longrightarrow> am_put_object A p k d = (r, d') \<longrightarrow>
     (case r of Inl _ \<Rightarrow> d' = d
      | Inr i \<Rightarrow> am_doc A objects d' \<and> i \<notin> objects d \<and> objects d' = insert i (objects d) \<and>
          (\<forall>q\<in>objects d. am_get A d' q =
             (if q = p then (am_get A d q)(k := Inr (Some (AmMap i))) else am_get A d q)) \<and>
          am_get A d' i = (\<lambda>_. Inr None)))"

definition delete_law :: "'d automerge \<Rightarrow> ('d \<Rightarrow> objid set) \<Rightarrow> bool" where
  "delete_law A objects \<longleftrightarrow> (\<forall>d p k r d'. am_doc A objects d \<longrightarrow> p \<in> objects d \<longrightarrow> am_delete A p k d = (r, d') \<longrightarrow>
     (case r of Inl _ \<Rightarrow> d' = d
      | Inr _ \<Rightarrow> am_doc A objects d' \<and> objects d' = objects d \<and>
          am_get A d' = (am_get A d)(p := (am_get A d p)(k := Inr None))))"

definition automerge_ok :: "'d automerge \<Rightarrow> ('d \<Rightarrow> objid set) \<Rightarrow> bool" where
  "automerge_ok A objects \<longleftrightarrow> put_law A objects \<and> put_object_law A objects \<and> delete_law A objects"

lemma am_putD:
  assumes "automerge_ok A objects" "am_doc A objects d" "p \<in> objects d"
  shows "am_put A p k s d = (Inr (), d') \<Longrightarrow> am_doc A objects d' \<and> objects d' = objects d \<and>
      am_get A d' = (am_get A d)(p := (am_get A d p)(k := Inr (Some (AmStr s))))"
    and "am_put A p k s d = (Inl e, d') \<Longrightarrow> d' = d"
proof -
  have "put_law A objects" using assms(1) by (simp add: automerge_ok_def)
  then have *: "am_put A p k s d = (r, d') \<Longrightarrow> case r of Inl _ \<Rightarrow> d' = d
      | Inr _ \<Rightarrow> am_doc A objects d' \<and> objects d' = objects d \<and>
          am_get A d' = (am_get A d)(p := (am_get A d p)(k := Inr (Some (AmStr s))))" for r
    unfolding put_law_def using assms(2,3) by blast
  show "am_put A p k s d = (Inr (), d') \<Longrightarrow> am_doc A objects d' \<and> objects d' = objects d \<and>
      am_get A d' = (am_get A d)(p := (am_get A d p)(k := Inr (Some (AmStr s))))"
    using * [of "Inr ()"] by (simp only: sum.case)
  show "am_put A p k s d = (Inl e, d') \<Longrightarrow> d' = d" using * [of "Inl e"] by (simp only: sum.case)
qed

lemma am_deleteD:
  assumes "automerge_ok A objects" "am_doc A objects d" "p \<in> objects d"
  shows "am_delete A p k d = (Inr (), d') \<Longrightarrow> am_doc A objects d' \<and> objects d' = objects d \<and>
      am_get A d' = (am_get A d)(p := (am_get A d p)(k := Inr None))"
    and "am_delete A p k d = (Inl e, d') \<Longrightarrow> d' = d"
proof -
  have "delete_law A objects" using assms(1) by (simp add: automerge_ok_def)
  then have *: "am_delete A p k d = (r, d') \<Longrightarrow> case r of Inl _ \<Rightarrow> d' = d
      | Inr _ \<Rightarrow> am_doc A objects d' \<and> objects d' = objects d \<and>
          am_get A d' = (am_get A d)(p := (am_get A d p)(k := Inr None))" for r
    unfolding delete_law_def using assms(2,3) by blast
  show "am_delete A p k d = (Inr (), d') \<Longrightarrow> am_doc A objects d' \<and> objects d' = objects d \<and>
      am_get A d' = (am_get A d)(p := (am_get A d p)(k := Inr None))"
    using * [of "Inr ()"] by (simp only: sum.case)
  show "am_delete A p k d = (Inl e, d') \<Longrightarrow> d' = d" using * [of "Inl e"] by (simp only: sum.case)
qed

lemma am_put_objectD:
  assumes "automerge_ok A objects" "am_doc A objects d" "p \<in> objects d" "am_put_object A p k d = (Inr i, d')"
  shows "am_doc A objects d'" "i \<notin> objects d" "objects d' = insert i (objects d)"
    "\<And>q. q \<in> objects d \<Longrightarrow>
      am_get A d' q = (if q = p then (am_get A d q)(k := Inr (Some (AmMap i))) else am_get A d q)"
    "am_get A d' i = (\<lambda>_. Inr None)"
proof -
  have "put_object_law A objects" using assms(1) by (simp add: automerge_ok_def)
  then have "case Inr i of Inl (_ :: string) \<Rightarrow> d' = d
      | Inr i \<Rightarrow> am_doc A objects d' \<and> i \<notin> objects d \<and> objects d' = insert i (objects d) \<and>
          (\<forall>q\<in>objects d. am_get A d' q =
             (if q = p then (am_get A d q)(k := Inr (Some (AmMap i))) else am_get A d q)) \<and>
          am_get A d' i = (\<lambda>_. Inr None)"
    unfolding put_object_law_def using assms(2-4) by blast
  then have *: "am_doc A objects d' \<and> i \<notin> objects d \<and> objects d' = insert i (objects d) \<and>
      (\<forall>q\<in>objects d. am_get A d' q =
         (if q = p then (am_get A d q)(k := Inr (Some (AmMap i))) else am_get A d q)) \<and>
      am_get A d' i = (\<lambda>_. Inr None)"
    unfolding sum.case .
  then show "am_doc A objects d'" "i \<notin> objects d" "objects d' = insert i (objects d)" by blast+
  show "am_get A d' q = (if q = p then (am_get A d q)(k := Inr (Some (AmMap i))) else am_get A d q)"
    if "q \<in> objects d" for q
    using * that by (elim conjE) (rule bspec)
  show "am_get A d' i = (\<lambda>_. Inr None)" using * by (elim conjE)
qed

lemma am_docD:
  assumes "am_doc A objects d"
  shows "am_root \<in> objects d"
    "p \<in> objects d \<Longrightarrow> \<exists>r. am_get A d p k = Inr r"
    "p \<in> objects d \<Longrightarrow> am_child A d p k i \<Longrightarrow> i \<in> objects d"
    "p \<in> objects d \<Longrightarrow> am_child A d p k i \<Longrightarrow> i \<noteq> am_root"
    "p \<in> objects d \<Longrightarrow> q \<in> objects d \<Longrightarrow> am_child A d p k i \<Longrightarrow> am_child A d q l i \<Longrightarrow> p = q \<and> k = l"
    "p \<in> objects d \<Longrightarrow> distinct (am_keys A d p)"
    "p \<in> objects d \<Longrightarrow> k \<in> set (am_keys A d p) \<longleftrightarrow> am_get A d p k \<noteq> Inr None"
  using assms by (auto simp: am_doc_def is_ok_iff)

lemma get_map_child: "get_map A d p k = Some i \<longleftrightarrow> am_child A d p k i"
  by (auto simp: get_map_def am_child_def split: sum.splits option.splits am_value.splits)

section \<open>The path to a slot's values\<close>

text \<open>\<open>values_path\<close>: the objects on the way to the values of a slot.\<close>

definition values_path :: "'d automerge \<Rightarrow> 'd \<Rightarrow> string \<Rightarrow> objid \<Rightarrow> objid \<Rightarrow> objid \<Rightarrow> bool" where
  "values_path A d slot slots obj kv \<longleftrightarrow>
     am_child A d am_root ''slots'' slots \<and> am_child A d slots slot obj \<and> am_child A d obj ''kv'' kv"

lemma kv_map_iff: "kv_map A d slot = Some kv \<longleftrightarrow> (\<exists>slots obj. values_path A d slot slots obj kv)"
  by (auto simp: kv_map_def values_path_def get_map_child bind_eq_Some_conv)

lemma values_path_objects:
  assumes "am_doc A objects d" "values_path A d slot slots obj kv"
  shows "slots \<in> objects d" "obj \<in> objects d" "kv \<in> objects d"
    "slots \<noteq> am_root" "obj \<noteq> am_root" "kv \<noteq> am_root" "obj \<noteq> slots" "kv \<noteq> slots" "kv \<noteq> obj"
proof -
  note D = am_docD [OF assms(1)]
  from assms(2) have c: "am_child A d am_root ''slots'' slots" "am_child A d slots slot obj" "am_child A d obj ''kv'' kv"
    by (auto simp: values_path_def)
  show s: "slots \<in> objects d" "slots \<noteq> am_root" using D(1,3,4) c(1) by blast+
  show o: "obj \<in> objects d" "obj \<noteq> am_root" using D(3,4) s c(2) by blast+
  show k: "kv \<in> objects d" "kv \<noteq> am_root" using D(3,4) o c(3) by blast+
  show "obj \<noteq> slots" using D(5) [OF D(1) s(1) c(1)] c(2) s(2) by metis
  show "kv \<noteq> slots" using D(5) [OF D(1) o(1) c(1)] c(3) o(2) by metis
  show "kv \<noteq> obj" using D(5) [OF s(1) o(1) c(2)] c(3) \<open>obj \<noteq> slots\<close> by metis
qed

lemma kv_map_inject:
  assumes "am_doc A objects d" "kv_map A d slot = Some kv" "kv_map A d slot' = Some kv"
  shows "slot = slot'"
proof -
  from assms(2,3) obtain s o' s' o'' where p: "values_path A d slot s o' kv" "values_path A d slot' s' o'' kv"
    by (auto simp: kv_map_iff)
  have "s = s'" using p by (auto simp: values_path_def am_child_def)
  moreover have "o' = o''"
    using am_docD(5) [OF assms(1)] values_path_objects(2) [OF assms(1)] p unfolding values_path_def by metis
  ultimately show ?thesis
    using am_docD(5) [OF assms(1)] values_path_objects(1) [OF assms(1)] p unfolding values_path_def by metis
qed

text \<open>A change at the values of one slot leaves every path alone.\<close>

lemma kv_map_frame:
  assumes doc: "am_doc A objects d" and kv: "kv_map A d slot = Some kv"
    and upd: "\<And>p. p \<noteq> kv \<Longrightarrow> am_get A d' p = am_get A d p"
  shows "kv_map A d' slot' = kv_map A d slot'"
proof -
  from kv obtain slots obj where p: "values_path A d slot slots obj kv" by (auto simp: kv_map_iff)
  note O = values_path_objects [OF doc p]
  have root: "get_map A d' am_root ''slots'' = Some slots" "get_map A d am_root ''slots'' = Some slots"
    using upd [of am_root] O p by (simp_all add: get_map_def values_path_def am_child_def)
  have s: "get_map A d' slots slot' = get_map A d slots slot'"
    using upd [of slots] O by (simp add: get_map_def)
  have "get_map A d' o' ''kv'' = get_map A d o' ''kv''" if "get_map A d slots slot' = Some o'" for o'
  proof -
    have "o' \<noteq> kv"
    proof
      assume "o' = kv"
      with that p have "am_child A d slots slot' kv" "am_child A d obj ''kv'' kv"
        by (auto simp: get_map_child values_path_def)
      with am_docD(5) [OF doc O(1,2)] O(7) show False by metis
    qed
    with upd show ?thesis by (simp add: get_map_def)
  qed
  with root s show ?thesis by (cases "get_map A d slots slot'") (simp_all add: kv_map_def)
qed

text \<open>Making a missing map adds an empty one and changes no other property.\<close>

lemma ensure_map_cases:
  assumes ok: "automerge_ok A objects" and doc: "am_doc A objects d" and p: "p \<in> objects d"
    and run: "ensure_map A p k d = (r, d')"
  obtains (failed) e where "r = Inl e" "d' = d"
  | (there) i where "r = Inr i" "am_child A d p k i" "d' = d"
  | (made) i where "r = Inr i" "get_map A d p k = None" "am_doc A objects d'" "i \<notin> objects d"
      "objects d' = insert i (objects d)" "am_child A d' p k i" "am_get A d' i = (\<lambda>_. Inr None)"
      "\<forall>q\<in>objects d. \<forall>l. q \<noteq> p \<or> l \<noteq> k \<longrightarrow> am_get A d' q l = am_get A d q l"
proof (cases "get_map A d p k")
  case (Some i)
  with run have r: "r = Inr i" "d' = d" by (simp_all add: ensure_map_def)
  from Some have "am_child A d p k i" by (simp only: get_map_child)
  with r show ?thesis by (intro there)
next
  case None
  obtain q d2 where q: "am_put_object A p k d = (q, d2)" by (cases "am_put_object A p k d")
  show ?thesis
  proof (cases q)
    case (Inl e)
    have "put_object_law A objects" using ok by (simp add: automerge_ok_def)
    then have "case Inl e of Inl (_ :: string) \<Rightarrow> d2 = d | Inr i \<Rightarrow> am_doc A objects d2 \<and> i \<notin> objects d \<and>
        objects d2 = insert i (objects d) \<and>
        (\<forall>q\<in>objects d. am_get A d2 q =
           (if q = p then (am_get A d q)(k := Inr (Some (AmMap i))) else am_get A d q)) \<and>
        am_get A d2 i = (\<lambda>_. Inr None)"
      unfolding put_object_law_def using doc p q Inl by blast
    then have "d2 = d" unfolding sum.case .
    with run None q Inl have "r = Inl (VaultCorrupt e)" "d' = d" by (simp_all add: ensure_map_def am_err_def)
    then show ?thesis by (rule failed)
  next
    case (Inr i)
    from run None q Inr have r: "r = Inr i" "d' = d2" by (simp_all add: ensure_map_def am_err_def)
    note L = am_put_objectD [OF ok doc p q [unfolded Inr]]
    have "am_child A d2 p k i" using L(4) [OF p] by (simp add: am_child_def)
    moreover have "\<forall>q\<in>objects d. \<forall>l. q \<noteq> p \<or> l \<noteq> k \<longrightarrow> am_get A d2 q l = am_get A d q l"
      using L(4) by auto
    ultimately show ?thesis
      using made [of i] r None L(1,2,3,5) by blast
  qed
qed

text \<open>Two documents with the same values: every stored value of one is in the other, under the same
  slot and key, and what the other has more is empty slots.\<close>

definition same_values :: "'d automerge \<Rightarrow> ('d \<Rightarrow> objid set) \<Rightarrow> 'd \<Rightarrow> 'd \<Rightarrow> bool" where
  "same_values A objects d d' \<longleftrightarrow> am_doc A objects d' \<and> objects d \<subseteq> objects d' \<and>
     am_get A d' am_root ''current'' = am_get A d am_root ''current'' \<and>
     (\<forall>slot kv. kv_map A d slot = Some kv \<longrightarrow> kv_map A d' slot = Some kv \<and> am_get A d' kv = am_get A d kv) \<and>
     (\<forall>slot kv. kv_map A d slot = None \<longrightarrow> kv_map A d' slot = Some kv \<longrightarrow> am_get A d' kv = (\<lambda>_. Inr None)) \<and>
     set (doc_slots A d) \<subseteq> set (doc_slots A d')"

lemma same_values_refl: "am_doc A objects d \<Longrightarrow> same_values A objects d d"
  by (simp add: same_values_def)

lemma same_values_trans:
  assumes "same_values A objects d d1" "same_values A objects d1 d2"
  shows "same_values A objects d d2"
proof -
  have "am_get A d2 kv = (\<lambda>_. Inr None)" if "kv_map A d slot = None" "kv_map A d2 slot = Some kv" for slot kv
  proof (cases "kv_map A d1 slot")
    case None
    with assms(2) that(2) show ?thesis by (simp add: same_values_def)
  next
    case (Some kv1)
    with assms that show ?thesis unfolding same_values_def by (metis option.inject)
  qed
  with assms show ?thesis unfolding same_values_def by (metis subset_trans)
qed

lemma made_path:
  assumes doc: "am_doc A objects d" and p: "p \<in> objects d" and none: "get_map A d p k = None"
    and i: "i \<notin> objects d" and empty: "am_get A d' i = (\<lambda>_. Inr None)" and child: "am_child A d' p k i"
    and frame0: "\<forall>q\<in>objects d. \<forall>l. q \<noteq> p \<or> l \<noteq> k \<longrightarrow> am_get A d' q l = am_get A d q l"
  shows "values_path A d slot s ob kv \<Longrightarrow> values_path A d' slot s ob kv"
    and "values_path A d' slot s ob kv \<Longrightarrow> kv = i \<or> values_path A d slot s ob kv"
proof -
  note frame = frame0 [rule_format]
  note D = am_docD [OF doc]
  have edge: "am_child A d' q l t \<longleftrightarrow> am_child A d q l t \<or> q = p \<and> l = k \<and> t = i" if "q \<in> objects d" for q l t
  proof (cases "q = p \<and> l = k")
    case True
    with none child have "\<not> am_child A d q l t" by (metis get_map_child option.distinct(1))
    with True child show ?thesis by (auto simp: am_child_def)
  next
    case False
    then have "am_get A d' q l = am_get A d q l" using frame that by blast
    with False show ?thesis by (auto simp: am_child_def)
  qed
  have new: "\<not> am_child A d' i l t" for l t using empty by (simp add: am_child_def)
  show "values_path A d' slot s ob kv" if "values_path A d slot s ob kv"
    using that edge D(1) values_path_objects(1,2) [OF doc that] by (simp add: values_path_def)
  show "kv = i \<or> values_path A d slot s ob kv" if P: "values_path A d' slot s ob kv"
  proof (cases "kv = i")
    case False
    from P have c: "am_child A d' am_root ''slots'' s" "am_child A d' s slot ob" "am_child A d' ob ''kv'' kv"
      by (auto simp: values_path_def)
    have "s \<noteq> i" "ob \<noteq> i" using c new by metis+
    with edge [OF D(1)] c have s: "am_child A d am_root ''slots'' s" by blast
    then have "s \<in> objects d" using D(3) [OF D(1)] by blast
    with edge c \<open>ob \<noteq> i\<close> have o: "am_child A d s slot ob" by blast
    then have "ob \<in> objects d" using D(3) \<open>s \<in> objects d\<close> by blast
    with edge c False have "am_child A d ob ''kv'' kv" by blast
    with s o show ?thesis by (simp add: values_path_def)
  qed simp
qed

lemma same_values_made:
  assumes doc: "am_doc A objects d" and p: "p \<in> objects d" and none: "get_map A d p k = None"
    and doc': "am_doc A objects d'" and objs: "objects d' = insert i (objects d)"
    and i: "i \<notin> objects d" and empty: "am_get A d' i = (\<lambda>_. Inr None)" and child: "am_child A d' p k i"
    and frame0: "\<forall>q\<in>objects d. \<forall>l. q \<noteq> p \<or> l \<noteq> k \<longrightarrow> am_get A d' q l = am_get A d q l"
    and not_kv: "\<And>slot. kv_map A d slot \<noteq> Some p" and not_current: "p \<noteq> am_root \<or> k \<noteq> ''current''"
  shows "same_values A objects d d'"
proof -
  note frame = frame0 [rule_format]
  note path = made_path [OF doc p none i empty child frame0]
  note D = am_docD [OF doc]
  have "am_get A d' am_root ''current'' = am_get A d am_root ''current''"
    by (rule frame [OF D(1)]) (use not_current in auto)
  moreover have "kv_map A d' slot = Some kv \<and> am_get A d' kv = am_get A d kv" if "kv_map A d slot = Some kv" for slot kv
  proof -
    from that obtain s ob where P: "values_path A d slot s ob kv" by (auto simp: kv_map_iff)
    then have "kv \<in> objects d" "kv \<noteq> p" using values_path_objects(3) [OF doc] not_kv that by blast+
    then have "am_get A d' kv = am_get A d kv" using frame by blast
    with path(1) [OF P] show ?thesis by (auto simp: kv_map_iff)
  qed
  moreover have "am_get A d' kv = (\<lambda>_. Inr None)" if "kv_map A d slot = None" "kv_map A d' slot = Some kv" for slot kv
  proof -
    from that(2) obtain s ob where P: "values_path A d' slot s ob kv" by (auto simp: kv_map_iff)
    have "\<not> values_path A d slot s ob kv" using that(1) kv_map_iff by (metis option.distinct(1))
    with path(2) [OF P] empty show ?thesis by blast
  qed
  moreover have "set (doc_slots A d) \<subseteq> set (doc_slots A d')"
  proof (cases "get_map A d am_root ''slots''")
    case (Some s)
    then have s: "s \<in> objects d" using D(3) [OF D(1)] by (simp add: get_map_child)
    have "get_map A d' am_root ''slots'' = Some s"
    proof (cases "am_root = p \<and> ''slots'' = k")
      case True
      with none Some show ?thesis by simp
    next
      case False
      with frame [OF D(1)] Some show ?thesis by (auto simp: get_map_def)
    qed
    moreover have "set (am_keys A d s) \<subseteq> set (am_keys A d' s)"
    proof
      fix l assume "l \<in> set (am_keys A d s)"
      then have "am_get A d s l \<noteq> Inr None" using D(7) s by blast
      then have "am_get A d' s l \<noteq> Inr None"
        using frame [OF s, of l] child by (cases "s = p \<and> l = k") (auto simp: am_child_def)
      then show "l \<in> set (am_keys A d' s)" using am_docD(7) [OF doc'] s objs by blast
    qed
    ultimately show ?thesis using Some by (simp add: doc_slots_def)
  qed (simp add: doc_slots_def)
  ultimately show ?thesis using doc' objs unfolding same_values_def by blast
qed

lemma ensure_map_same_values:
  assumes ok: "automerge_ok A objects" and doc: "am_doc A objects d" and p: "p \<in> objects d"
    and run: "ensure_map A p k d = (r, d')"
    and not_kv: "\<forall>slot. kv_map A d slot \<noteq> Some p" and not_current: "p \<noteq> am_root \<or> k \<noteq> ''current''"
  shows "same_values A objects d d'" "r = Inr i \<Longrightarrow> am_child A d' p k i"
    "q \<in> objects d \<Longrightarrow> am_child A d q l j \<Longrightarrow> am_child A d' q l j"
proof -
  from ok doc p run have "same_values A objects d d' \<and> (r = Inr i \<longrightarrow> am_child A d' p k i) \<and>
      (q \<in> objects d \<longrightarrow> am_child A d q l j \<longrightarrow> am_child A d' q l j)"
  proof (cases rule: ensure_map_cases)
    case (failed e)
    with same_values_refl [OF doc] show ?thesis by simp
  next
    case (there t)
    with same_values_refl [OF doc] show ?thesis by auto
  next
    case (made i')
    have "same_values A objects d d'"
      by (rule same_values_made [OF doc p made(2,3,5,4,7,6,8)]) (use not_kv not_current in auto)
    moreover have "am_child A d' q l j" if "q \<in> objects d" "am_child A d q l j"
    proof (cases "q = p \<and> l = k")
      case True
      with that(2) made(2) show ?thesis by (metis get_map_child option.distinct(1))
    next
      case False
      with made(8) that show ?thesis unfolding am_child_def by auto
    qed
    ultimately show ?thesis using made(1,6) by auto
  qed
  then show "same_values A objects d d'" "r = Inr i \<Longrightarrow> am_child A d' p k i"
    "q \<in> objects d \<Longrightarrow> am_child A d q l j \<Longrightarrow> am_child A d' q l j" by blast+
qed

lemma same_valuesD:
  assumes "same_values A objects d d'"
  shows "am_doc A objects d'" "objects d \<subseteq> objects d'"
  using assms by (auto simp: same_values_def)

lemma path_not_kv:
  assumes doc: "am_doc A objects d"
  shows "kv_map A d slot \<noteq> Some am_root"
    and "am_child A d am_root ''slots'' s \<Longrightarrow> kv_map A d slot \<noteq> Some s"
    and "am_child A d am_root ''slots'' s \<Longrightarrow> am_child A d s slot' ob \<Longrightarrow> kv_map A d slot \<noteq> Some ob"
proof -
  note D = am_docD [OF doc]
  show "kv_map A d slot \<noteq> Some am_root"
  proof
    assume "kv_map A d slot = Some am_root"
    then obtain s ob where P: "values_path A d slot s ob am_root" by (auto simp only: kv_map_iff)
    from values_path_objects(6) [OF doc P] show False by simp
  qed
  show "kv_map A d slot \<noteq> Some s" if c: "am_child A d am_root ''slots'' s"
  proof
    assume "kv_map A d slot = Some s"
    then obtain s' ob where P: "values_path A d slot s' ob s" by (auto simp only: kv_map_iff)
    with c have "s' = s" by (simp add: values_path_def am_child_def)
    with values_path_objects(8) [OF doc P] show False by simp
  qed
  show "kv_map A d slot \<noteq> Some ob" if c: "am_child A d am_root ''slots'' s" "am_child A d s slot' ob"
  proof
    assume "kv_map A d slot = Some ob"
    then obtain s' ob' where P: "values_path A d slot s' ob' ob" by (auto simp only: kv_map_iff)
    with c have "s' = s" by (simp add: values_path_def am_child_def)
    with P have "am_child A d ob' ''kv'' ob" by (simp add: values_path_def)
    then have "ob' = s" using D(5) c values_path_objects(1,2) [OF doc P] \<open>s' = s\<close> by metis
    with values_path_objects(7) [OF doc P] \<open>s' = s\<close> show False by simp
  qed
qed

lemma kv_map_mut_ok:
  assumes ok: "automerge_ok A objects" and doc: "am_doc A objects d"
    and run: "kv_map_mut A slot d = (r, d')"
  shows "same_values A objects d d'" "r = Inr kv \<Longrightarrow> kv_map A d' slot = Some kv"
proof -
  note D = am_docD [OF doc]
  obtain r1 d1 where e1: "ensure_map A am_root ''slots'' d = (r1, d1)" by (cases "ensure_map A am_root ''slots'' d")
  have nk0: "\<forall>t. kv_map A d t \<noteq> Some am_root" using path_not_kv(1) [OF doc] by blast
  have nc0: "am_root \<noteq> am_root \<or> ''slots'' \<noteq> ''current''" by simp
  note E1 = ensure_map_same_values [OF ok doc D(1) e1 nk0 nc0]
  note s1 = E1(1)
  have "same_values A objects d d' \<and> (r = Inr kv \<longrightarrow> kv_map A d' slot = Some kv)"
  proof (cases r1)
    case (Inl e)
    with run e1 s1 show ?thesis by (auto simp: kv_map_mut_def)
  next
    case (Inr s)
    note doc1 = same_valuesD [OF s1]
    have c1: "am_child A d1 am_root ''slots'' s" by (rule E1(2) [OF Inr])
    then have so: "s \<in> objects d1" using am_docD(3) [OF doc1(1) am_docD(1) [OF doc1(1)]] by blast
    obtain r2 d2 where e2: "ensure_map A s slot d1 = (r2, d2)" by (cases "ensure_map A s slot d1")
    have sn: "s \<noteq> am_root" using am_docD(4) [OF doc1(1) am_docD(1) [OF doc1(1)] c1] .
    have nk: "\<forall>t. kv_map A d1 t \<noteq> Some s" using path_not_kv(2) [OF doc1(1) c1] by blast
    note E2 = ensure_map_same_values [OF ok doc1(1) so e2 nk disjI1 [OF sn]]
    note doc2 = same_valuesD [OF E2(1)]
    note s2 = same_values_trans [OF s1 E2(1)]
    show ?thesis
    proof (cases r2)
      case (Inl e)
      with run e1 e2 \<open>r1 = _\<close> s2 show ?thesis by (auto simp: kv_map_mut_def)
    next
      case r2: (Inr ob)
      have c2: "am_child A d2 s slot ob" by (rule E2(2) [OF r2])
      have c1': "am_child A d2 am_root ''slots'' s" by (rule E2(3) [OF am_docD(1) [OF doc1(1)] c1])
      have so2: "s \<in> objects d2" using so doc2(2) by blast
      have oo: "ob \<in> objects d2" "ob \<noteq> am_root" using am_docD(3,4) [OF doc2(1) so2 c2] by blast+
      have nk2: "\<forall>t. kv_map A d2 t \<noteq> Some ob" using path_not_kv(3) [OF doc2(1) c1' c2] by blast
      obtain r3 d3 where e3: "ensure_map A ob ''kv'' d2 = (r3, d3)" by (cases "ensure_map A ob ''kv'' d2")
      note E3 = ensure_map_same_values [OF ok doc2(1) oo(1) e3 nk2 disjI1 [OF oo(2)]]
      have "r = r3" "d' = d3" using run e1 e2 e3 Inr r2 by (simp_all add: kv_map_mut_def)
      moreover have "kv_map A d3 slot = Some kv" if "r3 = Inr kv"
        using E3(2) [OF that] E3(3) [OF am_docD(1) [OF doc2(1)] c1'] E3(3) [OF so2 c2]
        by (auto simp: kv_map_iff values_path_def)
      ultimately show ?thesis using same_values_trans [OF s2 E3(1)] by blast
    qed
  qed
  then show "same_values A objects d d'" "r = Inr kv \<Longrightarrow> kv_map A d' slot = Some kv" by blast+
qed

section \<open>The document as a map of values\<close>

text \<open>The stored text under a slot and a key.\<close>

definition kv_view :: "'d automerge \<Rightarrow> 'd \<Rightarrow> string \<Rightarrow> string \<Rightarrow> string option" where
  "kv_view A d slot key =
     (case kv_map A d slot of
        None \<Rightarrow> None
      | Some kv \<Rightarrow> (case am_get A d kv key of Inr (Some (AmStr s)) \<Rightarrow> Some s | _ \<Rightarrow> None))"

lemma kv_view_same_values:
  assumes "same_values A objects d d'"
  shows "kv_view A d' = kv_view A d"
proof (intro ext)
  fix slot key
  show "kv_view A d' slot key = kv_view A d slot key"
  proof (cases "kv_map A d slot")
    case None
    show ?thesis
    proof (cases "kv_map A d' slot")
      case (Some kv)
      with None assms have "am_get A d' kv = (\<lambda>_. Inr None)" unfolding same_values_def by blast
      with None Some show ?thesis by (simp add: kv_view_def)
    qed (simp add: kv_view_def None)
  next
    case (Some kv)
    with assms have "kv_map A d' slot = Some kv" "am_get A d' kv = am_get A d kv"
      unfolding same_values_def by blast+
    with Some show ?thesis by (simp add: kv_view_def)
  qed
qed

lemma current_same_values: "same_values A objects d d' \<Longrightarrow> current_slot A d' = current_slot A d"
  by (simp add: same_values_def current_slot_def)

definition entry_text :: "string + am_value option \<Rightarrow> string option" where
  "entry_text x = (case x of Inr (Some (AmStr s)) \<Rightarrow> Some s | _ \<Rightarrow> None)"

lemma kv_view_at: "kv_map A d slot = Some kv \<Longrightarrow> kv_view A d slot key = entry_text (am_get A d kv key)"
  by (simp add: kv_view_def entry_text_def)

lemma kv_view_none: "kv_map A d slot = None \<Longrightarrow> kv_view A d slot = Map.empty"
  by (rule ext) (simp add: kv_view_def)

text \<open>Writing one property of the values of a slot.\<close>

lemma kv_write:
  assumes doc: "am_doc A objects d" and kv: "kv_map A d slot = Some kv"
    and upd: "am_get A d' = (am_get A d)(kv := (am_get A d kv)(key := x))"
  shows "kv_map A d' t = kv_map A d t"
    and "kv_view A d' = (kv_view A d)(slot := (kv_view A d slot)(key := entry_text x))"
    and "current_slot A d' = current_slot A d"
proof -
  have other: "am_get A d' p = am_get A d p" if "p \<noteq> kv" for p using upd that by simp
  have maps: "kv_map A d' t = kv_map A d t" for t by (rule kv_map_frame [OF doc kv other])
  then show "kv_map A d' t = kv_map A d t" .
  obtain s ob where P: "values_path A d slot s ob kv" using kv by (auto simp only: kv_map_iff)
  show "current_slot A d' = current_slot A d"
    using other [of am_root] values_path_objects(6) [OF doc P] by (simp add: current_slot_def)
  have "kv_view A d' t k = ((kv_view A d)(slot := (kv_view A d slot)(key := entry_text x))) t k" for t k
  proof (cases "t = slot")
    case True
    with kv maps [of slot] upd show ?thesis by (simp add: kv_view_at)
  next
    case False
    show ?thesis
    proof (cases "kv_map A d t")
      case None
      with False maps [of t] show ?thesis by (simp add: kv_view_none)
    next
      case (Some kv')
      have "kv' \<noteq> kv"
      proof
        assume "kv' = kv"
        with kv_map_inject [OF doc kv] Some False show False by simp
      qed
      with Some False maps [of t] other [of kv'] show ?thesis by (simp add: kv_view_at)
    qed
  qed
  then show "kv_view A d' = (kv_view A d)(slot := (kv_view A d slot)(key := entry_text x))" by blast
qed

lemma kv_object: "am_doc A objects d \<Longrightarrow> kv_map A d slot = Some kv \<Longrightarrow> kv \<in> objects d"
  using values_path_objects(3) by (auto simp only: kv_map_iff)

section \<open>Operations\<close>

lemma kv_set_cases:
  assumes ok: "automerge_ok A objects" and doc: "am_doc A objects d"
    and run: "kv_set A V slot key v d = (r, d')"
  obtains (failed) e where "r = Inl e" "same_values A objects d d'"
  | (stored) raw d1 kv where "r = Inr ()" "sv_to_string V v = Some raw" "same_values A objects d d1"
      "kv_map A d1 slot = Some kv" "am_doc A objects d'" "objects d' = objects d1"
      "am_get A d' = (am_get A d1)(kv := (am_get A d1 kv)(key := Inr (Some (AmStr raw))))"
proof (cases "sv_to_string V v")
  case None
  with run have "r = Inl (VaultInvalid ''value is not valid JSON'')" "d' = d" by (simp_all add: kv_set_def)
  with same_values_refl [OF doc] failed show ?thesis by blast
next
  case (Some raw)
  obtain r1 d1 where m: "kv_map_mut A slot d = (r1, d1)" by (cases "kv_map_mut A slot d")
  note M = kv_map_mut_ok [OF ok doc m]
  show ?thesis
  proof (cases r1)
    case (Inl e)
    with run Some m have "r = Inl e" "d' = d1" by (simp_all add: kv_set_def)
    with M(1) failed show ?thesis by blast
  next
    case (Inr kv)
    note kv = M(2) [OF Inr]
    note doc1 = same_valuesD(1) [OF M(1)]
    obtain r2 d2 where p: "am_put A kv key raw d1 = (r2, d2)" by (cases "am_put A kv key raw d1")
    with run Some m Inr have r: "r = map_err VaultCorrupt r2" "d' = d2" by (simp_all add: kv_set_def am_err_def)
    note P = am_putD [OF ok doc1 kv_object [OF doc1 kv]]
    show ?thesis
    proof (cases r2)
      case (Inl e)
      with p have "d2 = d1" by (intro P(2)) simp
      with r Inl M(1) failed show ?thesis by simp
    next
      case (Inr u)
      with p have "am_put A kv key raw d1 = (Inr (), d2)" by simp
      from P(1) [OF this] r Inr stored [OF _ Some M(1) kv] show ?thesis by simp
    qed
  qed
qed

lemma kv_delete_cases:
  assumes ok: "automerge_ok A objects" and doc: "am_doc A objects d"
    and run: "kv_delete A slot key d = (r, d')"
  obtains (failed) e where "r = Inl e" "d' = d"
  | (absent) "r = Inr ()" "d' = d" "kv_view A d slot key = None"
  | (deleted) kv where "r = Inr ()" "kv_map A d slot = Some kv" "am_doc A objects d'" "objects d' = objects d"
      "am_get A d' = (am_get A d)(kv := (am_get A d kv)(key := Inr None))"
proof (cases "kv_map A d slot")
  case None
  with run absent show ?thesis by (simp add: kv_delete_def kv_view_none)
next
  case (Some kv)
  note D = am_deleteD [OF ok doc kv_object [OF doc Some]]
  show ?thesis
  proof (cases "am_get A d kv key")
    case (Inl e)
    with run Some have "r = Inl (VaultCorrupt e)" "d' = d" by (simp_all add: kv_delete_def)
    then show ?thesis by (rule failed)
  next
    case (Inr x)
    show ?thesis
    proof (cases x)
      case None
      with run Some Inr absent show ?thesis by (simp add: kv_delete_def kv_view_at entry_text_def)
    next
      case x: (Some y)
      obtain r2 d2 where p: "am_delete A kv key d = (r2, d2)" by (cases "am_delete A kv key d")
      with run Some Inr x have r: "r = map_err VaultCorrupt r2" "d' = d2" by (simp_all add: kv_delete_def am_err_def)
      show ?thesis
      proof (cases r2)
        case (Inl e)
        with p have "d2 = d" by (intro D(2)) simp
        with r Inl failed show ?thesis by simp
      next
        case (Inr u)
        with p have "am_delete A kv key d = (Inr (), d2)" by simp
        from D(1) [OF this] r Inr deleted [OF _ Some] show ?thesis by simp
      qed
    qed
  qed
qed

lemma delete_keys_ok:
  assumes ok: "automerge_ok A objects"
  shows "am_doc A objects d \<Longrightarrow> kv_map A d slot = Some kv \<Longrightarrow> delete_keys A kv ks d = (r, d') \<Longrightarrow>
    am_doc A objects d' \<and> kv_map A d' slot = Some kv \<and> current_slot A d' = current_slot A d \<and>
    (\<forall>t. t \<noteq> slot \<longrightarrow> kv_view A d' t = kv_view A d t) \<and>
    (\<forall>k. kv_view A d' slot k = kv_view A d slot k \<or> kv_view A d' slot k = None) \<and>
    (r = Inr () \<longrightarrow> (\<forall>k. kv_view A d' slot k = (if k \<in> set ks then None else kv_view A d slot k)))"
proof (induction ks arbitrary: d)
  case Nil
  then show ?case by simp
next
  case (Cons k ks)
  note doc = Cons.prems(1) and kv = Cons.prems(2)
  note D = am_deleteD [OF ok doc kv_object [OF doc kv]]
  obtain r1 d1 where p: "am_delete A kv k d = (r1, d1)" by (cases "am_delete A kv k d")
  show ?case
  proof (cases r1)
    case (Inl e)
    with Cons.prems(3) p have "r = Inl (VaultCorrupt e)" "d' = d1" by (simp_all add: am_err_def)
    moreover have "d1 = d" using p Inl by (intro D(2)) simp
    ultimately show ?thesis using doc kv by simp
  next
    case (Inr u)
    with p have p': "am_delete A kv k d = (Inr (), d1)" by simp
    note d1 = D(1) [OF p']
    note W = kv_write [OF doc kv conjunct2 [OF conjunct2 [OF d1]]]
    have rest: "delete_keys A kv ks d1 = (r, d')" using Cons.prems(3) p Inr by (simp add: am_err_def)
    have kv1: "kv_map A d1 slot = Some kv" using W(1) kv by simp
    note IH = Cons.IH [OF conjunct1 [OF d1] kv1 rest]
    have v: "kv_view A d1 t j = (if t = slot \<and> j = k then None else kv_view A d t j)" for t j
      using W(2) by (simp add: entry_text_def)
    from IH have IH5: "\<forall>j. kv_view A d' slot j = kv_view A d1 slot j \<or> kv_view A d' slot j = None"
      by (elim conjE)
    from IH have IH6: "r = Inr () \<longrightarrow> (\<forall>j. kv_view A d' slot j = (if j \<in> set ks then None else kv_view A d1 slot j))"
      by (elim conjE)
    have "kv_view A d' slot j = kv_view A d slot j \<or> kv_view A d' slot j = None" for j
      using spec [OF IH5, of j] v [of slot j] by (cases "j = k") simp_all
    moreover have "kv_view A d' slot j = (if j \<in> set (k # ks) then None else kv_view A d slot j)"
      if "r = Inr ()" for j
      using spec [OF mp [OF IH6 that], of j] v [of slot j] by (cases "j = k") simp_all
    ultimately show ?thesis using IH W(3) v by simp
  qed
qed

datatype 'v doc_op =
  KvSet string string 'v
| KvDelete string string
| KvClear string
| SetCurrentSlot string

fun doc_step :: "'d automerge \<Rightarrow> 'v serde_value \<Rightarrow> 'v doc_op \<Rightarrow> 'd \<Rightarrow> (vault_error + unit) \<times> 'd" where
  "doc_step A V (KvSet slot key v) d = kv_set A V slot key v d"
| "doc_step A V (KvDelete slot key) d = kv_delete A slot key d"
| "doc_step A V (KvClear slot) d = kv_clear A slot d"
| "doc_step A V (SetCurrentSlot slot) d = set_current_slot A slot d"

text \<open>What an operation does to the stored values and to the active slot.\<close>

fun doc_effect :: "'v serde_value \<Rightarrow> 'v doc_op \<Rightarrow> (string \<Rightarrow> string \<rightharpoonup> string) \<Rightarrow> (string \<Rightarrow> string \<rightharpoonup> string)" where
  "doc_effect V (KvSet slot key v) m = m(slot := (m slot)(key := sv_to_string V v))"
| "doc_effect V (KvDelete slot key) m = m(slot := (m slot)(key := None))"
| "doc_effect V (KvClear slot) m = m(slot := Map.empty)"
| "doc_effect V (SetCurrentSlot slot) m = m"

fun slot_effect :: "'v doc_op \<Rightarrow> string \<Rightarrow> string" where
  "slot_effect (SetCurrentSlot slot) _ = slot"
| "slot_effect _ cur = cur"

lemma set_current_slot_cases:
  assumes ok: "automerge_ok A objects" and doc: "am_doc A objects d"
    and run: "set_current_slot A slot d = (r, d')"
  shows "am_doc A objects d' \<and> kv_view A d' = kv_view A d \<and>
    (case r of Inl _ \<Rightarrow> d' = d | Inr _ \<Rightarrow> current_slot A d' = slot)"
proof -
  note D = am_docD [OF doc]
  obtain r2 where p: "am_put A am_root ''current'' slot d = (r2, d')" "r = map_err VaultCorrupt r2"
    using run by (cases "am_put A am_root ''current'' slot d") (simp add: set_current_slot_def am_err_def)
  note P = am_putD [OF ok doc D(1)]
  show ?thesis
  proof (cases r2)
    case (Inl e)
    with p have "d' = d" by (intro P(2)) simp
    with doc p Inl show ?thesis by simp
  next
    case (Inr u)
    with p have "am_put A am_root ''current'' slot d = (Inr (), d')" by simp
    note Q = P(1) [OF this]
    have g: "am_get A d' q l = am_get A d q l" if "q \<noteq> am_root \<or> l \<noteq> ''current''" for q l
      using Q that by auto
    have m: "get_map A d' q l = get_map A d q l" if "q \<noteq> am_root \<or> l \<noteq> ''current''" for q l
      using g [OF that] by (simp add: get_map_def)
    have "kv_map A d' t = kv_map A d t" for t
    proof -
      have s: "get_map A d' am_root ''slots'' = get_map A d am_root ''slots''" by (rule m) simp
      show ?thesis
      proof (cases "get_map A d am_root ''slots''")
        case (Some s)
        then have c: "am_child A d am_root ''slots'' s" by (simp only: get_map_child)
        then have sn: "s \<noteq> am_root" "s \<in> objects d" using D(3,4) [OF D(1)] by blast+
        have "get_map A d' ob ''kv'' = get_map A d ob ''kv''" for ob by (rule m) simp
        with s Some m [of s t] sn show ?thesis by (simp add: kv_map_def)
      qed (simp add: kv_map_def s)
    qed
    then have "kv_view A d' t k = kv_view A d t k" for t k
    proof (cases "kv_map A d t")
      case (Some kv)
      then obtain s ob where "values_path A d t s ob kv" by (auto simp only: kv_map_iff)
      then have "kv \<noteq> am_root" by (rule values_path_objects(6) [OF doc])
      with Some g [of kv k] \<open>\<And>t. kv_map A d' t = kv_map A d t\<close> [of t] show ?thesis
        by (simp add: kv_view_at)
    qed (simp add: kv_view_def)
    then have "kv_view A d' = kv_view A d" by blast
    moreover have "current_slot A d' = slot" using Q by (simp add: current_slot_def)
    ultimately show ?thesis using Q p(2) Inr by simp
  qed
qed

lemma kv_clear_effect:
  assumes ok: "automerge_ok A objects" and doc: "am_doc A objects d"
    and run: "kv_clear A slot d = (r, d')"
  shows "am_doc A objects d' \<and> current_slot A d' = current_slot A d \<and>
    (\<forall>t. t \<noteq> slot \<longrightarrow> kv_view A d' t = kv_view A d t) \<and>
    (\<forall>k. kv_view A d' slot k = kv_view A d slot k \<or> kv_view A d' slot k = None) \<and>
    (r = Inr () \<longrightarrow> kv_view A d' slot = Map.empty)"
proof (cases "kv_map A d slot")
  case None
  with run doc show ?thesis by (simp add: kv_clear_def kv_view_none)
next
  case (Some kv)
  with run have run': "delete_keys A kv (am_keys A d kv) d = (r, d')" by (simp add: kv_clear_def)
  note K = delete_keys_ok [OF ok doc Some run']
  have "kv_view A d slot k = None" if "k \<notin> set (am_keys A d kv)" for k
    using am_docD(7) [OF doc kv_object [OF doc Some], of k] that Some by (simp add: kv_view_at entry_text_def)
  with K show ?thesis by (auto simp: fun_eq_iff)
qed


end
