(* ===== verification/Vault_Codec.thy ===== *)
theory Vault_Codec
  imports Vault_Documents
begin

text \<open>
  A byte encoding of association lists of document values, self-delimiting so that a list of them is read
  back exactly. The reference engine of \<open>Vault_Engine\<close> saves and loads its documents with it.
\<close>

type_synonym 'a decoder = "byte list \<Rightarrow> ('a \<times> byte list) option"

definition codec_ok :: "('a \<Rightarrow> byte list) \<Rightarrow> 'a decoder \<Rightarrow> bool" where
  "codec_ok enc dec \<longleftrightarrow> (\<forall>x rest. dec (enc x @ rest) = Some (x, rest))"

lemma codec_okD: "codec_ok enc dec \<Longrightarrow> dec (enc x @ rest) = Some (x, rest)"
  by (simp add: codec_ok_def)

section \<open>Lists\<close>

definition encode_list :: "('a \<Rightarrow> byte list) \<Rightarrow> 'a list \<Rightarrow> byte list" where
  "encode_list enc xs = concat (map (\<lambda>x. 1 # enc x) xs) @ [0]"

fun decode_items :: "nat \<Rightarrow> 'a decoder \<Rightarrow> 'a list decoder" where
  "decode_items 0 dec bs = None"
| "decode_items (Suc n) dec [] = None"
| "decode_items (Suc n) dec (b # bs) =
     (if b = 0 then Some ([], bs)
      else case dec bs of
        None \<Rightarrow> None
      | Some (x, bs) \<Rightarrow> map_option (map_prod ((#) x) id) (decode_items n dec bs))"

definition decode_list :: "'a decoder \<Rightarrow> 'a list decoder" where
  "decode_list dec bs = decode_items (length bs) dec bs"

lemma decode_items_encode:
  assumes "codec_ok enc dec" "length xs < n"
  shows "decode_items n dec (encode_list enc xs @ rest) = Some (xs, rest)"
  using assms(2)
proof (induction xs arbitrary: n)
  case Nil
  then show ?case by (cases n) (simp_all add: encode_list_def)
next
  case (Cons x xs)
  then obtain m where n: "n = Suc m" "length xs < m" by (cases n) auto
  have "decode_items m dec (encode_list enc xs @ rest) = Some (xs, rest)" by (rule Cons.IH [OF n(2)])
  with codec_okD [OF assms(1), of x "encode_list enc xs @ rest"] show ?case
    by (simp add: n encode_list_def)
qed

lemma encode_list_longer: "length xs < length (encode_list enc xs)"
  by (induction xs) (simp_all add: encode_list_def)

lemma list_codec: "codec_ok enc dec \<Longrightarrow> codec_ok (encode_list enc) (decode_list dec)"
  unfolding codec_ok_def [of "encode_list enc"] decode_list_def
  by (intro allI decode_items_encode) (simp_all add: trans_less_add1 [OF encode_list_longer])

section \<open>Values\<close>

definition encode_unit :: "unit \<Rightarrow> byte list" where
  "encode_unit x = []"

definition decode_unit :: "unit decoder" where
  "decode_unit bs = Some ((), bs)"

definition encode_char :: "char \<Rightarrow> byte list" where
  "encode_char c = bytes_of [c]"

definition decode_char :: "char decoder" where
  "decode_char bs = (case bs of [] \<Rightarrow> None | b # bs \<Rightarrow> Some (hd (string_of [b]), bs))"

definition encode_value :: "am_value \<Rightarrow> byte list" where
  "encode_value v = (case v of
     AmMap i \<Rightarrow> 0 # encode_list encode_unit (replicate i ())
   | AmStr s \<Rightarrow> 1 # encode_list encode_char s
   | AmOther \<Rightarrow> [2])"

definition decode_value :: "am_value decoder" where
  "decode_value bs = (case bs of [] \<Rightarrow> None
     | b # bs \<Rightarrow>
         if b = 0 then map_option (map_prod (\<lambda>us. AmMap (length us)) id) (decode_list decode_unit bs)
         else if b = 1 then map_option (map_prod AmStr id) (decode_list decode_char bs)
         else Some (AmOther, bs))"

definition encode_entry :: "string \<times> am_value \<Rightarrow> byte list" where
  "encode_entry e = encode_list encode_char (fst e) @ encode_value (snd e)"

definition decode_entry :: "(string \<times> am_value) decoder" where
  "decode_entry bs = (case decode_list decode_char bs of
     None \<Rightarrow> None | Some (k, bs) \<Rightarrow> map_option (map_prod (Pair k) id) (decode_value bs))"

lemma unit_codec: "codec_ok encode_unit decode_unit"
  by (simp add: codec_ok_def encode_unit_def decode_unit_def)

lemma char_codec: "codec_ok encode_char decode_char"
  by (simp add: codec_ok_def encode_char_def decode_char_def bytes_of_def string_of_def unat_of_nat take_bit_eq_mod)

lemma value_codec: "codec_ok encode_value decode_value"
  unfolding codec_ok_def
proof (intro allI)
  fix v rest
  show "decode_value (encode_value v @ rest) = Some (v, rest)"
    using codec_okD [OF list_codec [OF unit_codec]] codec_okD [OF list_codec [OF char_codec]]
    by (cases v) (simp_all add: encode_value_def decode_value_def)
qed

lemma entry_codec: "codec_ok encode_entry decode_entry"
  using codec_okD [OF list_codec [OF char_codec]] codec_okD [OF value_codec]
  by (simp add: codec_ok_def encode_entry_def decode_entry_def)

definition encode_objects :: "(string \<times> am_value) list list \<Rightarrow> byte list" where
  "encode_objects = encode_list (encode_list encode_entry)"

definition decode_objects :: "byte list \<Rightarrow> (string \<times> am_value) list list option" where
  "decode_objects bs = map_option fst (decode_list (decode_list decode_entry) bs)"

lemma decode_encode_objects [simp]: "decode_objects (encode_objects xs) = Some xs"
  using codec_okD [OF list_codec [OF list_codec [OF entry_codec]], of xs "[]"]
  by (simp add: decode_objects_def encode_objects_def)

end
