(* ===== verification/Vault_Engine.thy ===== *)
theory Vault_Engine
  imports Vault_Memory Vault_Codec "HOL-Library.AList"
begin

text \<open>
  A reference implementation of the engine's map interface, one replica without history: objects are
  numbered, each is an association list. It shows that the assumptions of \<open>Vault_Memory\<close> can be met.
\<close>

record replica =
  rp_next :: objid
  rp_props :: "objid \<Rightarrow> (string \<times> am_value) list"

definition replica_new :: replica where
  "replica_new = \<lparr>rp_next = 1, rp_props = (\<lambda>_. [])\<rparr>"

definition replica_get :: "replica \<Rightarrow> objid \<Rightarrow> string \<Rightarrow> string + am_value option" where
  "replica_get d p k = (if p < rp_next d then Inr (map_of (rp_props d p) k) else Inl ''no such object'')"

definition replica_set :: "objid \<Rightarrow> string \<Rightarrow> am_value \<Rightarrow> replica \<Rightarrow> replica" where
  "replica_set p k v d = d\<lparr>rp_props := (rp_props d)(p := AList.update k v (rp_props d p))\<rparr>"

definition replica_put :: "objid \<Rightarrow> string \<Rightarrow> string \<Rightarrow> replica \<Rightarrow> (string + unit) \<times> replica" where
  "replica_put p k s d =
     (if p < rp_next d then (Inr (), replica_set p k (AmStr s) d) else (Inl ''no such object'', d))"

definition replica_put_object :: "objid \<Rightarrow> string \<Rightarrow> replica \<Rightarrow> (string + objid) \<times> replica" where
  "replica_put_object p k d =
     (if p < rp_next d then
        let i = rp_next d; d = replica_set p k (AmMap i) d
        in (Inr i, d\<lparr>rp_next := i + 1, rp_props := (rp_props d)(i := [])\<rparr>)
      else (Inl ''no such object'', d))"

definition replica_delete :: "objid \<Rightarrow> string \<Rightarrow> replica \<Rightarrow> (string + unit) \<times> replica" where
  "replica_delete p k d =
     (if p < rp_next d
      then (Inr (), d\<lparr>rp_props := (rp_props d)(p := AList.delete k (rp_props d p))\<rparr>)
      else (Inl ''no such object'', d))"

definition replica_save :: "replica \<Rightarrow> byte list" where
  "replica_save d = encode_objects (map (rp_props d) [0..<rp_next d])"

definition replica_load :: "byte list \<Rightarrow> string + replica" where
  "replica_load bytes = (case decode_objects bytes of
     None \<Rightarrow> Inl ''malformed''
   | Some objs \<Rightarrow> Inr \<lparr>rp_next = length objs, rp_props = (\<lambda>p. if p < length objs then objs ! p else [])\<rparr>)"

definition replica_engine :: "replica automerge" where
  "replica_engine =
     \<lparr>am_new = replica_new, am_load = replica_load, am_save = (\<lambda>d. (replica_save d, d)),
      am_merge = (\<lambda>d _. (Inl ''not supported'', d)), am_get = replica_get, am_put = replica_put,
      am_put_object = replica_put_object, am_delete = replica_delete,
      am_keys = (\<lambda>d p. map fst (rp_props d p)), am_heads = (\<lambda>d. ([], d)),
      am_save_after = (\<lambda>_ d. ([], d)), am_load_incremental = (\<lambda>_ d. (Inl ''not supported'', d))\<rparr>"

definition replica_objects :: "replica \<Rightarrow> objid set" where
  "replica_objects d = {..<rp_next d}"

lemma replica_simps [simp]:
  "am_get replica_engine = replica_get" "am_put replica_engine = replica_put"
  "am_put_object replica_engine = replica_put_object" "am_delete replica_engine = replica_delete"
  "am_keys replica_engine d p = map fst (rp_props d p)" "am_new replica_engine = replica_new"
  "am_load replica_engine = replica_load" "am_save replica_engine d = (replica_save d, d)"
  by (simp_all add: replica_engine_def)

definition replica_child :: "replica \<Rightarrow> objid \<Rightarrow> string \<Rightarrow> objid \<Rightarrow> bool" where
  "replica_child d p k i \<longleftrightarrow> p < rp_next d \<and> map_of (rp_props d p) k = Some (AmMap i)"

definition replica_ok :: "replica \<Rightarrow> bool" where
  "replica_ok d \<longleftrightarrow> 0 < rp_next d \<and> (\<forall>p<rp_next d. distinct (map fst (rp_props d p))) \<and>
     (\<forall>p k i. replica_child d p k i \<longrightarrow> 0 < i \<and> i < rp_next d) \<and>
     (\<forall>p q k l i. replica_child d p k i \<longrightarrow> replica_child d q l i \<longrightarrow> p = q \<and> k = l)"

lemma replica_doc: "am_doc replica_engine replica_objects d \<longleftrightarrow> replica_ok d"
proof -
  have key: "k \<in> fst ` set xs \<longleftrightarrow> map_of xs k \<noteq> None" for k :: string and xs :: "(string \<times> am_value) list"
    by (simp add: map_of_eq_None_iff)
  have child: "am_child replica_engine d p k i \<longleftrightarrow> replica_child d p k i" for p k i
    by (auto simp: am_child_def replica_get_def replica_child_def)
  have mem: "p \<in> replica_objects d \<longleftrightarrow> p < rp_next d" for p by (simp add: replica_objects_def)
  have lt: "replica_child d p k i \<Longrightarrow> p < rp_next d" for p k i by (simp add: replica_child_def)
  have "(\<forall>p. p < rp_next d \<longrightarrow> (\<forall>k i. replica_child d p k i \<longrightarrow> i < rp_next d \<and> i \<noteq> am_root)) \<longleftrightarrow>
      (\<forall>p k i. replica_child d p k i \<longrightarrow> 0 < i \<and> i < rp_next d)"
    using lt by (metis am_root_def gr0I less_numeral_extra(3))
  moreover have "(\<forall>p. p < rp_next d \<longrightarrow> (\<forall>q. q < rp_next d \<longrightarrow> (\<forall>k l i. replica_child d p k i \<longrightarrow>
        replica_child d q l i \<longrightarrow> p = q \<and> k = l))) \<longleftrightarrow>
      (\<forall>p q k l i. replica_child d p k i \<longrightarrow> replica_child d q l i \<longrightarrow> p = q \<and> k = l)"
    using lt by metis
  moreover have "(\<forall>p. p < rp_next d \<longrightarrow> (\<forall>k. is_ok (am_get replica_engine d p k)))"
    by (simp add: replica_get_def)
  moreover have "(\<forall>p. p < rp_next d \<longrightarrow> distinct (am_keys replica_engine d p) \<and>
        (\<forall>k. (k \<in> set (am_keys replica_engine d p)) = (am_get replica_engine d p k \<noteq> Inr None))) \<longleftrightarrow>
      (\<forall>p<rp_next d. distinct (map fst (rp_props d p)))"
    by (simp add: replica_get_def key)
  ultimately show ?thesis
    unfolding am_doc_def replica_ok_def child Ball_def mem by (simp only: am_root_def) blast
qed

lemma replica_ok_shrink:
  assumes "replica_ok d" "rp_next d' = rp_next d" "\<forall>p<rp_next d'. distinct (map fst (rp_props d' p))"
    and "\<And>p k i. replica_child d' p k i \<Longrightarrow> replica_child d p k i"
  shows "replica_ok d'"
  using assms unfolding replica_ok_def by metis

lemma replica_put_ok:
  assumes "replica_ok d" "p < rp_next d"
  shows "replica_ok (replica_set p k (AmStr s) d)"
proof (rule replica_ok_shrink [OF assms(1)])
  show "\<forall>q<rp_next (replica_set p k (AmStr s) d). distinct (map fst (rp_props (replica_set p k (AmStr s) d) q))"
    using assms by (simp add: replica_set_def replica_ok_def distinct_update)
  show "replica_child d q l i" if "replica_child (replica_set p k (AmStr s) d) q l i" for q l i
    using that by (auto simp: replica_child_def replica_set_def update_conv' split: if_splits)
qed (simp add: replica_set_def)

lemma replica_delete_ok:
  assumes "replica_ok d" "p < rp_next d"
  shows "replica_ok (d\<lparr>rp_props := (rp_props d)(p := AList.delete k (rp_props d p))\<rparr>)"
    (is "replica_ok ?d")
proof (rule replica_ok_shrink [OF assms(1)])
  show "\<forall>q<rp_next ?d. distinct (map fst (rp_props ?d q))"
    using assms by (simp add: replica_ok_def distinct_delete)
  show "replica_child d q l i" if "replica_child ?d q l i" for q l i
    using that by (auto simp: replica_child_def delete_conv' split: if_splits)
qed simp

lemma replica_put_object_ok:
  assumes "replica_ok d" "p < rp_next d"
  shows "replica_ok (snd (replica_put_object p k d))" (is "replica_ok ?d")
proof -
  let ?i = "rp_next d"
  have child: "replica_child d q l i \<or> q = p \<and> l = k \<and> i = ?i" if "replica_child ?d q l i" for q l i
    using that assms(2)
    by (auto simp: replica_child_def replica_put_object_def replica_set_def Let_def update_conv' less_Suc_eq
        split: if_splits)
  have lt: "0 < i \<and> i < ?i" if "replica_child d q l i" for q l i
    using assms(1) that unfolding replica_ok_def by blast
  have nx: "rp_next ?d = ?i + 1" using assms(2) by (simp add: replica_put_object_def Let_def)
  have uniq: "q = q' \<and> l = l'" if "replica_child d q l i" "replica_child d q' l' i" for q q' l l' i
    using assms(1) that unfolding replica_ok_def by blast
  show ?thesis
    unfolding replica_ok_def
  proof (intro conjI allI impI)
    show "distinct (map fst (rp_props ?d q))" if "q < rp_next ?d" for q
      using that assms nx
      by (auto simp: replica_put_object_def replica_set_def Let_def replica_ok_def distinct_update less_Suc_eq)
    show "0 < i" "i < rp_next ?d" if c: "replica_child ?d q l i" for q l i
    proof -
      have n: "0 < ?i" using assms(2) by simp
      from child [OF c] show "0 < i" using lt [of q l i] n by fastforce
      from child [OF c] show "i < rp_next ?d" unfolding nx using lt [of q l i] by fastforce
    qed
    show "q = q'" "l = l'" if "replica_child ?d q l i" "replica_child ?d q' l' i" for q q' l l' i
      using child [OF that(1)] child [OF that(2)] uniq lt by blast+
  qed (simp add: nx)
qed

lemma replica_engine_ok: "automerge_ok replica_engine replica_objects"
  unfolding automerge_ok_def put_law_def put_object_law_def delete_law_def replica_doc
proof (intro conjI allI impI)
  fix d p k s r d'
  assume "replica_ok d" "p \<in> replica_objects d" "am_put replica_engine p k s d = (r, d')"
  then show "case r of Inl _ \<Rightarrow> d' = d | Inr _ \<Rightarrow> replica_ok d' \<and> replica_objects d' = replica_objects d \<and>
      am_get replica_engine d' = (am_get replica_engine d)(p := (am_get replica_engine d p)(k := Inr (Some (AmStr s))))"
    using replica_put_ok [of d p k s]
    by (auto simp: replica_put_def replica_objects_def replica_set_def replica_get_def update_conv' fun_eq_iff)
next
  fix d p k r d'
  assume "replica_ok d" "p \<in> replica_objects d" "am_delete replica_engine p k d = (r, d')"
  then show "case r of Inl _ \<Rightarrow> d' = d | Inr _ \<Rightarrow> replica_ok d' \<and> replica_objects d' = replica_objects d \<and>
      am_get replica_engine d' = (am_get replica_engine d)(p := (am_get replica_engine d p)(k := Inr None))"
    using replica_delete_ok [of d p k]
    by (auto simp: replica_delete_def replica_objects_def replica_get_def delete_conv' fun_eq_iff)
next
  fix d p k r d'
  assume "replica_ok d" "p \<in> replica_objects d" "am_put_object replica_engine p k d = (r, d')"
  then show "case r of Inl _ \<Rightarrow> d' = d | Inr i \<Rightarrow> replica_ok d' \<and> i \<notin> replica_objects d \<and>
      replica_objects d' = insert i (replica_objects d) \<and>
      (\<forall>q\<in>replica_objects d. am_get replica_engine d' q =
        (if q = p then (am_get replica_engine d q)(k := Inr (Some (AmMap i))) else am_get replica_engine d q)) \<and>
      am_get replica_engine d' i = (\<lambda>_. Inr None)"
    using replica_put_object_ok [of d p k]
    by (auto simp: replica_put_object_def replica_objects_def replica_set_def replica_get_def update_conv'
        Let_def fun_eq_iff)
qed

lemma replica_new_doc: "am_doc replica_engine replica_objects replica_new"
  unfolding replica_doc by (simp add: replica_ok_def replica_new_def replica_child_def)

text \<open>A document is read back as it was saved.\<close>

lemma replica_load_save:
  "\<exists>d'. replica_load (replica_save d) = Inr d' \<and> rp_next d' = rp_next d \<and> (\<forall>p<rp_next d. rp_props d' p = rp_props d p)"
  by (simp add: replica_load_def replica_save_def)

lemma replica_get_cong:
  assumes "rp_next d' = rp_next d" "\<forall>p<rp_next d. rp_props d' p = rp_props d p"
  shows "replica_get d' = replica_get d" "replica_ok d' = replica_ok d"
proof -
  show "replica_get d' = replica_get d" using assms by (simp add: replica_get_def fun_eq_iff)
  have "replica_child d' = replica_child d" using assms by (auto simp: replica_child_def fun_eq_iff)
  with assms show "replica_ok d' = replica_ok d" by (simp add: replica_ok_def)
qed

text \<open>Values that are their own text.\<close>

definition text_values :: "string serde_value" where
  "text_values = \<lparr>sv_to_string = Some, sv_from_str = Some\<rparr>"


end
