(* ===== verification/Hex_Text.thy ===== *)
theory Hex_Text
  imports Rust_Text
begin

text \<open>
  Hexadecimal text as the vault writes it (\<open>hex\<close> of \<open>poid-vault/src/sql.rs\<close> and \<open>protect.rs\<close>), the
  hyphenated text of a UUID, and that both determine what they stand for.
\<close>

definition hex_byte :: "byte \<Rightarrow> string" where
  "hex_byte b = [hex_char (unat b div 16), hex_char (unat b mod 16)]"

definition hex_text :: "byte list \<Rightarrow> string" where
  "hex_text bytes = concat (map hex_byte bytes)"

lemma hex_text_simps [simp]: "hex_text [] = []" "hex_text (b # bs) = hex_byte b @ hex_text bs"
  by (simp_all add: hex_text_def)

lemma length_hex_text [simp]: "length (hex_text bs) = 2 * length bs"
  by (induction bs) (simp_all add: hex_byte_def)

lemma byte_split: "unat (b :: byte) div 16 < 16" "unat b mod 16 < 16"
proof -
  have "unat b < 2 ^ LENGTH(8)" by (rule unsigned_less)
  then show "unat b div 16 < 16" "unat b mod 16 < 16" by (simp_all add: div_less_iff_less_mult)
qed

lemma hex_byte_inject: "hex_byte a = hex_byte b \<longleftrightarrow> a = b"
proof
  assume "hex_byte a = hex_byte b"
  then have "unat a div 16 = unat b div 16" "unat a mod 16 = unat b mod 16"
    using byte_split [of a] byte_split [of b] by (simp_all add: hex_byte_def hex_char_inject)
  then have "unat a = unat b" by (metis div_mult_mod_eq)
  then show "a = b" by (rule unsigned_word_eqI)
qed simp

lemma hex_text_inject [simp]: "hex_text a = hex_text b \<longleftrightarrow> a = b"
proof
  show "hex_text a = hex_text b \<Longrightarrow> a = b"
  proof (induction a arbitrary: b)
    case Nil
    then have "length (hex_text b) = 0" by (metis hex_text_simps(1) list.size(3))
    then show ?case by simp
  next
    case (Cons x a)
    then have "length (hex_text b) = 2 * length (x # a)" by (metis length_hex_text)
    then obtain y c where b: "b = y # c" by (cases b) auto
    with Cons.prems have "hex_byte x = hex_byte y" "hex_text a = hex_text c"
      by (simp_all add: hex_byte_def)
    with Cons.IH b show ?case by (simp add: hex_byte_inject)
  qed
qed simp

unbundle bit_operations_syntax

text \<open>The digits of a UUID, most significant first, in groups of 8, 4, 4, 4 and 12.\<close>

definition uuid_digit :: "uuid \<Rightarrow> nat \<Rightarrow> char" where
  "uuid_digit u i = hex_char (unat (drop_bit (4 * (31 - i)) u AND 15))"

definition uuid_text :: "uuid \<Rightarrow> string" where
  "uuid_text u =
     (let ds = map (uuid_digit u) [0..<32] in
      take 8 ds @ ''-'' @ take 4 (drop 8 ds) @ ''-'' @ take 4 (drop 12 ds) @ ''-'' @
      take 4 (drop 16 ds) @ ''-'' @ drop 20 ds)"

lemma uuid_text_inject [simp]: "uuid_text u = uuid_text v \<longleftrightarrow> u = v"
proof
  assume eq: "uuid_text u = uuid_text v"
  have d: "uuid_digit u i = uuid_digit v i" if "i < 32" for i
  proof -
    from eq have "map (uuid_digit u) [0..<32] = map (uuid_digit v) [0..<32]"
      by (simp add: uuid_text_def Let_def upt_rec)
    with that show ?thesis by (simp add: list_eq_iff_nth_eq)
  qed
  have "drop_bit (4 * j) u AND 15 = drop_bit (4 * j) v AND (15 :: uuid)" if "j < 32" for j
  proof -
    have "unat (x AND (15 :: uuid)) < 16" for x
      using word_and_le1 [of x "15 :: uuid"] by (simp add: word_le_nat_alt)
    with d [of "31 - j"] that have "unat (drop_bit (4 * j) u AND 15) = unat (drop_bit (4 * j) v AND 15)"
      by (simp add: uuid_digit_def hex_char_inject)
    then show ?thesis by (rule unsigned_word_eqI)
  qed
  then have b: "bit (drop_bit (4 * j) u AND (15 :: uuid)) n = bit (drop_bit (4 * j) v AND (15 :: uuid)) n"
    if "j < 32" for j n using that by simp
  show "u = v"
  proof (rule bit_word_eqI)
    fix n
    assume "n < LENGTH(128)"
    then have n: "n div 4 < 32" "4 * (n div 4) + n mod 4 = n" by simp_all
    have m: "bit (15 :: uuid) (n mod 4)"
    proof -
      have "n mod 4 < 4" by simp
      then consider "n mod 4 = 0" | "n mod 4 = 1" | "n mod 4 = 2" | "n mod 4 = 3" by linarith
      then show ?thesis by cases (simp_all add: bit_numeral_rec)
    qed
    from b [OF n(1), of "n mod 4"] m n(2) show "bit u n = bit v n"
      by (simp add: bit_and_iff bit_drop_bit_eq)
  qed
qed simp

end
