(* ===== verification/Vault_Store.thy ===== *)
theory Vault_Store
  imports Vault_Engine Atomic_Files Hex_Text
begin

text \<open>
  \<open>poid-vault/src/store.rs\<close> and \<open>sql.rs\<close>: the vault on disk, one file per instance and one per SQL slot,
  and the quota on an instance's writes. The quota is computed in 64-bit arithmetic as in the code.
\<close>

type_synonym u64 = "64 word"

section \<open>Instances\<close>

definition default_quota_bytes :: u64 where
  "default_quota_bytes = 64 * 1024 * 1024"

record vault =
  vt_root :: path

definition vault_open :: "bool \<Rightarrow> path \<Rightarrow> vault_error + vault" where
  "vault_open dir_fails root = (if dir_fails then Inl (VaultIo ''create_dir_all'') else Inr \<lparr>vt_root = root\<rparr>)"

definition instance_path :: "vault \<Rightarrow> uuid \<Rightarrow> path" where
  "instance_path vt i = vt_root vt @ [''instances'', uuid_text i @ ''.automerge'']"

record 'd vault_instance =
  vi_id :: uuid
  vi_doc :: 'd
  vi_path :: path
  vi_quota :: u64

definition open_instance ::
  "'d automerge \<Rightarrow> bool \<Rightarrow> vault \<Rightarrow> uuid \<Rightarrow> u64 \<Rightarrow> disk \<Rightarrow> vault_error + 'd vault_instance" where
  "open_instance A read_fails vt i quota d =
     (let path = instance_path vt i in
      rbind
        (case d path of
           Some bytes \<Rightarrow> if read_fails then Inl (VaultIo ''read'') else doc_load A bytes
         | None \<Rightarrow> Inr (doc_new A))
        (\<lambda>doc. Inr \<lparr>vi_id = i, vi_doc = doc, vi_path = path, vi_quota = quota\<rparr>))"

text \<open>The size the code takes the present entry to have: its value written again.\<close>

definition current_entry :: "'d automerge \<Rightarrow> 'v serde_value \<Rightarrow> 'd \<Rightarrow> string \<Rightarrow> string \<Rightarrow> u64" where
  "current_entry A V d slot key =
     (case kv_get A V d slot key of
        Inr (Some v) \<Rightarrow>
          (case sv_to_string V v of
             Some s \<Rightarrow> word_of_nat (length key) + word_of_nat (length s) | None \<Rightarrow> 0)
      | _ \<Rightarrow> 0)"

definition projected_usage :: "'d automerge \<Rightarrow> 'v serde_value \<Rightarrow> 'd \<Rightarrow> string \<Rightarrow> string \<Rightarrow> string \<Rightarrow> u64" where
  "projected_usage A V d slot key raw =
     word_of_nat (total_usage A d) - current_entry A V d slot key + word_of_nat (length key) + word_of_nat (length raw)"

definition instance_kv_set ::
  "'d automerge \<Rightarrow> 'v serde_value \<Rightarrow> string \<Rightarrow> string \<Rightarrow> 'v \<Rightarrow> 'd vault_instance \<Rightarrow>
   (vault_error + unit) \<times> 'd vault_instance" where
  "instance_kv_set A V slot key v vi =
     (case sv_to_string V v of
        None \<Rightarrow> (Inl (VaultInvalid ''value is not valid JSON''), vi)
      | Some raw \<Rightarrow>
          let projected = projected_usage A V (vi_doc vi) slot key raw in
          if projected > vi_quota vi
          then (Inl (VaultQuota (unat projected) (unat (vi_quota vi))), vi)
          else let (r, d) = kv_set A V slot key v (vi_doc vi) in (r, vi\<lparr>vi_doc := d\<rparr>))"

definition instance_merge_bytes ::
  "'d automerge \<Rightarrow> byte list \<Rightarrow> 'd vault_instance \<Rightarrow> (vault_error + unit) \<times> 'd vault_instance" where
  "instance_merge_bytes A other vi =
     (let (r, d) = doc_merge_bytes A other (vi_doc vi) in (r, vi\<lparr>vi_doc := d\<rparr>))"

definition flush_instance ::
  "'d automerge \<Rightarrow> io_faults \<Rightarrow> nat \<Rightarrow> nat \<Rightarrow> 'd vault_instance \<Rightarrow> disk \<Rightarrow>
   (vault_error + unit) \<times> 'd vault_instance \<times> disk" where
  "flush_instance A f pid sequence vi d =
     (let (bytes, doc) = doc_save A (vi_doc vi);
          (r, d) = atomic_write f pid sequence (vi_path vi) bytes d
      in (map_err VaultIo r, vi\<lparr>vi_doc := doc\<rparr>, d))"

section \<open>SQL blobs\<close>

definition slot_file :: "string \<Rightarrow> string" where
  "slot_file slot = ''s'' @ hex_text (bytes_of slot) @ ''.sqlite''"

definition sql_dir :: "vault \<Rightarrow> uuid \<Rightarrow> path" where
  "sql_dir vt i = vt_root vt @ [''instances'', uuid_text i @ ''.sql'']"

definition sql_load :: "bool \<Rightarrow> vault \<Rightarrow> uuid \<Rightarrow> string \<Rightarrow> disk \<Rightarrow> vault_error + byte list option" where
  "sql_load read_fails vt i slot d =
     (case d (sql_dir vt i @ [slot_file slot]) of
        None \<Rightarrow> Inr None
      | Some bytes \<Rightarrow> if read_fails then Inl (VaultIo ''read'') else Inr (Some bytes))"

definition sql_save ::
  "io_faults \<Rightarrow> nat \<Rightarrow> nat \<Rightarrow> vault \<Rightarrow> uuid \<Rightarrow> string \<Rightarrow> byte list \<Rightarrow> u64 \<Rightarrow> disk \<Rightarrow>
   (vault_error + unit) \<times> disk" where
  "sql_save f pid sequence vt i slot bytes quota d =
     (if length bytes > unat quota then (Inl (VaultQuota (length bytes) (unat quota)), d)
      else let (r, d) = atomic_write f pid sequence (sql_dir vt i @ [slot_file slot]) bytes d
           in (map_err VaultIo r, d))"

definition sql_remove_instance :: "bool \<Rightarrow> vault \<Rightarrow> uuid \<Rightarrow> disk \<Rightarrow> (vault_error + unit) \<times> disk" where
  "sql_remove_instance fails vt i d =
     (if fails then (Inl (VaultIo ''remove_dir_all''), d)
      else (Inr (), \<lambda>p. if starts_with p (sql_dir vt i) then None else d p))"

definition remove_instance :: "bool \<Rightarrow> bool \<Rightarrow> vault \<Rightarrow> uuid \<Rightarrow> disk \<Rightarrow> (vault_error + unit) \<times> disk" where
  "remove_instance file_fails dir_fails vt i d =
     (if d (instance_path vt i) \<noteq> None \<and> file_fails then (Inl (VaultIo ''remove_file''), d)
      else sql_remove_instance dir_fails vt i (d(instance_path vt i := None)))"

section \<open>Where things are\<close>

lemma slot_file_inject [simp]: "slot_file a = slot_file b \<longleftrightarrow> a = b"
  by (simp add: slot_file_def)

lemma instance_path_inject [simp]: "instance_path vt i = instance_path vt j \<longleftrightarrow> i = j"
  by (simp add: instance_path_def)

lemma sql_dir_inject [simp]: "sql_dir vt i = sql_dir vt j \<longleftrightarrow> i = j"
  by (simp add: sql_dir_def)

lemma sql_path_inject [simp]:
  "sql_dir vt i @ [slot_file a] = sql_dir vt j @ [slot_file b] \<longleftrightarrow> i = j \<and> a = b"
  by simp

lemma sql_path_not_instance: "sql_dir vt i @ [slot_file a] \<noteq> instance_path vt j"
  by (simp add: sql_dir_def instance_path_def)

text \<open>A write that succeeds changes the target and nothing else.\<close>

lemma atomic_write_done:
  assumes "atomic_write f pid sequence path bytes d = (Inr (), d')"
    and "path \<noteq> temp_path_in pid sequence (butlast path)"
  shows "d' = d(path \<mapsto> bytes)"
  using assms
  by (auto simp: atomic_write_def write_and_rename_def Let_def fun_eq_iff dom_def split: if_splits)

lemma atomic_write_failed:
  assumes "atomic_write f pid sequence path bytes d = (Inl e, d')" "q \<noteq> temp_path_in pid sequence (butlast path)"
  shows "d' q = d q"
  using assms
  by (auto simp: atomic_write_def write_and_rename_def Let_def split: if_splits)

lemma temp_not_slot: "sql_dir vt i @ [slot_file a] \<noteq> temp_path_in pid sequence (butlast (sql_dir vt i @ [slot_file a]))"
  by (simp add: temp_path_in_def slot_file_def)

text \<open>
  The SQL database of one slot of one instance is read back exactly as it was saved, and saving it
  changes neither the database of any other slot or instance nor any instance's document: the file
  names of slots and instances never coincide.
\<close>

theorem sql_save_then_load:
  assumes "sql_save f pid sequence vt i slot bytes quota d = (Inr (), d')"
  shows "sql_load False vt j slot' d' =
      (if j = i \<and> slot' = slot then Inr (Some bytes) else sql_load False vt j slot' d) \<and>
    d' (instance_path vt j) = d (instance_path vt j) \<and> length bytes \<le> unat quota"
proof -
  let ?path = "sql_dir vt i @ [slot_file slot]"
  from assms have w: "atomic_write f pid sequence ?path bytes d = (Inr (), d')" "length bytes \<le> unat quota"
    by (auto simp: sql_save_def result_simps split: if_splits prod.splits)
  have "d' = d(?path \<mapsto> bytes)" by (rule atomic_write_done [OF w(1) temp_not_slot])
  with w(2) sql_path_not_instance [of vt i slot j] show ?thesis
    by (auto simp: sql_load_def simp del: append_same_eq)
qed

theorem sql_save_then_load_witness:
  "\<exists>d'. sql_save no_faults 1 1 \<lparr>vt_root = [''v'']\<rparr> 1 ''a'' [7] 10 Map.empty = (Inr (), d') \<and>
     sql_load False \<lparr>vt_root = [''v'']\<rparr> 1 ''a'' d' = Inr (Some [7]) \<and>
     sql_load False \<lparr>vt_root = [''v'']\<rparr> 1 ''b'' d' = Inr None"
proof -
  let ?vt = "\<lparr>vt_root = [''v'']\<rparr>"
  obtain r d' where s: "sql_save no_faults 1 1 ?vt 1 ''a'' [7] 10 Map.empty = (r, d')"
    by (cases "sql_save no_faults 1 1 ?vt 1 ''a'' [7] 10 Map.empty")
  then have "r = Inr ()"
    by (auto simp: sql_save_def atomic_write_def write_and_rename_def no_faults_def sql_dir_def Let_def)
  with s have s': "sql_save no_faults 1 1 ?vt 1 ''a'' [7] 10 Map.empty = (Inr (), d')" by simp
  have "sql_load False ?vt 1 ''b'' Map.empty = Inr None" by (simp add: sql_load_def)
  with sql_save_then_load [OF s', of 1 "''a''"] sql_save_then_load [OF s', of 1 "''b''"] s' show ?thesis by auto
qed

end
