(* ===== verification/Vault_Quota.thy ===== *)
theory Vault_Quota
  imports Vault_Store
begin

text \<open>
  The quota on an instance's writes (\<open>kv_set\<close> of \<open>poid-vault/src/store.rs\<close>, \<open>usage\<close> and \<open>total_usage\<close> of
  \<open>doc.rs\<close>): what the document holds after an accepted write is at most the quota, and a write is
  refused exactly when it would not be.
\<close>

section \<open>Usage as sums over the stored entries\<close>

definition entry_size :: "'d automerge \<Rightarrow> 'd \<Rightarrow> objid \<Rightarrow> string \<Rightarrow> nat" where
  "entry_size A d kv k = length k + value_len A d kv k"

lemma slot_usage_sum:
  assumes "am_doc A objects d" "kv_map A d slot = Some kv"
  shows "slot_usage A d slot = (\<Sum>k\<in>set (am_keys A d kv). entry_size A d kv k)"
proof -
  have "distinct (am_keys A d kv)" by (rule am_docD(6) [OF assms(1) kv_object [OF assms]])
  then show ?thesis
    using assms(2) by (simp add: slot_usage_def entry_size_def sum_list_distinct_conv_sum_set)
qed

lemma slot_usage_none: "kv_map A d slot = None \<Longrightarrow> slot_usage A d slot = 0"
  by (simp add: slot_usage_def)

lemma doc_slots_distinct:
  assumes "am_doc A objects d"
  shows "distinct (doc_slots A d)"
proof (cases "get_map A d am_root ''slots''")
  case (Some s)
  then have "am_child A d am_root ''slots'' s" by (simp only: get_map_child)
  then have "s \<in> objects d" using am_docD(3) [OF assms am_docD(1) [OF assms]] by blast
  then show ?thesis using Some am_docD(6) [OF assms] by (simp add: doc_slots_def)
qed (simp add: doc_slots_def)

lemma total_usage_sum:
  assumes "am_doc A objects d"
  shows "total_usage A d = (\<Sum>slot\<in>set (doc_slots A d). slot_usage A d slot)"
  using doc_slots_distinct [OF assms] by (simp add: total_usage_def sum_list_distinct_conv_sum_set)

lemma kv_map_in_slots:
  assumes doc: "am_doc A objects d" and kv: "kv_map A d slot = Some kv"
  shows "slot \<in> set (doc_slots A d)"
proof -
  obtain s ob where P: "values_path A d slot s ob kv" using kv by (auto simp only: kv_map_iff)
  then have "get_map A d am_root ''slots'' = Some s" "am_get A d s slot \<noteq> Inr None"
    by (auto simp: values_path_def get_map_child) (simp add: am_child_def)
  then show ?thesis
    using am_docD(7) [OF doc values_path_objects(1) [OF doc P]] by (simp add: doc_slots_def)
qed

text \<open>Documents with the same values have the same usage.\<close>

lemma slot_usage_same_values:
  assumes doc: "am_doc A objects d" and same: "same_values A objects d d'"
  shows "slot_usage A d' slot = slot_usage A d slot"
proof (cases "kv_map A d slot")
  case (Some kv)
  with same have kv': "kv_map A d' slot = Some kv" "am_get A d' kv = am_get A d kv"
    unfolding same_values_def by blast+
  have "set (am_keys A d' kv) = set (am_keys A d kv)"
    using am_docD(7) [OF doc kv_object [OF doc Some]]
      am_docD(7) [OF same_valuesD(1) [OF same] kv_object [OF same_valuesD(1) [OF same] kv'(1)]] kv'(2)
    by auto
  moreover have "entry_size A d' kv = entry_size A d kv"
    using kv'(2) by (simp add: fun_eq_iff entry_size_def value_len_def)
  ultimately show ?thesis
    by (simp add: slot_usage_sum [OF doc Some] slot_usage_sum [OF same_valuesD(1) [OF same] kv'(1)])
next
  case None
  show ?thesis
  proof (cases "kv_map A d' slot")
    case (Some kv)
    with None same have "am_get A d' kv = (\<lambda>_. Inr None)" unfolding same_values_def by blast
    then have "\<forall>k. k \<notin> set (am_keys A d' kv)"
      using am_docD(7) [OF same_valuesD(1) [OF same] kv_object [OF same_valuesD(1) [OF same] Some]] by simp
    then have "am_keys A d' kv = []" by (cases "am_keys A d' kv") fastforce+
    then show ?thesis
      by (simp add: slot_usage_none [OF None] slot_usage_sum [OF same_valuesD(1) [OF same] Some])
  qed (simp add: slot_usage_none None)
qed

lemma total_usage_same_values:
  assumes doc: "am_doc A objects d" and same: "same_values A objects d d'"
  shows "total_usage A d' = total_usage A d"
proof -
  have "slot_usage A d slot = 0" if "slot \<notin> set (doc_slots A d)" for slot
    using kv_map_in_slots [OF doc] that by (metis not_None_eq slot_usage_none)
  then have "(\<Sum>slot\<in>set (doc_slots A d). slot_usage A d slot) = (\<Sum>slot\<in>set (doc_slots A d'). slot_usage A d slot)"
    using same by (intro sum.mono_neutral_left) (auto simp: same_values_def)
  then show ?thesis
    by (simp add: total_usage_sum [OF doc] total_usage_sum [OF same_valuesD(1) [OF same]]
        slot_usage_same_values [OF assms])
qed

text \<open>A write adds the new entry in place of the old one.\<close>

lemma total_usage_write:
  assumes doc: "am_doc A objects d" and kv: "kv_map A d slot = Some kv" and doc': "am_doc A objects d'"
    and upd: "am_get A d' = (am_get A d)(kv := (am_get A d kv)(key := Inr (Some (AmStr raw))))"
  shows "total_usage A d' + (if am_get A d kv key = Inr None then 0 else entry_size A d kv key) =
    total_usage A d + length key + length raw"
proof -
  note W = kv_write [OF doc kv upd]
  have kv': "kv_map A d' slot = Some kv" using W(1) kv by simp
  let ?K = "set (am_keys A d kv)"
  have keys': "set (am_keys A d' kv) = insert key ?K"
  proof -
    have "k \<in> set (am_keys A d' kv) \<longleftrightarrow> k \<in> insert key ?K" for k
      using am_docD(7) [OF doc' kv_object [OF doc' kv'], of k] am_docD(7) [OF doc kv_object [OF doc kv], of k] upd
      by (cases "k = key") simp_all
    then show ?thesis by blast
  qed
  have other: "entry_size A d' kv k = entry_size A d kv k" if "k \<noteq> key" for k
    using upd that by (simp add: entry_size_def value_len_def)
  have new: "entry_size A d' kv key = length key + length raw"
    using upd by (simp add: entry_size_def value_len_def)
  have "slot_usage A d' slot = entry_size A d' kv key + (\<Sum>k\<in>?K - {key}. entry_size A d' kv k)"
    unfolding slot_usage_sum [OF doc' kv'] keys' by (simp add: sum.insert_remove)
  also have "(\<Sum>k\<in>?K - {key}. entry_size A d' kv k) = (\<Sum>k\<in>?K - {key}. entry_size A d kv k)"
    by (rule sum.cong) (auto simp: other)
  finally have s': "slot_usage A d' slot = length key + length raw + (\<Sum>k\<in>?K - {key}. entry_size A d kv k)"
    by (simp add: new)
  have in_keys: "key \<in> ?K \<longleftrightarrow> am_get A d kv key \<noteq> Inr None"
    by (rule am_docD(7) [OF doc kv_object [OF doc kv]])
  have "slot_usage A d slot =
      (if am_get A d kv key = Inr None then 0 else entry_size A d kv key) + (\<Sum>k\<in>?K - {key}. entry_size A d kv k)"
    unfolding slot_usage_sum [OF doc kv] using in_keys by (simp add: sum.remove)
  with s' have slot: "slot_usage A d' slot + (if am_get A d kv key = Inr None then 0 else entry_size A d kv key) =
      slot_usage A d slot + length key + length raw"
    by simp
  have rest: "slot_usage A d' t = slot_usage A d t" if "t \<noteq> slot" for t
  proof (cases "kv_map A d t")
    case None
    then show ?thesis using W(1) [of t] by (simp add: slot_usage_def)
  next
    case (Some kvt)
    have "kvt \<noteq> kv"
    proof
      assume "kvt = kv"
      with kv_map_inject [OF doc kv] Some that show False by simp
    qed
    then have g: "am_get A d' kvt = am_get A d kvt" using upd by simp
    have Some': "kv_map A d' t = Some kvt" using W(1) [of t] Some by simp
    have "set (am_keys A d' kvt) = set (am_keys A d kvt)"
      using am_docD(7) [OF doc kv_object [OF doc Some]] am_docD(7) [OF doc' kv_object [OF doc' Some']] g by auto
    moreover have "entry_size A d' kvt = entry_size A d kvt"
      using g by (simp add: fun_eq_iff entry_size_def value_len_def)
    ultimately show ?thesis by (simp add: slot_usage_sum [OF doc Some] slot_usage_sum [OF doc' Some'])
  qed
  have slots: "set (doc_slots A d') = set (doc_slots A d)"
  proof -
    obtain s ob where P: "values_path A d slot s ob kv" using kv by (auto simp only: kv_map_iff)
    obtain s' ob' where P': "values_path A d' slot s' ob' kv" using kv' by (auto simp only: kv_map_iff)
    note O = values_path_objects [OF doc P]
    have "am_get A d' am_root = am_get A d am_root" "am_get A d' s = am_get A d s" using upd O(6,8) by auto
    with P P' have "s' = s" by (auto simp: values_path_def am_child_def)
    moreover have "get_map A d am_root ''slots'' = Some s" "get_map A d' am_root ''slots'' = Some s'"
      using P P' by (simp_all add: get_map_child values_path_def)
    ultimately show ?thesis
      using am_docD(7) [OF doc O(1)] am_docD(7) [OF doc' values_path_objects(1) [OF doc' P']]
        \<open>am_get A d' s = am_get A d s\<close>
      by (auto simp: doc_slots_def)
  qed
  let ?S = "set (doc_slots A d)"
  have mem: "slot \<in> ?S" by (rule kv_map_in_slots [OF doc kv])
  have sum': "(\<Sum>t\<in>?S - {slot}. slot_usage A d' t) = (\<Sum>t\<in>?S - {slot}. slot_usage A d t)"
    by (rule sum.cong) (auto simp: rest)
  have "total_usage A d' = slot_usage A d' slot + (\<Sum>t\<in>?S - {slot}. slot_usage A d t)"
    unfolding total_usage_sum [OF doc'] slots using mem sum' by (simp add: sum.remove)
  moreover have "total_usage A d = slot_usage A d slot + (\<Sum>t\<in>?S - {slot}. slot_usage A d t)"
    unfolding total_usage_sum [OF doc] using mem by (simp add: sum.remove)
  ultimately show ?thesis using slot by simp
qed

section \<open>The quota\<close>

text \<open>The documented behaviour of \<open>serde_json\<close> on values, and a document that only holds values it wrote.\<close>

definition values_ok :: "'v serde_value \<Rightarrow> bool" where
  "values_ok V \<longleftrightarrow> (\<forall>v raw. sv_to_string V v = Some raw \<longrightarrow> sv_from_str V raw = Some v)"

definition values_written :: "'d automerge \<Rightarrow> 'v serde_value \<Rightarrow> 'd \<Rightarrow> bool" where
  "values_written A V d \<longleftrightarrow> (\<forall>slot key raw. kv_view A d slot key = Some raw \<longrightarrow> (\<exists>v. sv_to_string V v = Some raw))"

definition view_size :: "'d automerge \<Rightarrow> 'd \<Rightarrow> string \<Rightarrow> string \<Rightarrow> nat" where
  "view_size A d slot key = (case kv_view A d slot key of Some raw \<Rightarrow> length key + length raw | None \<Rightarrow> 0)"

lemma kv_get_view:
  "kv_get A V d slot key =
     (case kv_view A d slot key of
        None \<Rightarrow> Inr None
      | Some raw \<Rightarrow>
          (case sv_from_str V raw of None \<Rightarrow> Inl (VaultCorrupt ''stored value is not JSON'') | Some v \<Rightarrow> Inr (Some v)))"
  by (auto simp: kv_get_def kv_view_def split: option.splits sum.splits am_value.splits)

lemma current_entry_size:
  assumes "values_ok V" "values_written A V d"
  shows "current_entry A V d slot key = word_of_nat (view_size A d slot key)"
proof (cases "kv_view A d slot key")
  case None
  then show ?thesis by (simp add: current_entry_def kv_get_view view_size_def)
next
  case (Some raw)
  with assms(2) obtain v where v: "sv_to_string V v = Some raw" unfolding values_written_def by blast
  with assms(1) have "sv_from_str V raw = Some v" unfolding values_ok_def by blast
  with Some v show ?thesis by (simp add: current_entry_def kv_get_view view_size_def)
qed

lemma view_size_entry:
  assumes "kv_map A d slot = Some kv"
  shows "view_size A d slot key \<le> (if am_get A d kv key = Inr None then 0 else entry_size A d kv key)"
  using assms
  by (auto simp: view_size_def kv_view_at entry_text_def entry_size_def value_len_def
      split: option.splits sum.splits am_value.splits)

lemma view_size_total:
  assumes doc: "am_doc A objects d"
  shows "view_size A d slot key \<le> total_usage A d"
proof (cases "kv_map A d slot")
  case None
  then show ?thesis by (simp add: view_size_def kv_view_none)
next
  case (Some kv)
  show ?thesis
  proof (cases "am_get A d kv key = Inr None")
    case True
    with view_size_entry [OF Some, of key] show ?thesis by simp
  next
    case False
    then have "key \<in> set (am_keys A d kv)" using am_docD(7) [OF doc kv_object [OF doc Some]] by blast
    then have "entry_size A d kv key \<le> slot_usage A d slot"
      unfolding slot_usage_sum [OF doc Some] by (rule member_le_sum) simp_all
    also have "\<dots> \<le> total_usage A d"
      unfolding total_usage_sum [OF doc] by (rule member_le_sum [OF kv_map_in_slots [OF doc Some]]) simp_all
    finally show ?thesis using view_size_entry [OF Some, of key] False by simp
  qed
qed

definition new_usage :: "'d automerge \<Rightarrow> 'd \<Rightarrow> string \<Rightarrow> string \<Rightarrow> string \<Rightarrow> nat" where
  "new_usage A d slot key raw = total_usage A d - view_size A d slot key + length key + length raw"

lemma projected_usage_nat:
  assumes "values_ok V" "values_written A V d" "am_doc A objects d"
    and "total_usage A d + length key + length raw < 2 ^ 64"
  shows "unat (projected_usage A V d slot key raw) = new_usage A d slot key raw"
proof -
  have le: "view_size A d slot key \<le> total_usage A d" by (rule view_size_total [OF assms(3)])
  have "projected_usage A V d slot key raw = (word_of_nat (new_usage A d slot key raw) :: u64)"
    unfolding projected_usage_def new_usage_def current_entry_size [OF assms(1,2)]
    using le by (simp add: of_nat_diff)
  moreover have "new_usage A d slot key raw < 2 ^ 64" using assms(4) le by (simp add: new_usage_def)
  ultimately show ?thesis by (simp add: unsigned_of_nat take_bit_nat_eq_self)
qed


text \<open>The witness: an empty document with room for two bytes; \<open>k\<close> with a value of one byte fits, one of
  two bytes does not.\<close>

definition sample_instance :: "replica vault_instance" where
  "sample_instance = \<lparr>vi_id = 1, vi_doc = replica_new, vi_path = [''v''], vi_quota = 2\<rparr>"

lemma sample_instance_view: "kv_view replica_engine replica_new = (\<lambda>_. Map.empty)"
  by (simp add: fun_eq_iff kv_view_def kv_map_def get_map_def replica_get_def replica_new_def am_root_def)

lemma sample_instance_usage: "total_usage replica_engine replica_new = 0"
  by (simp add: total_usage_def doc_slots_def get_map_def replica_get_def replica_new_def am_root_def)


end
