(* ===== verification/Vault_Protect.thy ===== *)
theory Vault_Protect
  imports Vault_Errors Hex_Text
begin

text \<open>
  \<open>poid-vault/src/protect.rs\<close>: sealing embedded data under a passphrase, and opening it. Argon2id,
  AES-256-GCM and \<open>serde_json\<close> are a parameter. Reading hexadecimal slices the text two bytes at a time,
  which panics where that cuts a character; a panic is the value \<open>None\<close>.
\<close>

section \<open>Envelopes\<close>

definition protected_path :: string where
  "protected_path = ''data/store.enc''"

definition salt_len :: nat where
  "salt_len = 16"

definition nonce_len :: nat where
  "nonce_len = 12"

record kdf_params =
  kp_m_cost :: u32
  kp_t_cost :: u32
  kp_p_cost :: u32

definition kdf_params_default :: kdf_params where
  "kdf_params_default = \<lparr>kp_m_cost = 19 * 1024, kp_t_cost = 2, kp_p_cost = 1\<rparr>"

record envelope =
  e_v :: nat
  e_alg :: string
  e_kdf :: string
  e_params :: kdf_params
  e_salt :: string
  e_nonce :: string
  e_ct :: string

section \<open>The crates\<close>

record crypto =
  cr_params_new :: "kdf_params \<Rightarrow> string + unit"
  cr_hash_password :: "kdf_params \<Rightarrow> byte list \<Rightarrow> byte list \<Rightarrow> byte list option"
  cr_encrypt :: "byte list \<Rightarrow> byte list \<Rightarrow> byte list \<Rightarrow> byte list option"
  cr_decrypt :: "byte list \<Rightarrow> byte list \<Rightarrow> byte list \<Rightarrow> byte list option"
  cr_to_vec :: "envelope \<Rightarrow> string + byte list"
  cr_from_slice :: "byte list \<Rightarrow> string + envelope"

section \<open>Hexadecimal text\<close>

text \<open>A byte that continues a character; a slice must neither start nor end at one.\<close>

definition continuation :: "char \<Rightarrow> bool" where
  "continuation c \<longleftrightarrow> 128 \<le> (of_char c :: nat) \<and> (of_char c :: nat) < 192"

definition malformed_envelope :: vault_error where
  "malformed_envelope = VaultCrypto ''malformed envelope''"

fun unhex_pairs :: "string \<Rightarrow> (vault_error + byte list) option" where
  "unhex_pairs (a # b # s) =
     (if continuation a \<or> (s \<noteq> [] \<and> continuation (hd s)) then None
      else case u8_from_hex [a, b] of
        None \<Rightarrow> Some (Inl malformed_envelope)
      | Some x \<Rightarrow> map_option (\<lambda>r. rbind r (\<lambda>xs. Inr (x # xs))) (unhex_pairs s))"
| "unhex_pairs _ = Some (Inr [])"

definition unhex :: "string \<Rightarrow> (vault_error + byte list) option" where
  "unhex s = (if odd (length s) then Some (Inl malformed_envelope) else unhex_pairs s)"

text \<open>\<open>?\<close> on a call that may panic.\<close>

definition pbind :: "('e + 'a) option \<Rightarrow> ('a \<Rightarrow> ('e + 'b) option) \<Rightarrow> ('e + 'b) option" where
  "pbind m f = (case m of None \<Rightarrow> None | Some (Inl e) \<Rightarrow> Some (Inl e) | Some (Inr x) \<Rightarrow> f x)"

section \<open>Sealing and opening\<close>

definition derive_key :: "crypto \<Rightarrow> byte list \<Rightarrow> byte list \<Rightarrow> kdf_params \<Rightarrow> vault_error + byte list" where
  "derive_key C passphrase salt params =
     rbind (map_err (\<lambda>e. VaultCrypto (''bad kdf params: '' @ e)) (cr_params_new C params)) (\<lambda>_.
       ok_or (VaultCrypto ''key derivation failed'') (cr_hash_password C params passphrase salt))"

definition seal ::
  "crypto \<Rightarrow> byte list \<Rightarrow> byte list \<Rightarrow> byte list \<Rightarrow> byte list \<Rightarrow> kdf_params \<Rightarrow> vault_error + envelope" where
  "seal C plaintext passphrase salt nonce params =
     rbind (derive_key C passphrase salt params) (\<lambda>key.
     rbind (ok_or (VaultCrypto ''encryption failed'') (cr_encrypt C key nonce plaintext)) (\<lambda>ct.
       Inr \<lparr>e_v = 1, e_alg = ''aes-256-gcm'', e_kdf = ''argon2id'', e_params = params,
            e_salt = hex_text salt, e_nonce = hex_text nonce, e_ct = hex_text ct\<rparr>))"

definition open_envelope :: "crypto \<Rightarrow> envelope \<Rightarrow> byte list \<Rightarrow> (vault_error + byte list) option" where
  "open_envelope C env passphrase =
     (if e_alg env \<noteq> ''aes-256-gcm'' \<or> e_kdf env \<noteq> ''argon2id''
      then Some (Inl (VaultCrypto ''unsupported protection scheme''))
      else
        pbind (unhex (e_salt env)) (\<lambda>salt.
        pbind (unhex (e_nonce env)) (\<lambda>nonce.
        pbind (unhex (e_ct env)) (\<lambda>ct.
        if length nonce \<noteq> nonce_len then Some (Inl malformed_envelope)
        else Some (
          rbind (derive_key C passphrase salt (e_params env)) (\<lambda>key.
            ok_or (VaultCrypto ''wrong passphrase or the data was tampered with'')
              (cr_decrypt C key nonce ct)))))))"

definition envelope_to_bytes :: "crypto \<Rightarrow> envelope \<Rightarrow> vault_error + byte list" where
  "envelope_to_bytes C env = map_err VaultCrypto (cr_to_vec C env)"

definition envelope_from_bytes :: "crypto \<Rightarrow> byte list \<Rightarrow> vault_error + envelope" where
  "envelope_from_bytes C bytes =
     map_err (\<lambda>_. VaultCrypto ''the protected blob is not a valid envelope'') (cr_from_slice C bytes)"

section \<open>What is sealed opens\<close>

lemma digit_no_continuation: "n < 16 \<Longrightarrow> \<not> continuation (hex_char n)"
  by (auto simp: continuation_def hex_char_def)

lemma u8_from_hex_byte: "u8_from_hex (hex_byte b) = Some b"
proof -
  have n: "unat b div 16 < 16" "unat b mod 16 < 16" by (rule byte_split)+
  have "hex_char (unat b div 16) \<noteq> CHR ''+''"
  proof
    assume "hex_char (unat b div 16) = CHR ''+''"
    with hex_value_char [OF n(1)] show False by (simp add: hex_value_def is_ascii_digit_def)
  qed
  then have "strip_plus (hex_byte b) = hex_byte b" by (simp add: strip_plus_def hex_byte_def)
  moreover have "hex_fold 0 (hex_byte b) = Some (unat b)" using n by (simp add: hex_byte_def)
  moreover have "hex_byte b \<noteq> []" by (simp add: hex_byte_def)
  moreover have "unat b < 256"
  proof -
    have "unat b < 2 ^ LENGTH(8)" by (rule unsigned_less)
    then show ?thesis by simp
  qed
  ultimately show ?thesis by (simp add: u8_from_hex_def)
qed

lemma hd_hex_text: "s = hex_text bs \<Longrightarrow> s \<noteq> [] \<Longrightarrow> \<not> continuation (hd s)"
  using byte_split digit_no_continuation by (cases bs) (auto simp: hex_byte_def)

lemma unhex_pairs_hex: "unhex_pairs (hex_text bs) = Some (Inr bs)"
proof (induction bs)
  case (Cons b bs)
  have "\<not> continuation (hex_char (unat b div 16))" using byte_split digit_no_continuation by blast
  moreover have "hex_text bs = [] \<or> \<not> continuation (hd (hex_text bs))"
    using hd_hex_text [of "hex_text bs" bs] by blast
  ultimately show ?case using Cons u8_from_hex_byte [of b] by (simp add: hex_byte_def)
qed simp

lemma unhex_hex [simp]: "unhex (hex_text bs) = Some (Inr bs)"
  by (simp add: unhex_def unhex_pairs_hex)

text \<open>The documented behaviour of AES-GCM: decryption under the same key and nonce gives the plaintext
  back, and only a ciphertext made under that key and nonce decrypts.\<close>

definition aead_ok :: "crypto \<Rightarrow> bool" where
  "aead_ok C \<longleftrightarrow> (\<forall>key nonce p c. cr_encrypt C key nonce p = Some c \<longleftrightarrow> cr_decrypt C key nonce c = Some p)"

lemma sealed_opens:
  assumes "aead_ok C" "seal C plaintext passphrase salt nonce params = Inr env" "length nonce = nonce_len"
  shows "open_envelope C env passphrase = Some (Inr plaintext) \<and>
    (\<exists>r. open_envelope C env other = Some r \<and>
       (\<forall>p. r = Inr p \<longrightarrow> (\<exists>key. derive_key C other salt params = Inr key \<and> 
          map_option hex_text (cr_encrypt C key nonce p) = Some (e_ct env))))"
proof -
  from assms(2) obtain key ct where k: "derive_key C passphrase salt params = Inr key"
    "cr_encrypt C key nonce plaintext = Some ct"
    and env: "env = \<lparr>e_v = 1, e_alg = ''aes-256-gcm'', e_kdf = ''argon2id'', e_params = params,
      e_salt = hex_text salt, e_nonce = hex_text nonce, e_ct = hex_text ct\<rparr>"
    by (auto simp: seal_def result_simps)
  have o: "open_envelope C env pass = Some (rbind (derive_key C pass salt params) (\<lambda>key.
      ok_or (VaultCrypto ''wrong passphrase or the data was tampered with'') (cr_decrypt C key nonce ct)))" for pass
    using assms(3) by (simp add: open_envelope_def env pbind_def)
  have d: "cr_decrypt C key' nonce ct = Some p \<longleftrightarrow> cr_encrypt C key' nonce p = Some ct" for key' p
    using assms(1) unfolding aead_ok_def by blast
  have ct: "e_ct env = hex_text ct" by (simp add: env)
  have "open_envelope C env passphrase = Some (Inr plaintext)" using k d by (simp add: o ok_or_eq_Inr)
  moreover have "\<exists>key. derive_key C other salt params = Inr key \<and>
      map_option hex_text (cr_encrypt C key nonce p) = Some (e_ct env)"
    if "rbind (derive_key C other salt params) (\<lambda>key.
      ok_or (VaultCrypto ''wrong passphrase or the data was tampered with'') (cr_decrypt C key nonce ct)) = Inr p" for p
    using that d by (auto simp: result_simps ct)
  ultimately show ?thesis unfolding o by blast
qed

text \<open>
  What is sealed under a passphrase opens under it, to exactly the plaintext; and whatever
  passphrase is tried, opening a sealed envelope never panics, and gives data other than an error only
  if that data, sealed under the key of that passphrase, is this ciphertext.
\<close>

theorem sealed_data_opens:
  assumes "aead_ok C" "seal C plaintext passphrase salt nonce params = Inr env" "length nonce = nonce_len"
  shows "open_envelope C env passphrase = Some (Inr plaintext) \<and>
    (\<exists>r. open_envelope C env other = Some r \<and>
       (\<forall>p. r = Inr p \<longrightarrow> (\<exists>key. derive_key C other salt params = Inr key \<and> 
          map_option hex_text (cr_encrypt C key nonce p) = Some (e_ct env))))"
  using assms by (rule sealed_opens)

text \<open>The witness: a cipher that appends the key.\<close>

definition sample_crypto :: crypto where
  "sample_crypto =
     \<lparr>cr_params_new = (\<lambda>_. Inr ()), cr_hash_password = (\<lambda>_ passphrase salt. Some (passphrase @ salt)),
      cr_encrypt = (\<lambda>key nonce p. Some (key @ nonce @ p)),
      cr_decrypt = (\<lambda>key nonce c. strip_prefix (key @ nonce) c),
      cr_to_vec = (\<lambda>_. Inr []), cr_from_slice = (\<lambda>_. Inl '''')\<rparr>"

theorem sealed_data_opens_witness:
  "\<exists>env. seal sample_crypto [1, 2] [7] (replicate 16 0) (replicate 12 3) kdf_params_default = Inr env \<and>
     open_envelope sample_crypto env [7] = Some (Inr [1, 2])"
proof -
  have ok: "aead_ok sample_crypto"
    by (auto simp: aead_ok_def sample_crypto_def strip_prefix_eq_Some)
  obtain env where s: "seal sample_crypto [1, 2] [7] (replicate 16 0) (replicate 12 3) kdf_params_default = Inr env"
    by (simp add: seal_def derive_key_def sample_crypto_def)
  from sealed_data_opens [OF ok s] s show ?thesis by (auto simp: nonce_len_def)
qed

text \<open>A file whose hexadecimal text holds a character of two bytes at an odd place makes opening panic.\<close>

lemma open_panics: 
  "\<exists>env. open_envelope C env pass = None"
proof -
  let ?salt = "[CHR ''a'', char_of (0xc3 :: nat), char_of (0xa9 :: nat), CHR ''b'']"
  have "unhex ?salt = None" by (simp add: unhex_def continuation_def)
  then have "open_envelope C \<lparr>e_v = 1, e_alg = ''aes-256-gcm'', e_kdf = ''argon2id'', e_params = params,
      e_salt = ?salt, e_nonce = n, e_ct = c\<rparr> pass = None" for params n c
    by (simp add: open_envelope_def pbind_def)
  then show ?thesis by blast
qed

end
