(* ===== verification/Text_Trim.thy ===== *)
theory Text_Trim
  imports Broker_Network
begin

text \<open>\<open>str::trim\<close>: the text without the whitespace characters at its ends, over the bytes of its UTF-8
  encoding.\<close>

function pieces :: "string \<Rightarrow> string list" where
  "pieces s =
     (if s = [] then []
      else let n = snd (utf8_step (map of_char s)) in take n s # pieces (drop n s))"
  by pat_completeness auto
termination
  by (relation "measure length") (auto simp: utf8_step_pos [OF surjective_pairing])

declare pieces.simps [simp del]

definition blank_piece :: "string \<Rightarrow> bool" where
  "blank_piece p \<longleftrightarrow> list_all is_whitespace (chars_of p)"

definition trim_start :: "string \<Rightarrow> string" where
  "trim_start s = concat (dropWhile blank_piece (pieces s))"

definition trim :: "string \<Rightarrow> string" where
  "trim s = concat (rev (dropWhile blank_piece (rev (dropWhile blank_piece (pieces s)))))"

lemma concat_pieces [simp]: "concat (pieces s) = s"
proof (induction s rule: pieces.induct)
  case (1 s)
  then show ?case by (subst pieces.simps) (simp add: Let_def)
qed

lemma pieces_ascii: "is_ascii s \<Longrightarrow> pieces s = map (\<lambda>c. [c]) s"
proof (induction s)
  case Nil
  show ?case by (subst pieces.simps) simp
next
  case (Cons c s)
  then show ?case by (subst pieces.simps) (simp add: utf8_step_ascii)
qed

text \<open>A text that starts with a character that is not blank.\<close>

lemma trim_start_nothing:
  "s \<noteq> [] \<Longrightarrow> \<not> blank_piece (take (snd (utf8_step (map of_char s))) s) \<Longrightarrow> trim_start s = s"
  using concat_pieces [of s] unfolding trim_start_def by (subst (asm) pieces.simps, subst pieces.simps) (simp add: Let_def)

end
