(* ===== verification/Vault_Convert.thy ===== *)
theory Vault_Convert
  imports Vault_Store Containers Text_Trim
begin

text \<open>
  \<open>poid-vault/src/convert.rs\<close>: moving a container between embedded and vault storage. The CRDT engine
  and \<open>serde_json\<close> are parameters. The conversion to the vault moves the key-value stores only: whatever
  else the state trees hold leaves the container without reaching the vault.
\<close>

section \<open>Seeding and exporting a slot\<close>

text \<open>\<open>serde_json\<close> on a store file: \<open>None\<close> for text that is no JSON, \<open>Some None\<close> for JSON that is no
  object; and the pretty form of a map.\<close>

record 'v store_json =
  sj_from_slice :: "byte list \<Rightarrow> (string, 'v) btree option option"
  sj_to_vec_pretty :: "(string, 'v) btree \<Rightarrow> byte list option"

fun seed_entries ::
  "'d automerge \<Rightarrow> 'v serde_value \<Rightarrow> string \<Rightarrow> (string \<times> 'v) list \<Rightarrow> 'd vault_instance \<Rightarrow>
   (vault_error + unit) \<times> 'd vault_instance" where
  "seed_entries A V slot [] vi = (Inr (), vi)"
| "seed_entries A V slot ((key, v) # es) vi =
     sbind (instance_kv_set A V slot key v vi) (\<lambda>_ vi. seed_entries A V slot es vi)"

definition seed_slot ::
  "'d automerge \<Rightarrow> 'v serde_value \<Rightarrow> 'v store_json \<Rightarrow> string \<Rightarrow> byte list \<Rightarrow> 'd vault_instance \<Rightarrow>
   (vault_error + unit) \<times> 'd vault_instance" where
  "seed_slot A V S slot bytes vi =
     (case sj_from_slice S bytes of
        None \<Rightarrow> (Inl (VaultInvalid ''store.json is not valid JSON''), vi)
      | Some None \<Rightarrow> (Inl (VaultInvalid ''store.json must be a JSON object''), vi)
      | Some (Some m) \<Rightarrow> seed_entries A V slot m vi)"

fun seed_slots ::
  "'d automerge \<Rightarrow> 'v serde_value \<Rightarrow> 'v store_json \<Rightarrow> (string \<times> byte list) list \<Rightarrow> 'd vault_instance \<Rightarrow>
   (vault_error + unit) \<times> 'd vault_instance" where
  "seed_slots A V S [] vi = (Inr (), vi)"
| "seed_slots A V S ((name, bytes) # rest) vi =
     sbind (seed_slot A V S name bytes vi) (\<lambda>_ vi. seed_slots A V S rest vi)"

fun export_entries ::
  "'d automerge \<Rightarrow> 'v serde_value \<Rightarrow> 'd \<Rightarrow> string \<Rightarrow> string list \<Rightarrow> (string, 'v) btree \<Rightarrow>
   vault_error + (string, 'v) btree" where
  "export_entries A V doc slot [] m = Inr m"
| "export_entries A V doc slot (key # keys) m =
     rbind (kv_get A V doc slot key) (\<lambda>v.
       export_entries A V doc slot keys (case v of Some v \<Rightarrow> bt_insert key v m | None \<Rightarrow> m))"

definition export_slot ::
  "'d automerge \<Rightarrow> 'v serde_value \<Rightarrow> 'v store_json \<Rightarrow> 'd \<Rightarrow> string \<Rightarrow> vault_error + byte list option" where
  "export_slot A V S doc slot =
     (let keys = kv_list A doc slot None in
      if keys = [] then Inr None
      else
        rbind (export_entries A V doc slot keys []) (\<lambda>m.
        rbind (ok_or (VaultInvalid ''to_vec_pretty'') (sj_to_vec_pretty S m)) (\<lambda>out.
          Inr (Some (out @ [10])))))"

section \<open>The conversions\<close>

definition instance_id_of :: "poid \<Rightarrow> uuid option" where
  "instance_id_of p = Option.bind (m_instance (c_manifest p)) i_id"

definition named_slots :: "poid \<Rightarrow> (string \<times> byte list) list" where
  "named_slots p =
     List.map_filter (\<lambda>(path, bytes).
       map_option (\<lambda>name. (name, bytes))
         (Option.bind (strip_prefix ''slots/'' path) (strip_suffix ''/store.json''))) (c_files p)"

text \<open>What the code does to the open instance before it is flushed.\<close>

definition seed_instance ::
  "'d automerge \<Rightarrow> 'v serde_value \<Rightarrow> 'v store_json \<Rightarrow> poid \<Rightarrow> 'd vault_instance \<Rightarrow>
   (vault_error + unit) \<times> 'd vault_instance" where
  "seed_instance A V S p vi =
     sbind (case data_of p of Some bytes \<Rightarrow> seed_slot A V S default_slot bytes vi | None \<Rightarrow> (Inr (), vi)) (\<lambda>_ vi.
     sbind (seed_slots A V S (named_slots p) vi) (\<lambda>_ vi.
     (case file_of p ''slots/current'' of
        None \<Rightarrow> (Inr (), vi)
      | Some current \<Rightarrow>
          let (r, d) = set_current_slot A (trim (from_utf8_lossy current)) (vi_doc vi) in (r, vi\<lparr>vi_doc := d\<rparr>))))"

definition embedded_to_vault ::
  "'d automerge \<Rightarrow> 'v serde_value \<Rightarrow> 'v store_json \<Rightarrow> io_faults \<Rightarrow> bool \<Rightarrow> nat \<Rightarrow> nat \<Rightarrow> uuid \<Rightarrow> vault \<Rightarrow> u64 \<Rightarrow>
   poid \<times> disk \<Rightarrow> (vault_error + uuid) \<times> poid \<times> disk" where
  "embedded_to_vault A V S f read_fails pid sequence fresh vt quota = (\<lambda>(p, d).
     let i = (case instance_id_of p of Some i \<Rightarrow> i | None \<Rightarrow> fresh) in
     case open_instance A read_fails vt i quota d of
       Inl e \<Rightarrow> (Inl e, p, d)
     | Inr vi \<Rightarrow>
         (case seed_instance A V S p vi of
            (Inl e, _) \<Rightarrow> (Inl e, p, d)
          | (Inr _, vi) \<Rightarrow>
              (case flush_instance A f pid sequence vi d of
                 (Inl e, _, d) \<Rightarrow> (Inl e, p, d)
               | (Inr _, _, d) \<Rightarrow> (Inr i, convert_storage_mode Vault (set_instance_id i p), d))))"

fun export_named ::
  "'d automerge \<Rightarrow> 'v serde_value \<Rightarrow> 'v store_json \<Rightarrow> 'd \<Rightarrow> string list \<Rightarrow> poid \<Rightarrow> (vault_error + unit) \<times> poid" where
  "export_named A V S doc [] p = (Inr (), p)"
| "export_named A V S doc (slot # slots) p =
     (if slot = default_slot then export_named A V S doc slots p
      else case export_slot A V S doc slot of
        Inl e \<Rightarrow> (Inl e, p)
      | Inr None \<Rightarrow> export_named A V S doc slots p
      | Inr (Some json) \<Rightarrow>
          (case set_slot_data slot json p of
             Inl e \<Rightarrow> (Inl (VaultCorrupt ''set_slot_data''), p)
           | Inr p \<Rightarrow> export_named A V S doc slots p))"

definition vault_to_embedded ::
  "'d automerge \<Rightarrow> 'v serde_value \<Rightarrow> 'v store_json \<Rightarrow> bool \<Rightarrow> vault \<Rightarrow> u64 \<Rightarrow> disk \<Rightarrow> poid \<Rightarrow>
   (vault_error + unit) \<times> poid" where
  "vault_to_embedded A V S read_fails vt quota d p =
     (case instance_id_of p of
        None \<Rightarrow> (Inl (VaultCorrupt ''a vault-mode container without instance.id has no vault entry''), p)
      | Some i \<Rightarrow>
          (case open_instance A read_fails vt i quota d of
             Inl e \<Rightarrow> (Inl e, p)
           | Inr vi \<Rightarrow>
               let doc = vi_doc vi; p = convert_storage_mode Embedded p in
               sbind (case export_slot A V S doc default_slot of
                        Inl e \<Rightarrow> (Inl e, p)
                      | Inr None \<Rightarrow> (Inr (), p)
                      | Inr (Some json) \<Rightarrow> (Inr (), set_data json p)) (\<lambda>_ p.
               sbind (export_named A V S doc (doc_slots A doc) p) (\<lambda>_ p.
                 let current = current_slot A doc in
                 (Inr (), if current \<noteq> default_slot then set_current_slot_pointer current p else p)))))"

section \<open>What the conversion to the vault leaves behind\<close>

lemma seed_entries_frame:
  "seed_entries A V slot es vi = (r, vi') \<Longrightarrow> vi_path vi' = vi_path vi \<and> vi_id vi' = vi_id vi"
proof (induction es arbitrary: vi)
  case (Cons e es)
  obtain key v where e: "e = (key, v)" by (cases e)
  obtain r1 vi1 where k: "instance_kv_set A V slot key v vi = (r1, vi1)" by (cases "instance_kv_set A V slot key v vi")
  then have "vi_path vi1 = vi_path vi \<and> vi_id vi1 = vi_id vi"
    by (auto simp: instance_kv_set_def Let_def split: option.splits if_splits prod.splits)
  with Cons e k show ?case by (cases r1) auto
qed simp

lemma seed_slot_frame:
  "seed_slot A V S slot bytes vi = (r, vi') \<Longrightarrow> vi_path vi' = vi_path vi \<and> vi_id vi' = vi_id vi"
  by (auto simp: seed_slot_def dest: seed_entries_frame split: option.splits)

lemma seed_slots_frame:
  "seed_slots A V S ss vi = (r, vi') \<Longrightarrow> vi_path vi' = vi_path vi \<and> vi_id vi' = vi_id vi"
proof (induction ss arbitrary: vi)
  case (Cons s ss)
  obtain name bytes where s: "s = (name, bytes)" by (cases s)
  obtain r1 vi1 where k: "seed_slot A V S name bytes vi = (r1, vi1)" by (cases "seed_slot A V S name bytes vi")
  with seed_slot_frame [OF k] Cons s show ?case by (cases r1) auto
qed simp

lemma seed_instance_frame:
  assumes "seed_instance A V S p vi = (r, vi')"
  shows "vi_path vi' = vi_path vi \<and> vi_id vi' = vi_id vi"
proof -
  let ?d = "case data_of p of Some bytes \<Rightarrow> seed_slot A V S default_slot bytes vi | None \<Rightarrow> (Inr (), vi)"
  obtain r1 vi1 where d: "?d = (r1, vi1)" by (cases ?d)
  then have f1: "vi_path vi1 = vi_path vi \<and> vi_id vi1 = vi_id vi"
    by (auto dest: seed_slot_frame split: option.splits)
  obtain r2 vi2 where n: "seed_slots A V S (named_slots p) vi1 = (r2, vi2)"
    by (cases "seed_slots A V S (named_slots p) vi1")
  note f2 = seed_slots_frame [OF n]
  show ?thesis
    using assms d n f1 f2 by (cases r1; cases r2) (auto simp: seed_instance_def split: option.splits prod.splits)
qed

lemma instance_name_not_temp:
  "uuid_text i @ ''.automerge'' \<noteq> ''.tmp-'' @ show_nat pid @ ''-'' @ show_nat sequence"
proof
  assume "uuid_text i @ ''.automerge'' = ''.tmp-'' @ show_nat pid @ ''-'' @ show_nat sequence"
  then have "last (uuid_text i @ ''.automerge'') = last (''.tmp-'' @ show_nat pid @ ''-'' @ show_nat sequence)"
    by (rule arg_cong)
  then have "last (show_nat sequence) = CHR ''e''" by simp
  moreover have "last (show_nat sequence) \<in> set (show_nat sequence)" by simp
  ultimately have "is_ascii_digit (CHR ''e'')" using set_show_nat by metis
  then show False by (simp add: is_ascii_digit_def)
qed

lemma flush_instance_done:
  assumes "flush_instance A f pid sequence vi d = (Inr (), vi', d')" "vi_path vi = instance_path vt i"
  shows "d' = d(instance_path vt i \<mapsto> fst (doc_save A (vi_doc vi)))"
proof -
  obtain bytes doc where s: "doc_save A (vi_doc vi) = (bytes, doc)" by (cases "doc_save A (vi_doc vi)")
  obtain r d1 where w: "atomic_write f pid sequence (instance_path vt i) bytes d = (r, d1)"
    by (cases "atomic_write f pid sequence (instance_path vt i) bytes d")
  from assms s w have "r = Inr ()" "d' = d1"
    by (auto simp: flush_instance_def result_simps)
  with w have w: "atomic_write f pid sequence (instance_path vt i) bytes d = (Inr (), d')" by simp
  have "instance_path vt i \<noteq> temp_path_in pid sequence (butlast (instance_path vt i))"
    using instance_name_not_temp by (simp add: instance_path_def temp_path_in_def)
  from atomic_write_done [OF w this] s show ?thesis by simp
qed

lemma open_instance_fields:
  assumes "open_instance A read_fails vt i quota d = Inr vi"
  shows "vi_path vi = instance_path vt i" "vi_quota vi = quota"
    "vi_doc vi = am_new A \<or> (\<exists>bytes. d (instance_path vt i) = Some bytes \<and> am_load A bytes = Inr (vi_doc vi))"
  using assms
  by (auto simp: open_instance_def result_simps doc_load_def doc_new_def Let_def split: option.splits if_splits)

lemma embedded_to_vault_done:
  assumes "embedded_to_vault A V S f read_fails pid sequence fresh vt quota (p, d) = (Inr i, p', d')"
  obtains vi vi1 where "i = (case instance_id_of p of Some i \<Rightarrow> i | None \<Rightarrow> fresh)"
    "open_instance A read_fails vt i quota d = Inr vi" "seed_instance A V S p vi = (Inr (), vi1)"
    "p' = convert_storage_mode Vault (set_instance_id i p)"
    "d' = d(instance_path vt i \<mapsto> fst (doc_save A (vi_doc vi1)))"
proof -
  define j where "j = (case instance_id_of p of Some i \<Rightarrow> i | None \<Rightarrow> fresh)"
  note run = assms [unfolded embedded_to_vault_def prod.case Let_def, folded j_def]
  obtain vi where o: "open_instance A read_fails vt j quota d = Inr vi"
    using run by (cases "open_instance A read_fails vt j quota d") auto
  obtain r1 vi1 where s: "seed_instance A V S p vi = (r1, vi1)" by (cases "seed_instance A V S p vi")
  have r1: "r1 = Inr ()" using run o s by (cases r1) auto
  obtain r2 vi2 d2 where fl: "flush_instance A f pid sequence vi1 d = (r2, vi2, d2)"
    by (cases "flush_instance A f pid sequence vi1 d") auto
  have r2: "r2 = Inr ()" using run o s r1 fl by (cases r2) auto
  have res: "i = j" "p' = convert_storage_mode Vault (set_instance_id j p)" "d' = d2"
    using run o s r1 fl r2 by auto
  have "vi_path vi1 = instance_path vt j"
    using seed_instance_frame [OF s] open_instance_fields(1) [OF o] by simp
  from flush_instance_done [OF fl [unfolded r2] this] that [of vi vi1] o s r1 res j_def show ?thesis by simp
qed

text \<open>Leaving embedded storage.\<close>

lemma leave_embedded_files:
  assumes "case m_storage (c_manifest p) of Some s \<Rightarrow> s_mode s = Embedded | None \<Rightarrow> True"
  shows "c_files (convert_storage_mode Vault (set_instance_id i p)) = bt_retain (\<lambda>k _. \<not> is_state_path k) (c_files p)"
proof -
  let ?q = "set_instance_id i p"
  have q: "m_storage (c_manifest ?q) = m_storage (c_manifest p)" "c_files ?q = c_files p"
    by (simp_all add: set_instance_id_def)
  have "(case m_storage (c_manifest p) of Some s \<Rightarrow> s_mode s | None \<Rightarrow> s_mode storage_default) = Embedded"
    using assms by (auto simp: storage_default_def split: option.splits)
  then have "convert_storage_mode Vault ?q = remove_state_trees (storage_mut (\<lambda>s. s\<lparr>s_mode := Vault\<rparr>) ?q)"
    unfolding convert_storage_mode_def q(1) Let_def by simp
  then show ?thesis by (simp add: remove_state_trees_def is_state_path_def q(2))
qed

text \<open>
  A container that leaves embedded storage for the vault keeps no file of its state trees, whatever it
  is, while the vault gains only the instance's key-value document: a SQL database or a protected
  blob of the container is dropped and reaches neither the vault's SQL store nor any other file. The
  program's files stay, and the instance has the id the vault is keyed by.
\<close>

theorem conversion_to_vault_drops_other_state:
  assumes "embedded_to_vault A V S f read_fails pid sequence fresh vt quota (p, d) = (Inr i, p', d')"
    and "case m_storage (c_manifest p) of Some s \<Rightarrow> s_mode s = Embedded | None \<Rightarrow> True"
  shows "file_of p' k = (if is_state_path k then None else file_of p k) \<and>
    sql_data p' = None \<and> protected_blob p' = None \<and> instance_id_of p' = Some i \<and>
    map_option s_mode (m_storage (c_manifest p')) = Some Vault \<and>
    (d' q = d q \<or> q = instance_path vt i) \<and> sql_load False vt j slot d' = sql_load False vt j slot d"
proof -
  obtain vi vi1 where "i = (case instance_id_of p of Some i \<Rightarrow> i | None \<Rightarrow> fresh)"
    "open_instance A read_fails vt i quota d = Inr vi" "seed_instance A V S p vi = (Inr (), vi1)"
    and p': "p' = convert_storage_mode Vault (set_instance_id i p)"
    and d': "d' = d(instance_path vt i \<mapsto> fst (doc_save A (vi_doc vi1)))"
    by (rule embedded_to_vault_done [OF assms(1)])
  have "c_files p' = bt_retain (\<lambda>k _. \<not> is_state_path k) (c_files p)"
    unfolding p' by (simp add: leave_embedded_files [OF assms(2)])
  then have get: "file_of p' k = (if is_state_path k then None else file_of p k)" for k
    by (simp add: file_of_def bt_get_retain_key)
  have "instance_id_of p' = Some i" "map_option s_mode (m_storage (c_manifest p')) = Some Vault"
    by (simp_all add: p' convert_storage_mode_def storage_mut_def remove_state_trees_def set_instance_id_def
        instance_id_of_def Let_def split: option.split)
  moreover have "sql_load False vt j slot d' = sql_load False vt j slot d"
    using sql_path_not_instance [of vt j slot i] by (simp add: d' sql_load_def)
  moreover have "sql_data p' = None" "protected_blob p' = None"
    using get [of data_sql] get [of data_store_enc]
    by (simp_all add: sql_data_def protected_blob_def is_state_path_def data_sql_def data_store_enc_def)
  ultimately show ?thesis using get d' by simp
qed

end
