(* ===== verification/Vault_Roundtrip.thy ===== *)
theory Vault_Roundtrip
  imports Vault_Convert
begin

text \<open>
  The promise of \<open>poid-vault/src/convert.rs\<close>: a store moved to the vault and back is the same file, byte for
  byte, when it was written in the form the exporter writes.
\<close>

section \<open>Documents that hold texts only\<close>

definition text_doc :: "'d automerge \<Rightarrow> 'd \<Rightarrow> bool" where
  "text_doc A d \<longleftrightarrow>
     (\<forall>slot kv k x. kv_map A d slot = Some kv \<longrightarrow> am_get A d kv k = Inr (Some x) \<longrightarrow> (\<exists>s. x = AmStr s))"

lemma text_docD:
  "text_doc A d \<Longrightarrow> kv_map A d slot = Some kv \<Longrightarrow> am_get A d kv k = Inr (Some x) \<Longrightarrow> \<exists>s. x = AmStr s"
  unfolding text_doc_def by blast

lemma text_doc_same_values:
  assumes "same_values A objects d d'" "text_doc A d"
  shows "text_doc A d'"
  unfolding text_doc_def
proof (intro allI impI)
  fix slot kv k x
  assume kv: "kv_map A d' slot = Some kv" and get: "am_get A d' kv k = Inr (Some x)"
  show "\<exists>s. x = AmStr s"
  proof (cases "kv_map A d slot")
    case None
    with kv assms(1) have "am_get A d' kv = (\<lambda>_. Inr None)" unfolding same_values_def by blast
    with get show ?thesis by simp
  next
    case (Some kv0)
    with assms(1) have "kv_map A d' slot = Some kv0" "am_get A d' kv0 = am_get A d kv0"
      unfolding same_values_def by blast+
    with kv get have "am_get A d kv0 k = Inr (Some x)" by simp
    with Some show ?thesis by (rule text_docD [OF assms(2)])
  qed
qed

lemma text_doc_write:
  assumes "am_doc A objects d" "kv_map A d slot = Some kv" "text_doc A d"
    and upd: "am_get A d' = (am_get A d)(kv := (am_get A d kv)(key := Inr (Some (AmStr raw))))"
  shows "text_doc A d'"
  unfolding text_doc_def
proof (intro allI impI)
  fix t kv' k x
  assume kv': "kv_map A d' t = Some kv'" and get: "am_get A d' kv' k = Inr (Some x)"
  from kv_write(1) [OF assms(1,2) upd] kv' have t: "kv_map A d t = Some kv'" by simp
  show "\<exists>s. x = AmStr s"
  proof (cases "kv' = kv \<and> k = key")
    case True
    with get upd show ?thesis by auto
  next
    case False
    with get upd have "am_get A d kv' k = Inr (Some x)" by (auto split: if_splits)
    with t show ?thesis by (rule text_docD [OF assms(3)])
  qed
qed

text \<open>One entry, as the conversion writes it: within the quota, into a slot.\<close>

definition values_doc :: "'d automerge \<Rightarrow> ('d \<Rightarrow> objid set) \<Rightarrow> 'd \<Rightarrow> bool" where
  "values_doc A objects d \<longleftrightarrow> am_doc A objects d \<and> text_doc A d"

lemma instance_kv_set_stores:
  assumes ok: "automerge_ok A objects" and doc: "values_doc A objects (vi_doc vi)"
    and run: "instance_kv_set A V slot key v vi = (Inr (), vi')"
  shows "values_doc A objects (vi_doc vi') \<and> current_slot A (vi_doc vi') = current_slot A (vi_doc vi) \<and>
    (\<exists>raw. sv_to_string V v = Some raw \<and>
      kv_view A (vi_doc vi') = (kv_view A (vi_doc vi))(slot := (kv_view A (vi_doc vi) slot)(key \<mapsto> raw)))"
proof -
  note doc = doc [unfolded values_doc_def]
  obtain d' where k: "kv_set A V slot key v (vi_doc vi) = (Inr (), d')" "vi_doc vi' = d'"
    using run by (auto simp: instance_kv_set_def Let_def split: option.splits if_splits prod.splits)
  from ok conjunct1 [OF doc] k(1) show ?thesis
  proof (cases rule: kv_set_cases)
    case (stored raw d1 kv)
    note d1 = same_valuesD(1) [OF stored(3)]
    note W = kv_write [OF d1 stored(4,7)]
    have "text_doc A d'"
      by (rule text_doc_write [OF d1 stored(4) text_doc_same_values [OF stored(3) conjunct2 [OF doc]] stored(7)])
    moreover have "kv_view A d' = (kv_view A (vi_doc vi))(slot := (kv_view A (vi_doc vi) slot)(key \<mapsto> raw))"
      using W(2) kv_view_same_values [OF stored(3)] by (simp add: entry_text_def)
    moreover have "current_slot A d' = current_slot A (vi_doc vi)"
      using W(3) current_same_values [OF stored(3)] by simp
    ultimately show ?thesis using stored(2,5) k(2) by (simp add: values_doc_def)
  qed simp
qed

text \<open>A whole store.\<close>

lemma seed_entries_stores:
  assumes ok: "automerge_ok A objects"
  shows "values_doc A objects (vi_doc vi) \<Longrightarrow> bt_ok es \<Longrightarrow> seed_entries A V slot es vi = (Inr (), vi') \<Longrightarrow>
    values_doc A objects (vi_doc vi') \<and> current_slot A (vi_doc vi') = current_slot A (vi_doc vi) \<and>
    (\<forall>v\<in>snd ` set es. sv_to_string V v \<noteq> None) \<and>
    (\<forall>t. t \<noteq> slot \<longrightarrow> kv_view A (vi_doc vi') t = kv_view A (vi_doc vi) t) \<and>
    (\<forall>k. kv_view A (vi_doc vi') slot k =
       (case bt_get es k of Some v \<Rightarrow> sv_to_string V v | None \<Rightarrow> kv_view A (vi_doc vi) slot k))"
proof (induction es arbitrary: vi)
  case Nil
  then show ?case by simp
next
  case (Cons e es)
  obtain key v where e: "e = (key, v)" by (cases e)
  obtain r1 vi1 where k: "instance_kv_set A V slot key v vi = (r1, vi1)"
    by (cases "instance_kv_set A V slot key v vi")
  have r1: "r1 = Inr ()" using Cons.prems(3) e k by (cases r1) auto
  from Cons.prems(3) e k r1 have rest: "seed_entries A V slot es vi1 = (Inr (), vi')" by simp
  from instance_kv_set_stores [OF ok Cons.prems(1) k [unfolded r1]] obtain raw
    where S: "values_doc A objects (vi_doc vi1)" "current_slot A (vi_doc vi1) = current_slot A (vi_doc vi)"
      "sv_to_string V v = Some raw"
      "kv_view A (vi_doc vi1) = (kv_view A (vi_doc vi))(slot := (kv_view A (vi_doc vi) slot)(key \<mapsto> raw))"
    by blast
  have bt: "bt_ok es" "bt_get es key = None" using Cons.prems(2) e by (auto simp: bt_get_None_iff)
  note IH = Cons.IH [OF S(1) bt(1) rest]
  have "kv_view A (vi_doc vi') slot k =
      (case bt_get (e # es) k of Some v \<Rightarrow> sv_to_string V v | None \<Rightarrow> kv_view A (vi_doc vi) slot k)" for k
    using IH bt(2) S(3,4) by (cases "k = key") (simp_all add: e split: option.split)
  with IH S e show ?case by simp
qed

section \<open>Reading a slot back\<close>

text \<open>Values are written as a text that reads back as the value.\<close>

definition serde_value_ok :: "'v serde_value \<Rightarrow> bool" where
  "serde_value_ok V \<longleftrightarrow> (\<forall>v s. sv_to_string V v = Some s \<longrightarrow> sv_from_str V s = Some v)"

lemma kv_list_view:
  assumes "values_doc A objects d"
  shows "distinct (kv_list A d slot None)" "set (kv_list A d slot None) = dom (kv_view A d slot)"
proof -
  note doc = assms [unfolded values_doc_def]
  have "distinct (kv_list A d slot None) \<and> set (kv_list A d slot None) = dom (kv_view A d slot)"
  proof (cases "kv_map A d slot")
    case None
    then show ?thesis by (simp add: kv_list_def kv_view_none)
  next
    case (Some kv)
    note keys = am_docD(6,7) [OF conjunct1 [OF doc] kv_object [OF conjunct1 [OF doc] Some]]
    have "am_get A d kv k \<noteq> Inr None \<longleftrightarrow> kv_view A d slot k \<noteq> None" for k
    proof -
      obtain x where x: "am_get A d kv k = Inr x"
        using am_docD(2) [OF conjunct1 [OF doc] kv_object [OF conjunct1 [OF doc] Some]] by blast
      show ?thesis
      proof (cases x)
        case None
        with x Some show ?thesis by (simp add: kv_view_at entry_text_def)
      next
        case y: (Some y)
        from text_docD [OF conjunct2 [OF doc] Some] x y obtain s where "y = AmStr s" by blast
        with x y Some show ?thesis by (simp add: kv_view_at entry_text_def)
      qed
    qed
    with keys have "set (am_keys A d kv) = dom (kv_view A d slot)" by auto
    with keys(1) Some show ?thesis by (simp add: kv_list_def)
  qed
  then show "distinct (kv_list A d slot None)" "set (kv_list A d slot None) = dom (kv_view A d slot)" by blast+
qed

lemma kv_get_stored:
  assumes "serde_value_ok V" "sv_to_string V v = Some raw" "kv_view A d slot k = Some raw"
  shows "kv_get A V d slot k = Inr (Some v)"
proof -
  obtain kv where kv: "kv_map A d slot = Some kv"
    using assms(3) by (cases "kv_map A d slot") (auto simp: kv_view_def)
  with assms(3) have "am_get A d kv k = Inr (Some (AmStr raw))"
    by (auto simp: kv_view_def split: sum.splits option.splits am_value.splits)
  with kv assms(1,2) show ?thesis by (simp add: kv_get_def serde_value_ok_def)
qed

lemma export_entries_reads:
  assumes get: "\<And>k. k \<in> set ks \<Longrightarrow> \<exists>v. bt_get m k = Some v \<and> kv_get A V d slot k = Inr (Some v)"
    and "bt_ok m0"
  shows "\<exists>m1. export_entries A V d slot ks m0 = Inr m1 \<and> bt_ok m1 \<and>
    (\<forall>k. bt_get m1 k = (if k \<in> set ks then bt_get m k else bt_get m0 k))"
  using assms
proof (induction ks arbitrary: m0)
  case Nil
  then show ?case by simp
next
  case (Cons k ks)
  from Cons.prems(1) [of k] obtain v where v: "bt_get m k = Some v" "kv_get A V d slot k = Inr (Some v)" by auto
  have "\<exists>m1. export_entries A V d slot ks (bt_insert k v m0) = Inr m1 \<and> bt_ok m1 \<and>
      (\<forall>j. bt_get m1 j = (if j \<in> set ks then bt_get m j else bt_get (bt_insert k v m0) j))"
    by (rule Cons.IH) (use Cons.prems in simp_all)
  then obtain m1 where m1: "export_entries A V d slot ks (bt_insert k v m0) = Inr m1" "bt_ok m1"
    "\<And>j. bt_get m1 j = (if j \<in> set ks then bt_get m j else bt_get (bt_insert k v m0) j)" by blast
  have "bt_get m1 j = (if j \<in> set (k # ks) then bt_get m j else bt_get m0 j)" for j
    using m1(3) [of j] v(1) by simp
  with m1(1,2) v(2) show ?case by simp
qed

text \<open>A slot that holds the values of a map exports as the pretty form of that map.\<close>

lemma export_slot_reads:
  assumes doc: "values_doc A objects d" and V: "serde_value_ok V" and m: "bt_ok m"
    and writable: "\<forall>v\<in>snd ` set m. sv_to_string V v \<noteq> None"
    and view: "\<forall>k. kv_view A d slot k = (case bt_get m k of Some v \<Rightarrow> sv_to_string V v | None \<Rightarrow> None)"
    and pretty: "sj_to_vec_pretty S m = Some out"
  shows "export_slot A V S d slot = Inr (if m = [] then None else Some (out @ [10]))"
proof -
  let ?ks = "kv_list A d slot None"
  have raw: "\<exists>raw. sv_to_string V v = Some raw" if "bt_get m k = Some v" for k v
  proof -
    from that have "v \<in> snd ` set m" by (force simp: bt_get_def dest: map_of_SomeD)
    with writable show ?thesis by auto
  qed
  have mem: "k \<in> set ?ks \<longleftrightarrow> bt_get m k \<noteq> None" for k
    using kv_list_view(2) [OF doc, of slot] view raw [of k] by (auto simp: dom_def split: option.splits)
  show ?thesis
  proof (cases "m = []")
    case True
    with mem have "set ?ks = {}" by (simp add: set_eq_iff del: set_empty)
    then have "?ks = []" by (simp only: set_empty)
    with True show ?thesis by (simp add: export_slot_def)
  next
    case False
    then have "\<exists>k. bt_get m k \<noteq> None" by (cases m) auto
    with mem have "?ks \<noteq> []" by fastforce
    have "\<exists>v. bt_get m k = Some v \<and> kv_get A V d slot k = Inr (Some v)" if k: "k \<in> set ?ks" for k
    proof -
      from k mem obtain v where v: "bt_get m k = Some v" by auto
      with raw obtain r where r: "sv_to_string V v = Some r" by blast
      with view v have "kv_view A d slot k = Some r" by simp
      from kv_get_stored [OF V r this] v show ?thesis by blast
    qed
    then have "\<exists>m1. export_entries A V d slot ?ks [] = Inr m1 \<and> bt_ok m1 \<and>
        (\<forall>k. bt_get m1 k = (if k \<in> set ?ks then bt_get m k else bt_get [] k))"
      by (intro export_entries_reads) simp_all
    then obtain m1 where m1: "export_entries A V d slot ?ks [] = Inr m1" "bt_ok m1"
      "\<forall>k. bt_get m1 k = (if k \<in> set ?ks then bt_get m k else bt_get [] k)" by blast
    have "bt_get m1 k = bt_get m k" for k using m1(3) mem [of k] by auto
    then have "m1 = m" by (intro bt_ext m1(2) m)
    with m1(1) \<open>?ks \<noteq> []\<close> False pretty show ?thesis by (simp add: export_slot_def Let_def)
  qed
qed

lemma export_slot_empty:
  assumes "values_doc A objects d" "kv_view A d slot = Map.empty"
  shows "export_slot A V S d slot = Inr None"
proof -
  have "set (kv_list A d slot None) = {}" using kv_list_view(2) [OF assms(1), of slot] assms(2) by simp
  then have "kv_list A d slot None = []" by simp
  then show ?thesis by (simp add: export_slot_def)
qed

lemma export_named_none:
  assumes "values_doc A objects d" "\<And>t. t \<noteq> default_slot \<Longrightarrow> kv_view A d t = Map.empty"
  shows "export_named A V S d slots p = (Inr (), p)"
proof (induction slots)
  case (Cons t slots)
  have "export_slot A V S d t = Inr None" if "t \<noteq> default_slot"
    by (rule export_slot_empty [OF assms(1) assms(2) [OF that]])
  with Cons show ?case by simp
qed simp

section \<open>There and back\<close>

text \<open>A new document is empty, and a saved document is read back with what it holds.\<close>

definition new_doc_law :: "'d automerge \<Rightarrow> ('d \<Rightarrow> objid set) \<Rightarrow> bool" where
  "new_doc_law A objects \<longleftrightarrow> am_doc A objects (am_new A) \<and> (\<forall>k. am_get A (am_new A) am_root k = Inr None)"

definition save_law :: "'d automerge \<Rightarrow> ('d \<Rightarrow> objid set) \<Rightarrow> bool" where
  "save_law A objects \<longleftrightarrow> (\<forall>d. am_doc A objects d \<longrightarrow>
     (\<exists>d'. am_load A (fst (am_save A d)) = Inr d' \<and> am_doc A objects d' \<and> am_get A d' = am_get A d))"

lemma kv_map_get_cong: "am_get A d' = am_get A d \<Longrightarrow> kv_map A d' slot = kv_map A d slot"
  by (simp add: kv_map_def get_map_def)

lemma new_doc_empty:
  assumes "new_doc_law A objects"
  shows "values_doc A objects (am_new A)" "kv_view A (am_new A) slot = Map.empty" "current_slot A (am_new A) = default_slot"
proof -
  have m: "kv_map A (am_new A) t = None" for t using assms by (simp add: new_doc_law_def kv_map_def get_map_def)
  then show "kv_view A (am_new A) slot = Map.empty" by (rule kv_view_none)
  show "values_doc A objects (am_new A)" using assms m by (simp add: values_doc_def text_doc_def new_doc_law_def)
  show "current_slot A (am_new A) = default_slot" using assms by (simp add: new_doc_law_def current_slot_def)
qed

lemma reload_doc:
  assumes "save_law A objects" "values_doc A objects d"
  obtains d' where "am_load A (fst (am_save A d)) = Inr d'" "values_doc A objects d'"
    "kv_view A d' = kv_view A d" "current_slot A d' = current_slot A d"
proof -
  from assms obtain d' where d': "am_load A (fst (am_save A d)) = Inr d'" "am_doc A objects d'"
    "am_get A d' = am_get A d" unfolding save_law_def values_doc_def by blast
  note m = kv_map_get_cong [OF d'(3)]
  have "values_doc A objects d'" using assms(2) d'(2,3) m by (simp add: values_doc_def text_doc_def)
  moreover have "kv_view A d' = kv_view A d" by (intro ext) (simp only: kv_view_def m d'(3))
  moreover have "current_slot A d' = current_slot A d" by (simp add: current_slot_def d'(3))
  ultimately show ?thesis using that d'(1) by blast
qed

text \<open>The way out: what the vault's document holds when only the default slot was seeded.\<close>

lemma vault_to_embedded_default:
  assumes o: "open_instance A False vt i quota d = Inr vi" and doc: "values_doc A objects (vi_doc vi)"
    and id: "instance_id_of p = Some i" and cur: "current_slot A (vi_doc vi) = default_slot"
    and other: "\<And>t. t \<noteq> default_slot \<Longrightarrow> kv_view A (vi_doc vi) t = Map.empty"
    and ex: "export_slot A V S (vi_doc vi) default_slot = Inr x"
  shows "vault_to_embedded A V S False vt quota d p =
    (Inr (), case x of None \<Rightarrow> convert_storage_mode Embedded p
      | Some json \<Rightarrow> set_data json (convert_storage_mode Embedded p))"
  using o id cur ex
  by (cases x) (simp_all add: vault_to_embedded_def Let_def export_named_none [OF doc other])

lemma enter_embedded_files [simp]: "c_files (convert_storage_mode Embedded p) = c_files p"
  by (simp add: convert_storage_mode_def storage_mut_def Let_def)

lemma enter_embedded_mode: "map_option s_mode (m_storage (c_manifest (convert_storage_mode Embedded p))) = Some Embedded"
  by (simp add: convert_storage_mode_def storage_mut_def Let_def)

lemma set_data_manifest [simp]: "c_manifest (set_data json p) = c_manifest p"
  by (simp add: set_data_def put_file_def)


section \<open>Both conversions on an example\<close>

lemma replica_new_doc_law: "new_doc_law replica_engine replica_objects"
  using replica_new_doc by (simp add: new_doc_law_def replica_get_def replica_new_def am_root_def)

lemma replica_save_law: "save_law replica_engine replica_objects"
  unfolding save_law_def replica_doc
proof (intro allI impI)
  fix d
  assume d: "replica_ok d"
  obtain d' where d': "replica_load (replica_save d) = Inr d'" "rp_next d' = rp_next d"
    "\<forall>p<rp_next d. rp_props d' p = rp_props d p" using replica_load_save by blast
  from replica_get_cong [OF d'(2,3)] d d'(1)
  show "\<exists>d'. am_load replica_engine (fst (am_save replica_engine d)) = Inr d' \<and> replica_ok d' \<and>
      am_get replica_engine d' = am_get replica_engine d" by simp
qed

text \<open>A container whose store holds one key, and a reader of that store.\<close>

definition one_key_json :: "string store_json" where
  "one_key_json =
     \<lparr>sj_from_slice = (\<lambda>bytes. if bytes = [1, 10] then Some (Some [(''k'', ''v'')]) else None),
      sj_to_vec_pretty = (\<lambda>m. if m = [(''k'', ''v'')] then Some [1] else None)\<rparr>"

definition stored_poid :: poid where
  "stored_poid = \<lparr>c_manifest = new_app ''com.example.x'' ''X'' ''1.0.0'' ''app/i'',
     c_files = [(''app/i'', [1]), (data_sql, [9]), (data_store, [1, 10])]\<rparr>"

definition stored_moved :: "(vault_error + uuid) \<times> poid \<times> disk" where
  "stored_moved = embedded_to_vault replica_engine text_values one_key_json no_faults False 1 1 7
     \<lparr>vt_root = [''v'']\<rparr> 100 (stored_poid, Map.empty)"

lemma stored_moved_ok: "fst stored_moved = Inr 7"
  by code_simp

lemma stored_moved_run:
  obtains p' d' where "embedded_to_vault replica_engine text_values one_key_json no_faults False 1 1 7
     \<lparr>vt_root = [''v'']\<rparr> 100 (stored_poid, Map.empty) = (Inr 7, p', d')"
  using stored_moved_ok by (cases stored_moved) (auto simp: stored_moved_def)

lemma stored_poid_simps:
  "case m_storage (c_manifest stored_poid) of Some s \<Rightarrow> s_mode s = Embedded | None \<Rightarrow> True" "data_of stored_poid = Some ([1] @ [10])" "sql_data stored_poid = Some [9]"
  "named_slots stored_poid = []" "file_of stored_poid ''slots/current'' = None"
  by code_simp+


theorem conversion_to_vault_drops_other_state_witness:
  "\<exists>p' d'. embedded_to_vault replica_engine text_values one_key_json no_faults False 1 1 7
       \<lparr>vt_root = [''v'']\<rparr> 100 (stored_poid, Map.empty) = (Inr 7, p', d') \<and>
     sql_data stored_poid = Some [9] \<and> sql_data p' = None \<and> sql_load False \<lparr>vt_root = [''v'']\<rparr> 7 '''' d' = Inr None"
proof -
  obtain p' d' where run: "embedded_to_vault replica_engine text_values one_key_json no_faults False 1 1 7
     \<lparr>vt_root = [''v'']\<rparr> 100 (stored_poid, Map.empty) = (Inr 7, p', d')" by (rule stored_moved_run)
  have "sql_load False \<lparr>vt_root = [''v'']\<rparr> 7 '''' Map.empty = Inr None" by (simp add: sql_load_def)
  with conversion_to_vault_drops_other_state [OF run stored_poid_simps(1), of _ _ 7 "''''"] run stored_poid_simps(3)
  show ?thesis by auto
qed

end
