(* ===== verification/Vault_Index.thy ===== *)
theory Vault_Index
  imports Vault_Store Manifests
begin

text \<open>
  \<open>poid-vault/src/index.rs\<close>: which paths address an instance's memory, and the classification of every
  open against it. The platform is a parameter: on Windows, what a path becomes when it is compared
  without case. A step relation over the index's operations has the invariant that a memory has more
  than one path only after the user chose to share it.
\<close>

section \<open>The index\<close>

record index_entry =
  ie_paths :: "path list"
  ie_file_hash :: string

datatype disposition = Register | Open | Moved | Copy path

record instance_index =
  ix_path :: path
  ix_entries :: "(uuid, index_entry) btree"

record index_file =
  xf_version :: u32
  xf_entries :: "(uuid, index_entry) btree"

text \<open>\<open>serde_json\<close> on the index file.\<close>

record index_json =
  xj_from_slice :: "byte list \<Rightarrow> index_file option"
  xj_to_vec_pretty :: "index_file \<Rightarrow> byte list option"

text \<open>\<open>None\<close>: paths are compared as they are. \<open>Some\<close>: a Windows build, and the lower-case text of a path.\<close>

type_synonym path_fold = "(path \<Rightarrow> string) option"

definition same_path :: "path_fold \<Rightarrow> path \<Rightarrow> path \<Rightarrow> bool" where
  "same_path fold_case a b = (case fold_case of Some low \<Rightarrow> low a = low b | None \<Rightarrow> a = b)"

definition index_load :: "index_json \<Rightarrow> bool \<Rightarrow> path \<Rightarrow> disk \<Rightarrow> vault_error + instance_index" where
  "index_load X read_fails root d =
     (let path = root @ [''index.json''] in
      rbind
        (case d path of
           Some raw \<Rightarrow>
             if read_fails then Inl (VaultIo ''read'')
             else rbind (ok_or (VaultCorrupt ''instance index is not readable'') (xj_from_slice X raw))
               (\<lambda>file. Inr (xf_entries file))
         | None \<Rightarrow> Inr [])
        (\<lambda>entries. Inr \<lparr>ix_path = path, ix_entries = entries\<rparr>))"

definition index_save ::
  "index_json \<Rightarrow> io_faults \<Rightarrow> nat \<Rightarrow> nat \<Rightarrow> instance_index \<Rightarrow> disk \<Rightarrow> (vault_error + unit) \<times> disk" where
  "index_save X f pid sequence ix d =
     (case xj_to_vec_pretty X \<lparr>xf_version = 1, xf_entries = ix_entries ix\<rparr> of
        None \<Rightarrow> (Inl (VaultCorrupt ''to_vec_pretty''), d)
      | Some json \<Rightarrow>
          let (r, d) = atomic_write f pid sequence (ix_path ix) json d in (map_err VaultIo r, d))"

definition entry :: "uuid \<Rightarrow> instance_index \<Rightarrow> index_entry option" where
  "entry i ix = bt_get (ix_entries ix) i"

definition resolve_open ::
  "path_fold \<Rightarrow> instance_index \<Rightarrow> uuid \<Rightarrow> path \<Rightarrow> (path \<Rightarrow> bool) \<Rightarrow> disposition" where
  "resolve_open F ix i opened path_exists =
     (case bt_get (ix_entries ix) i of
        None \<Rightarrow> Register
      | Some e \<Rightarrow>
          if list_ex (\<lambda>p. same_path F p opened) (ie_paths e) then Open
          else case find path_exists (ie_paths e) of
            Some q \<Rightarrow> Copy q
          | None \<Rightarrow> Moved)"

definition register :: "uuid \<Rightarrow> path \<Rightarrow> string \<Rightarrow> instance_index \<Rightarrow> instance_index" where
  "register i path hash ix =
     ix\<lparr>ix_entries := bt_insert i \<lparr>ie_paths = [path], ie_file_hash = hash\<rparr> (ix_entries ix)\<rparr>"

definition record_move :: "uuid \<Rightarrow> path \<Rightarrow> instance_index \<Rightarrow> instance_index" where
  "record_move i new_path ix =
     (case bt_get (ix_entries ix) i of
        None \<Rightarrow> ix
      | Some e \<Rightarrow> ix\<lparr>ix_entries := bt_insert i (e\<lparr>ie_paths := [new_path]\<rparr>) (ix_entries ix)\<rparr>)"

definition add_shared_path :: "path_fold \<Rightarrow> uuid \<Rightarrow> path \<Rightarrow> instance_index \<Rightarrow> instance_index" where
  "add_shared_path F i path ix =
     (case bt_get (ix_entries ix) i of
        None \<Rightarrow> ix
      | Some e \<Rightarrow>
          if list_ex (\<lambda>p. same_path F p path) (ie_paths e) then ix
          else ix\<lparr>ix_entries := bt_insert i (e\<lparr>ie_paths := ie_paths e @ [path]\<rparr>) (ix_entries ix)\<rparr>)"

definition remove_entry :: "uuid \<Rightarrow> instance_index \<Rightarrow> instance_index" where
  "remove_entry i ix = ix\<lparr>ix_entries := bt_remove i (ix_entries ix)\<rparr>"

definition hash_bytes :: "(byte list \<Rightarrow> byte list) \<Rightarrow> byte list \<Rightarrow> string" where
  "hash_bytes sha bytes = hex_text (sha bytes)"

section \<open>What the operations register\<close>

definition registered :: "instance_index \<Rightarrow> uuid \<Rightarrow> path list" where
  "registered ix i = (case entry i ix of None \<Rightarrow> [] | Some e \<Rightarrow> ie_paths e)"

lemma same_path_refl [simp]: "same_path F p p"
  by (simp add: same_path_def split: option.split)

lemma registered_register [simp]: "registered (register i p h ix) = (registered ix)(i := [p])"
  by (simp add: fun_eq_iff registered_def register_def entry_def)

lemma registered_record_move:
  "registered (record_move i p ix) = (if entry i ix = None then registered ix else (registered ix)(i := [p]))"
  by (auto simp: fun_eq_iff registered_def record_move_def entry_def split: option.split)

lemma registered_add_shared:
  "registered (add_shared_path F i p ix) =
     (if entry i ix = None \<or> list_ex (\<lambda>q. same_path F q p) (registered ix i) then registered ix
      else (registered ix)(i := registered ix i @ [p]))"
  by (auto simp: fun_eq_iff registered_def add_shared_path_def entry_def split: option.split)

lemma registered_remove [simp]: "registered (remove_entry i ix) = (registered ix)(i := [])"
  by (simp add: fun_eq_iff registered_def remove_entry_def entry_def)

lemma entry_ops [simp]:
  "entry j (register i p h ix) = None \<longleftrightarrow> j \<noteq> i \<and> entry j ix = None"
  "entry j (record_move i p ix) = None \<longleftrightarrow> entry j ix = None"
  "entry j (add_shared_path F i p ix) = None \<longleftrightarrow> entry j ix = None"
  "entry j (remove_entry i ix) = None \<longleftrightarrow> j = i \<or> entry j ix = None"
  by (auto simp: entry_def register_def record_move_def add_shared_path_def remove_entry_def split: option.splits)

lemma registered_None: "entry i ix = None \<Longrightarrow> registered ix i = []"
  by (simp add: registered_def)

lemma resolve_registered:
  "resolve_open F ix i p ex =
     (if entry i ix = None then Register
      else if list_ex (\<lambda>q. same_path F q p) (registered ix i) then Open
      else case find ex (registered ix i) of Some q \<Rightarrow> Copy q | None \<Rightarrow> Moved)"
  by (auto simp: resolve_open_def registered_def entry_def split: option.split)

section \<open>The index over time\<close>

text \<open>The operations in any order; the ids whose memory the user chose to share are remembered.\<close>

inductive index_step ::
  "path_fold \<Rightarrow> instance_index \<times> uuid set \<Rightarrow> instance_index \<times> uuid set \<Rightarrow> bool" for F where
  registered: "index_step F (ix, S) (register i p h ix, S - {i})"
| moved: "index_step F (ix, S) (record_move i p ix, S - {i})"
| shared: "index_step F (ix, S) (add_shared_path F i p ix, insert i S)"
| removed: "index_step F (ix, S) (remove_entry i ix, S - {i})"

inductive_cases index_stepE: "index_step F (ix, S) s"

definition index_inv :: "path_fold \<Rightarrow> instance_index \<times> uuid set \<Rightarrow> bool" where
  "index_inv F = (\<lambda>(ix, S). \<forall>i.
     (registered ix i = [] \<longrightarrow> entry i ix = None) \<and>
     sorted_wrt (\<lambda>a b. \<not> same_path F a b) (registered ix i) \<and>
     (i \<notin> S \<longrightarrow> length (registered ix i) \<le> 1))"

lemma index_step_inv: "index_step F s s' \<Longrightarrow> index_inv F s \<Longrightarrow> index_inv F s'"
proof (induction rule: index_step.induct)
  case (shared ix S i p)
  then show ?case
    by (auto simp: index_inv_def registered_add_shared sorted_wrt_append list_ex_iff)
next
  case (moved ix S i p)
  show ?case
  proof (cases "entry i ix = None")
    case True
    with moved registered_None [OF True] show ?thesis
      by (fastforce simp: index_inv_def registered_record_move)
  next
    case False
    with moved show ?thesis by (auto simp: index_inv_def registered_record_move)
  qed
qed (auto simp: index_inv_def)

abbreviation index_reaches :: "path_fold \<Rightarrow> instance_index \<times> uuid set \<Rightarrow> instance_index \<times> uuid set \<Rightarrow> bool" where
  "index_reaches F \<equiv> (index_step F)\<^sup>*\<^sup>*"

lemma index_reaches_inv:
  assumes "index_reaches F (\<lparr>ix_path = file, ix_entries = []\<rparr>, {}) s"
  shows "index_inv F s"
  using assms
proof (induction rule: rtranclp_induct)
  case base
  show ?case by (simp add: index_inv_def entry_def registered_def bt_get_def)
next
  case (step s s')
  from index_step_inv [OF step.hyps(2) step.IH] show ?case .
qed

text \<open>
  C23: However the index came about, a memory whose sharing the user never chose (or chose anew to move or
  fork since) has at most one registered path, no two registered paths of a memory are the same file,
  and an open is classified exactly: an unknown id is registered, a registered path opens, a new path
  is a copy of a registered path that exists, and is a move when none does.
\<close>

theorem memory_shared_only_by_choice:
  assumes "index_reaches F (\<lparr>ix_path = file, ix_entries = []\<rparr>, {}) (ix, S)"
  shows "(i \<notin> S \<longrightarrow> length (registered ix i) \<le> 1) \<and>
    sorted_wrt (\<lambda>a b. \<not> same_path F a b) (registered ix i) \<and>
    (case resolve_open F ix i p path_exists of
       Register \<Rightarrow> entry i ix = None
     | Open \<Rightarrow> \<exists>q\<in>set (registered ix i). same_path F q p
     | Copy q \<Rightarrow> q \<in> set (registered ix i) \<and> path_exists q \<and> \<not> same_path F q p
     | Moved \<Rightarrow> registered ix i \<noteq> [] \<and> (\<forall>q\<in>set (registered ix i). \<not> same_path F q p \<and> \<not> path_exists q))"
proof -
  from index_reaches_inv [OF assms] have inv: "registered ix i = [] \<longrightarrow> entry i ix = None"
    "sorted_wrt (\<lambda>a b. \<not> same_path F a b) (registered ix i)" "i \<notin> S \<longrightarrow> length (registered ix i) \<le> 1"
    by (simp_all add: index_inv_def)
  show ?thesis
  proof (cases "find path_exists (registered ix i)")
    case None
    then have "\<forall>q\<in>set (registered ix i). \<not> path_exists q" by (simp add: find_None_iff)
    with inv None show ?thesis by (auto simp: resolve_registered list_ex_iff)
  next
    case (Some q)
    then have "q \<in> set (registered ix i)" "path_exists q" by (auto simp: find_Some_iff)
    with inv Some show ?thesis by (auto simp: resolve_registered list_ex_iff)
  qed
qed

theorem memory_shared_only_by_choice_witness:
  "\<exists>ix. index_reaches None (\<lparr>ix_path = [''index.json''], ix_entries = []\<rparr>, {}) (ix, {}) \<and>
     length (registered ix 7) \<le> 1 \<and> resolve_open None ix 7 [''b''] (\<lambda>p. p = [''a'']) = Copy [''a'']"
proof -
  let ?e = "\<lparr>ix_path = [''index.json''], ix_entries = []\<rparr>"
  let ?ix = "register 7 [''a''] ''00'' ?e"
  have "index_step None (?e, {}) (?ix, {} - {7})" by (rule index_step.registered)
  then have r: "index_reaches None (?e, {}) (?ix, {})" by simp
  moreover have "resolve_open None ?ix 7 [''b''] (\<lambda>p. p = [''a'']) = Copy [''a'']" by code_simp
  ultimately show ?thesis using memory_shared_only_by_choice [OF r, of 7 "[''b'']" "\<lambda>p. p = [''a'']"] by blast
qed

text \<open>Once an open has been answered, the same path opens without a question.\<close>

lemma answered_open:
  "resolve_open F (register i p h ix) i p ex = Open"
  "entry i ix \<noteq> None \<Longrightarrow> resolve_open F (record_move i p ix) i p ex = Open"
  "entry i ix \<noteq> None \<Longrightarrow> resolve_open F (add_shared_path F i p ix) i p ex = Open"
  by (auto simp: resolve_registered registered_record_move registered_add_shared)

end
