(* ===== verification/Studio_State.thy ===== *)
theory Studio_State
  imports Container_Files Vault_Index Vault_Convert
begin

text \<open>
  The desktop application's shared state (\<open>apps/studio/src-tauri/src/state.rs\<close>, \<open>vault_state.rs\<close>): the
  documents of the open windows, the vault with its index, the open instances and the window each
  belongs to. What the application takes from the platform and from other crates is one record.
  Poisoned locks are not modelled: no thread of the model panics.
\<close>

section \<open>The environment\<close>

record studio_env =
  se_crates :: crates
  se_lossy :: "path \<Rightarrow> string"
  se_path_of :: "string \<Rightarrow> path"
  se_fold :: path_fold
  se_base64 :: "byte list \<Rightarrow> string"
  se_base64_decode :: "string \<Rightarrow> string + byte list"
  se_manifest_to_string :: "manifest \<Rightarrow> string + string"
  se_json_from_str :: "string \<Rightarrow> json option"
  se_json_pointer :: "json \<Rightarrow> string \<Rightarrow> json option"
  se_json_as_u64 :: "json \<Rightarrow> u64 option"
  se_index_json :: index_json

text \<open>What the operating system does in one call.\<close>

record studio_io =
  so_read_fails :: bool
  so_save_fails :: bool
  so_copy_fails :: bool
  so_index :: io_faults
  so_flush :: io_faults
  so_pid :: nat
  so_sequence :: nat

section \<open>Documents\<close>

record file_entry =
  fe_path :: string
  fe_data_b64 :: string

datatype document_dto =
  Rejected "string option" string string string
| Loaded (ld_file_name: string) (ld_path: string) (ld_manifest_json: string) (ld_signature: string)
    (ld_files: "file_entry list") (ld_copy_conflict: "string option")

type_synonym documents = "string \<rightharpoonup> document_dto"

definition documents_insert :: "string \<Rightarrow> document_dto \<Rightarrow> documents \<Rightarrow> documents" where
  "documents_insert label dto docs = docs(label \<mapsto> dto)"

definition documents_get :: "string \<Rightarrow> documents \<Rightarrow> document_dto option" where
  "documents_get label docs = docs label"

definition documents_remove :: "string \<Rightarrow> documents \<Rightarrow> documents" where
  "documents_remove label docs = docs(label := None)"

section \<open>The vault's state\<close>

record 'd vault_state =
  vs_vault :: vault
  vs_index :: instance_index
  vs_instances :: "uuid \<rightharpoonup> 'd vault_instance"
  vs_windows :: "string \<rightharpoonup> uuid"

definition vault_state_open ::
  "studio_env \<Rightarrow> studio_io \<Rightarrow> bool \<Rightarrow> path \<Rightarrow> disk \<Rightarrow> vault_error + 'd vault_state" where
  "vault_state_open E io dir_fails root d =
     rbind (vault_open dir_fails (root @ [''vault''])) (\<lambda>vt.
     rbind (index_load (se_index_json E) (so_read_fails io) (vt_root vt) d) (\<lambda>ix.
       Inr \<lparr>vs_vault = vt, vs_index = ix, vs_instances = Map.empty, vs_windows = Map.empty\<rparr>))"

text \<open>The index, changed in memory first and saved after every use, reading uses included.\<close>

definition with_index ::
  "studio_env \<Rightarrow> studio_io \<Rightarrow> (instance_index \<Rightarrow> 'a \<times> instance_index) \<Rightarrow> 'd vault_state \<Rightarrow> disk \<Rightarrow>
   (vault_error + 'a) \<times> 'd vault_state \<times> disk" where
  "with_index E io f vs d =
     (let (out, ix) = f (vs_index vs);
          (r, d) = index_save (se_index_json E) (so_index io) (so_pid io) (so_sequence io) ix d
      in (rbind r (\<lambda>_. Inr out), vs\<lparr>vs_index := ix\<rparr>, d))"

definition bind_window :: "string \<Rightarrow> uuid \<Rightarrow> 'd vault_state \<Rightarrow> 'd vault_state" where
  "bind_window label i vs = vs\<lparr>vs_windows := (vs_windows vs)(label \<mapsto> i)\<rparr>"

definition unbind_window :: "string \<Rightarrow> 'd vault_state \<Rightarrow> 'd vault_state" where
  "unbind_window label vs = vs\<lparr>vs_windows := (vs_windows vs)(label := None)\<rparr>"

definition window_instance_of :: "string \<Rightarrow> 'd vault_state \<Rightarrow> uuid option" where
  "window_instance_of label vs = vs_windows vs label"

text \<open>The open instance of an id, opened at first use with the quota of that use.\<close>

definition with_instance ::
  "'d automerge \<Rightarrow> studio_io \<Rightarrow> uuid \<Rightarrow> u64 \<Rightarrow>
   ('d vault_instance \<times> disk \<Rightarrow> (vault_error + 'a) \<times> 'd vault_instance \<times> disk) \<Rightarrow>
   'd vault_state \<times> disk \<Rightarrow> (vault_error + 'a) \<times> 'd vault_state \<times> disk" where
  "with_instance A io i quota f = (\<lambda>(vs, d).
     case (case vs_instances vs i of
             Some vi \<Rightarrow> Inr vi | None \<Rightarrow> open_instance A (so_read_fails io) (vs_vault vs) i quota d) of
       Inl e \<Rightarrow> (Inl e, vs, d)
     | Inr vi \<Rightarrow>
         let (r, vi, d) = f (vi, d) in (r, vs\<lparr>vs_instances := (vs_instances vs)(i \<mapsto> vi)\<rparr>, d))"

section \<open>What each touches\<close>

lemma with_index_result:
  assumes "with_index E io f vs d = (r, vs', d')"
  shows "vs_index vs' = snd (f (vs_index vs))" "vs_vault vs' = vs_vault vs" "vs_instances vs' = vs_instances vs"
    "vs_windows vs' = vs_windows vs" "r = Inr x \<Longrightarrow> x = fst (f (vs_index vs))"
  using assms by (auto simp: with_index_def Let_def result_simps split: prod.splits)

text \<open>Whether the index can be written does not depend on the rest.\<close>

definition index_saved :: "studio_env \<Rightarrow> studio_io \<Rightarrow> instance_index \<Rightarrow> disk \<Rightarrow> bool" where
  "index_saved E io ix d \<longleftrightarrow>
     is_ok (fst (index_save (se_index_json E) (so_index io) (so_pid io) (so_sequence io) ix d))"

lemma with_index_cases:
  assumes "with_index E io f vs d = (r, vs', d')"
  shows "index_saved E io (snd (f (vs_index vs))) d \<Longrightarrow> r = Inr (fst (f (vs_index vs)))"
    and "\<not> index_saved E io (snd (f (vs_index vs))) d \<Longrightarrow> \<exists>e. r = Inl e"
proof -
  obtain out ix where f: "f (vs_index vs) = (out, ix)" by (cases "f (vs_index vs)")
  obtain s d1 where s: "index_save (se_index_json E) (so_index io) (so_pid io) (so_sequence io) ix d = (s, d1)"
    by (cases "index_save (se_index_json E) (so_index io) (so_pid io) (so_sequence io) ix d")
  from assms f s have r: "r = rbind s (\<lambda>_. Inr out)" by (simp add: with_index_def)
  show "index_saved E io (snd (f (vs_index vs))) d \<Longrightarrow> r = Inr (fst (f (vs_index vs)))"
    using r f s by (auto simp: index_saved_def is_ok_iff)
  show "\<not> index_saved E io (snd (f (vs_index vs))) d \<Longrightarrow> \<exists>e. r = Inl e"
    using r f s by (cases s) (auto simp: index_saved_def)
qed

end
