(* ===== verification/Studio_Documents.thy ===== *)
theory Studio_Documents
  imports Studio_State
begin

text \<open>
  \<open>apps/studio/src-tauri/src/document.rs\<close>, and \<open>resolve_copy_conflict\<close> of \<open>commands.rs\<close>: opening a file in a
  window with the identity algorithm, and the user's answer when the file is a copy.
\<close>

section \<open>Opening a file\<close>

definition display_name :: "studio_env \<Rightarrow> path \<Rightarrow> string" where
  "display_name E path = se_lossy E (if path = [] then path else [last path])"

definition rejected :: "(poid_error \<Rightarrow> string) \<Rightarrow> poid_error \<Rightarrow> string \<Rightarrow> document_dto" where
  "rejected to_string e file_name = Rejected (conformance_code e) (code e) (to_string e) file_name"

definition storage_mode_of :: "poid \<Rightarrow> storage_mode" where
  "storage_mode_of p = (case m_storage (c_manifest p) of Some s \<Rightarrow> s_mode s | None \<Rightarrow> Embedded)"

definition instance_id :: "poid \<Rightarrow> uuid option" where
  "instance_id p = Option.bind (m_instance (c_manifest p)) i_id"

definition loaded_dto :: "studio_env \<Rightarrow> poid \<Rightarrow> path \<Rightarrow> string \<Rightarrow> string option \<Rightarrow> document_dto" where
  "loaded_dto E p path file_name conflict =
     (case se_manifest_to_string E (c_manifest p) of
        Inl e \<Rightarrow> Rejected None ''manifest-serialize'' e file_name
      | Inr json \<Rightarrow>
          Loaded file_name (se_lossy E path) json
            (case signature_status_of (se_crates E) p of Inr (SigValid _) \<Rightarrow> ''valid'' | _ \<Rightarrow> ''none'')
            (map (\<lambda>(k, bytes). \<lparr>fe_path = k, fe_data_b64 = se_base64 E bytes\<rparr>) (c_files p)) conflict)"

definition file_hash :: "studio_env \<Rightarrow> poid \<Rightarrow> string" where
  "file_hash E p = (case to_bytes (se_crates E) p of
     Inr bytes \<Rightarrow> hash_bytes (sha256 (se_crates E)) bytes | Inl _ \<Rightarrow> [])"

definition register_document ::
  "studio_env \<Rightarrow> studio_io \<Rightarrow> uuid \<Rightarrow> path \<Rightarrow> poid \<Rightarrow> 'd vault_state \<times> disk \<Rightarrow> 'd vault_state \<times> disk" where
  "register_document E io i path p = (\<lambda>(vs, d).
     snd (with_index E io (\<lambda>ix. ((), register i path (file_hash E p) ix)) vs d))"

text \<open>A file without an id: one is assigned, written back, and registered for a vault document.\<close>

definition assign_identity ::
  "studio_env \<Rightarrow> studio_io \<Rightarrow> uuid \<Rightarrow> path \<Rightarrow> poid \<Rightarrow> 'd vault_state \<times> disk \<Rightarrow> poid \<times> 'd vault_state \<times> disk" where
  "assign_identity E io fresh path p = (\<lambda>(vs, d).
     let mode = storage_mode_of p; p = set_instance_id fresh p in
     case save_path (se_crates E) (so_save_fails io) p path d of
       (Inl _, d) \<Rightarrow> (p, vs, d)
     | (Inr _, d) \<Rightarrow>
         if mode = Vault then (p, register_document E io fresh path p (vs, d)) else (p, vs, d))"

text \<open>A file with an id, when its memory is in the vault: the index decides, and an index that cannot be
  used lets the file open.\<close>

definition classify_identity ::
  "studio_env \<Rightarrow> studio_io \<Rightarrow> uuid \<Rightarrow> path \<Rightarrow> poid \<Rightarrow> 'd vault_state \<times> disk \<Rightarrow>
   string option \<times> 'd vault_state \<times> disk" where
  "classify_identity E io i path p = (\<lambda>(vs, d).
     let (r, vs, d) = with_index E io (\<lambda>ix. (resolve_open (se_fold E) ix i path (\<lambda>q. d q \<noteq> None), ix)) vs d in
     case (case r of Inr x \<Rightarrow> x | Inl _ \<Rightarrow> Open) of
       Register \<Rightarrow> (None, register_document E io i path p (vs, d))
     | Open \<Rightarrow> (None, vs, d)
     | Moved \<Rightarrow> (None, snd (with_index E io (\<lambda>ix. ((), record_move i path ix)) vs d))
     | Copy existing \<Rightarrow> (Some (se_lossy E existing), vs, d))"

definition load_document ::
  "studio_env \<Rightarrow> studio_io \<Rightarrow> (poid_error \<Rightarrow> string) \<Rightarrow> uuid \<Rightarrow> path \<Rightarrow> 'd vault_state \<times> disk \<Rightarrow>
   (document_dto \<times> uuid option) \<times> 'd vault_state \<times> disk" where
  "load_document E io to_string fresh path = (\<lambda>(vs, d).
     let file_name = display_name E path in
     case d path of
       None \<Rightarrow> ((rejected to_string (IoErr ''read'') file_name, None), vs, d)
     | Some bytes \<Rightarrow>
         if so_read_fails io then ((rejected to_string (IoErr ''read'') file_name, None), vs, d)
         else case open_poid (se_crates E) bytes of
           Inl e \<Rightarrow> ((rejected to_string e file_name, None), vs, d)
         | Inr p \<Rightarrow>
             (case instance_id p of
                None \<Rightarrow>
                  let (p, vs, d) = assign_identity E io fresh path p (vs, d)
                  in ((loaded_dto E p path file_name None, Some fresh), vs, d)
              | Some i \<Rightarrow>
                  let (conflict, vs, d) =
                    (if storage_mode_of p = Vault then classify_identity E io i path p (vs, d) else (None, vs, d))
                  in ((loaded_dto E p path file_name conflict, if conflict = None then Some i else None), vs, d)))"

section \<open>The answer to a copy\<close>

definition fork_copy ::
  "studio_env \<Rightarrow> studio_io \<Rightarrow> (poid_error \<Rightarrow> string) \<Rightarrow> (vault_error \<Rightarrow> string) \<Rightarrow> uuid \<Rightarrow> uuid \<Rightarrow> path \<Rightarrow> poid \<Rightarrow>
   'd vault_state \<times> disk \<Rightarrow> (string + uuid \<times> poid) \<times> 'd vault_state \<times> disk" where
  "fork_copy E io to_string vault_string i new_id path p = (\<lambda>(vs, d).
     let src = instance_path (vs_vault vs) i; dst = instance_path (vs_vault vs) new_id in
     if d src \<noteq> None \<and> so_copy_fails io then (Inl ''copy'', vs, d)
     else
       let d = (case d src of Some bytes \<Rightarrow> d(dst \<mapsto> bytes) | None \<Rightarrow> d); p = set_instance_id new_id p in
       case save_path (se_crates E) (so_save_fails io) p path d of
         (Inl e, d) \<Rightarrow> (Inl (to_string e), vs, d)
       | (Inr _, d) \<Rightarrow>
           let (r, vs, d) = with_index E io (\<lambda>ix. ((), register new_id path (file_hash E p) ix)) vs d
           in (rbind (map_err vault_string r) (\<lambda>_. Inr (new_id, p)), vs, d))"

definition answer_copy ::
  "studio_env \<Rightarrow> studio_io \<Rightarrow> (poid_error \<Rightarrow> string) \<Rightarrow> (vault_error \<Rightarrow> string) \<Rightarrow> string \<Rightarrow> uuid \<Rightarrow> uuid \<Rightarrow> path \<Rightarrow> poid \<Rightarrow>
   'd vault_state \<times> disk \<Rightarrow> (string + uuid \<times> poid) \<times> 'd vault_state \<times> disk" where
  "answer_copy E io to_string vault_string choice i new_id path p = (\<lambda>(vs, d).
     if choice = ''fork'' then fork_copy E io to_string vault_string i new_id path p (vs, d)
     else if choice = ''move'' then
       let (r, vs, d) = with_index E io (\<lambda>ix. ((), record_move i path ix)) vs d
       in (rbind (map_err vault_string r) (\<lambda>_. Inr (i, p)), vs, d)
     else if choice = ''share'' then
       let (r, vs, d) = with_index E io (\<lambda>ix. ((), add_shared_path (se_fold E) i path ix)) vs d
       in (rbind (map_err vault_string r) (\<lambda>_. Inr (i, p)), vs, d)
     else (Inl (''unknown copy resolution: '' @ choice), vs, d))"

definition resolve_copy_conflict ::
  "studio_env \<Rightarrow> studio_io \<Rightarrow> (poid_error \<Rightarrow> string) \<Rightarrow> (vault_error \<Rightarrow> string) \<Rightarrow> string \<Rightarrow> string \<Rightarrow> uuid \<Rightarrow>
   documents \<times> 'd vault_state \<times> disk \<Rightarrow> (string + document_dto) \<times> documents \<times> 'd vault_state \<times> disk" where
  "resolve_copy_conflict E io to_string vault_string label choice new_id = (\<lambda>(docs, vs, d).
     case documents_get label docs of
       None \<Rightarrow> (Inl ''no document is registered for this window'', docs, vs, d)
     | Some (Rejected _ _ _ _) \<Rightarrow> (Inl ''a rejected document has no copy conflict'', docs, vs, d)
     | Some (Loaded _ path _ _ _ _) \<Rightarrow>
         let path = se_path_of E path in
         (case (case d path of Some bytes \<Rightarrow> if so_read_fails io then Inl ''read'' else Inr bytes | None \<Rightarrow> Inl ''read'') of
            Inl e \<Rightarrow> (Inl e, docs, vs, d)
          | Inr bytes \<Rightarrow>
              (case open_poid (se_crates E) bytes of
                 Inl e \<Rightarrow> (Inl (to_string e), docs, vs, d)
               | Inr p \<Rightarrow>
                   (case instance_id p of
                      None \<Rightarrow> (Inl ''the document lost its instance id'', docs, vs, d)
                    | Some i \<Rightarrow>
                        (case answer_copy E io to_string vault_string choice i new_id path p (vs, d) of
                           (Inl e, vs, d) \<Rightarrow> (Inl e, docs, vs, d)
                         | (Inr (bound, p), vs, d) \<Rightarrow>
                             let vs = bind_window label bound vs;
                                 file_name = (if path = [] then [] else se_lossy E [last path]);
                                 refreshed = loaded_dto E p path file_name None
                             in (Inr refreshed, documents_insert label refreshed docs, vs, d))))))"

section \<open>Copies\<close>

text \<open>The index as the vault keeps it, in the vault's root.\<close>

definition index_in_vault :: "'d vault_state \<Rightarrow> bool" where
  "index_in_vault vs \<longleftrightarrow> ix_path (vs_index vs) = vt_root (vs_vault vs) @ [''index.json'']"

lemma classify_identity_cases:
  assumes "classify_identity E io i path p (vs, d) = (conflict, vs', d')"
  shows "conflict =
    (case resolve_open (se_fold E) (vs_index vs) i path (\<lambda>q. d q \<noteq> None) of
       Copy q \<Rightarrow> if index_saved E io (vs_index vs) d then Some (se_lossy E q) else None | _ \<Rightarrow> None)"
proof -
  let ?f = "\<lambda>ix. (resolve_open (se_fold E) ix i path (\<lambda>q. d q \<noteq> None), ix)"
  obtain r vs1 d1 where w: "with_index E io ?f vs d = (r, vs1, d1)" by (cases "with_index E io ?f vs d") auto
  note W = with_index_cases [OF w, simplified]
  show ?thesis
  proof (cases "index_saved E io (vs_index vs) d")
    case True
    with W(1) assms w show ?thesis
      by (cases "resolve_open (se_fold E) (vs_index vs) i path (\<lambda>q. d q \<noteq> None)")
        (auto simp: classify_identity_def split: prod.splits)
  next
    case False
    from W(2) [OF this] obtain e where "r = Inl e" by blast
    with assms w False show ?thesis
      by (auto simp: classify_identity_def split: disposition.split)
  qed
qed

text \<open>
  A file whose memory is in the vault is bound to that memory as soon as it is opened, except when it is
  a copy: its id is registered for other paths, one of which still exists. Then nothing is bound and
  the window is told which file it copies, provided the index could be saved. When it could not, the
  copy is opened on the original's memory without a question.
\<close>

theorem copies_are_bound_only_when_the_index_fails:
  assumes "d path = Some bytes" "\<not> so_read_fails io" "open_poid (se_crates E) bytes = Inr p"
    and "instance_id p = Some i" "storage_mode_of p = Vault"
    and "load_document E io to_string fresh path (vs, d) = ((dto, bind), vs', d')"
  shows "case resolve_open (se_fold E) (vs_index vs) i path (\<lambda>q. d q \<noteq> None) of
      Copy q \<Rightarrow>
        if index_saved E io (vs_index vs) d
        then bind = None \<and> dto = loaded_dto E p path (display_name E path) (Some (se_lossy E q))
        else bind = Some i \<and> dto = loaded_dto E p path (display_name E path) None
    | _ \<Rightarrow> bind = Some i \<and> dto = loaded_dto E p path (display_name E path) None"
proof -
  obtain conflict vs1 d1 where c: "classify_identity E io i path p (vs, d) = (conflict, vs1, d1)"
    by (cases "classify_identity E io i path p (vs, d)") auto
  have "dto = loaded_dto E p path (display_name E path) conflict"
    "bind = (if conflict = None then Some i else None)"
    using assms c by (simp_all add: load_document_def)
  with classify_identity_cases [OF c] show ?thesis
    by (auto split: disposition.split)
qed

section \<open>Both on an example\<close>

text \<open>A vault document of instance 7, the crates that read it, and an index that can or cannot be saved.\<close>

definition vault_manifest :: manifest where
  "vault_manifest = c_manifest (set_instance_id 7 (convert_storage_mode Vault sample_poid))"

definition sample_env :: "bool \<Rightarrow> studio_env" where
  "sample_env writable =
     \<lparr>se_crates = reader_crates_for vault_manifest, se_lossy = concat, se_path_of = (\<lambda>s. [s]), se_fold = None,
      se_base64 = string_of, se_base64_decode = (\<lambda>s. Inr (bytes_of s)),
      se_manifest_to_string = (\<lambda>_. Inr ''{}''), se_json_from_str = (\<lambda>_. None), se_json_pointer = (\<lambda>_ _. None),
      se_json_as_u64 = (\<lambda>_. None),
      se_index_json = \<lparr>xj_from_slice = (\<lambda>_. None), xj_to_vec_pretty = (\<lambda>_. if writable then Some [1] else None)\<rparr>\<rparr>"

definition sample_io :: studio_io where
  "sample_io = \<lparr>so_read_fails = False, so_save_fails = False, so_copy_fails = False, so_index = no_faults,
     so_flush = no_faults, so_pid = 1, so_sequence = 1\<rparr>"

definition sample_state :: "replica vault_state" where
  "sample_state = \<lparr>vs_vault = \<lparr>vt_root = [''v'']\<rparr>,
     vs_index = register 7 [''a''] ''00'' \<lparr>ix_path = [''v'', ''index.json''], ix_entries = []\<rparr>,
     vs_instances = Map.empty, vs_windows = Map.empty\<rparr>"

lemma moved_manifest_ok:
  assumes "manifest_ok (c_manifest p)" "mode \<noteq> Connection"
  shows "manifest_ok (c_manifest (set_instance_id i (convert_storage_mode mode p)))"
proof -
  have "runnable_ok (c_manifest (set_instance_id i (convert_storage_mode mode p)))" if "runnable_ok (c_manifest p)"
    using that assms(2)
    by (auto simp: runnable_ok_def set_instance_id_def convert_storage_mode_def storage_mut_def
        remove_state_trees_def Let_def storage_ok_def)
  moreover have "data_ok (c_manifest (set_instance_id i (convert_storage_mode mode p)))" if "data_ok (c_manifest p)"
    using that
    by (auto simp: data_ok_def set_instance_id_def convert_storage_mode_def storage_mut_def remove_state_trees_def Let_def)
  ultimately show ?thesis
    using assms(1)
    by (auto simp: manifest_ok_def set_instance_id_def convert_storage_mode_def storage_mut_def
        remove_state_trees_def Let_def)
qed

lemma vault_manifest_ok: "manifest_ok vault_manifest"
  unfolding vault_manifest_def by (rule moved_manifest_ok [OF sample_poid_manifest_ok]) simp

lemma vault_document_opens:
  "open_poid (reader_crates_for vault_manifest) sample_bytes =
    Inr \<lparr>c_manifest = vault_manifest, c_files = c_files sample_poid\<rparr>"
proof -
  have "type_rules vault_manifest (c_files sample_poid)"
    by (simp add: type_rules_def vault_manifest_def set_instance_id_def convert_storage_mode_def storage_mut_def
        remove_state_trees_def Let_def sample_poid_def new_app_def)
  from reader_opens_sample [OF vault_manifest_ok this] show ?thesis by (simp add: open_poid_def)
qed

text \<open>Opening a second file of instance 7 at path \<open>b\<close> while \<open>a\<close> exists.\<close>

definition two_files :: disk where
  "two_files = [[''a''] \<mapsto> sample_bytes, [''b''] \<mapsto> sample_bytes]"

theorem copies_are_bound_only_when_the_index_fails_witness:
  "snd (fst (load_document (sample_env True) sample_io (\<lambda>_. []) 9 [''b''] (sample_state, two_files))) = None \<and>
   snd (fst (load_document (sample_env False) sample_io (\<lambda>_. []) 9 [''b''] (sample_state, two_files))) = Some 7"
proof -
  let ?p = "\<lparr>c_manifest = vault_manifest, c_files = c_files sample_poid\<rparr>"
  have id: "instance_id ?p = Some 7" "storage_mode_of ?p = Vault"
    by (simp_all add: instance_id_def storage_mode_of_def vault_manifest_def set_instance_id_def
        convert_storage_mode_def storage_mut_def remove_state_trees_def Let_def split: option.split)
  have open_b: "two_files [''b''] = Some sample_bytes" "\<not> so_read_fails sample_io"
    "open_poid (se_crates (sample_env w)) sample_bytes = Inr ?p" for w
    using vault_document_opens by (simp_all add: two_files_def sample_io_def sample_env_def)
  have copy: "resolve_open (se_fold (sample_env w)) (vs_index sample_state) 7 [''b''] (\<lambda>q. two_files q \<noteq> None) = Copy [''a'']" for w
    by (simp add: resolve_open_def sample_state_def sample_env_def same_path_def two_files_def register_def)
  have saved: "index_saved (sample_env w) sample_io (vs_index sample_state) two_files = w" for w
    by (cases w) (simp_all add: index_saved_def index_save_def sample_env_def sample_io_def sample_state_def register_def
        atomic_write_def write_and_rename_def no_faults_def temp_path_in_def two_files_def Let_def)
  have "snd (fst (load_document (sample_env w) sample_io (\<lambda>_. []) 9 [''b''] (sample_state, two_files))) =
      (if w then None else Some 7)" (is "snd (fst ?l) = _") for w
  proof -
    obtain dto bind vs' d' where l: "?l = ((dto, bind), vs', d')" by (cases ?l) auto
    from copies_are_bound_only_when_the_index_fails [OF open_b id l] copy saved l show ?thesis
      by (cases w) simp_all
  qed
  then show ?thesis by simp
qed

section \<open>Forks\<close>

text \<open>Writing a file touches only files at its depth of the tree.\<close>

lemma atomic_write_depth:
  assumes "atomic_write f pid sequence path bytes d = (r, d')" "length q \<noteq> length path"
  shows "d' q = d q"
proof -
  have "q \<noteq> path" "path \<noteq> [] \<Longrightarrow> q \<noteq> temp_path_in pid sequence (butlast path)"
    using assms(2) by (auto simp: temp_path_in_def)
  with assms(1) show ?thesis
    by (auto simp: atomic_write_def write_and_rename_def Let_def split: if_splits)
qed

lemma with_index_depth:
  assumes "with_index E io f vs d = (r, vs', d')" "length q \<noteq> length (ix_path (snd (f (vs_index vs))))"
  shows "d' q = d q"
  using assms
  by (auto simp: with_index_def index_save_def Let_def dest: atomic_write_depth split: prod.splits option.splits)

lemma ix_path_register [simp]: "ix_path (register i p h ix) = ix_path ix"
  by (simp add: register_def)

text \<open>
  A fork gives the file a new identity and registers it alone under its path, with an exact copy of the
  original's document as the new memory; the original's memory and registration stay. Its SQL databases
  are not copied: whatever the original held under a slot, the fork reads what was there before, which
  for a fresh id is nothing.
\<close>

theorem fork_copies_the_document_only:
  assumes "fork_copy E io to_string vault_string i new_id path p (vs, d) = (Inr (j, p'), vs', d')"
    and "index_in_vault vs" "\<not> starts_with path (vt_root (vs_vault vs))"
  shows "j = new_id \<and> instance_id p' = Some new_id \<and>
    registered (vs_index vs') = (registered (vs_index vs))(new_id := [path]) \<and>
    d' (instance_path (vs_vault vs) new_id) =
      (case d (instance_path (vs_vault vs) i) of Some b \<Rightarrow> Some b | None \<Rightarrow> d (instance_path (vs_vault vs) new_id)) \<and>
    (i \<noteq> new_id \<longrightarrow> d' (instance_path (vs_vault vs) i) = d (instance_path (vs_vault vs) i)) \<and>
    sql_load False (vs_vault vs) k slot d' = sql_load False (vs_vault vs) k slot d"
proof -
  let ?vt = "vs_vault vs" and ?q = "set_instance_id new_id p"
  let ?src = "instance_path ?vt i" and ?dst = "instance_path ?vt new_id"
  define d1 where "d1 = (case d ?src of Some bytes \<Rightarrow> d(?dst \<mapsto> bytes) | None \<Rightarrow> d)"
  obtain r d2 where s: "save_path (se_crates E) (so_save_fails io) ?q path d1 = (r, d2)"
    by (cases "save_path (se_crates E) (so_save_fails io) ?q path d1")
  note run = assms(1) [unfolded fork_copy_def prod.case Let_def, folded d1_def, unfolded s]
  have nf: "\<not> (d ?src \<noteq> None \<and> so_copy_fails io)" using run by (auto split: if_splits)
  have r: "r = Inr ()" using run nf by (cases r) auto
  let ?f = "\<lambda>ix. ((), register new_id path (file_hash E ?q) ix)"
  obtain r3 vs3 d3 where w: "with_index E io ?f vs d2 = (r3, vs3, d3)" by (cases "with_index E io ?f vs d2") auto
  have res: "j = new_id" "p' = ?q" "vs' = vs3" "d' = d3"
    using run nf r w by (auto simp: result_simps)
  have inside: "x \<noteq> path" if "starts_with x (vt_root ?vt)" for x using that assms(3) by auto
  have deep: "d' (vt_root ?vt @ [a, b]) = d1 (vt_root ?vt @ [a, b])" for a b
  proof -
    have "d3 (vt_root ?vt @ [a, b]) = d2 (vt_root ?vt @ [a, b])"
      by (rule with_index_depth [OF w]) (use assms(2) in \<open>simp add: index_in_vault_def\<close>)
    moreover have "d2 (vt_root ?vt @ [a, b]) = d1 (vt_root ?vt @ [a, b])"
      by (rule save_path_frame [OF s]) (rule inside, simp)
    ultimately show ?thesis using res by simp
  qed
  have doc: "d' (instance_path ?vt x) = d1 (instance_path ?vt x)" for x
    unfolding instance_path_def by (rule deep)
  have sql: "d' (sql_dir ?vt k @ [slot_file slot]) = d (sql_dir ?vt k @ [slot_file slot])"
  proof -
    have "length (sql_dir ?vt k @ [slot_file slot]) = length (vt_root ?vt) + 3" by (simp add: sql_dir_def)
    have "d3 (sql_dir ?vt k @ [slot_file slot]) = d2 (sql_dir ?vt k @ [slot_file slot])"
      by (rule with_index_depth [OF w]) (use assms(2) in \<open>simp add: index_in_vault_def sql_dir_def\<close>)
    moreover have "d2 (sql_dir ?vt k @ [slot_file slot]) = d1 (sql_dir ?vt k @ [slot_file slot])"
      by (rule save_path_frame [OF s]) (rule inside, simp add: sql_dir_def)
    moreover have "d1 (sql_dir ?vt k @ [slot_file slot]) = d (sql_dir ?vt k @ [slot_file slot])"
      using sql_path_not_instance [of ?vt k slot new_id] by (simp add: d1_def split: option.split)
    ultimately show ?thesis using res by simp
  qed
  have "instance_id ?q = Some new_id"
    by (simp add: instance_id_def set_instance_id_def split: option.split)
  moreover have "registered (vs_index vs3) = (registered (vs_index vs))(new_id := [path])"
    using with_index_result(1) [OF w] by simp
  ultimately show ?thesis
    using res doc sql by (auto simp: d1_def sql_load_def split: option.splits)
qed

text \<open>Forking the copy of instance 7, which has a document and a SQL database.\<close>

lemma writer_packs:
  assumes "manifest_ok m" "type_rules m (c_files sample_poid)"
  shows "to_bytes (sample_writer (c_files sample_poid)) \<lparr>c_manifest = m, c_files = c_files sample_poid\<rparr> = Inr sample_bytes"
proof -
  let ?files = "c_files sample_poid"
  have "clean zn limits_default 1 [1] 0" for zn
    by (intro plain) (auto simp: has_exec_magic_def exec_magics_def pk_magic_def)
  then have "list_all2 (\<lambda>pc u. clean (zip_new (sample_writer ?files)) limits_default 1 (snd pc) u) ?files [0]"
    by (simp add: sample_poid_def)
  moreover have "manifest_ok (refresh sample_sha m ?files)" using assms(1) by (simp add: refresh_manifest_ok)
  moreover have "type_rules (refresh sample_sha m ?files) ?files"
    using assms(2) by (simp add: type_rules_def refresh_def Let_def split: container_type.splits)
  moreover have "distinct (map to_ascii_lowercase (bt_keys ?files))" by (simp add: sample_poid_def bt_keys_def)
  ultimately show ?thesis
    unfolding to_bytes_def pack_iff
    by (intro exI [of _ "[0]"] exI [of _ sample_json]) (simp add: sample_writer_def sample_crates_def)
qed

definition writing_env :: studio_env where
  "writing_env = (sample_env True)\<lparr>se_crates := sample_writer (c_files sample_poid)\<rparr>"

definition with_sql :: disk where
  "with_sql = two_files(instance_path \<lparr>vt_root = [''v'']\<rparr> 7 \<mapsto> [5],
     sql_dir \<lparr>vt_root = [''v'']\<rparr> 7 @ [slot_file []] \<mapsto> [6])"

theorem fork_copies_the_document_only_witness:
  "\<exists>p' vs' d'. fork_copy writing_env sample_io (\<lambda>_. []) (\<lambda>_. []) 7 9 [''b'']
       \<lparr>c_manifest = vault_manifest, c_files = c_files sample_poid\<rparr> (sample_state, with_sql) = (Inr (9, p'), vs', d') \<and>
     d' (instance_path \<lparr>vt_root = [''v'']\<rparr> 9) = Some [5] \<and>
     sql_load False \<lparr>vt_root = [''v'']\<rparr> 7 [] d' = Inr (Some [6]) \<and>
     sql_load False \<lparr>vt_root = [''v'']\<rparr> 9 [] d' = Inr None"
proof -
  let ?p = "\<lparr>c_manifest = vault_manifest, c_files = c_files sample_poid\<rparr>" and ?vt = "\<lparr>vt_root = [''v'']\<rparr>"
  obtain r vs' d' where run: "fork_copy writing_env sample_io (\<lambda>_. []) (\<lambda>_. []) 7 9 [''b''] ?p (sample_state, with_sql) =
      (r, vs', d')" by (cases "fork_copy writing_env sample_io (\<lambda>_. []) (\<lambda>_. []) 7 9 [''b''] ?p (sample_state, with_sql)") auto
  let ?q = "set_instance_id 9 ?p"
  have q: "c_manifest ?q = c_manifest (set_instance_id 9 (convert_storage_mode Vault
      (set_instance_id 7 (convert_storage_mode Vault sample_poid))))"
    by (simp add: vault_manifest_def set_instance_id_def convert_storage_mode_def storage_mut_def
        remove_state_trees_def Let_def sample_poid_def new_app_def)
  have "type_rules (c_manifest ?q) (c_files sample_poid)"
    by (simp add: type_rules_def vault_manifest_def set_instance_id_def convert_storage_mode_def storage_mut_def
        remove_state_trees_def Let_def sample_poid_def new_app_def)
  moreover have "manifest_ok (c_manifest ?q)"
    unfolding q by (intro moved_manifest_ok sample_poid_manifest_ok) simp_all
  ultimately have "to_bytes (sample_writer (c_files sample_poid)) ?q = Inr sample_bytes"
    using writer_packs [of "c_manifest ?q"] by (simp add: set_instance_id_def)
  then have save: "save_path (se_crates writing_env) (so_save_fails sample_io) ?q [''b''] d =
      (Inr (), d([''b''] \<mapsto> sample_bytes))" for d
    by (simp add: save_path_def writing_env_def sample_io_def)
  have src: "with_sql (instance_path ?vt 7) = Some [5]"
    using sql_path_not_instance [of ?vt 7 "[]" 7] by (simp add: with_sql_def)
  let ?d2 = "with_sql(instance_path ?vt 9 \<mapsto> [5], [''b''] \<mapsto> sample_bytes)"
  let ?f = "\<lambda>ix. ((), register 9 [''b''] (file_hash writing_env ?q) ix)"
  obtain r3 vs3 d3 where w: "with_index writing_env sample_io ?f sample_state ?d2 = (r3, vs3, d3)"
    by (cases "with_index writing_env sample_io ?f sample_state ?d2") auto
  have "temp_path_in (Suc 0) (Suc 0) [''v''] \<noteq> [''b'']" "temp_path_in (Suc 0) (Suc 0) [''v''] \<noteq> instance_path ?vt 9"
    "with_sql (temp_path_in (Suc 0) (Suc 0) [''v'']) = None"
    by (simp_all add: with_sql_def two_files_def temp_path_in_def instance_path_def sql_dir_def)
  then have "index_saved writing_env sample_io (register 9 [''b''] h (vs_index sample_state)) ?d2" for h
    by (simp add: index_saved_def index_save_def writing_env_def sample_env_def sample_io_def atomic_write_def
        write_and_rename_def no_faults_def Let_def sample_state_def register_def domIff)
  then have "r3 = Inr ()" using with_index_cases(1) [OF w] by simp
  moreover have "vs_vault sample_state = ?vt" "\<not> so_copy_fails sample_io" by (simp_all add: sample_state_def sample_io_def)
  ultimately have "r = Inr (9, ?q)"
    using run src w by (simp add: fork_copy_def save Let_def)
  with run have run: "fork_copy writing_env sample_io (\<lambda>_. []) (\<lambda>_. []) 7 9 [''b''] ?p (sample_state, with_sql) =
      (Inr (9, ?q), vs', d')" by simp
  have "index_in_vault sample_state" "\<not> starts_with [''b''] (vt_root (vs_vault sample_state))"
    by (simp_all add: index_in_vault_def sample_state_def register_def)
  note fork = fork_copies_the_document_only [OF run this]
  have "sql_load False ?vt 7 [] with_sql = Inr (Some [6])" "sql_load False ?vt 9 [] with_sql = Inr None"
    by (simp_all add: sql_load_def with_sql_def two_files_def instance_path_def sql_dir_def)
  with fork [of 7 "[]"] fork [of 9 "[]"] src run \<open>vs_vault sample_state = ?vt\<close> show ?thesis by auto
qed

end
