(* ===== verification/Studio_Vault.thy ===== *)
theory Studio_Vault
  imports Studio_Documents
begin

text \<open>
  The vault commands of \<open>apps/studio/src-tauri/src/commands.rs\<close>. Each finds its instance through the label of
  the window that calls it. What a command may change is the open instance, the document and the SQL
  databases of that one instance.
\<close>

section \<open>The window's instance\<close>

text \<open>The quota of the window's own manifest, in 64-bit arithmetic.\<close>

definition document_quota :: "studio_env \<Rightarrow> document_dto option \<Rightarrow> u64" where
  "document_quota E dto =
     (case (case dto of
              Some (Loaded _ _ json _ _ _) \<Rightarrow>
                Option.bind (se_json_from_str E json) (\<lambda>m.
                Option.bind (se_json_pointer E m ''/storage/quota_mb'') (se_json_as_u64 E))
            | _ \<Rightarrow> None) of
        Some mb \<Rightarrow> mb * 1024 * 1024
      | None \<Rightarrow> default_quota_bytes)"

definition window_instance :: "studio_env \<Rightarrow> string \<Rightarrow> documents \<Rightarrow> 'd vault_state \<Rightarrow> string + uuid \<times> u64" where
  "window_instance E label docs vs =
     rbind (ok_or ''this window has no vault session'' (window_instance_of label vs)) (\<lambda>i.
       Inr (i, document_quota E (documents_get label docs)))"

section \<open>The commands\<close>

record vault_snapshot =
  sn_slot :: string
  sn_slots :: "string list"
  sn_entries :: "(string \<times> string) list"

fun hydrate_entries ::
  "'d automerge \<Rightarrow> 'v serde_value \<Rightarrow> 'd \<Rightarrow> string \<Rightarrow> string list \<Rightarrow> vault_error + (string \<times> string) list" where
  "hydrate_entries A V doc slot [] = Inr []"
| "hydrate_entries A V doc slot (key # keys) =
     rbind (kv_get A V doc slot key) (\<lambda>v.
     rbind (hydrate_entries A V doc slot keys) (\<lambda>rest.
       Inr (case Option.bind v (sv_to_string V) of Some s \<Rightarrow> (key, s) # rest | None \<Rightarrow> rest)))"

definition snapshot :: "'d automerge \<Rightarrow> 'v serde_value \<Rightarrow> 'd \<Rightarrow> vault_error + vault_snapshot" where
  "snapshot A V doc =
     (let slot = current_slot A doc in
      rbind (hydrate_entries A V doc slot (kv_list A doc slot None)) (\<lambda>entries.
        Inr \<lparr>sn_slot = slot, sn_slots = doc_slots A doc, sn_entries = entries\<rparr>))"

text \<open>A change of the document followed by \<open>flush\<close>.\<close>

definition flushed ::
  "'d automerge \<Rightarrow> studio_io \<Rightarrow> ('d vault_instance \<Rightarrow> (vault_error + unit) \<times> 'd vault_instance) \<Rightarrow>
   'd vault_instance \<times> disk \<Rightarrow> (vault_error + unit) \<times> 'd vault_instance \<times> disk" where
  "flushed A io f = (\<lambda>(vi, d). case f vi of
     (Inl e, vi) \<Rightarrow> (Inl e, vi, d)
   | (Inr _, vi) \<Rightarrow> flush_instance A (so_flush io) (so_pid io) (so_sequence io) vi d)"

definition on_doc ::
  "('d \<Rightarrow> (vault_error + unit) \<times> 'd) \<Rightarrow> 'd vault_instance \<Rightarrow> (vault_error + unit) \<times> 'd vault_instance" where
  "on_doc f vi = (let (r, d) = f (vi_doc vi) in (r, vi\<lparr>vi_doc := d\<rparr>))"

definition quota_error :: "(vault_error \<Rightarrow> string) \<Rightarrow> vault_error \<Rightarrow> string" where
  "quota_error to_string e = (case e of VaultQuota _ _ \<Rightarrow> ''QUOTA_EXCEEDED'' | _ \<Rightarrow> to_string e)"

type_synonym ('d, 'a) command = "'d vault_state \<times> disk \<Rightarrow> (string + 'a) \<times> 'd vault_state \<times> disk"

text \<open>\<open>map_err\<close> on a call that changes the state.\<close>

definition err_text :: "('e \<Rightarrow> string) \<Rightarrow> ('e + 'a) \<times> 's \<Rightarrow> (string + 'a) \<times> 's" where
  "err_text to_string m = (case m of (r, s) \<Rightarrow> (map_err to_string r, s))"

definition vault_hydrate ::
  "studio_env \<Rightarrow> 'd automerge \<Rightarrow> 'v serde_value \<Rightarrow> studio_io \<Rightarrow> (vault_error \<Rightarrow> string) \<Rightarrow> string \<Rightarrow> documents \<Rightarrow>
   ('d, vault_snapshot) command" where
  "vault_hydrate E A V io to_string label docs = (\<lambda>(vs, d).
     case window_instance E label docs vs of
       Inl e \<Rightarrow> (Inl e, vs, d)
     | Inr (i, quota) \<Rightarrow>
         err_text to_string
           (with_instance A io i quota (\<lambda>(vi, d). (snapshot A V (vi_doc vi), vi, d)) (vs, d)))"

definition vault_kv_set ::
  "studio_env \<Rightarrow> 'd automerge \<Rightarrow> 'v serde_value \<Rightarrow> studio_io \<Rightarrow> (vault_error \<Rightarrow> string) \<Rightarrow> string \<Rightarrow> documents \<Rightarrow>
   string \<Rightarrow> string \<Rightarrow> ('d, unit) command" where
  "vault_kv_set E A V io to_string label docs key value_json = (\<lambda>(vs, d).
     case window_instance E label docs vs of
       Inl e \<Rightarrow> (Inl e, vs, d)
     | Inr (i, quota) \<Rightarrow>
         (case sv_from_str V value_json of
            None \<Rightarrow> (Inl ''not JSON'', vs, d)
          | Some v \<Rightarrow>
              err_text (quota_error to_string)
                (with_instance A io i quota
                  (flushed A io (\<lambda>vi. instance_kv_set A V (current_slot A (vi_doc vi)) key v vi)) (vs, d))))"

definition vault_kv_delete ::
  "studio_env \<Rightarrow> 'd automerge \<Rightarrow> studio_io \<Rightarrow> (vault_error \<Rightarrow> string) \<Rightarrow> string \<Rightarrow> documents \<Rightarrow> string \<Rightarrow>
   ('d, unit) command" where
  "vault_kv_delete E A io to_string label docs key = (\<lambda>(vs, d).
     case window_instance E label docs vs of
       Inl e \<Rightarrow> (Inl e, vs, d)
     | Inr (i, quota) \<Rightarrow>
         err_text to_string
           (with_instance A io i quota
             (flushed A io (\<lambda>vi. on_doc (kv_delete A (current_slot A (vi_doc vi)) key) vi)) (vs, d)))"

definition vault_kv_clear ::
  "studio_env \<Rightarrow> 'd automerge \<Rightarrow> studio_io \<Rightarrow> (vault_error \<Rightarrow> string) \<Rightarrow> string \<Rightarrow> documents \<Rightarrow> ('d, unit) command" where
  "vault_kv_clear E A io to_string label docs = (\<lambda>(vs, d).
     case window_instance E label docs vs of
       Inl e \<Rightarrow> (Inl e, vs, d)
     | Inr (i, quota) \<Rightarrow>
         err_text to_string
           (with_instance A io i quota
             (flushed A io (\<lambda>vi. on_doc (kv_clear A (current_slot A (vi_doc vi))) vi)) (vs, d)))"

definition vault_switch_slot ::
  "studio_env \<Rightarrow> 'd automerge \<Rightarrow> 'v serde_value \<Rightarrow> studio_io \<Rightarrow> (vault_error \<Rightarrow> string) \<Rightarrow> string \<Rightarrow> documents \<Rightarrow> string \<Rightarrow>
   ('d, vault_snapshot) command" where
  "vault_switch_slot E A V io to_string label docs slot = (\<lambda>(vs, d).
     case window_instance E label docs vs of
       Inl e \<Rightarrow> (Inl e, vs, d)
     | Inr (i, quota) \<Rightarrow>
         (case with_instance A io i quota (flushed A io (on_doc (set_current_slot A slot))) (vs, d) of
            (Inl e, s) \<Rightarrow> (Inl (to_string e), s)
          | (Inr _, s) \<Rightarrow> vault_hydrate E A V io to_string label docs s))"

definition active_slot ::
  "'d automerge \<Rightarrow> studio_io \<Rightarrow> uuid \<Rightarrow> u64 \<Rightarrow> 'd vault_state \<times> disk \<Rightarrow> (vault_error + string) \<times> 'd vault_state \<times> disk" where
  "active_slot A io i quota = with_instance A io i quota (\<lambda>(vi, d). (Inr (current_slot A (vi_doc vi)), vi, d))"

definition vault_sql_load ::
  "studio_env \<Rightarrow> 'd automerge \<Rightarrow> studio_io \<Rightarrow> (vault_error \<Rightarrow> string) \<Rightarrow> string \<Rightarrow> documents \<Rightarrow> ('d, string option) command" where
  "vault_sql_load E A io to_string label docs = (\<lambda>(vs, d).
     case window_instance E label docs vs of
       Inl e \<Rightarrow> (Inl e, vs, d)
     | Inr (i, quota) \<Rightarrow>
         (case active_slot A io i quota (vs, d) of
            (Inl e, s) \<Rightarrow> (Inl (to_string e), s)
          | (Inr slot, vs, d) \<Rightarrow>
              (rbind (map_err to_string (sql_load (so_read_fails io) (vs_vault vs) i slot d))
                 (\<lambda>bytes. Inr (map_option (se_base64 E) bytes)), vs, d)))"

definition vault_sql_save ::
  "studio_env \<Rightarrow> 'd automerge \<Rightarrow> studio_io \<Rightarrow> (vault_error \<Rightarrow> string) \<Rightarrow> string \<Rightarrow> documents \<Rightarrow> string \<Rightarrow> ('d, unit) command" where
  "vault_sql_save E A io to_string label docs bytes_b64 = (\<lambda>(vs, d).
     case window_instance E label docs vs of
       Inl e \<Rightarrow> (Inl e, vs, d)
     | Inr (i, quota) \<Rightarrow>
         (case active_slot A io i quota (vs, d) of
            (Inl e, s) \<Rightarrow> (Inl (to_string e), s)
          | (Inr slot, vs, d) \<Rightarrow>
              (case se_base64_decode E bytes_b64 of
                 Inl e \<Rightarrow> (Inl e, vs, d)
               | Inr bytes \<Rightarrow>
                   let (r, d) = sql_save (so_flush io) (so_pid io) (so_sequence io) (vs_vault vs) i slot bytes quota d
                   in (map_err (quota_error to_string) r, vs, d))))"

section \<open>What a command may touch\<close>

datatype vault_command =
  Hydrate
| KvSetCmd string string
| KvDeleteCmd string
| KvClearCmd
| SwitchSlot string
| SqlLoad
| SqlSave string

datatype vault_reply = Done | Snapshot vault_snapshot | Blob "string option"

definition reply :: "('a \<Rightarrow> vault_reply) \<Rightarrow> (string + 'a) \<times> 's \<Rightarrow> (string + vault_reply) \<times> 's" where
  "reply f m = (case m of (r, s) \<Rightarrow> (rbind r (\<lambda>x. Inr (f x)), s))"

fun run_command ::
  "studio_env \<Rightarrow> 'd automerge \<Rightarrow> 'v serde_value \<Rightarrow> studio_io \<Rightarrow> (vault_error \<Rightarrow> string) \<Rightarrow> string \<Rightarrow> documents \<Rightarrow>
   vault_command \<Rightarrow> ('d, vault_reply) command" where
  "run_command E A V io ts label docs Hydrate s = reply Snapshot (vault_hydrate E A V io ts label docs s)"
| "run_command E A V io ts label docs (KvSetCmd key value) s =
     reply (\<lambda>_. Done) (vault_kv_set E A V io ts label docs key value s)"
| "run_command E A V io ts label docs (KvDeleteCmd key) s =
     reply (\<lambda>_. Done) (vault_kv_delete E A io ts label docs key s)"
| "run_command E A V io ts label docs KvClearCmd s = reply (\<lambda>_. Done) (vault_kv_clear E A io ts label docs s)"
| "run_command E A V io ts label docs (SwitchSlot slot) s =
     reply Snapshot (vault_switch_slot E A V io ts label docs slot s)"
| "run_command E A V io ts label docs SqlLoad s = reply Blob (vault_sql_load E A io ts label docs s)"
| "run_command E A V io ts label docs (SqlSave b64) s =
     reply (\<lambda>_. Done) (vault_sql_save E A io ts label docs b64 s)"

text \<open>The files of an instance: its document, its SQL databases, and the temporary files beside them.\<close>

definition instance_files :: "studio_io \<Rightarrow> vault \<Rightarrow> uuid \<Rightarrow> path set" where
  "instance_files io vt i =
     {instance_path vt i, temp_path_in (so_pid io) (so_sequence io) (vt_root vt @ [''instances'']),
      temp_path_in (so_pid io) (so_sequence io) (sql_dir vt i)} \<union> {sql_dir vt i @ [slot_file slot] | slot. True}"

text \<open>Every open instance is kept under its own id and written to its own file.\<close>

definition instances_ok :: "'d vault_state \<Rightarrow> bool" where
  "instances_ok vs \<longleftrightarrow>
     (\<forall>i vi. vs_instances vs i = Some vi \<longrightarrow> vi_id vi = i \<and> vi_path vi = instance_path (vs_vault vs) i)"

text \<open>A step on behalf of instance \<open>i\<close>.\<close>

definition confined :: "studio_io \<Rightarrow> uuid \<Rightarrow> 'd vault_state \<times> disk \<Rightarrow> 'd vault_state \<times> disk \<Rightarrow> bool" where
  "confined io i s s' \<longleftrightarrow>
     vs_vault (fst s') = vs_vault (fst s) \<and> vs_index (fst s') = vs_index (fst s) \<and>
     vs_windows (fst s') = vs_windows (fst s) \<and>
     (\<forall>j. j \<noteq> i \<longrightarrow> vs_instances (fst s') j = vs_instances (fst s) j) \<and>
     (\<forall>q. q \<notin> instance_files io (vs_vault (fst s)) i \<longrightarrow> snd s' q = snd s q) \<and>
     (instances_ok (fst s) \<longrightarrow> instances_ok (fst s'))"

lemma confined_refl [simp]: "confined io i s s"
  by (simp add: confined_def)

lemma confined_trans [trans]: "confined io i s1 s2 \<Longrightarrow> confined io i s2 s3 \<Longrightarrow> confined io i s1 s3"
  by (simp add: confined_def)

text \<open>What the function given to \<open>with_instance\<close> may do.\<close>

definition own_files :: "studio_io \<Rightarrow> ('d vault_instance \<times> disk \<Rightarrow> (vault_error + 'a) \<times> 'd vault_instance \<times> disk) \<Rightarrow> bool" where
  "own_files io f \<longleftrightarrow> (\<forall>vi d r vi' d'. f (vi, d) = (r, vi', d') \<longrightarrow>
     vi_id vi' = vi_id vi \<and> vi_path vi' = vi_path vi \<and>
     (\<forall>q. q \<noteq> vi_path vi \<longrightarrow> q \<noteq> temp_path_in (so_pid io) (so_sequence io) (butlast (vi_path vi)) \<longrightarrow> d' q = d q))"

lemma atomic_write_frame:
  assumes "atomic_write f pid sequence path bytes d = (r, d')"
    and "q \<noteq> path" "q \<noteq> temp_path_in pid sequence (butlast path)"
  shows "d' q = d q"
  using assms by (auto simp: atomic_write_def write_and_rename_def Let_def split: if_splits)

lemma open_instance_ids:
  assumes "open_instance A read_fails vt i quota d = Inr vi"
  shows "vi_id vi = i" "vi_path vi = instance_path vt i"
  using assms by (auto simp: open_instance_def result_simps Let_def split: option.splits if_splits)

lemma with_instance_confined:
  assumes own: "own_files io f" and ok: "instances_ok vs"
    and run: "with_instance A io i quota f (vs, d) = (r, s')"
  shows "confined io i (vs, d) s'"
proof -
  let ?o = "case vs_instances vs i of Some vi \<Rightarrow> Inr vi
    | None \<Rightarrow> open_instance A (so_read_fails io) (vs_vault vs) i quota d"
  show ?thesis
  proof (cases ?o)
    case (Inl e)
    with run have "s' = (vs, d)" by (simp add: with_instance_def)
    then show ?thesis by simp
  next
    case (Inr vi)
    have vi: "vi_id vi = i" "vi_path vi = instance_path (vs_vault vs) i"
      using Inr ok open_instance_ids by (auto simp: instances_ok_def split: option.splits)
    obtain r1 vi' d' where f: "f (vi, d) = (r1, vi', d')" by (cases "f (vi, d)") auto
    with run Inr have s': "s' = (vs\<lparr>vs_instances := (vs_instances vs)(i \<mapsto> vi')\<rparr>, d')"
      by (simp add: with_instance_def)
    from own f have F: "vi_id vi' = vi_id vi" "vi_path vi' = vi_path vi"
      "\<And>q. q \<noteq> vi_path vi \<Longrightarrow> q \<noteq> temp_path_in (so_pid io) (so_sequence io) (butlast (vi_path vi)) \<Longrightarrow> d' q = d q"
      unfolding own_files_def by blast+
    have "d' q = d q" if "q \<notin> instance_files io (vs_vault vs) i" for q
      using that F(3) [of q] vi(2) by (simp add: instance_files_def instance_path_def butlast_append)
    with F(1,2) vi ok show ?thesis by (simp add: confined_def s' instances_ok_def)
  qed
qed

lemma own_files_read: "own_files io (\<lambda>(vi, d). (g vi, vi, d))"
  by (simp add: own_files_def)

lemma own_files_flushed:
  assumes "\<And>vi r vi'. f vi = (r, vi') \<Longrightarrow> vi_id vi' = vi_id vi \<and> vi_path vi' = vi_path vi"
  shows "own_files io (flushed A io f)"
  unfolding own_files_def
proof (intro allI impI)
  fix vi d r vi' d'
  assume run: "flushed A io f (vi, d) = (r, vi', d')"
  obtain r1 vi1 where f: "f vi = (r1, vi1)" by (cases "f vi")
  note ids = assms [OF f]
  show "vi_id vi' = vi_id vi \<and> vi_path vi' = vi_path vi \<and>
      (\<forall>q. q \<noteq> vi_path vi \<longrightarrow> q \<noteq> temp_path_in (so_pid io) (so_sequence io) (butlast (vi_path vi)) \<longrightarrow> d' q = d q)"
  proof (cases r1)
    case (Inl e)
    with run f ids show ?thesis by (simp add: flushed_def)
  next
    case (Inr u)
    with run f have fl: "flush_instance A (so_flush io) (so_pid io) (so_sequence io) vi1 d = (r, vi', d')"
      by (simp add: flushed_def)
    then obtain r2 bytes where
      w: "atomic_write (so_flush io) (so_pid io) (so_sequence io) (vi_path vi1) bytes d = (r2, d')"
      and "vi_id vi' = vi_id vi1" "vi_path vi' = vi_path vi1"
      by (auto simp: flush_instance_def Let_def split: prod.splits)
    with ids atomic_write_frame [OF w] show ?thesis by auto
  qed
qed

lemma on_doc_ids: "on_doc f vi = (r, vi') \<Longrightarrow> vi_id vi' = vi_id vi \<and> vi_path vi' = vi_path vi"
  by (auto simp: on_doc_def split: prod.splits)

lemma instance_kv_set_ids:
  "instance_kv_set A V slot key v vi = (r, vi') \<Longrightarrow> vi_id vi' = vi_id vi \<and> vi_path vi' = vi_path vi"
  by (auto simp: instance_kv_set_def Let_def split: option.splits if_splits prod.splits)

lemma err_text_state: "err_text f m = (r, s) \<Longrightarrow> \<exists>r'. m = (r', s)"
  by (cases m) (auto simp: err_text_def)

lemma reply_state: "reply f m = (r, s) \<Longrightarrow> \<exists>r'. m = (r', s)"
  by (cases m) (auto simp: reply_def)

lemma window_instance_Inr:
  "window_instance E label docs vs = Inr (i, quota) \<longleftrightarrow>
     window_instance_of label vs = Some i \<and> quota = document_quota E (documents_get label docs)"
  by (auto simp: window_instance_def result_simps)

lemma window_instance_None:
  "window_instance_of label vs = None \<Longrightarrow> window_instance E label docs vs = Inl ''this window has no vault session''"
  by (simp add: window_instance_def)

lemma flushed_doc_confined:
  assumes "instances_ok vs" "with_instance A io i quota (flushed A io (\<lambda>vi. on_doc (g vi) vi)) (vs, d) = (r, s')"
  shows "confined io i (vs, d) s'"
  by (rule with_instance_confined [OF own_files_flushed assms]) (rule on_doc_ids)

lemma active_slot_confined:
  assumes "instances_ok vs" "active_slot A io i quota (vs, d) = (r, s')"
  shows "confined io i (vs, d) s'"
  by (rule with_instance_confined [OF own_files_read assms(1) assms(2) [unfolded active_slot_def]])

lemma hydrate_confined:
  assumes "instances_ok vs" "window_instance_of label vs = Some i"
    and "vault_hydrate E A V io ts label docs (vs, d) = (r, s')"
  shows "confined io i (vs, d) s'"
proof -
  let ?q = "document_quota E (documents_get label docs)"
  have "window_instance E label docs vs = Inr (i, ?q)" using assms(2) by (simp add: window_instance_Inr)
  with assms(3) obtain r' where
    "with_instance A io i ?q (\<lambda>(vi, d). (snapshot A V (vi_doc vi), vi, d)) (vs, d) = (r', s')"
    by (auto simp: vault_hydrate_def dest: err_text_state)
  then show ?thesis by (rule with_instance_confined [OF own_files_read assms(1)])
qed

lemma sql_save_confined:
  assumes "sql_save (so_flush io) (so_pid io) (so_sequence io) (vs_vault vs) i slot bytes quota d = (r, d')"
  shows "confined io i (vs, d) (vs, d')"
proof -
  have "d' q = d q" if "q \<notin> instance_files io (vs_vault vs) i" for q
  proof -
    have "q \<noteq> sql_dir (vs_vault vs) i @ [slot_file slot]" "q \<noteq> temp_path_in (so_pid io) (so_sequence io) (sql_dir (vs_vault vs) i)"
      using that by (auto simp: instance_files_def)
    with assms show ?thesis
      by (auto simp: sql_save_def Let_def atomic_write_frame split: if_splits prod.splits)
  qed
  then show ?thesis by (simp add: confined_def)
qed

lemma run_command_confined:
  assumes ok: "instances_ok vs" and label: "window_instance_of label vs = Some i"
    and run: "run_command E A V io ts label docs cmd (vs, d) = (r, s')"
  shows "confined io i (vs, d) s'"
proof -
  let ?q = "document_quota E (documents_get label docs)"
  have w: "window_instance E label docs vs = Inr (i, ?q)" using label by (simp add: window_instance_Inr)
  show ?thesis
  proof (cases cmd)
    case Hydrate
    with run obtain r' where "vault_hydrate E A V io ts label docs (vs, d) = (r', s')"
      by (auto dest: reply_state)
    then show ?thesis by (rule hydrate_confined [OF ok label])
  next
    case (KvSetCmd key raw)
    with run obtain r' where s: "vault_kv_set E A V io ts label docs key raw (vs, d) = (r', s')"
      by (auto dest: reply_state)
    show ?thesis
    proof (cases "sv_from_str V raw")
      case None
      with s w show ?thesis by (auto simp: vault_kv_set_def)
    next
      case (Some v)
      with s w obtain r'' where wi: "with_instance A io i ?q
          (flushed A io (\<lambda>vi. instance_kv_set A V (current_slot A (vi_doc vi)) key v vi)) (vs, d) = (r'', s')"
        by (auto simp: vault_kv_set_def dest: err_text_state)
      show ?thesis
        by (rule with_instance_confined [OF own_files_flushed ok wi]) (rule instance_kv_set_ids)
    qed
  next
    case (KvDeleteCmd key)
    with run w obtain r' where
      "with_instance A io i ?q (flushed A io (\<lambda>vi. on_doc (kv_delete A (current_slot A (vi_doc vi)) key) vi)) (vs, d) = (r', s')"
      by (auto simp: vault_kv_delete_def dest!: reply_state err_text_state)
    then show ?thesis by (rule flushed_doc_confined [OF ok])
  next
    case KvClearCmd
    with run w obtain r' where
      "with_instance A io i ?q (flushed A io (\<lambda>vi. on_doc (kv_clear A (current_slot A (vi_doc vi))) vi)) (vs, d) = (r', s')"
      by (auto simp: vault_kv_clear_def dest!: reply_state err_text_state)
    then show ?thesis by (rule flushed_doc_confined [OF ok])
  next
    case (SwitchSlot slot)
    obtain r1 vs1 d1 where sw: "with_instance A io i ?q (flushed A io (\<lambda>vi. on_doc (set_current_slot A slot) vi)) (vs, d) = (r1, vs1, d1)"
      by (cases "with_instance A io i ?q (flushed A io (\<lambda>vi. on_doc (set_current_slot A slot) vi)) (vs, d)") auto
    note c1 = flushed_doc_confined [OF ok sw]
    from SwitchSlot run obtain r' where s: "vault_switch_slot E A V io ts label docs slot (vs, d) = (r', s')"
      by (auto dest: reply_state)
    show ?thesis
    proof (cases r1)
      case (Inl e)
      with s w sw have "s' = (vs1, d1)" by (auto simp: vault_switch_slot_def)
      with c1 show ?thesis by simp
    next
      case (Inr u)
      with s w sw have h: "vault_hydrate E A V io ts label docs (vs1, d1) = (r', s')" by (simp add: vault_switch_slot_def)
      have "instances_ok vs1" "window_instance_of label vs1 = Some i"
        using c1 ok label by (simp_all add: confined_def window_instance_of_def)
      from confined_trans [OF c1 hydrate_confined [OF this h]] show ?thesis .
    qed
  next
    case SqlLoad
    obtain r1 vs1 d1 where a: "active_slot A io i ?q (vs, d) = (r1, vs1, d1)" by (cases "active_slot A io i ?q (vs, d)") auto
    from SqlLoad run obtain r' where "vault_sql_load E A io ts label docs (vs, d) = (r', s')" by (auto dest: reply_state)
    with w a have "s' = (vs1, d1)" by (cases r1) (auto simp: vault_sql_load_def)
    with active_slot_confined [OF ok a] show ?thesis by simp
  next
    case (SqlSave b64)
    obtain r1 vs1 d1 where a: "active_slot A io i ?q (vs, d) = (r1, vs1, d1)" by (cases "active_slot A io i ?q (vs, d)") auto
    note c1 = active_slot_confined [OF ok a]
    from SqlSave run obtain r' where s: "vault_sql_save E A io ts label docs b64 (vs, d) = (r', s')" by (auto dest: reply_state)
    show ?thesis
    proof (cases "\<exists>slot bytes. r1 = Inr slot \<and> se_base64_decode E b64 = Inr bytes")
      case False
      with s w a have "s' = (vs1, d1)" by (cases r1; cases "se_base64_decode E b64") (auto simp: vault_sql_save_def)
      with c1 show ?thesis by simp
    next
      case True
      then obtain slot bytes where b: "r1 = Inr slot" "se_base64_decode E b64 = Inr bytes" by blast
      obtain r2 d2 where sv: "sql_save (so_flush io) (so_pid io) (so_sequence io) (vs_vault vs1) i slot bytes ?q d1 = (r2, d2)"
        by (cases "sql_save (so_flush io) (so_pid io) (so_sequence io) (vs_vault vs1) i slot bytes ?q d1")
      with s w a b have "s' = (vs1, d2)" by (simp add: vault_sql_save_def)
      with confined_trans [OF c1 sql_save_confined [OF sv]] show ?thesis by simp
    qed
  qed
qed

text \<open>
  C33: A window's vault command touches its own instance and nothing else. Without a vault session it is an
  error and changes nothing. With one, whatever the engine and the file system do, the other open
  instances, the index, the other windows' sessions and every file that is not the instance's own
  document, SQL database or temporary file stay as they were, and every open instance still writes to
  its own file.
\<close>

theorem vault_commands_stay_in_their_instance:
  assumes "instances_ok vs" and "run_command E A V io ts label docs cmd (vs, d) = (r, vs', d')"
  shows "case window_instance_of label vs of
      None \<Rightarrow> vs' = vs \<and> d' = d \<and> (\<exists>e. r = Inl e)
    | Some i \<Rightarrow> (\<forall>j. j \<noteq> i \<longrightarrow> vs_instances vs' j = vs_instances vs j) \<and> vs_index vs' = vs_index vs \<and>
        vs_windows vs' = vs_windows vs \<and> (\<forall>q. q \<notin> instance_files io (vs_vault vs) i \<longrightarrow> d' q = d q) \<and> instances_ok vs'"
proof (cases "window_instance_of label vs")
  case None
  with assms(2) show ?thesis
    by (cases cmd)
      (auto simp: window_instance_None reply_def vault_hydrate_def vault_kv_set_def vault_kv_delete_def vault_kv_clear_def
        vault_switch_slot_def vault_sql_load_def vault_sql_save_def)
next
  case (Some i)
  from run_command_confined [OF assms(1) Some assms(2)] assms(1) show ?thesis
    by (simp add: Some confined_def)
qed

text \<open>The files of two instances: only the temporary file of the directory they share.\<close>

lemma instance_files_disjoint:
  assumes "i \<noteq> j"
  shows "instance_path vt j \<notin> instance_files io vt i" "sql_dir vt j @ [slot_file slot] \<notin> instance_files io vt i"
proof -
  show "instance_path vt j \<notin> instance_files io vt i"
    using assms instance_name_not_temp [of j "so_pid io" "so_sequence io"]
    by (auto simp: instance_files_def instance_path_def sql_dir_def temp_path_in_def)
  have "slot_file slot \<noteq> ''.tmp-'' @ x" for x by (simp add: slot_file_def)
  then show "sql_dir vt j @ [slot_file slot] \<notin> instance_files io vt i"
    using assms by (auto simp: instance_files_def instance_path_def sql_dir_def temp_path_in_def)
qed

text \<open>A window bound to instance 7 stores a key; instance 9's document stays.\<close>

definition bound_state :: "replica vault_state" where
  "bound_state = bind_window ''reader-1'' 7 sample_state"

definition other_file :: disk where
  "other_file = [instance_path \<lparr>vt_root = [''v'']\<rparr> 9 \<mapsto> [3]]"

lemma bound_set_done:
  "fst (run_command (sample_env True) replica_engine text_values sample_io (\<lambda>_. []) ''reader-1'' Map.empty
     (KvSetCmd ''k'' ''v'') (bound_state, other_file)) = Inr Done"
  by code_simp

theorem vault_commands_stay_in_their_instance_witness:
  "\<exists>vs' d'. run_command (sample_env True) replica_engine text_values sample_io (\<lambda>_. []) ''reader-1'' Map.empty
       (KvSetCmd ''k'' ''v'') (bound_state, other_file) = (Inr Done, vs', d') \<and>
     d' (instance_path \<lparr>vt_root = [''v'']\<rparr> 9) = Some [3] \<and> vs_instances vs' 9 = None"
proof -
  obtain vs' d' where run: "run_command (sample_env True) replica_engine text_values sample_io (\<lambda>_. []) ''reader-1'' Map.empty
       (KvSetCmd ''k'' ''v'') (bound_state, other_file) = (Inr Done, vs', d')"
    using bound_set_done by (metis prod.collapse)
  have s: "vs_vault bound_state = \<lparr>vt_root = [''v'']\<rparr>" "vs_instances bound_state = Map.empty"
    "window_instance_of ''reader-1'' bound_state = Some 7"
    by (simp_all add: bound_state_def bind_window_def window_instance_of_def sample_state_def)
  have "instances_ok bound_state" by (simp add: instances_ok_def s)
  from vault_commands_stay_in_their_instance [OF this run]
  have "\<forall>j. j \<noteq> 7 \<longrightarrow> vs_instances vs' j = vs_instances bound_state j"
    "\<forall>q. q \<notin> instance_files sample_io \<lparr>vt_root = [''v'']\<rparr> 7 \<longrightarrow> d' q = other_file q"
    unfolding s by simp_all
  moreover have "instance_path \<lparr>vt_root = [''v'']\<rparr> 9 \<notin> instance_files sample_io \<lparr>vt_root = [''v'']\<rparr> 7"
    by (rule instance_files_disjoint) simp
  ultimately have "vs_instances vs' 9 = None" "d' (instance_path \<lparr>vt_root = [''v'']\<rparr> 9) = Some [3]"
    by (simp_all add: s other_file_def)
  with run show ?thesis by blast
qed

section \<open>The quota a manifest asks for\<close>

text \<open>
  The quota of a window is the manifest's megabytes in bytes as long as they fit 64 bits, and wraps
  otherwise: the validated manifest may ask for any number of megabytes but zero, and asking for
  \<open>2 ^ 44\<close> of them allows nothing at all.
\<close>

theorem document_quota_wraps:
  assumes "se_json_from_str E json = Some m" "se_json_pointer E m ''/storage/quota_mb'' = Some v"
    and "se_json_as_u64 E v = Some mb"
  shows "unat (document_quota E (Some (Loaded name path json sig files conflict))) = unat mb * 2 ^ 20 mod 2 ^ 64 \<and>
    (unat mb < 2 ^ 44 \<longrightarrow>
      unat (document_quota E (Some (Loaded name path json sig files conflict))) = unat mb * 2 ^ 20) \<and>
    (mb = 2 ^ 44 \<longrightarrow> document_quota E (Some (Loaded name path json sig files conflict)) = 0)"
proof -
  have q: "document_quota E (Some (Loaded name path json sig files conflict)) = mb * 2 ^ 20"
    using assms by (simp add: document_quota_def mult.assoc)
  have "unat (mb * 2 ^ 20) = unat mb * 2 ^ 20 mod 2 ^ 64"
    by (simp add: unat_word_ariths)
  moreover have "unat mb * 2 ^ 20 mod 2 ^ 64 = unat mb * 2 ^ 20" if "unat mb < 2 ^ 44"
    using that by simp
  ultimately show ?thesis by (simp add: q)
qed


text \<open>An environment whose every manifest asks for \<open>2 ^ 44\<close> megabytes.\<close>

definition greedy_env :: studio_env where
  "greedy_env = (sample_env True)\<lparr>se_json_from_str := (\<lambda>_. Some JNull), se_json_pointer := (\<lambda>_ _. Some JNull),
     se_json_as_u64 := (\<lambda>_. Some (2 ^ 44))\<rparr>"

theorem document_quota_wraps_witness:
  "document_quota greedy_env (Some (Loaded [] [] [] [] [] None)) = 0"
  using document_quota_wraps [of greedy_env "[]" JNull JNull "2 ^ 44" "[]" "[]" "[]" "[]" None]
  by (simp add: greedy_env_def)

end
