(* ===== verification/Postgres_Connection.thy ===== *)
theory Postgres_Connection
  imports Dsn_Parsing Manifests Hex_Text
begin

text \<open>
  \<open>poid-connections/src/sql.rs\<close>: a connection to the user's PostgreSQL server. The driver
  (\<open>tokio-postgres\<close>) is a parameter with a state of its own; a column's content is what the driver's typed
  reading of it gives. How the driver encodes a bound parameter is its own affair.
\<close>

section \<open>Results\<close>

record sql_result =
  sq_rows :: "json list"
  sq_rows_affected :: nat

datatype pg_type =
  PgBool | PgInt2 | PgInt4 | PgInt8 | PgFloat4 | PgFloat8 | PgText | PgVarchar | PgBpchar | PgName
| PgUnknown | PgJson | PgJsonb | PgUuid | PgBytea | PgOther

text \<open>What reading a column as the Rust type of its SQL type gives: a scalar as \<open>Value::from\<close> shows it.\<close>

datatype pg_cell =
  Unreadable | SqlNull | ScalarCell json | JsonCell json | UuidCell uuid | BytesCell "byte list"

type_synonym pg_row = "(string \<times> pg_type \<times> pg_cell) list"

definition column_to_json :: "pg_type \<Rightarrow> pg_cell \<Rightarrow> json" where
  "column_to_json ty cell =
     (case ty of
        PgOther \<Rightarrow> JNull
      | PgJson \<Rightarrow> (case cell of JsonCell v \<Rightarrow> v | _ \<Rightarrow> JNull)
      | PgJsonb \<Rightarrow> (case cell of JsonCell v \<Rightarrow> v | _ \<Rightarrow> JNull)
      | PgUuid \<Rightarrow> (case cell of UuidCell u \<Rightarrow> JString (uuid_text u) | _ \<Rightarrow> JNull)
      | PgBytea \<Rightarrow> (case cell of BytesCell bytes \<Rightarrow> JString (CHR 0x5C # CHR ''x'' # hex_text bytes) | _ \<Rightarrow> JNull)
      | _ \<Rightarrow> (case cell of ScalarCell v \<Rightarrow> v | _ \<Rightarrow> JNull))"

text \<open>The last of two columns with one name is the one that stays.\<close>

definition row_to_json :: "pg_row \<Rightarrow> json" where
  "row_to_json row =
     JObject (fold (\<lambda>(name, ty, cell). bt_insert name (column_to_json ty cell)) row [])"

section \<open>The connection\<close>

record ('c, 'w) pg_driver =
  pd_connect :: "bool \<Rightarrow> string \<Rightarrow> 'w \<Rightarrow> (string + 'c) \<times> 'w"
  pd_query :: "'c \<Rightarrow> string \<Rightarrow> json list \<Rightarrow> 'w \<Rightarrow> (string + pg_row list) \<times> 'w"
  pd_execute :: "'c \<Rightarrow> string \<Rightarrow> json list \<Rightarrow> 'w \<Rightarrow> (string + nat) \<times> 'w"
  pd_is_closed :: "'c \<Rightarrow> 'w \<Rightarrow> bool"

definition sql_error :: "string \<Rightarrow> (string + 'a) \<times> 'w \<Rightarrow> (connection_error + 'a) \<times> 'w" where
  "sql_error context m = (case m of (r, w) \<Rightarrow> (map_err (\<lambda>e. SqlFailed (context @ '': '' @ e)) r, w))"

text \<open>TLS is left out when the text \<open>sslmode=disable\<close> occurs anywhere in the string.\<close>

definition pg_open :: "('c, 'w) pg_driver \<Rightarrow> string \<Rightarrow> 'w \<Rightarrow> (connection_error + 'c) \<times> 'w" where
  "pg_open P dsn w =
     (case parse_dsn dsn of
        Inl e \<Rightarrow> (Inl e, w)
      | Inr _ \<Rightarrow>
          let sslmode_disabled = contains dsn ''sslmode=disable''
          in sql_error ''could not connect'' (pd_connect P (\<not> sslmode_disabled) dsn w))"

definition pg_exec :: "('c, 'w) pg_driver \<Rightarrow> 'c \<Rightarrow> string \<Rightarrow> json list \<Rightarrow> 'w \<Rightarrow> (connection_error + sql_result) \<times> 'w" where
  "pg_exec P c sql params w =
     (case sql_error ''the database refused the statement'' (pd_query P c sql params w) of
        (Inl e, w) \<Rightarrow> (Inl e, w)
      | (Inr rows, w) \<Rightarrow>
          if rows = [] then (Inr \<lparr>sq_rows = [], sq_rows_affected = 0\<rparr>, w)
          else (Inr \<lparr>sq_rows = map row_to_json rows, sq_rows_affected = 0\<rparr>, w))"

definition pg_execute :: "('c, 'w) pg_driver \<Rightarrow> 'c \<Rightarrow> string \<Rightarrow> json list \<Rightarrow> 'w \<Rightarrow> (connection_error + sql_result) \<times> 'w" where
  "pg_execute P c sql params w =
     (case sql_error ''the database refused the statement'' (pd_execute P c sql params w) of
        (Inl e, w) \<Rightarrow> (Inl e, w)
      | (Inr affected, w) \<Rightarrow> (Inr \<lparr>sq_rows = [], sq_rows_affected = affected\<rparr>, w))"

definition pg_is_closed :: "('c, 'w) pg_driver \<Rightarrow> 'c \<Rightarrow> 'w \<Rightarrow> bool" where
  "pg_is_closed P c w = pd_is_closed P c w"

text \<open>A string whose password holds the text is valid, and turns TLS off.\<close>

lemma password_turns_tls_off:
  "\<exists>p. parse_dsn ''postgres://u:sslmode=disable@h/d'' = Inr p \<and>
     pg_open P ''postgres://u:sslmode=disable@h/d'' w =
       sql_error ''could not connect'' (pd_connect P False ''postgres://u:sslmode=disable@h/d'' w)"
proof -
  have "is_ok (parse_dsn ''postgres://u:sslmode=disable@h/d'')" "contains ''postgres://u:sslmode=disable@h/d'' ''sslmode=disable''"
    by code_simp+
  then show ?thesis by (auto simp: is_ok_iff pg_open_def)
qed

end
