(* ===== verification/Studio_Connections.thy ===== *)
theory Studio_Connections
  imports Studio_Documents Brokered_Fetch Binding_Registry Postgres_Connection Text_Trim
begin

text \<open>
  \<open>apps/studio/src-tauri/src/connections.rs\<close> and \<open>connections_state.rs\<close>: the hub's management of
  connections, and what a document's window may do with them: bind one, fetch through the broker, run
  SQL on the bound one. A window's document is found through its label. Async tasks run one at a time
  here; the registry, the bindings and the open SQL sessions are one state.
\<close>

section \<open>The state\<close>

record ('s, 'c) conn_state =
  cs_store :: "'s connection_store"
  cs_bindings :: binding_store
  cs_sql :: "string \<rightharpoonup> 'c"

text \<open>What the application takes from elsewhere: JSON of the two files, the texts of the errors, a fresh
  identifier's text.\<close>

record conn_env =
  ke_registry :: registry_json
  ke_bindings :: bindings_json
  ke_text :: "connection_error \<Rightarrow> string"
  ke_policy_text :: "policy_error \<Rightarrow> string"

definition conn_state_open ::
  "conn_env \<Rightarrow> bool \<Rightarrow> path \<Rightarrow> 's \<Rightarrow> disk \<Rightarrow> connection_error + ('s, 'c) conn_state" where
  "conn_state_open K read_fails root keychain d =
     rbind (open_store (ke_registry K) read_fails (root @ [''connections.json'']) keychain d) (\<lambda>store.
     rbind (open_bindings (ke_bindings K) read_fails (root @ [''bindings.json'']) d) (\<lambda>bindings.
       Inr \<lparr>cs_store = store, cs_bindings = bindings, cs_sql = Map.empty\<rparr>))"

section \<open>The hub\<close>

definition hub_label :: string where
  "hub_label = ''studio''"

definition hub_only :: "string \<Rightarrow> string + unit" where
  "hub_only label =
     (if label = hub_label then Inr () else Inl ''connections can only be managed from the Studio hub'')"

record connection_dto =
  cd_id :: string
  cd_kind :: string
  cd_label :: string
  cd_target :: string
  cd_has_secret :: bool

definition dto :: "connection_record \<Rightarrow> bool \<Rightarrow> connection_dto" where
  "dto r has = \<lparr>cd_id = r_id r, cd_kind = connection_kind_str (record_kind r), cd_label = r_label r,
     cd_target = config_display (r_config r), cd_has_secret = has\<rparr>"

definition has_or_false :: "'s secret_ops \<Rightarrow> 's connection_store \<Rightarrow> connection_id \<Rightarrow> bool" where
  "has_or_false S st c = (case store_has_secret S st c of Inr b \<Rightarrow> b | Inl _ \<Rightarrow> False)"

definition connections_list ::
  "'s secret_ops \<Rightarrow> string \<Rightarrow> ('s, 'c) conn_state \<Rightarrow> string + connection_dto list" where
  "connections_list S label cs =
     rbind (hub_only label) (\<lambda>_.
       Inr (map (\<lambda>r. dto r (has_or_false S (cs_store cs) (r_id r))) (records_of (cs_store cs))))"

fun parse_origins :: "string list \<Rightarrow> policy_error + origin list" where
  "parse_origins [] = Inr []"
| "parse_origins (o1 # os) = rbind (origin_parse o1) (\<lambda>x. rbind (parse_origins os) (\<lambda>xs. Inr (x # xs)))"

definition save_input :: "conn_env \<Rightarrow> string \<Rightarrow> string \<Rightarrow> string list \<Rightarrow> string + new_connection" where
  "save_input K kind secret origins =
     (if kind = ''sql'' then Inr (NewSql secret)
      else if kind = ''net'' then
        rbind (map_err (ke_policy_text K) (parse_origins origins)) (\<lambda>parsed. Inr (NewNet parsed secret))
      else Inl (''`'' @ kind @ ''` connections are not supported yet''))"

definition name_missing :: string where
  "name_missing = ''give the connection a name so you can recognise it later''"

definition connection_save ::
  "'s secret_ops \<Rightarrow> conn_env \<Rightarrow> io_faults \<Rightarrow> string \<Rightarrow> string \<Rightarrow> string option \<Rightarrow> string \<Rightarrow> string \<Rightarrow> string \<Rightarrow> string list \<Rightarrow>
   ('s, 'c) conn_state \<times> disk \<Rightarrow> (string + connection_dto) \<times> ('s, 'c) conn_state \<times> disk" where
  "connection_save S K f fresh label cid kind name secret origins = (\<lambda>(cs, d).
     case rbind (hub_only label) (\<lambda>_.
            if trim name = [] then Inl name_missing else save_input K kind secret origins) of
       Inl e \<Rightarrow> (Inl e, cs, d)
     | Inr input \<Rightarrow>
         let c = (case cid of Some c \<Rightarrow> c | None \<Rightarrow> fresh);
             (r, st, d) = upsert S (ke_registry K) f c (trim name) input (cs_store cs, d)
         in (rbind (map_err (ke_text K) r) (\<lambda>_.
               rbind (map_err (ke_text K) (ok_or (NotFound c) (get_record st c))) (\<lambda>rec.
                 Inr (dto rec (has_or_false S st c)))),
             cs\<lparr>cs_store := st\<rparr>, d))"

definition connection_rename ::
  "conn_env \<Rightarrow> io_faults \<Rightarrow> string \<Rightarrow> string \<Rightarrow> string \<Rightarrow>
   ('s, 'c) conn_state \<times> disk \<Rightarrow> (string + unit) \<times> ('s, 'c) conn_state \<times> disk" where
  "connection_rename K f label cid name = (\<lambda>(cs, d).
     case rbind (hub_only label) (\<lambda>_. if trim name = [] then Inl name_missing else Inr ()) of
       Inl e \<Rightarrow> (Inl e, cs, d)
     | Inr _ \<Rightarrow>
         let (r, st, d) = rename_connection (ke_registry K) f cid (trim name) (cs_store cs, d)
         in (map_err (ke_text K) r, cs\<lparr>cs_store := st\<rparr>, d))"

definition connection_remove ::
  "'s secret_ops \<Rightarrow> conn_env \<Rightarrow> io_faults \<Rightarrow> io_faults \<Rightarrow> string \<Rightarrow> string \<Rightarrow>
   ('s, 'c) conn_state \<times> disk \<Rightarrow> (string + unit) \<times> ('s, 'c) conn_state \<times> disk" where
  "connection_remove S K f g label cid = (\<lambda>(cs, d).
     case hub_only label of
       Inl e \<Rightarrow> (Inl e, cs, d)
     | Inr _ \<Rightarrow>
         (case remove_connection S (ke_registry K) f cid (cs_store cs, d) of
            (Inl e, st, d) \<Rightarrow> (Inl (ke_text K e), cs\<lparr>cs_store := st\<rparr>, d)
          | (Inr _, st, d) \<Rightarrow>
              let (r, bs, d) = forget_connection (ke_bindings K) g cid (cs_bindings cs, d)
              in (rbind (map_err (ke_text K) r) (\<lambda>_. Inr ()), cs\<lparr>cs_store := st, cs_bindings := bs\<rparr>, d)))"

definition connection_check_credential ::
  "'s secret_ops \<Rightarrow> conn_env \<Rightarrow> string \<Rightarrow> string \<Rightarrow> ('s, 'c) conn_state \<Rightarrow> string + bool" where
  "connection_check_credential S K label cid cs =
     rbind (hub_only label) (\<lambda>_. map_err (ke_text K) (store_has_secret S (cs_store cs) cid))"

definition connection_kinds :: "string list" where
  "connection_kinds = [connection_kind_str CSql, connection_kind_str CNet]"

section \<open>A window's document\<close>

definition json_as_str :: "json \<Rightarrow> string option" where
  "json_as_str j = (case j of JString s \<Rightarrow> Some s | _ \<Rightarrow> None)"

definition json_as_array :: "json \<Rightarrow> json list option" where
  "json_as_array j = (case j of JArray xs \<Rightarrow> Some xs | _ \<Rightarrow> None)"

definition window_manifest :: "studio_env \<Rightarrow> string \<Rightarrow> string \<Rightarrow> documents \<Rightarrow> string + json" where
  "window_manifest E refusal label docs =
     rbind (ok_or ''this window has no document'' (documents_get label docs)) (\<lambda>document.
       case document of
         Rejected _ _ _ _ \<Rightarrow> Inl refusal
       | Loaded _ _ manifest_json _ _ _ \<Rightarrow> ok_or ''unreadable manifest'' (se_json_from_str E manifest_json))"

definition window_document :: "studio_env \<Rightarrow> string \<Rightarrow> documents \<Rightarrow> string + string \<times> string" where
  "window_document E label docs =
     rbind (window_manifest E ''a rejected document has no storage binding'' label docs) (\<lambda>m.
     rbind (ok_or ''this document has no app id'' (Option.bind (se_json_pointer E m ''/app/id'') json_as_str)) (\<lambda>app_id.
     rbind (ok_or ''this document has no instance id'' (Option.bind (se_json_pointer E m ''/instance/id'') json_as_str))
       (\<lambda>iid. Inr (app_id, iid))))"

definition parse_require :: "string \<Rightarrow> string + require_kind" where
  "parse_require v =
     (if v = ''kv'' then Inr Kv else if v = ''sql'' then Inr Sql else if v = ''docs'' then Inr Docs
      else if v = ''files'' then Inr Files else Inl (''`'' @ v @ ''` is not a storage requirement''))"

section \<open>Binding\<close>

record binding_options =
  bo_candidates :: "connection_dto list"
  bo_recorded :: string

definition recorded_text :: "recorded_binding option \<Rightarrow> string" where
  "recorded_text b = (case b of
     None \<Rightarrow> ''unset'' | Some RecordedLocal \<Rightarrow> ''local'' | Some (RecordedConnection c) \<Rightarrow> c)"

definition connection_choices ::
  "studio_env \<Rightarrow> 's secret_ops \<Rightarrow> string \<Rightarrow> documents \<Rightarrow> string \<Rightarrow> string option \<Rightarrow> ('s, 'c) conn_state \<Rightarrow>
   string + binding_options" where
  "connection_choices E S label docs req hint cs =
     rbind (window_document E label docs) (\<lambda>(app_id, iid).
     rbind (parse_require req) (\<lambda>req.
       if req \<noteq> Sql then Inr \<lparr>bo_candidates = [], bo_recorded = ''local''\<rparr>
       else
         let st = cs_store cs;
             offered = candidates \<lparr>q_require = req, q_request_hint = hint\<rparr> (refs st);
             records = List.map_filter (\<lambda>c. get_record st (n_id c)) offered
         in Inr \<lparr>bo_candidates = map (\<lambda>r. dto r (has_or_false S st (r_id r))) records,
                 bo_recorded = recorded_text (get_binding (cs_bindings cs) app_id iid)\<rparr>))"

definition chosen_binding :: "'s connection_store \<Rightarrow> require_kind \<Rightarrow> string \<Rightarrow> string + recorded_binding" where
  "chosen_binding st req choice =
     (if choice = ''local'' then Inr RecordedLocal
      else case map_option (\<lambda>r. satisfies (to_ref r) req) (get_record st choice) of
        None \<Rightarrow> Inl ''that connection is no longer configured''
      | Some False \<Rightarrow> Inl ''that connection cannot store this kind of data''
      | Some True \<Rightarrow> Inr (RecordedConnection choice))"

definition connection_bind ::
  "studio_env \<Rightarrow> conn_env \<Rightarrow> io_faults \<Rightarrow> string \<Rightarrow> documents \<Rightarrow> string \<Rightarrow> string \<Rightarrow>
   ('s, 'c) conn_state \<times> disk \<Rightarrow> (string + unit) \<times> ('s, 'c) conn_state \<times> disk" where
  "connection_bind E K f label docs req choice = (\<lambda>(cs, d).
     case rbind (window_document E label docs) (\<lambda>(app_id, iid).
            rbind (parse_require req) (\<lambda>req.
            rbind (chosen_binding (cs_store cs) req choice) (\<lambda>b. Inr (app_id, iid, b)))) of
       Inl e \<Rightarrow> (Inl e, cs, d)
     | Inr (app_id, iid, b) \<Rightarrow>
         let (r, bs, d) = set_binding (ke_bindings K) f app_id iid b (cs_bindings cs, d)
         in (map_err (ke_text K) r, cs\<lparr>cs_bindings := bs\<rparr>, d))"

section \<open>Fetching\<close>

definition declared_origins :: "studio_env \<Rightarrow> string \<Rightarrow> documents \<Rightarrow> string + origin list" where
  "declared_origins E label docs =
     rbind (window_manifest E ''a rejected document has no network permission'' label docs) (\<lambda>m.
       Inr (case Option.bind (se_json_pointer E m ''/permissions/network'') json_as_array of
              None \<Rightarrow> []
            | Some xs \<Rightarrow>
                List.map_filter (\<lambda>entry. case origin_parse entry of Inr org \<Rightarrow> Some org | Inl _ \<Rightarrow> None)
                  (List.map_filter json_as_str xs)))"

text \<open>The credentials for one record, then for all.\<close>

definition record_credentials ::
  "'s secret_ops \<Rightarrow> 's connection_store \<Rightarrow> origin list \<Rightarrow> connection_record \<Rightarrow> origin_credentials \<Rightarrow> origin_credentials" where
  "record_credentials S st declared r creds =
     (let reference = to_ref r in
      if n_kind reference \<noteq> CNet then creds
      else fold (\<lambda>org creds. case read_secret S st (r_id r) of
                   Inr secret \<Rightarrow> credentials_insert org secret creds | Inl _ \<Rightarrow> creds)
             (filter (covers reference) declared) creds)"

definition gather_credentials ::
  "'s secret_ops \<Rightarrow> 's connection_store \<Rightarrow> origin list \<Rightarrow> origin_credentials" where
  "gather_credentials S st declared = fold (record_credentials S st declared) (records_of st) credentials_new"

record fetch_response_dto =
  fd_status :: nat
  fd_status_text :: string
  fd_headers :: "string \<rightharpoonup> string"
  fd_body :: string

definition net_fetch ::
  "studio_env \<Rightarrow> conn_env \<Rightarrow> 's secret_ops \<Rightarrow> 'w network_stack \<Rightarrow> string \<Rightarrow> documents \<Rightarrow> fetch_request \<Rightarrow>
   ('s, 'c) conn_state \<Rightarrow> 'w \<Rightarrow> (string + fetch_response_dto) \<times> net_event list \<times> 'w" where
  "net_fetch E K S N label docs request cs w =
     (case declared_origins E label docs of
        Inl e \<Rightarrow> (Inl e, [], w)
      | Inr declared \<Rightarrow>
          let policy = policy_new declared declared;
              credentials = gather_credentials S (cs_store cs) declared;
              (r, events, w) = brokered_fetch N request policy credentials fetch_limits_default w
          in (rbind (map_err (ke_text K) r) (\<lambda>p.
                Inr \<lparr>fd_status = fp_status p, fd_status_text = fp_status_text p,
                     fd_headers = map_of (rev (fp_headers p)), fd_body = fp_body p\<rparr>),
              events, w))"

section \<open>SQL\<close>

definition bound_connection ::
  "studio_env \<Rightarrow> string \<Rightarrow> documents \<Rightarrow> ('s, 'c) conn_state \<Rightarrow> string + connection_id" where
  "bound_connection E label docs cs =
     rbind (window_document E label docs) (\<lambda>(app_id, iid).
       case get_binding (cs_bindings cs) app_id iid of
         Some (RecordedConnection c) \<Rightarrow> Inr c
       | _ \<Rightarrow> Inl ''this document is not bound to a database'')"

definition sql_for_window ::
  "'s secret_ops \<Rightarrow> ('c, 'w) pg_driver \<Rightarrow> string \<Rightarrow> connection_id \<Rightarrow>
   ('s, 'c) conn_state \<times> 'w \<Rightarrow> (connection_error + 'c) \<times> ('s, 'c) conn_state \<times> 'w" where
  "sql_for_window S P label connection = (\<lambda>(cs, w).
     case cs_sql cs label of
       Some existing \<Rightarrow>
         if \<not> pg_is_closed P existing w then (Inr existing, cs, w)
         else
           let cs = cs\<lparr>cs_sql := (cs_sql cs)(label := None)\<rparr> in
           (case read_secret S (cs_store cs) connection of
              Inl e \<Rightarrow> (Inl e, cs, w)
            | Inr secret \<Rightarrow>
                (case pg_open P secret w of
                   (Inl e, w) \<Rightarrow> (Inl e, cs, w)
                 | (Inr client, w) \<Rightarrow> (Inr client, cs\<lparr>cs_sql := (cs_sql cs)(label \<mapsto> client)\<rparr>, w)))
     | None \<Rightarrow>
         (case read_secret S (cs_store cs) connection of
            Inl e \<Rightarrow> (Inl e, cs, w)
          | Inr secret \<Rightarrow>
              (case pg_open P secret w of
                 (Inl e, w) \<Rightarrow> (Inl e, cs, w)
               | (Inr client, w) \<Rightarrow> (Inr client, cs\<lparr>cs_sql := (cs_sql cs)(label \<mapsto> client)\<rparr>, w))))"

definition close_sql_for_window :: "string \<Rightarrow> ('s, 'c) conn_state \<Rightarrow> ('s, 'c) conn_state" where
  "close_sql_for_window label cs = cs\<lparr>cs_sql := (cs_sql cs)(label := None)\<rparr>"

definition returns_rows :: "string \<Rightarrow> bool" where
  "returns_rows sql =
     (let trimmed = to_ascii_lowercase (trim_start sql) in
      starts_with trimmed ''select'' \<or> starts_with trimmed ''with'' \<or> starts_with trimmed ''show'' \<or>
      starts_with trimmed ''explain'' \<or> contains trimmed '' returning '')"

definition connection_sql_exec ::
  "studio_env \<Rightarrow> conn_env \<Rightarrow> 's secret_ops \<Rightarrow> ('c, 'w) pg_driver \<Rightarrow> string \<Rightarrow> documents \<Rightarrow> string \<Rightarrow> json list \<Rightarrow>
   ('s, 'c) conn_state \<times> 'w \<Rightarrow> (string + sql_result) \<times> ('s, 'c) conn_state \<times> 'w" where
  "connection_sql_exec E K S P label docs sql params = (\<lambda>(cs, w).
     case bound_connection E label docs cs of
       Inl e \<Rightarrow> (Inl e, cs, w)
     | Inr c \<Rightarrow>
         (case sql_for_window S P label c (cs, w) of
            (Inl e, cs, w) \<Rightarrow> (Inl (ke_text K e), cs, w)
          | (Inr client, cs, w) \<Rightarrow>
              let (r, w) = (if returns_rows sql then pg_exec P client sql params w else pg_execute P client sql params w)
              in (map_err (ke_text K) r, cs, w)))"

section \<open>The hub alone manages connections\<close>

lemma hub_only_iff: "hub_only label = Inr () \<longleftrightarrow> label = hub_label"
  by (simp add: hub_only_def)


section \<open>Where a fetch may send a credential\<close>

text \<open>The credential of a configured network connection that covers the origin.\<close>

definition configured_for :: "'s secret_ops \<Rightarrow> 's connection_store \<Rightarrow> origin \<Rightarrow> string \<Rightarrow> bool" where
  "configured_for S st org secret =
     list_ex (\<lambda>r. record_kind r = CNet \<and> covers (to_ref r) org \<and> read_secret S st (r_id r) = Inr secret)
       (records_of st)"

definition creds_ok :: "'s secret_ops \<Rightarrow> 's connection_store \<Rightarrow> origin list \<Rightarrow> origin_credentials \<Rightarrow> bool" where
  "creds_ok S st declared creds =
     list_all (\<lambda>(org, secret). org \<in> set declared \<and> configured_for S st org secret) creds"

lemma creds_ok_insert:
  "creds_ok S st declared creds \<Longrightarrow> org \<in> set declared \<Longrightarrow> configured_for S st org secret \<Longrightarrow>
     creds_ok S st declared (credentials_insert org secret creds)"
  by (simp add: creds_ok_def credentials_insert_def)

lemma record_credentials_ok:
  assumes "r \<in> set (records_of st)" "creds_ok S st declared creds"
  shows "creds_ok S st declared (record_credentials S st declared r creds)"
proof (cases "n_kind (to_ref r) = CNet")
  case True
  then have net: "record_kind r = CNet" by (simp add: to_ref_def)
  have "creds_ok S st declared (fold (\<lambda>org creds. case read_secret S st (r_id r) of
      Inr secret \<Rightarrow> credentials_insert org secret creds | Inl _ \<Rightarrow> creds) orgs creds)"
    if "set orgs \<subseteq> set (filter (covers (to_ref r)) declared)" for orgs
    using that assms(2)
  proof (induction orgs arbitrary: creds)
    case (Cons org orgs)
    have step: "creds_ok S st declared (case read_secret S st (r_id r) of
        Inr secret \<Rightarrow> credentials_insert org secret creds | Inl _ \<Rightarrow> creds)"
    proof (cases "read_secret S st (r_id r)")
      case (Inr secret)
      with Cons.prems assms(1) net have "org \<in> set declared" "configured_for S st org secret"
        by (auto simp: configured_for_def list_ex_iff)
      with Cons.prems Inr show ?thesis by (simp add: creds_ok_insert)
    qed (use Cons.prems in simp)
    from Cons.prems have "set orgs \<subseteq> set (filter (covers (to_ref r)) declared)" by simp
    from Cons.IH [OF this step] show ?case by simp
  qed simp
  from this [of "filter (covers (to_ref r)) declared"] True show ?thesis
    by (simp add: record_credentials_def Let_def)
qed (use assms in \<open>simp add: record_credentials_def Let_def\<close>)

lemma gather_credentials_ok: "creds_ok S st declared (gather_credentials S st declared)"
proof -
  have "creds_ok S st declared (fold (record_credentials S st declared) rs creds)"
    if "set rs \<subseteq> set (records_of st)" "creds_ok S st declared creds" for rs creds
    using that by (induction rs arbitrary: creds) (simp_all add: record_credentials_ok)
  from this [OF subset_refl, of "[]"] show ?thesis
    by (simp add: gather_credentials_def credentials_new_def creds_ok_def)
qed

lemma for_origin_configured:
  assumes "for_origin (gather_credentials S st declared) org = Some secret"
  shows "configured_for S st org secret"
proof -
  from assms obtain o' where "(o', secret) \<in> set (gather_credentials S st declared)" "o' = org"
    unfolding for_origin_def by (auto simp: find_Some_iff) (metis nth_mem)
  with gather_credentials_ok [of S st declared] show ?thesis by (auto simp: creds_ok_def list_all_iff)
qed

text \<open>What an event of a fetch may be: a look-up of a declared origin's host, or a request to a declared
  origin with no credential or one the user configured for that origin.\<close>

definition event_allowed :: "'s secret_ops \<Rightarrow> 's connection_store \<Rightarrow> origin list \<Rightarrow> net_event \<Rightarrow> bool" where
  "event_allowed S st declared e =
     (case e of
        Lookup host port _ \<Rightarrow> list_ex (\<lambda>org. o_host org = host \<and> o_port org = port) declared
      | Sent r \<Rightarrow>
          (case of_url (hr_url r) of
             Inl _ \<Rightarrow> False
           | Inr org \<Rightarrow> org \<in> set declared \<and>
               (case hr_bearer r of None \<Rightarrow> True | Some secret \<Rightarrow> configured_for S st org secret)))"

definition window_origins :: "studio_env \<Rightarrow> string \<Rightarrow> documents \<Rightarrow> origin list" where
  "window_origins E label docs = (case declared_origins E label docs of Inl _ \<Rightarrow> [] | Inr ds \<Rightarrow> ds)"

lemma sent_ok_allowed:
  assumes "sent_ok (policy_new declared declared) (gather_credentials S st declared) org a r"
  shows "event_allowed S st declared (Sent r)"
  using assms for_origin_configured [of S st declared org]
  by (auto simp: sent_ok_def event_allowed_def policy_new_def split: option.split)

lemma hop_ok_allowed:
  assumes "hop_ok (policy_new declared declared) (gather_credentials S st declared) evs"
  shows "list_all (event_allowed S st declared) evs"
  using assms
proof cases
  case (looked_up org answer)
  then show ?thesis by (auto simp: event_allowed_def policy_new_def list_ex_iff)
next
  case (sent_literal org a r)
  then show ?thesis using sent_ok_allowed by simp
next
  case (sent_resolved org a answer r)
  from sent_resolved(4) have "org \<in> set declared" by (simp add: sent_ok_def policy_new_def)
  then have "event_allowed S st declared (Lookup (o_host org) (o_port org) (Some answer))"
    by (auto simp: event_allowed_def list_ex_iff)
  with sent_resolved sent_ok_allowed show ?thesis by simp
qed simp

text \<open>
  C34: Whatever a document's window asks for, whatever the network answers and wherever it redirects, a
  fetch looks up only hosts of origins that window's own manifest declares and sends requests only to such
  origins; a request carries a credential only if the user configured it, in a network connection, for
  exactly the origin the request goes to.
\<close>

theorem fetch_sends_credentials_only_where_configured:
  "case net_fetch E K S N label docs request cs w of (r, events, w') \<Rightarrow>
     list_all (event_allowed S (cs_store cs) (window_origins E label docs)) events"
proof (cases "declared_origins E label docs")
  case (Inr declared)
  let ?creds = "gather_credentials S (cs_store cs) declared"
  obtain r evs w' where run: "brokered_fetch N request (policy_new declared declared) ?creds fetch_limits_default w = (r, evs, w')"
    by (cases "brokered_fetch N request (policy_new declared declared) ?creds fetch_limits_default w")
  with fetch_hops_ok [of N request "policy_new declared declared" ?creds] obtain hops where
    hops: "evs = concat hops" "list_all (hop_ok (policy_new declared declared) ?creds) hops"
    unfolding brokered_fetch_def by blast
  from hops(2) have "list_all (event_allowed S (cs_store cs) declared) (concat hops)"
    by (induction hops) (simp_all add: hop_ok_allowed)
  with Inr run hops(1) show ?thesis by (simp add: net_fetch_def window_origins_def)
qed (simp add: net_fetch_def)

section \<open>A decision does not reach the open session\<close>

lemma set_binding_get:
  "set_binding J f a i b (st, d) = (r, st', d') \<Longrightarrow> get_binding st' a i = Some b"
  by (auto simp: set_binding_def get_binding_def Let_def split: prod.splits)

text \<open>
  Binding a document to another connection leaves the window's open session alone: the decision is
  recorded, a statement is prepared for the newly bound connection, and as long as the old session is not
  closed every statement still runs on it, in the database bound before.
\<close>

theorem rebinding_keeps_the_open_session:
  assumes "connection_bind E K f label docs req choice (cs, d) = (Inr (), cs', d')"
    and "choice \<noteq> ''local''" "cs_sql cs label = Some client" "\<not> pg_is_closed P client w"
  shows "bound_connection E label docs cs' = Inr choice \<and>
    connection_sql_exec E K S P label docs sql params (cs', w) =
      (let (r, w') = (if returns_rows sql then pg_exec P client sql params w else pg_execute P client sql params w)
       in (map_err (ke_text K) r, cs', w'))"
proof -
  obtain app_id iid where doc: "window_document E label docs = Inr (app_id, iid)"
    using assms(1) by (cases "window_document E label docs") (auto simp: connection_bind_def)
  obtain k where k: "parse_require req = Inr k"
    using assms(1) doc by (cases "parse_require req") (auto simp: connection_bind_def)
  have chosen: "chosen_binding (cs_store cs) k choice = Inr (RecordedConnection choice)"
  proof (cases "chosen_binding (cs_store cs) k choice")
    case (Inr b)
    with assms(2) show ?thesis by (auto simp: chosen_binding_def split: option.splits bool.splits)
  qed (use assms(1) doc k in \<open>simp add: connection_bind_def\<close>)
  obtain r bs d2 where set: "set_binding (ke_bindings K) f app_id iid (RecordedConnection choice) (cs_bindings cs, d) = (r, bs, d2)"
    by (cases "set_binding (ke_bindings K) f app_id iid (RecordedConnection choice) (cs_bindings cs, d)")
  with assms(1) doc k chosen have cs': "cs' = cs\<lparr>cs_bindings := bs\<rparr>" by (simp add: connection_bind_def)
  from set_binding_get [OF set] doc cs' have bound: "bound_connection E label docs cs' = Inr choice"
    by (simp add: bound_connection_def)
  moreover have "sql_for_window S P label choice (cs', w) = (Inr client, cs', w)"
    using assms(3,4) cs' by (simp add: sql_for_window_def)
  ultimately show ?thesis by (simp add: connection_sql_exec_def)
qed

text \<open>The witness: two databases configured, a session open on the first, the document bound to the second.\<close>

definition two_databases :: "(memory_store, nat) conn_state" where
  "two_databases =
     \<lparr>cs_store = sample_store
        (map (\<lambda>c. \<lparr>r_id = c, r_label = c, r_config = SqlConfig \<lparr>t_host = ''h'', t_port = 1, t_database = c, t_user = ''u''\<rparr>\<rparr>)
           [''c1'', ''c2'']) [] False,
      cs_bindings = \<lparr>bs_path = [''bindings.json''], bs_bindings = []\<rparr>, cs_sql = [''reader-1'' \<mapsto> 0]\<rparr>"

definition answering_env :: studio_env where
  "answering_env = (sample_env True)\<lparr>se_json_from_str := (\<lambda>_. Some JNull), se_json_pointer := (\<lambda>_ p. Some (JString p))\<rparr>"

definition answering_conn_env :: conn_env where
  "answering_conn_env =
     \<lparr>ke_registry = sample_registry_json,
      ke_bindings = \<lparr>bj_to_string = (\<lambda>_. Some ''{}''), bj_from_str = (\<lambda>_. None)\<rparr>,
      ke_text = (\<lambda>_. []), ke_policy_text = (\<lambda>_. [])\<rparr>"

definition one_document :: documents where
  "one_document = [''reader-1'' \<mapsto> Loaded [] [] [] [] [] None]"

text \<open>A server that answers with the number of the session, and never closes one.\<close>

definition numbering_server :: "(nat, unit) pg_driver" where
  "numbering_server =
     \<lparr>pd_connect = (\<lambda>_ _ w. (Inr 1, w)), pd_query = (\<lambda>c _ _ w. (Inr [], w)),
      pd_execute = (\<lambda>c _ _ w. (Inr c, w)), pd_is_closed = (\<lambda>_ _. False)\<rparr>"

lemma two_databases_bound:
  "fst (connection_bind answering_env answering_conn_env no_faults ''reader-1'' one_document ''sql'' ''c2''
     (two_databases, Map.empty)) = Inr ()"
proof -
  have "window_document answering_env ''reader-1'' one_document = Inr (''/app/id'', ''/instance/id'')"
    by (simp add: window_document_def window_manifest_def one_document_def documents_get_def answering_env_def
        json_as_str_def)
  moreover have "chosen_binding (cs_store two_databases) Sql ''c2'' = Inr (RecordedConnection ''c2'')"
    by code_simp
  moreover have "parse_require ''sql'' = Inr Sql" by (simp add: parse_require_def)
  moreover have set: "fst (set_binding (ke_bindings answering_conn_env) no_faults a i b (cs_bindings two_databases, Map.empty)) = Inr ()"
    for a i b
    by (simp add: set_binding_def persist_bindings_def answering_conn_env_def two_databases_def write_atomically_def
        no_faults_def Let_def written_part_def with_extension_neq [THEN not_sym] with_extension_def)
  moreover obtain r bs d2 where r: "set_binding (ke_bindings answering_conn_env) no_faults ''/app/id'' ''/instance/id''
      (RecordedConnection ''c2'') (cs_bindings two_databases, Map.empty) = (r, bs, d2)"
    by (cases "set_binding (ke_bindings answering_conn_env) no_faults ''/app/id'' ''/instance/id''
      (RecordedConnection ''c2'') (cs_bindings two_databases, Map.empty)")
  moreover have "r = Inr ()"
    using set [of "''/app/id''" "''/instance/id''" "RecordedConnection ''c2''"] unfolding r by simp
  ultimately show ?thesis
    by (simp add: connection_bind_def)
qed

theorem rebinding_keeps_the_open_session_witness:
  "\<exists>cs' d'. connection_bind answering_env answering_conn_env no_faults ''reader-1'' one_document ''sql'' ''c2''
       (two_databases, Map.empty) = (Inr (), cs', d') \<and>
     bound_connection answering_env ''reader-1'' one_document cs' = Inr ''c2'' \<and>
     fst (connection_sql_exec answering_env answering_conn_env memory_ops numbering_server ''reader-1''
       one_document ''delete from t'' [] (cs', ())) = Inr \<lparr>sq_rows = [], sq_rows_affected = 0\<rparr>"
proof -
  obtain r cs' d' where run: "connection_bind answering_env answering_conn_env no_faults ''reader-1'' one_document
      ''sql'' ''c2'' (two_databases, Map.empty) = (r, cs', d')"
    by (cases "connection_bind answering_env answering_conn_env no_faults ''reader-1'' one_document
      ''sql'' ''c2'' (two_databases, Map.empty)")
  with two_databases_bound have run: "connection_bind answering_env answering_conn_env no_faults ''reader-1'' one_document
      ''sql'' ''c2'' (two_databases, Map.empty) = (Inr (), cs', d')" by (simp only: fst_conv)
  have "cs_sql two_databases ''reader-1'' = Some 0" "\<not> pg_is_closed numbering_server 0 ()" "''c2'' \<noteq> ''local''"
    by (simp_all add: two_databases_def numbering_server_def pg_is_closed_def)
  note old = rebinding_keeps_the_open_session [OF run this(3,1,2), of memory_ops "''delete from t''" "[]"]
  have "\<not> returns_rows ''delete from t''" by code_simp
  with old have "fst (connection_sql_exec answering_env answering_conn_env memory_ops numbering_server ''reader-1''
       one_document ''delete from t'' [] (cs', ())) = Inr \<lparr>sq_rows = [], sq_rows_affected = 0\<rparr>"
    by (simp add: pg_execute_def numbering_server_def sql_error_def)
  with old run show ?thesis by (intro exI conjI) (assumption | simp)+
qed

section \<open>Statements that return rows\<close>

text \<open>A statement is run as a query by its first letters or a \<open>RETURNING\<close> between two blanks: after a line
  break the rows it asks for are dropped.\<close>

lemma returning_after_a_line_break:
  "returns_rows ''delete returning i'' \<and> \<not> returns_rows (''delete'' @ [CHR 0x0A] @ ''returning i'')"
proof -
  have "trim_start ''delete returning i'' = ''delete returning i''"
    "trim_start (''delete'' @ [CHR 0x0A] @ ''returning i'') = ''delete'' @ [CHR 0x0A] @ ''returning i''"
    by (rule trim_start_nothing; code_simp)+
  then show ?thesis unfolding returns_rows_def by (simp only: Let_def) code_simp
qed

lemma binding_needs_a_configured_connection:
  assumes "chosen_binding st k choice = Inr (RecordedConnection c)"
  shows "c = choice \<and> (\<exists>r. get_record st c = Some r \<and> satisfies (to_ref r) k)"
  using assms by (auto simp: chosen_binding_def split: if_splits option.splits bool.splits)

end
