(* ===== verification/Studio_Windows.thy ===== *)
theory Studio_Windows
  imports Studio_Vault Studio_Connections
begin

text \<open>
  The windows of the desktop application: what a launch opens (\<open>cli.rs\<close>), the files a window serves to the
  application in it (\<open>asset_registry.rs\<close>, the protocol handler of \<open>lib.rs\<close> and the asset commands of
  \<open>commands.rs\<close>), and the life of a window (\<open>windows.rs\<close>, the window events of \<open>lib.rs\<close>) as a step
  relation. The steps are what runs without another task in between: a command that waits for the lock of
  the SQL sessions, and the task that closes a session, are steps of their own.
\<close>

section \<open>What a launch opens\<close>

fun open_request :: "string list \<Rightarrow> string option" where
  "open_request [] = None"
| "open_request (arg # rest) =
     (if arg = ''--open'' then (case rest of [] \<Rightarrow> None | path # _ \<Rightarrow> Some path)
      else if \<not> starts_with arg ''-'' \<and> ends_with (to_ascii_lowercase arg) ''.poid'' then Some arg
      else open_request rest)"

text \<open>An argument that decides: the flag, or a positional that looks like a document.\<close>

definition claims_launch :: "string \<Rightarrow> bool" where
  "claims_launch arg \<longleftrightarrow>
     arg = ''--open'' \<or> \<not> starts_with arg ''-'' \<and> ends_with (to_ascii_lowercase arg) ''.poid''"

lemma open_request_first:
  "open_request args =
     (case dropWhile (\<lambda>a. \<not> claims_launch a) args of
        [] \<Rightarrow> None
      | a # rest \<Rightarrow> if a = ''--open'' then (case rest of [] \<Rightarrow> None | path # _ \<Rightarrow> Some path) else Some a)"
  by (induction args) (auto simp: claims_launch_def)

section \<open>The files a window serves\<close>

record asset =
  as_content_type :: string
  as_bytes :: "byte list"

type_synonym session_assets = "string \<rightharpoonup> (string \<rightharpoonup> asset)"

definition assets_set :: "string \<Rightarrow> (string \<rightharpoonup> asset) \<Rightarrow> session_assets \<Rightarrow> session_assets" where
  "assets_set session assets store = store(session \<mapsto> assets)"

definition assets_get :: "string \<Rightarrow> string \<Rightarrow> session_assets \<Rightarrow> asset option" where
  "assets_get session path store = Option.bind (store session) (\<lambda>a. a path)"

definition assets_remove :: "string \<Rightarrow> session_assets \<Rightarrow> session_assets" where
  "assets_remove session store = store(session := None)"

definition split_request :: "string \<Rightarrow> (string \<times> string) option" where
  "split_request path =
     (let trimmed = dropWhile (\<lambda>c. c = CHR ''/'') path;
          (session, rest) = (case split_once_str ''/'' trimmed of Some sr \<Rightarrow> sr | None \<Rightarrow> (trimmed, []))
      in if session = [] then None else Some (session, rest))"

record asset_dto =
  ad_path :: string
  ad_content_type :: string
  ad_data_b64 :: string

fun decode_assets :: "studio_env \<Rightarrow> asset_dto list \<Rightarrow> (string \<rightharpoonup> asset) \<Rightarrow> string + (string \<rightharpoonup> asset)" where
  "decode_assets E [] m = Inr m"
| "decode_assets E (a # rest) m =
     rbind (se_base64_decode E (ad_data_b64 a)) (\<lambda>bytes.
       decode_assets E rest (m(ad_path a \<mapsto> \<lparr>as_content_type = ad_content_type a, as_bytes = bytes\<rparr>)))"

definition register_session_assets ::
  "studio_env \<Rightarrow> string \<Rightarrow> asset_dto list \<Rightarrow> session_assets \<Rightarrow> (string + unit) \<times> session_assets" where
  "register_session_assets E session assets store =
     (case decode_assets E assets Map.empty of
        Inl e \<Rightarrow> (Inl e, store)
      | Inr m \<Rightarrow> (Inr (), assets_set session m store))"

definition revoke_session_assets :: "string \<Rightarrow> session_assets \<Rightarrow> session_assets" where
  "revoke_session_assets session store = assets_remove session store"

text \<open>The answer to a request of the \<open>poid://\<close> scheme: the root's asset stands in for every path without one.\<close>

record scheme_response =
  sr_status :: nat
  sr_headers :: "(string \<times> string) list"
  sr_body :: "byte list"

definition not_found :: "(string \<times> string) list \<Rightarrow> scheme_response" where
  "not_found hs = \<lparr>sr_status = 404, sr_headers = (''Content-Type'', ''text/plain'') # hs, sr_body = bytes_of ''not found''\<rparr>"

definition any_origin :: "(string \<times> string) list" where
  "any_origin = [(''Access-Control-Allow-Origin'', ''*'')]"

definition serve_request :: "session_assets \<Rightarrow> string \<Rightarrow> scheme_response" where
  "serve_request store uri_path =
     (case split_request uri_path of
        None \<Rightarrow> not_found []
      | Some (session, path) \<Rightarrow>
          (case (case assets_get session path store of Some a \<Rightarrow> Some a | None \<Rightarrow> assets_get session [] store) of
             Some a \<Rightarrow> \<lparr>sr_status = 200, sr_headers = (''Content-Type'', as_content_type a) # any_origin, sr_body = as_bytes a\<rparr>
           | None \<Rightarrow> not_found any_origin))"

section \<open>The application\<close>

text \<open>The counter of reader windows (64 bits wide in the code: no process opens that many), the windows that exist, and the tasks that wait for the lock of the SQL
  sessions: statements of a window on a connection, and closings.\<close>

record ('d, 's, 'c) studio =
  su_seq :: nat
  su_open :: "string list"
  su_docs :: documents
  su_vault :: "'d vault_state"
  su_conn :: "('s, 'c) conn_state"
  su_assets :: session_assets
  su_statements :: "(string \<times> connection_id) list"
  su_closing :: "string list"

definition reader_label :: "nat \<Rightarrow> string" where
  "reader_label n = ''reader-'' @ show_nat n"

definition open_reader ::
  "studio_env \<Rightarrow> studio_io \<Rightarrow> (poid_error \<Rightarrow> string) \<Rightarrow> uuid \<Rightarrow> bool \<Rightarrow> path \<Rightarrow>
   ('d, 's, 'c) studio \<times> disk \<Rightarrow> ('d, 's, 'c) studio \<times> disk" where
  "open_reader E io to_string fresh built path = (\<lambda>(su, d).
     let ((dto, bind), vs, d) = load_document E io to_string fresh path (su_vault su, d);
         label = reader_label (su_seq su + 1);
         vs = (case bind of Some i \<Rightarrow> bind_window label i vs | None \<Rightarrow> vs);
         su = su\<lparr>su_seq := su_seq su + 1, su_docs := documents_insert label dto (su_docs su), su_vault := vs\<rparr>
     in (if built then su\<lparr>su_open := label # su_open su\<rparr>
         else su\<lparr>su_docs := documents_remove label (su_docs su)\<rparr>, d))"

definition focus_or_create_studio :: "bool \<Rightarrow> ('d, 's, 'c) studio \<Rightarrow> ('d, 's, 'c) studio" where
  "focus_or_create_studio built su =
     (if hub_label \<in> set (su_open su) then su
      else if built then su\<lparr>su_open := hub_label # su_open su\<rparr> else su)"

text \<open>A launch, the first one and every later one.\<close>

definition launch ::
  "studio_env \<Rightarrow> studio_io \<Rightarrow> (poid_error \<Rightarrow> string) \<Rightarrow> uuid \<Rightarrow> bool \<Rightarrow> string list \<Rightarrow>
   ('d, 's, 'c) studio \<times> disk \<Rightarrow> ('d, 's, 'c) studio \<times> disk" where
  "launch E io to_string fresh built args = (\<lambda>(su, d).
     case open_request args of
       Some path \<Rightarrow> open_reader E io to_string fresh built (se_path_of E path) (su, d)
     | None \<Rightarrow> (focus_or_create_studio built su, d))"

definition window_destroyed :: "string \<Rightarrow> ('d, 's, 'c) studio \<Rightarrow> ('d, 's, 'c) studio" where
  "window_destroyed label su =
     su\<lparr>su_open := removeAll label (su_open su), su_docs := documents_remove label (su_docs su),
        su_vault := unbind_window label (su_vault su), su_closing := label # su_closing su\<rparr>"

definition reader_bootstrap :: "string \<Rightarrow> documents \<Rightarrow> string + document_dto" where
  "reader_bootstrap label docs = ok_or ''no document is registered for this window'' (documents_get label docs)"

text \<open>The application at start.\<close>

definition studio_start :: "'d vault_state \<Rightarrow> ('s, 'c) conn_state \<Rightarrow> ('d, 's, 'c) studio" where
  "studio_start vs cs =
     \<lparr>su_seq = 0, su_open = [], su_docs = Map.empty, su_vault = vs, su_conn = cs, su_assets = Map.empty,
      su_statements = [], su_closing = []\<rparr>"

section \<open>Steps\<close>

text \<open>One step, with the window on whose behalf it happens, if any.\<close>

inductive studio_step ::
  "studio_env \<Rightarrow> conn_env \<Rightarrow> 'd automerge \<Rightarrow> 'v serde_value \<Rightarrow> 's secret_ops \<Rightarrow> ('c, 'w) pg_driver \<Rightarrow>
   (poid_error \<Rightarrow> string) \<Rightarrow> (vault_error \<Rightarrow> string) \<Rightarrow> string option \<Rightarrow>
   ('d, 's, 'c) studio \<times> disk \<times> 'w \<Rightarrow> ('d, 's, 'c) studio \<times> disk \<times> 'w \<Rightarrow> bool"
  for E :: studio_env and K :: conn_env and A :: "'d automerge" and V :: "'v serde_value"
    and S :: "'s secret_ops" and P :: "('c, 'w) pg_driver"
    and ts :: "poid_error \<Rightarrow> string" and vts :: "vault_error \<Rightarrow> string" where
  launched: "launch E io ts fresh built args (su, d) = (su', d') \<Longrightarrow>
    studio_step E K A V S P ts vts None (su, d, w) (su', d', w)"
| opened: "label \<in> set (su_open su) \<Longrightarrow> open_reader E io ts fresh built path (su, d) = (su', d') \<Longrightarrow>
    studio_step E K A V S P ts vts None (su, d, w) (su', d', w)"
| hub_opened: "label \<in> set (su_open su) \<Longrightarrow>
    studio_step E K A V S P ts vts None (su, d, w) (focus_or_create_studio built su, d, w)"
| destroyed: "label \<in> set (su_open su) \<Longrightarrow>
    studio_step E K A V S P ts vts (Some label) (su, d, w) (window_destroyed label su, d, w)"
| vault_command: "label \<in> set (su_open su) \<Longrightarrow>
    run_command E A V io vts label (su_docs su) cmd (su_vault su, d) = (r, vs, d') \<Longrightarrow>
    studio_step E K A V S P ts vts (Some label) (su, d, w) (su\<lparr>su_vault := vs\<rparr>, d', w)"
| copy_answered: "label \<in> set (su_open su) \<Longrightarrow>
    resolve_copy_conflict E io ts vts label choice fresh (su_docs su, su_vault su, d) = (answer, docs, vs, d') \<Longrightarrow>
    studio_step E K A V S P ts vts (Some label) (su, d, w) (su\<lparr>su_docs := docs, su_vault := vs\<rparr>, d', w)"
| saved: "label \<in> set (su_open su) \<Longrightarrow>
    connection_save S K f fresh_text label cid kind name secret origins (su_conn su, d) = (saved_dto, cs, d') \<Longrightarrow>
    studio_step E K A V S P ts vts (Some label) (su, d, w) (su\<lparr>su_conn := cs\<rparr>, d', w)"
| renamed: "label \<in> set (su_open su) \<Longrightarrow>
    connection_rename K f label c name (su_conn su, d) = (outcome, cs, d') \<Longrightarrow>
    studio_step E K A V S P ts vts (Some label) (su, d, w) (su\<lparr>su_conn := cs\<rparr>, d', w)"
| removed: "label \<in> set (su_open su) \<Longrightarrow>
    connection_remove S K f g label c (su_conn su, d) = (outcome, cs, d') \<Longrightarrow>
    studio_step E K A V S P ts vts (Some label) (su, d, w) (su\<lparr>su_conn := cs\<rparr>, d', w)"
| bound: "label \<in> set (su_open su) \<Longrightarrow>
    connection_bind E K f label (su_docs su) req choice (su_conn su, d) = (outcome, cs, d') \<Longrightarrow>
    studio_step E K A V S P ts vts (Some label) (su, d, w) (su\<lparr>su_conn := cs\<rparr>, d', w)"
| assets_registered: "label \<in> set (su_open su) \<Longrightarrow>
    register_session_assets E session assets (su_assets su) = (outcome, store) \<Longrightarrow>
    studio_step E K A V S P ts vts (Some label) (su, d, w) (su\<lparr>su_assets := store\<rparr>, d, w)"
| assets_revoked: "label \<in> set (su_open su) \<Longrightarrow>
    studio_step E K A V S P ts vts (Some label) (su, d, w)
      (su\<lparr>su_assets := revoke_session_assets session (su_assets su)\<rparr>, d, w)"
| statement: "label \<in> set (su_open su) \<Longrightarrow> bound_connection E label (su_docs su) (su_conn su) = Inr c \<Longrightarrow>
    studio_step E K A V S P ts vts (Some label) (su, d, w)
      (su\<lparr>su_statements := (label, c) # su_statements su\<rparr>, d, w)"
| session_taken: "(label, c) \<in> set (su_statements su) \<Longrightarrow>
    sql_for_window S P label c (su_conn su, w) = (client, cs, w') \<Longrightarrow>
    studio_step E K A V S P ts vts (Some label) (su, d, w)
      (su\<lparr>su_conn := cs, su_statements := remove1 (label, c) (su_statements su)\<rparr>, d, w')"
| session_closed: "label \<in> set (su_closing su) \<Longrightarrow>
    studio_step E K A V S P ts vts (Some label) (su, d, w)
      (su\<lparr>su_conn := close_sql_for_window label (su_conn su), su_closing := remove1 label (su_closing su)\<rparr>, d, w)"

inductive studio_steps for E K A V S P ts vts where
  no_step: "studio_steps E K A V S P ts vts s s"
| more: "studio_steps E K A V S P ts vts s s' \<Longrightarrow> studio_step E K A V S P ts vts a s' s'' \<Longrightarrow>
    studio_steps E K A V S P ts vts s s''"

inductive_cases studio_step_cases: "studio_step E K A V S P ts vts a (su, d, w) (su', d', w')"

section \<open>What a step leaves of other windows\<close>

text \<open>All that is kept under a window's label.\<close>

definition window_view ::
  "string \<Rightarrow> ('d, 's, 'c) studio \<Rightarrow> document_dto option \<times> uuid option \<times> 'c option \<times> bool" where
  "window_view label su =
     (su_docs su label, vs_windows (su_vault su) label, cs_sql (su_conn su) label, label \<in> set (su_open su))"

text \<open>Every label in use is the hub's or one the counter has given out.\<close>

definition issued :: "nat \<Rightarrow> string \<Rightarrow> bool" where
  "issued n label \<longleftrightarrow> label = hub_label \<or> label \<in> reader_label ` {1..n}"

definition labels_in_use :: "('d, 's, 'c) studio \<Rightarrow> string set" where
  "labels_in_use su =
     set (su_open su) \<union> dom (vs_windows (su_vault su)) \<union> dom (cs_sql (su_conn su)) \<union>
     fst ` set (su_statements su) \<union> set (su_closing su)"

definition windows_ok :: "('d, 's, 'c) studio \<Rightarrow> bool" where
  "windows_ok su \<longleftrightarrow>
     distinct (su_open su) \<and> dom (su_docs su) = set (su_open su) - {hub_label} \<and>
     (\<forall>label \<in> labels_in_use su. issued (su_seq su) label)"

lemma reader_label_inject [simp]: "reader_label m = reader_label n \<longleftrightarrow> m = n"
  by (simp add: reader_label_def)

lemma reader_label_not_hub [simp]: "reader_label n \<noteq> hub_label" "hub_label \<noteq> reader_label n"
  by (simp_all add: reader_label_def hub_label_def)

lemma issued_mono: "issued n label \<Longrightarrow> n \<le> m \<Longrightarrow> issued m label"
  by (auto simp: issued_def)

lemma next_label_new: "\<not> issued n (reader_label (Suc n))" "issued (Suc n) (reader_label (Suc n))"
  by (auto simp: issued_def)


lemma with_instance_windows:
  "vs_windows (fst (snd (with_instance A io i quota f (vs, d)))) = vs_windows vs"
  by (simp add: with_instance_def split: sum.split prod.split)

lemma with_instance_windows':
  "with_instance A io i quota f (vs, d) = (r, vs', d') \<Longrightarrow> vs_windows vs' = vs_windows vs"
  using with_instance_windows [of A io i quota f vs d] by simp

lemma err_text_snd [simp]: "snd (err_text g m) = snd m"
  by (simp add: err_text_def split: prod.split)

lemma reply_snd [simp]: "snd (reply g m) = snd m"
  by (simp add: reply_def split: prod.split)

lemma hydrate_windows: "vs_windows (fst (snd (vault_hydrate E A V io ts label docs (vs, d)))) = vs_windows vs"
  by (simp add: vault_hydrate_def with_instance_windows split: sum.split)

lemma run_command_windows:
  "vs_windows (fst (snd (run_command E A V io ts label docs cmd (vs, d)))) = vs_windows vs"
proof (cases cmd)
  case (SwitchSlot slot)
  show ?thesis
  proof (cases "window_instance E label docs vs")
    case (Inr iq)
    obtain i quota where iq: "iq = (i, quota)" by (cases iq)
    obtain r vs1 d1 where w: "with_instance A io i quota (flushed A io (on_doc (set_current_slot A slot))) (vs, d) = (r, vs1, d1)"
      by (cases "with_instance A io i quota (flushed A io (on_doc (set_current_slot A slot))) (vs, d)") auto
    with SwitchSlot Inr iq with_instance_windows' [OF w] hydrate_windows [of E A V io ts label docs vs1 d1]
    show ?thesis by (cases r) (simp_all add: vault_switch_slot_def)
  qed (use SwitchSlot in \<open>simp add: vault_switch_slot_def\<close>)
next
  case SqlLoad
  show ?thesis
  proof (cases "window_instance E label docs vs")
    case (Inr iq)
    obtain i quota where iq: "iq = (i, quota)" by (cases iq)
    obtain r vs1 d1 where w: "active_slot A io i quota (vs, d) = (r, vs1, d1)" by (cases "active_slot A io i quota (vs, d)") auto
    with SqlLoad Inr iq with_instance_windows' [OF w [unfolded active_slot_def]]
    show ?thesis by (cases r) (simp_all add: vault_sql_load_def)
  qed (use SqlLoad in \<open>simp add: vault_sql_load_def\<close>)
next
  case (SqlSave b64)
  show ?thesis
  proof (cases "window_instance E label docs vs")
    case (Inr iq)
    obtain i quota where iq: "iq = (i, quota)" by (cases iq)
    obtain r vs1 d1 where w: "active_slot A io i quota (vs, d) = (r, vs1, d1)" by (cases "active_slot A io i quota (vs, d)") auto
    with SqlSave Inr iq with_instance_windows' [OF w [unfolded active_slot_def]]
    show ?thesis by (cases r) (simp_all add: vault_sql_save_def Let_def split: sum.split prod.split)
  qed (use SqlSave in \<open>simp add: vault_sql_save_def\<close>)
qed (simp_all add: hydrate_windows vault_kv_set_def vault_kv_delete_def vault_kv_clear_def with_instance_windows
  split: sum.split option.split)

lemma register_document_windows:
  "vs_windows (fst (register_document E io i path p (vs, d))) = vs_windows vs"
  by (cases "with_index E io (\<lambda>ix. ((), register i path (file_hash E p) ix)) vs d")
    (simp add: register_document_def with_index_result(4))

lemma load_document_windows:
  assumes "load_document E io ts fresh path (vs, d) = (db, vs', d')"
  shows "vs_windows vs' = vs_windows vs"
proof -
  have assign: "vs_windows (fst (snd (assign_identity E io fresh path p (vs, d)))) = vs_windows vs" for p
    by (simp add: assign_identity_def Let_def register_document_windows split: prod.split sum.split)
  have classify: "vs_windows (fst (snd (classify_identity E io i path p (vs, d)))) = vs_windows vs" for i p
  proof -
    let ?f = "\<lambda>ix. (resolve_open (se_fold E) ix i path (\<lambda>q. d q \<noteq> None), ix)"
    obtain r vs1 d1 where w: "with_index E io ?f vs d = (r, vs1, d1)" by (cases "with_index E io ?f vs d") auto
    obtain r2 vs2 d2 where w2: "with_index E io (\<lambda>ix. ((), record_move i path ix)) vs1 d1 = (r2, vs2, d2)"
      by (cases "with_index E io (\<lambda>ix. ((), record_move i path ix)) vs1 d1") auto
    have "vs_windows vs1 = vs_windows vs" "vs_windows vs2 = vs_windows vs1"
      using with_index_result(4) [OF w] with_index_result(4) [OF w2] .
    with w w2 register_document_windows [of E io i path p vs1 d1] show ?thesis
      by (simp add: classify_identity_def split: sum.split disposition.split prod.split)
  qed
  have "vs_windows (fst (snd (load_document E io ts fresh path (vs, d)))) = vs_windows vs"
    using assign classify
    by (simp add: load_document_def Let_def split: option.split sum.split prod.split) (metis fst_conv snd_conv)
  with assms show ?thesis by simp
qed

lemma answer_copy_windows:
  assumes "answer_copy E io ts vts choice i new_id path p (vs, d) = (r, vs', d')"
  shows "vs_windows vs' = vs_windows vs"
proof -
  have idx: "vs_windows vs2 = vs_windows vs1" if "with_index E io f vs1 d1 = (x, vs2, d2)"
    for f :: "instance_index \<Rightarrow> unit \<times> instance_index" and x vs1 d1 vs2 d2
    using with_index_result(4) [OF that] .
  have fork: "vs_windows vs' = vs_windows vs" if run: "fork_copy E io ts vts i new_id path p (vs, d) = (r, vs', d')"
  proof -
    let ?p = "set_instance_id new_id p"
    let ?d = "case d (instance_path (vs_vault vs) i) of
      Some bytes \<Rightarrow> d(instance_path (vs_vault vs) new_id \<mapsto> bytes) | None \<Rightarrow> d"
    let ?s = "save_path (se_crates E) (so_save_fails io) ?p path ?d"
    obtain r1 d1 where s: "?s = (r1, d1)" by (cases ?s)
    obtain r2 vs2 d2 where w: "with_index E io (\<lambda>ix. ((), register new_id path (file_hash E ?p) ix)) vs d1 = (r2, vs2, d2)"
      by (cases "with_index E io (\<lambda>ix. ((), register new_id path (file_hash E ?p) ix)) vs d1") auto
    from run s w idx [OF w] show ?thesis
      by (cases r1) (auto simp: fork_copy_def Let_def split: if_splits)
  qed
  show ?thesis
    using assms fork idx by (auto simp: answer_copy_def Let_def split: if_splits prod.splits)
qed

lemma resolve_copy_frame:
  assumes "resolve_copy_conflict E io ts vts label choice fresh (docs, vs, d) = (r, docs', vs', d')"
  shows "(\<forall>l. l \<noteq> label \<longrightarrow> docs' l = docs l \<and> vs_windows vs' l = vs_windows vs l) \<and> dom docs' = dom docs"
proof (cases "docs' = docs \<and> vs_windows vs' = vs_windows vs")
  case False
  show ?thesis
  proof (cases "documents_get label docs")
    case None
    with False assms show ?thesis by (simp add: resolve_copy_conflict_def)
  next
    case (Some dto)
    show ?thesis
    proof (cases dto)
      case (Rejected a1 a2 a3 a4)
      with Some False assms show ?thesis by (simp add: resolve_copy_conflict_def)
    next
      case (Loaded a1 raw a3 a4 a5 a6)
      let ?path = "se_path_of E raw"
      let ?bytes = "case d ?path of Some bytes \<Rightarrow> if so_read_fails io then Inl ''read'' else Inr bytes | None \<Rightarrow> Inl ''read''"
      obtain bytes where b: "?bytes = Inr bytes"
        using Some Loaded False assms by (cases ?bytes) (auto simp: resolve_copy_conflict_def)
      obtain p where p: "open_poid (se_crates E) bytes = Inr p"
        using Some Loaded b False assms by (cases "open_poid (se_crates E) bytes") (auto simp: resolve_copy_conflict_def)
      obtain i where i: "instance_id p = Some i"
        using Some Loaded b p False assms by (cases "instance_id p") (auto simp: resolve_copy_conflict_def)
      obtain r1 vs1 d1 where a: "answer_copy E io ts vts choice i fresh ?path p (vs, d) = (r1, vs1, d1)"
        by (cases "answer_copy E io ts vts choice i fresh ?path p (vs, d)") auto
      note w = answer_copy_windows [OF a]
      show ?thesis
      proof (cases r1)
        case (Inl e)
        with Some Loaded b p i a w False assms show ?thesis by (simp add: resolve_copy_conflict_def)
      next
        case (Inr bp)
        obtain q q' where "bp = (q, q')" by (cases bp)
        with Inr Some Loaded b p i a assms have
          "vs' = bind_window label q vs1" "\<exists>x. docs' = documents_insert label x docs"
          by (auto simp: resolve_copy_conflict_def Let_def)
        with w Some show ?thesis
          by (auto simp: bind_window_def documents_insert_def documents_get_def split: if_splits)
      qed
    qed
  qed
qed simp

lemma sql_for_window_frame:
  assumes "sql_for_window S P label c (cs, w) = (r, cs', w')"
  shows "cs_store cs' = cs_store cs \<and> cs_bindings cs' = cs_bindings cs \<and> (\<forall>l. l \<noteq> label \<longrightarrow> cs_sql cs' l = cs_sql cs l)"
  using assms by (auto simp: sql_for_window_def Let_def split: option.splits if_splits sum.splits prod.splits)

lemma management_keeps_sessions:
  "connection_save S K f fresh label cid kind name secret origins (cs, d) = (r, cs', d') \<Longrightarrow> cs_sql cs' = cs_sql cs"
  "connection_rename K f label c name (cs, d) = (r2, cs', d') \<Longrightarrow> cs_sql cs' = cs_sql cs"
  "connection_remove S K f g label c (cs, d) = (r2, cs', d') \<Longrightarrow> cs_sql cs' = cs_sql cs"
  "connection_bind E K f label docs req choice (cs, d) = (r2, cs', d') \<Longrightarrow> cs_sql cs' = cs_sql cs"
  by (auto simp: connection_save_def connection_rename_def connection_remove_def connection_bind_def Let_def
      split: sum.splits prod.splits)

lemma windows_ok_same:
  assumes "windows_ok su" "labels_in_use su' \<subseteq> labels_in_use su"
    and "su_open su' = su_open su" "dom (su_docs su') = dom (su_docs su)" "su_seq su' = su_seq su"
  shows "windows_ok su'"
  using assms by (auto simp: windows_ok_def)

lemma open_reader_step:
  assumes "open_reader E io ts fresh built path (su, d) = (su', d')" "windows_ok su"
  shows "windows_ok su' \<and> su_seq su' = Suc (su_seq su) \<and>
    (\<forall>l. issued (su_seq su) l \<longrightarrow> window_view l su' = window_view l su) \<and>
    su_statements su' = su_statements su \<and> su_closing su' = su_closing su \<and> su_conn su' = su_conn su"
proof -
  let ?label = "reader_label (Suc (su_seq su))"
  obtain dto bind vs d1 where l: "load_document E io ts fresh path (su_vault su, d) = ((dto, bind), vs, d1)"
    by (cases "load_document E io ts fresh path (su_vault su, d)") auto
  note w = load_document_windows [OF l]
  let ?vs = "case bind of Some i \<Rightarrow> bind_window ?label i vs | None \<Rightarrow> vs"
  have vsw: "vs_windows ?vs l' = vs_windows (su_vault su) l'" if "l' \<noteq> ?label" for l'
    using that w by (simp add: bind_window_def split: option.split)
  have su': "su' = (if built then su\<lparr>su_seq := Suc (su_seq su), su_docs := (su_docs su)(?label \<mapsto> dto),
        su_vault := ?vs, su_open := ?label # su_open su\<rparr>
      else su\<lparr>su_seq := Suc (su_seq su), su_docs := (su_docs su)(?label := None), su_vault := ?vs\<rparr>)"
    using assms(1) l by (auto simp: open_reader_def documents_insert_def documents_remove_def Let_def)
  have new: "?label \<notin> labels_in_use su" using assms(2) next_label_new by (auto simp: windows_ok_def)
  then have not_open: "?label \<notin> set (su_open su)" by (simp add: labels_in_use_def)
  have docs: "dom (su_docs su) = set (su_open su) - {hub_label}" using assms(2) by (simp add: windows_ok_def)
  then have docs_new: "su_docs su ?label = None" using not_open by auto
  have use: "labels_in_use su' \<subseteq> insert ?label (labels_in_use su)"
  proof
    fix x assume x: "x \<in> labels_in_use su'"
    show "x \<in> insert ?label (labels_in_use su)"
    proof (cases "x = ?label")
      case False
      with x vsw [OF False] show ?thesis
        by (cases built) (auto simp: labels_in_use_def su' dom_def)
    qed simp
  qed
  have "windows_ok su'"
    unfolding windows_ok_def
  proof (intro conjI ballI)
    show "distinct (su_open su')" using assms(2) not_open by (simp add: su' windows_ok_def)
    show "dom (su_docs su') = set (su_open su') - {hub_label}"
      using docs docs_new by (auto simp: su' fun_upd_idem)
    show "issued (su_seq su') x" if "x \<in> labels_in_use su'" for x
      using that use assms(2) next_label_new(2) issued_mono [of "su_seq su" x "Suc (su_seq su)"]
      by (auto simp: su' windows_ok_def)
  qed
  moreover have "window_view l su' = window_view l su" if "issued (su_seq su) l" for l
  proof -
    have "l \<noteq> ?label" using that next_label_new(1) by metis
    then show ?thesis using vsw [of l] by (simp add: window_view_def su')
  qed
  ultimately show ?thesis by (simp add: su')
qed

lemma focus_step:
  assumes "windows_ok su"
  shows "windows_ok (focus_or_create_studio built su)"
    "l \<noteq> hub_label \<Longrightarrow> window_view l (focus_or_create_studio built su) = window_view l su"
  using assms by (auto simp: focus_or_create_studio_def windows_ok_def labels_in_use_def window_view_def issued_def)

lemma destroyed_step:
  assumes "windows_ok su" "label \<in> set (su_open su)"
  shows "windows_ok (window_destroyed label su)"
    "l \<noteq> label \<Longrightarrow> window_view l (window_destroyed label su) = window_view l su"
proof -
  have "labels_in_use (window_destroyed label su) \<subseteq> labels_in_use su"
    using assms(2) by (auto simp: labels_in_use_def window_destroyed_def unbind_window_def split: if_splits)
  with assms show "windows_ok (window_destroyed label su)"
    by (auto simp: windows_ok_def window_destroyed_def documents_remove_def distinct_removeAll)
  show "l \<noteq> label \<Longrightarrow> window_view l (window_destroyed label su) = window_view l su"
    by (simp add: window_view_def window_destroyed_def documents_remove_def unbind_window_def)
qed

lemma session_taken_frame:
  assumes "sql_for_window S P label c (su_conn su, w) = (r, cs, w')" "(label, c) \<in> set (su_statements su)" "windows_ok su"
  shows "windows_ok (su\<lparr>su_conn := cs, su_statements := remove1 (label, c) (su_statements su)\<rparr>)"
proof (rule windows_ok_same [OF assms(3)])
  have "dom (cs_sql cs) \<subseteq> insert label (dom (cs_sql (su_conn su)))"
  proof
    fix l assume "l \<in> dom (cs_sql cs)"
    with sql_for_window_frame [OF assms(1)] show "l \<in> insert label (dom (cs_sql (su_conn su)))"
      by (cases "l = label") auto
  qed
  moreover have "label \<in> fst ` set (su_statements su)" using assms(2) by force
  moreover have "fst ` set (remove1 (label, c) (su_statements su)) \<subseteq> fst ` set (su_statements su)"
    by (rule image_mono) (rule set_remove1_subset)
  ultimately show "labels_in_use (su\<lparr>su_conn := cs, su_statements := remove1 (label, c) (su_statements su)\<rparr>) \<subseteq> labels_in_use su"
    unfolding labels_in_use_def by simp blast
qed simp_all

lemma session_closed_frame:
  assumes "windows_ok su"
  shows "windows_ok (su\<lparr>su_conn := close_sql_for_window label (su_conn su), su_closing := remove1 label (su_closing su)\<rparr>)"
proof (rule windows_ok_same [OF assms])
  have "set (remove1 label (su_closing su)) \<subseteq> set (su_closing su)" by (rule set_remove1_subset)
  then show "labels_in_use (su\<lparr>su_conn := close_sql_for_window label (su_conn su), su_closing := remove1 label (su_closing su)\<rparr>)
      \<subseteq> labels_in_use su"
    by (auto simp: labels_in_use_def close_sql_for_window_def split: if_splits)
qed simp_all

lemma copy_answered_frame:
  assumes "resolve_copy_conflict E io ts vts label choice fresh (su_docs su, su_vault su, d) = (r, docs, vs, d')"
    and "label \<in> set (su_open su)" "windows_ok su"
  shows "windows_ok (su\<lparr>su_docs := docs, su_vault := vs\<rparr>)"
proof (rule windows_ok_same [OF assms(3)])
  note f = resolve_copy_frame [OF assms(1)]
  have "dom (vs_windows vs) \<subseteq> insert label (dom (vs_windows (su_vault su)))"
  proof
    fix l assume "l \<in> dom (vs_windows vs)"
    with f show "l \<in> insert label (dom (vs_windows (su_vault su)))" by (cases "l = label") auto
  qed
  with assms(2) show "labels_in_use (su\<lparr>su_docs := docs, su_vault := vs\<rparr>) \<subseteq> labels_in_use su"
    by (auto simp: labels_in_use_def)
  from f show "dom (su_docs (su\<lparr>su_docs := docs, su_vault := vs\<rparr>)) = dom (su_docs su)" by simp
qed simp_all

lemma conn_frame:
  assumes "cs_sql cs = cs_sql (su_conn su)"
  shows "windows_ok su \<Longrightarrow> windows_ok (su\<lparr>su_conn := cs\<rparr>)" "window_view l (su\<lparr>su_conn := cs\<rparr>) = window_view l su"
  using assms by (auto simp: windows_ok_def labels_in_use_def window_view_def)

lemma vault_frame:
  assumes "vs_windows vs = vs_windows (su_vault su)"
  shows "windows_ok su \<Longrightarrow> windows_ok (su\<lparr>su_vault := vs\<rparr>)" "window_view l (su\<lparr>su_vault := vs\<rparr>) = window_view l su"
  using assms by (auto simp: windows_ok_def labels_in_use_def window_view_def)

text \<open>A step: it keeps the invariant, and what is kept under the label of any other window.\<close>

definition step_ok :: "string option \<Rightarrow> ('d, 's, 'c) studio \<Rightarrow> ('d, 's, 'c) studio \<Rightarrow> bool" where
  "step_ok a su su' \<longleftrightarrow>
     windows_ok su' \<and> su_seq su \<le> su_seq su' \<and>
     (\<forall>l. a \<noteq> Some l \<longrightarrow> l \<noteq> hub_label \<longrightarrow> issued (su_seq su) l \<longrightarrow> window_view l su' = window_view l su)"

lemma step_ok_same_seq:
  assumes "windows_ok su'" "su_seq su' = su_seq su"
    and "\<And>l. a \<noteq> Some l \<Longrightarrow> l \<noteq> hub_label \<Longrightarrow> window_view l su' = window_view l su"
  shows "step_ok a su su'"
  using assms by (simp add: step_ok_def)

lemma launch_ok:
  assumes "launch E io ts fresh built args (su, d) = (su', d')" "windows_ok su"
  shows "step_ok None su su'"
proof (cases "open_request args")
  case None
  with assms(1) have "su' = focus_or_create_studio built su" by (simp add: launch_def)
  with focus_step [OF assms(2)] show ?thesis
    by (intro step_ok_same_seq) (auto simp: focus_or_create_studio_def)
next
  case (Some path)
  with assms(1) have "open_reader E io ts fresh built (se_path_of E path) (su, d) = (su', d')" by (simp add: launch_def)
  from open_reader_step [OF this assms(2)] show ?thesis by (simp add: step_ok_def)
qed

lemma studio_step_ok:
  assumes "studio_step E K A V S P ts vts a (su, d, w) (su', d', w')" "windows_ok su"
  shows "step_ok a su su'"
  using assms(1)
proof (cases rule: studio_step_cases [consumes 1, case_names launched opened hub_opened destroyed vault_command
    copy_answered saved renamed removed bound assets_registered assets_revoked statement session_taken session_closed])
  case (launched io fresh built args)
  then show ?thesis using launch_ok assms(2) by blast
next
  case (opened label io fresh built path)
  from open_reader_step [OF opened(4) assms(2)] opened(1) show ?thesis by (simp add: step_ok_def)
next
  case (hub_opened label built)
  with focus_step [OF assms(2)] show ?thesis
    by (intro step_ok_same_seq) (auto simp: focus_or_create_studio_def)
next
  case (destroyed label)
  with destroyed_step [OF assms(2)] show ?thesis
    by (intro step_ok_same_seq) (auto simp: window_destroyed_def)
next
  case (vault_command label io cmd r vs)
  from vault_command(3) have "vs_windows vs = vs_windows (su_vault su)"
    using run_command_windows [of E A V io vts label "su_docs su" cmd "su_vault su" d] by simp
  from vault_frame [OF this] vault_command assms(2) show ?thesis
    by (intro step_ok_same_seq) simp_all
next
  case (copy_answered label io choice fresh answer docs vs)
  have "window_view l su' = window_view l su" if "l \<noteq> label" for l
    using resolve_copy_frame [OF copy_answered(3)] that copy_answered by (simp add: window_view_def)
  with copy_answered_frame [OF copy_answered(3,2) assms(2)] copy_answered show ?thesis
    by (intro step_ok_same_seq) auto
next
  case (saved label f fresh_text cid kind name secret origins saved_dto cs)
  from conn_frame [OF management_keeps_sessions(1) [OF saved(3)]] saved assms(2) show ?thesis
    by (intro step_ok_same_seq) simp_all
next
  case (renamed label f c name outcome cs)
  from conn_frame [OF management_keeps_sessions(2) [OF renamed(3)]] renamed assms(2) show ?thesis
    by (intro step_ok_same_seq) simp_all
next
  case (removed label f g c outcome cs)
  from conn_frame [OF management_keeps_sessions(3) [OF removed(3)]] removed assms(2) show ?thesis
    by (intro step_ok_same_seq) simp_all
next
  case (bound label f req choice outcome cs)
  from conn_frame [OF management_keeps_sessions(4) [OF bound(3)]] bound assms(2) show ?thesis
    by (intro step_ok_same_seq) simp_all
next
  case (assets_registered label session assets outcome store)
  with assms(2) show ?thesis
    by (intro step_ok_same_seq) (simp_all add: windows_ok_def labels_in_use_def window_view_def)
next
  case (assets_revoked label session)
  with assms(2) show ?thesis
    by (intro step_ok_same_seq) (simp_all add: windows_ok_def labels_in_use_def window_view_def)
next
  case (statement label c)
  with assms(2) show ?thesis
    by (intro step_ok_same_seq) (auto simp: windows_ok_def labels_in_use_def window_view_def)
next
  case (session_taken label c client cs)
  have "window_view l su' = window_view l su" if "l \<noteq> label" for l
    using sql_for_window_frame [OF session_taken(3)] that session_taken by (simp add: window_view_def)
  with session_taken_frame [OF session_taken(3,2) assms(2)] session_taken show ?thesis
    by (intro step_ok_same_seq) auto
next
  case (session_closed label)
  with session_closed_frame [OF assms(2)] show ?thesis
    by (intro step_ok_same_seq) (auto simp: window_view_def close_sql_for_window_def)
qed

section \<open>The life of the windows\<close>

text \<open>What the application does before its first event: the stores, then the first launch.\<close>

definition studio_setup ::
  "studio_env \<Rightarrow> conn_env \<Rightarrow> studio_io \<Rightarrow> (poid_error \<Rightarrow> string) \<Rightarrow> (vault_error \<Rightarrow> string) \<Rightarrow> bool \<Rightarrow> bool \<Rightarrow> uuid \<Rightarrow> bool \<Rightarrow>
   (string + path) \<Rightarrow> 's \<Rightarrow> string list \<Rightarrow> disk \<Rightarrow> string + ('d, 's, 'c) studio \<times> disk" where
  "studio_setup E K io ts vts dir_fails read_fails fresh built data_dir keychain args d =
     rbind (map_err (\<lambda>e. ''no app data dir: '' @ e) data_dir) (\<lambda>root.
     rbind (map_err (\<lambda>e. ''vault store unavailable: '' @ vts e) (vault_state_open E io dir_fails root d)) (\<lambda>vs.
     rbind (map_err (\<lambda>e. ''connection registry unavailable: '' @ ke_text K e)
              (conn_state_open K read_fails root keychain d)) (\<lambda>cs.
       Inr (launch E io ts fresh built args (studio_start vs cs, d)))))"

lemma setup_ok:
  assumes "studio_setup E K io ts vts dir_fails read_fails fresh built data_dir keychain args d = Inr (su, d')"
  shows "windows_ok su"
proof -
  from assms obtain root vs cs where vs: "vault_state_open E io dir_fails root d = Inr vs"
    and cs: "conn_state_open K read_fails root keychain d = Inr cs"
    and l: "launch E io ts fresh built args (studio_start vs cs, d) = (su, d')"
    by (auto simp: studio_setup_def result_simps)
  from vs cs have "vs_windows vs = Map.empty" "cs_sql cs = Map.empty"
    by (auto simp: vault_state_open_def conn_state_open_def result_simps)
  then have "windows_ok (studio_start vs cs)" by (simp add: windows_ok_def labels_in_use_def studio_start_def)
  from launch_ok [OF l this] show ?thesis by (simp add: step_ok_def)
qed

lemma studio_steps_ok:
  assumes "studio_steps E K A V S P ts vts s s'" "windows_ok (fst s)"
  shows "windows_ok (fst s')"
  using assms
proof (induction rule: studio_steps.induct)
  case (more s s' a s'')
  obtain su d w su' d' w' where s: "s' = (su, d, w)" "s'' = (su', d', w')" by (cases s'; cases s'') auto
  have "windows_ok su" using more.IH [OF more.prems] s by simp
  from studio_step_ok [OF more.hyps(2) [unfolded s] this] show ?case by (simp add: step_ok_def s)
qed simp

lemma bootstrap_ok: "is_ok (reader_bootstrap label docs) \<longleftrightarrow> docs label \<noteq> None"
  by (simp add: reader_bootstrap_def documents_get_def is_ok_def ok_or_def split: option.split)


text \<open>
  C37: No step on behalf of one window, and no opening of a window, changes what is kept under the label of
  another reader window: its document, its vault session, its SQL session, and that it exists.
\<close>

theorem windows_do_not_touch_each_other:
  assumes "studio_setup E K io ts vts dir_fails read_fails fresh built data_dir keychain args d = Inr (su0, d0)"
    and "studio_steps E K A V S P ts vts (su0, d0, w0) (su, d1, w1)"
    and "studio_step E K A V S P ts vts actor (su, d1, w1) (su', d2, w2)"
    and "label \<in> set (su_open su)" "label \<noteq> hub_label" "actor \<noteq> Some label"
  shows "window_view label su' = window_view label su"
proof -
  have ok: "windows_ok su" using studio_steps_ok [OF assms(2)] setup_ok [OF assms(1)] by simp
  then have "issued (su_seq su) label" using assms(4) by (auto simp: windows_ok_def labels_in_use_def)
  with studio_step_ok [OF assms(3) ok] assms(5,6) show ?thesis by (simp add: step_ok_def)
qed

section \<open>A session after its window\<close>

lemma actor_active:
  assumes "studio_step E K A V S P ts vts (Some l) (su, d, w) (su', d', w')"
  shows "l \<in> set (su_open su) \<union> fst ` set (su_statements su) \<union> set (su_closing su)"
  using assms by (cases rule: studio_step_cases) force+

lemma focus_tasks [simp]:
  "su_statements (focus_or_create_studio built su) = su_statements su"
  "su_closing (focus_or_create_studio built su) = su_closing su"
  by (simp_all add: focus_or_create_studio_def)

lemma fst_remove1: "(a, b) \<in> set (remove1 x xs) \<Longrightarrow> a \<in> fst ` set xs"
  using set_remove1_subset [of x xs] by force

lemma step_tasks:
  assumes "studio_step E K A V S P ts vts a (su, d, w) (su', d', w')" "windows_ok su"
  shows "fst ` set (su_statements su') \<subseteq> fst ` set (su_statements su) \<union> set (su_open su)"
    and "set (su_closing su') \<subseteq> set (su_closing su) \<union> set (su_open su)"
proof -
  have launch: "su_statements su2 = su_statements su \<and> su_closing su2 = su_closing su"
    if "launch E io ts fresh built args (su, d) = (su2, d2)" for io fresh built args su2 d2
  proof (cases "open_request args")
    case (Some path)
    with that have "open_reader E io ts fresh built (se_path_of E path) (su, d) = (su2, d2)" by (simp add: launch_def)
    from open_reader_step [OF this assms(2)] show ?thesis by simp
  qed (use that in \<open>auto simp: launch_def\<close>)
  show "fst ` set (su_statements su') \<subseteq> fst ` set (su_statements su) \<union> set (su_open su)"
    using assms(1)
    by (cases rule: studio_step_cases)
      (auto simp: launch open_reader_step [OF _ assms(2)] window_destroyed_def
        dest: fst_remove1)
  show "set (su_closing su') \<subseteq> set (su_closing su) \<union> set (su_open su)"
    using assms(1)
    by (cases rule: studio_step_cases)
      (auto simp: launch open_reader_step [OF _ assms(2)] window_destroyed_def
        dest: set_mp [OF set_remove1_subset])
qed

definition orphaned :: "string \<Rightarrow> 'c \<Rightarrow> ('d, 's, 'c) studio \<Rightarrow> bool" where
  "orphaned label client su \<longleftrightarrow>
     windows_ok su \<and> label \<noteq> hub_label \<and> cs_sql (su_conn su) label = Some client \<and>
     label \<notin> set (su_open su) \<and> label \<notin> fst ` set (su_statements su) \<and> label \<notin> set (su_closing su)"

lemma orphaned_step:
  assumes "studio_step E K A V S P ts vts a (su, d, w) (su', d', w')" "orphaned label client su"
  shows "orphaned label client su'"
proof -
  have ok: "windows_ok su" and o: "label \<noteq> hub_label" "cs_sql (su_conn su) label = Some client"
    "label \<notin> set (su_open su)" "label \<notin> fst ` set (su_statements su)" "label \<notin> set (su_closing su)"
    using assms(2) unfolding orphaned_def by simp_all
  have "label \<in> labels_in_use su" using o(2) by (auto simp: labels_in_use_def)
  then have "issued (su_seq su) label" using ok by (simp add: windows_ok_def)
  moreover have "a \<noteq> Some label" using actor_active assms(1) o(3,4,5) by fast
  ultimately have "windows_ok su'" "window_view label su' = window_view label su"
    using studio_step_ok [OF assms(1) ok] o(1) by (simp_all add: step_ok_def)
  with o step_tasks [OF assms(1) ok] show ?thesis by (auto simp: orphaned_def window_view_def)
qed

lemma orphaned_steps:
  assumes "studio_steps E K A V S P ts vts s s'" "orphaned label client (fst s)"
  shows "orphaned label client (fst s')"
  using assms
proof (induction rule: studio_steps.induct)
  case (more s s' a s'')
  obtain su d w su' d' w' where s: "s' = (su, d, w)" "s'' = (su', d', w')" by (cases s'; cases s'') auto
  from orphaned_step [OF more.hyps(2) [unfolded s]] more.IH [OF more.prems] show ?case by (simp add: s)
qed simp

lemmas studio_step_last = studio_steps.more [OF studio_steps.no_step]


section \<open>What a window serves\<close>

definition served :: "asset \<Rightarrow> scheme_response" where
  "served a = \<lparr>sr_status = 200, sr_headers = [(''Content-Type'', as_content_type a), (''Access-Control-Allow-Origin'', ''*'')],
     sr_body = as_bytes a\<rparr>"

lemma split_once_first:
  "CHR ''/'' \<notin> set s \<Longrightarrow> split_once_str ''/'' (s @ CHR ''/'' # rest) = Some (s, rest)"
  by (induction s) (auto simp: starts_with_def)

lemma split_request_url:
  assumes "session \<noteq> []" "CHR ''/'' \<notin> set session"
  shows "split_request (CHR ''/'' # session @ CHR ''/'' # path) = Some (session, path)"
proof -
  have "dropWhile (\<lambda>c. c = CHR ''/'') (session @ rest) = session @ rest" for rest
    using assms by (cases session) auto
  with assms show ?thesis by (simp add: split_request_def split_once_first)
qed

text \<open>
  A request of the application is answered from the files registered for the session its URL names and
  from nothing else: with the file at the path, else with the file registered for the root, else with 404.
  So in a session with a root file a missing file is never reported: the entry page is sent in its place.
\<close>

theorem serving_answers_from_the_named_session:
  assumes "session \<noteq> []" "CHR ''/'' \<notin> set session"
  shows "serve_request store (''/'' @ session @ ''/'' @ path) =
    (case store session of
       None \<Rightarrow> not_found any_origin
     | Some files \<Rightarrow>
         (case files path of
            Some a \<Rightarrow> served a
          | None \<Rightarrow> (case files [] of Some root \<Rightarrow> served root | None \<Rightarrow> not_found any_origin)))"
  using split_request_url [OF assms, of path]
  by (simp add: serve_request_def assets_get_def served_def any_origin_def split: option.split)

theorem serving_answers_from_the_named_session_witness:
  "let root = \<lparr>as_content_type = ''text/html'', as_bytes = [1]\<rparr>; store = [''s1'' \<mapsto> [[] \<mapsto> root]]
   in serve_request store ''/s1/app/missing.js'' = served root \<and>
      serve_request store ''/s2/app/missing.js'' = not_found any_origin"
  using serving_answers_from_the_named_session [of "''s1''" _ "''app/missing.js''"]
    serving_answers_from_the_named_session [of "''s2''" _ "''app/missing.js''"]
  by (simp add: Let_def)

section \<open>Sample runs\<close>

text \<open>A launch with a file that is not there: a window explains.\<close>

definition sample_start :: "string + (replica, memory_store, nat) studio \<times> disk" where
  "sample_start = studio_setup (sample_env True) answering_conn_env sample_io (\<lambda>_. []) (\<lambda>_. []) False False 7 True
     (Inr [''data'']) \<lparr>ms_secrets = [], ms_poisoned = False\<rparr> [''--open'', ''a''] Map.empty"

lemma sample_start_window:
  "\<exists>su. sample_start = Inr (su, Map.empty) \<and> su_open su = [reader_label 1] \<and> su_docs su (reader_label 1) \<noteq> None"
  by (simp add: sample_start_def studio_setup_def vault_state_open_def vault_open_def index_load_def conn_state_open_def
      open_store_def open_bindings_def sample_env_def launch_def open_reader_def load_document_def studio_start_def
      Let_def documents_insert_def)


theorem windows_do_not_touch_each_other_witness:
  "\<exists>su su' d'. sample_start = Inr (su, Map.empty) \<and>
     launch (sample_env True) sample_io (\<lambda>_. []) 8 True [''--open'', ''b''] (su, Map.empty) = (su', d') \<and>
     su_docs su (reader_label 1) \<noteq> None \<and> su_docs su' (reader_label 1) = su_docs su (reader_label 1)"
proof -
  obtain su where s: "sample_start = Inr (su, Map.empty)" "su_open su = [reader_label 1]"
    "su_docs su (reader_label 1) \<noteq> None"
    using sample_start_window by blast
  obtain su' d' where l: "launch (sample_env True) sample_io (\<lambda>_. []) 8 True [''--open'', ''b''] (su, Map.empty) = (su', d')"
    by (cases "launch (sample_env True) sample_io (\<lambda>_. []) 8 True [''--open'', ''b''] (su, Map.empty)")
  have "studio_step (sample_env True) answering_conn_env replica_engine text_values memory_ops numbering_server
      (\<lambda>_. []) (\<lambda>_. []) None (su, Map.empty, ()) (su', d', ())"
    by (rule studio_step.launched [OF l])
  from windows_do_not_touch_each_other [OF s(1) [unfolded sample_start_def] studio_steps.no_step this, of "reader_label 1"] s
  have "window_view (reader_label 1) su' = window_view (reader_label 1) su" by simp
  with s l show ?thesis by (auto simp: window_view_def)
qed

text \<open>A window bound to a database, with a statement on its way.\<close>

definition bound_databases :: "(memory_store, nat) conn_state" where
  "bound_databases = two_databases\<lparr>
     cs_store := sample_store (records_of (cs_store two_databases)) [(''c2'', ''postgres://u:p@h/d'')] False,
     cs_bindings := \<lparr>bs_path = [''bindings.json''], bs_bindings = [(binding_key ''/app/id'' ''/instance/id'', RecordedConnection ''c2'')]\<rparr>,
     cs_sql := Map.empty\<rparr>"

definition bound_studio :: "(replica, memory_store, nat) studio" where
  "bound_studio = (studio_start sample_state bound_databases)\<lparr>
     su_seq := 1, su_open := [reader_label 1], su_docs := [reader_label 1 \<mapsto> Loaded [] [] [] [] [] None]\<rparr>"


end
