(* ===== verification/Convert_Project.thy ===== *)
theory Convert_Project
  imports Text_Replace Text_Trim Manifests "HOL-Library.List_Lexorder" "HOL-Library.Char_ord" "HOL-Library.Multiset"
begin

text \<open>
  The converter's rules (\<open>poid-convert/src/classify.rs\<close>, \<open>infer.rs\<close>, \<open>manifest.rs\<close>): what kind of input a set of
  files is, the permissions read off the built text, the name that becomes an application id, and the
  manifest. \<open>str::to_lowercase\<close> of Unicode text is a parameter: nothing here depends on its table.
\<close>

section \<open>What the author handed over\<close>

record source_file =
  sf_rel :: string
  sf_content :: "byte list"

datatype input_kind = SingleHtml | Artifact | Project | Static

record project_shape =
  ps_kind :: input_kind
  ps_entry :: "string option"
  ps_html :: "string option"
  ps_uses_jsx :: bool

definition entry_candidates :: "string list" where
  "entry_candidates =
     [''src/main.tsx'', ''src/main.ts'', ''src/main.jsx'', ''src/main.js'', ''src/index.tsx'', ''src/index.jsx'',
      ''main.tsx'', ''main.ts'', ''main.jsx'', ''main.js'']"

definition has_file :: "source_file list \<Rightarrow> string \<Rightarrow> bool" where
  "has_file files rel = list_ex (\<lambda>f. sf_rel f = rel) files"

definition is_source :: "string \<Rightarrow> bool" where
  "is_source rel = list_ex (ends_with rel) [''.ts'', ''.tsx'', ''.jsx'', ''.mjs'', ''.js'']"

definition bare_import_in :: "source_file \<Rightarrow> bool" where
  "bare_import_in file =
     (case from_utf8 (sf_content file) of
        None \<Rightarrow> False
      | Some content \<Rightarrow>
          contains content '' from \"'' \<and>
          list_ex (\<lambda>l. let t = trim_start l in
              starts_with t ''import '' \<and> \<not> contains t ''\"./'' \<and> \<not> contains t ''\"../'' \<and>
              \<not> contains t (CHR 0x27 # ''./'') \<and> \<not> contains t (CHR 0x27 # ''../'')) (lines_of content))"

definition is_jsx :: "string \<Rightarrow> bool" where
  "is_jsx rel \<longleftrightarrow> ends_with rel ''.jsx'' \<or> ends_with rel ''.tsx''"

definition single_shape :: "string \<Rightarrow> project_shape option" where
  "single_shape rel =
     (if ends_with rel ''.html'' \<or> ends_with rel ''.htm'' then
        Some \<lparr>ps_kind = SingleHtml, ps_entry = None, ps_html = Some rel, ps_uses_jsx = False\<rparr>
      else if is_jsx rel then
        Some \<lparr>ps_kind = Artifact, ps_entry = Some rel, ps_html = None, ps_uses_jsx = True\<rparr>
      else None)"

definition needs_build :: "source_file list \<Rightarrow> bool" where
  "needs_build files \<longleftrightarrow>
     list_ex (\<lambda>f. ends_with (sf_rel f) ''.ts'' \<or> ends_with (sf_rel f) ''.tsx'' \<or> ends_with (sf_rel f) ''.jsx'') files \<or>
     list_ex (\<lambda>f. is_source (sf_rel f) \<and> bare_import_in f) files"

definition html_candidates :: "string list" where
  "html_candidates = [''index.html'', ''public/index.html'', ''app/index.html'']"

definition many_shape :: "source_file list \<Rightarrow> project_shape" where
  "many_shape files =
     (let jsx = list_ex (\<lambda>f. is_jsx (sf_rel f) \<and> CHR ''/'' \<notin> set (sf_rel f)) files \<or> list_ex (\<lambda>f. is_jsx (sf_rel f)) files;
          html = find (has_file files) html_candidates
      in if needs_build files then
           \<lparr>ps_kind = Project, ps_entry = find (has_file files) entry_candidates, ps_html = html, ps_uses_jsx = jsx\<rparr>
         else \<lparr>ps_kind = Static, ps_entry = None, ps_html = html, ps_uses_jsx = False\<rparr>)"

definition classify_input :: "source_file list \<Rightarrow> project_shape" where
  "classify_input files =
     (case files of
        [only] \<Rightarrow> (case single_shape (sf_rel only) of Some shape \<Rightarrow> shape | None \<Rightarrow> many_shape files)
      | _ \<Rightarrow> many_shape files)"

section \<open>Permissions\<close>

record inferred_permissions =
  ip_clipboard :: bool
  ip_print :: bool
  ip_notifications :: bool
  ip_filesystem_user_initiated :: bool

definition inferred_default :: inferred_permissions where
  "inferred_default = \<lparr>ip_clipboard = False, ip_print = False, ip_notifications = False, ip_filesystem_user_initiated = False\<rparr>"

definition infer_from :: "string \<Rightarrow> inferred_permissions \<Rightarrow> inferred_permissions" where
  "infer_from t out =
     (let out = (if contains t ''navigator.clipboard'' \<or> contains t ''poid.ui.clipboard''
                 then out\<lparr>ip_clipboard := True\<rparr> else out);
          out = (if contains t ''window.print'' \<or> contains t ''poid.ui.print'' then out\<lparr>ip_print := True\<rparr> else out);
          out = (if contains t ''new Notification('' \<or> contains t ''Notification.requestPermission''
                 then out\<lparr>ip_notifications := True\<rparr> else out)
      in if contains t ''poid.files'' then out\<lparr>ip_filesystem_user_initiated := True\<rparr> else out)"

definition infer_permissions :: "string list \<Rightarrow> inferred_permissions" where
  "infer_permissions built_sources = fold infer_from built_sources inferred_default"

section \<open>The application id\<close>

definition slug_char :: "nat \<Rightarrow> char" where
  "slug_char cp = (if cp < 128 \<and> is_ascii_alphanumeric (char_of cp) then char_of cp else CHR ''-'')"

lemma replace_length: "length new \<le> length pat \<Longrightarrow> length (replace_all pat new s) \<le> length s"
proof (induction pat new s rule: replace_all.induct)
  case (2 pat new c s)
  show ?case
  proof (cases "pat \<noteq> [] \<and> starts_with (c # s) pat")
    case True
    then have "length pat \<le> length (c # s)" using starts_with_length by blast
    with 2(1) [OF True 2(3)] 2(3) show ?thesis unfolding replace_step(1) [OF True] by simp
  next
    case False
    with 2(2) [OF False 2(3)] show ?thesis unfolding replace_step(2) [OF False] by simp
  qed
qed simp

lemma replace_shortens:
  "length new < length pat \<Longrightarrow> contains s pat \<Longrightarrow> length (replace_all pat new s) < length s"
proof (induction pat new s rule: replace_all.induct)
  case (2 pat new c s)
  show ?case
  proof (cases "pat \<noteq> [] \<and> starts_with (c # s) pat")
    case True
    then have "length pat \<le> length (c # s)" using starts_with_length by blast
    moreover have "length (replace_all pat new (drop (length pat) (c # s))) \<le> length (drop (length pat) (c # s))"
      using 2(3) by (intro replace_length) simp
    ultimately show ?thesis using 2(3) unfolding replace_step(1) [OF True] by simp
  next
    case False
    with 2(3,4) have "contains s pat" by auto
    with 2(2) [OF False 2(3)] show ?thesis unfolding replace_step(2) [OF False] by simp
  qed
qed simp

function collapse_dashes :: "string \<Rightarrow> string" where
  "collapse_dashes slug =
     (if contains slug ''--'' then collapse_dashes (replace_all ''--'' ''-'' slug) else slug)"
  by pat_completeness auto
termination
  by (relation "measure length") (auto simp: replace_shortens)

declare collapse_dashes.simps [simp del]

definition trim_dashes :: "string \<Rightarrow> string" where
  "trim_dashes s = rev (dropWhile (\<lambda>c. c = CHR ''-'') (rev (dropWhile (\<lambda>c. c = CHR ''-'') s)))"

definition slug_of :: "(string \<Rightarrow> string) \<Rightarrow> string \<Rightarrow> string" where
  "slug_of to_lowercase name =
     (let trimmed = trim_dashes (collapse_dashes (map slug_char (chars_of (to_lowercase name))))
      in if trimmed = [] then ''app'' else trimmed)"

section \<open>The manifest\<close>

record convert_plan =
  cp_name :: string
  cp_app_id :: string
  cp_inferred :: inferred_permissions
  cp_bundled_deps :: "string list"
  cp_builder :: string
  cp_esbuild :: "string option"

definition converted_permissions :: "inferred_permissions \<Rightarrow> permissions" where
  "converted_permissions i =
     \<lparr>p_network = Some [], p_filesystem = Some (if ip_filesystem_user_initiated i then UserInitiated else NoFilesystem),
      p_clipboard = Some (ip_clipboard i), p_print = Some (ip_print i), p_notifications = Some (ip_notifications i),
      p_mcp = Some [], p_extra = []\<rparr>"

definition recorded_runtime :: "convert_plan \<Rightarrow> runtime \<Rightarrow> runtime" where
  "recorded_runtime plan rt =
     (let rt = (if cp_bundled_deps plan \<noteq> [] then rt\<lparr>r_bundled_deps := Some (sort (cp_bundled_deps plan))\<rparr> else rt)
      in rt\<lparr>r_toolchain := Some \<lparr>tc_builder = Some (cp_builder plan), tc_esbuild = cp_esbuild plan, tc_extra = []\<rparr>\<rparr>)"

definition converted_manifest :: "convert_plan \<Rightarrow> manifest_error + manifest" where
  "converted_manifest plan =
     (let m = new_app (cp_app_id plan) (cp_name plan) ''1.0.0'' ''app/index.html'';
          m = m\<lparr>m_permissions := Some (converted_permissions (cp_inferred plan))\<rparr>;
          m = m\<lparr>m_runtime := map_option (recorded_runtime plan) (m_runtime m)\<rparr>
      in rbind (validate m) (\<lambda>_. Inr m))"

section \<open>The order of the files does not matter\<close>

lemma many_shape_set: "set files = set files' \<Longrightarrow> many_shape files = many_shape files'"
proof -
  assume s: "set files = set files'"
  have h: "has_file fs = (\<lambda>rel. \<exists>f\<in>set fs. sf_rel f = rel)" for fs
    by (simp add: has_file_def list_ex_iff fun_eq_iff)
  show ?thesis unfolding many_shape_def needs_build_def list_ex_iff h s by (rule refl)
qed

text \<open>
  A project is classified alike wherever its files come from: the kind, the entry, the page and the use
  of JSX do not depend on the order in which the files are listed.
\<close>

theorem classification_ignores_order:
  assumes "mset files = mset files'"
  shows "classify_input files = classify_input files'"
proof (cases "\<exists>only. files = [only]")
  case True
  then obtain only where f: "files = [only]" ..
  with assms have "mset files' = {#only#}" by simp
  then have "files' = [only]" by (metis mset_single_iff_right)
  with f show ?thesis by simp
next
  case False
  have "set files = set files'" using assms by (rule mset_eq_setD)
  then have many: "many_shape files = many_shape files'" by (rule many_shape_set)
  have "\<nexists>only. files' = [only]"
  proof
    assume "\<exists>only. files' = [only]"
    then have "size (mset files') = 1" by auto
    with assms have "length files = 1" by (metis size_mset)
    with False show False by (cases files) auto
  qed
  with False have "classify_input files = many_shape files" "classify_input files' = many_shape files'"
    by (auto simp: classify_input_def split: list.split)
  with many show ?thesis by simp
qed

theorem classification_ignores_order_witness:
  "let a = \<lparr>sf_rel = ''index.html'', sf_content = []\<rparr>; b = \<lparr>sf_rel = ''main.ts'', sf_content = []\<rparr>
   in classify_input [a, b] = classify_input [b, a] \<and> ps_kind (classify_input [b, a]) = Project"
  unfolding Let_def
  by (rule conjI, rule classification_ignores_order, simp, code_simp)

text \<open>What a shape points at is there.\<close>

lemma classification_names_given_files:
  "p \<in> set_option (ps_entry (classify_input files)) \<union> set_option (ps_html (classify_input files)) \<Longrightarrow>
     p \<in> sf_rel ` set files"
proof -
  have found: "p \<in> sf_rel ` set files" if "find (has_file files) cs = Some p" for cs
  proof -
    from that have "has_file files p" by (auto simp: find_Some_iff)
    then show ?thesis by (auto simp: has_file_def list_ex_iff)
  qed
  assume "p \<in> set_option (ps_entry (classify_input files)) \<union> set_option (ps_html (classify_input files))"
  then show ?thesis
    using found
    by (auto simp: classify_input_def single_shape_def many_shape_def Let_def split: list.splits option.splits if_splits)
qed

text \<open>A module imported with single quotes is not seen, one imported with double quotes is.\<close>

lemma bare_import_line:
  assumes "is_ascii l" "lines_of l = [l]" "l \<noteq> []" "\<not> blank_piece (take (snd (utf8_step (map of_char l))) l)"
  shows "bare_import_in \<lparr>sf_rel = rel, sf_content = bytes_of l\<rparr> \<longleftrightarrow>
    contains l '' from \"'' \<and> starts_with l ''import '' \<and> \<not> contains l ''\"./'' \<and> \<not> contains l ''\"../'' \<and>
    \<not> contains l (CHR 0x27 # ''./'') \<and> \<not> contains l (CHR 0x27 # ''../'')"
  using from_utf8_ascii [OF assms(1)] assms(2) trim_start_nothing [OF assms(3,4)]
  by (simp add: bare_import_in_def Let_def)

lemma single_quoted_imports_are_missed:
  "bare_import_in \<lparr>sf_rel = ''a.js'', sf_content = bytes_of ''import R from \"r\"''\<rparr>"
  "\<not> bare_import_in \<lparr>sf_rel = ''a.js'', sf_content = bytes_of (''import R from '' @ CHR 0x27 # ''r'' @ [CHR 0x27])\<rparr>"
  by (subst bare_import_line; code_simp)+

section \<open>The slug\<close>

text \<open>The words between the dashes.\<close>

definition dash_words :: "string \<Rightarrow> string list" where
  "dash_words s = filter (\<lambda>w. w \<noteq> []) (split_on CHR ''-'' s)"

lemma split_on_hd_tl: "split_on c s = hd (split_on c s) # tl (split_on c s)"
  by simp

lemma split_on_sep: "split_on c (c # s) = [] # split_on c s"
  by simp

lemma split_on_other: "x \<noteq> c \<Longrightarrow> hd (split_on c (x # s)) = x # hd (split_on c s) \<and> tl (split_on c (x # s)) = tl (split_on c s)"
  by (auto split: list.split)

lemma dash_words_hd: "dash_words s = (if hd (split_on CHR ''-'' s) = [] then [] else [hd (split_on CHR ''-'' s)]) @
    filter (\<lambda>w. w \<noteq> []) (tl (split_on CHR ''-'' s))"
  unfolding dash_words_def by (cases "split_on CHR ''-'' s") (simp_all del: split_on.simps)

lemma replace_dashes_words:
  "hd (split_on CHR ''-'' (replace_all ''--'' ''-'' s)) = hd (split_on CHR ''-'' s) \<and>
   filter (\<lambda>w. w \<noteq> []) (tl (split_on CHR ''-'' (replace_all ''--'' ''-'' s))) =
     filter (\<lambda>w. w \<noteq> []) (tl (split_on CHR ''-'' s))"
proof (induction "''--''" "''-''" s rule: replace_all.induct)
  case (2 x s)
  show ?case
  proof (cases "''--'' \<noteq> [] \<and> starts_with (x # s) ''--''")
    case True
    then obtain r where r: "x # s = CHR ''-'' # CHR ''-'' # r" by (auto simp: starts_with_iff)
    with 2(1) [OF True] have "dash_words (replace_all ''--'' ''-'' r) = dash_words r"
      by (simp add: dash_words_hd)
    with r show ?thesis unfolding replace_step(1) [OF True] by (simp add: dash_words_def)
  next
    case False
    note IH = 2(2) [OF False]
    have words: "dash_words (replace_all ''--'' ''-'' s) = dash_words s" using IH by (simp add: dash_words_hd)
    show ?thesis
    proof (cases "x = CHR ''-''")
      case True
      with words show ?thesis unfolding replace_step(2) [OF False] by (simp add: dash_words_def)
    next
      case x: False
      show ?thesis unfolding replace_step(2) [OF False]
        using IH split_on_other [OF x] by (simp only: simp_thms)
    qed
  qed
qed simp

lemma collapse_dashes_words: "dash_words (collapse_dashes s) = dash_words s \<and> \<not> contains (collapse_dashes s) ''--''"
proof (induction s rule: collapse_dashes.induct)
  case (1 s)
  have "dash_words (replace_all ''--'' ''-'' s) = dash_words s"
    using replace_dashes_words by (simp add: dash_words_hd)
  with 1 show ?case by (cases "contains s ''--''") (simp_all add: collapse_dashes.simps [of s])
qed

text \<open>Without two dashes in a row only the ends can be empty.\<close>

lemma trim_end_words:
  "\<not> contains s ''--'' \<Longrightarrow> (s = [] \<or> hd s \<noteq> CHR ''-'') \<Longrightarrow>
     rev (dropWhile (\<lambda>c. c = CHR ''-'') (rev s)) = join_with CHR ''-'' (dash_words s)"
proof (induction s rule: length_induct)
  case (1 s)
  let ?d = "\<lambda>c. c = CHR ''-''"
  show ?case
  proof (cases "CHR ''-'' \<in> set s")
    case False
    have "dropWhile ?d (rev s) = rev s" using False by (cases "rev s") (auto simp: rev_swap)
    moreover have "dash_words s = (if s = [] then [] else [s])"
      using False by (simp add: dash_words_def split_on_no_sep)
    ultimately show ?thesis by simp
  next
    case True
    then obtain w t where s: "s = w @ CHR ''-'' # t" "CHR ''-'' \<notin> set w" by (meson split_list_first)
    have w: "w \<noteq> []" using 1(3) s by (cases w) auto
    have ends: "\<not> contains t ''--''" "t = [] \<or> hd t \<noteq> CHR ''-''"
    proof -
      show "\<not> contains t ''--''" using 1(2) contains_append(1) [of t "''--''" "w @ [CHR ''-'']"] s(1) by auto
      show "t = [] \<or> hd t \<noteq> CHR ''-''"
      proof (rule ccontr)
        assume "\<not> ?thesis"
        then have "s = w @ ''--'' @ tl t" using s(1) by (cases t) auto
        then have "contains s ''--''" unfolding contains_iff by blast
        with 1(2) show False ..
      qed
    qed
    have "length t < length s" using s(1) by simp
    with 1(1) ends have IH: "rev (dropWhile ?d (rev t)) = join_with CHR ''-'' (dash_words t)" by blast
    have words: "dash_words s = w # dash_words t"
      using w s by (simp add: dash_words_def split_on_append_sep)
    have rest: "dropWhile ?d (rev t @ CHR ''-'' # rev w) =
        (if t = [] then rev w else dropWhile ?d (rev t) @ CHR ''-'' # rev w)"
    proof (cases "t = []")
      case True
      then show ?thesis using w s(2) by (cases "rev w") (auto simp: rev_swap)
    next
      case False
      with ends(2) obtain x where "x \<in> set (rev t)" "\<not> ?d x" by (cases t) auto
      from dropWhile_append1 [of x "rev t" ?d, OF this] False show ?thesis by simp
    qed
    show ?thesis
    proof (cases "t = []")
      case True
      with rest words s(1) show ?thesis by (simp add: dash_words_def)
    next
      case False
      have "dropWhile ?d (rev t) \<noteq> []" using ends(2) False by (cases t) (auto simp: dropWhile_eq_Nil_conv)
      with IH have "dash_words t \<noteq> []" by auto
      then obtain v vs where "dash_words t = v # vs" by (cases "dash_words t") auto
      with rest words s(1) IH False show ?thesis by simp
    qed
  qed
qed

lemma trim_dashes_words:
  assumes "\<not> contains s ''--''"
  shows "trim_dashes s = join_with CHR ''-'' (dash_words s)"
proof (cases "s = [] \<or> hd s \<noteq> CHR ''-''")
  case True
  then have "dropWhile (\<lambda>c. c = CHR ''-'') s = s" by (cases s) auto
  with trim_end_words [OF assms True] show ?thesis by (simp add: trim_dashes_def)
next
  case False
  then obtain t where s: "s = CHR ''-'' # t" by (cases s) auto
  with assms have t: "\<not> contains t ''--''" "t = [] \<or> hd t \<noteq> CHR ''-''" by (auto simp: starts_with_def neq_Nil_conv)
  then have "dropWhile (\<lambda>c. c = CHR ''-'') s = t" using s by (cases t) auto
  with trim_end_words [OF t] s show ?thesis by (simp add: trim_dashes_def dash_words_def)
qed

lemma join_dash_words: "join_with CHR ''-'' (dash_words s) = [] \<longleftrightarrow> dash_words s = []"
proof (cases "dash_words s")
  case (Cons w ws)
  then have "w \<noteq> []" by (auto simp: dash_words_def filter_eq_Cons_iff)
  with Cons show ?thesis by (cases ws) simp_all
qed simp

lemma slug_of_words:
  "slug_of lower name =
     (let words = dash_words (map slug_char (chars_of (lower name)))
      in if words = [] then ''app'' else join_with CHR ''-'' words)"
proof -
  let ?s = "map slug_char (chars_of (lower name))"
  have t: "trim_dashes (collapse_dashes ?s) = join_with CHR ''-'' (dash_words ?s)"
    using trim_dashes_words [of "collapse_dashes ?s"] collapse_dashes_words [of ?s] by simp
  from join_dash_words [of ?s] t show ?thesis by (simp add: slug_of_def Let_def dash_words_def)
qed

lemma slug_char_label: "label_char (slug_char cp)"
  by (auto simp: slug_char_def label_char_def)

lemma join_with_chars: "x \<in> set (join_with c ws) \<Longrightarrow> x = c \<or> (\<exists>w\<in>set ws. x \<in> set w)"
  by (induction c ws rule: join_with.induct) auto

lemma slug_label: "word_over label_char (slug_of lower name)"
proof -
  let ?s = "map slug_char (chars_of (lower name))"
  have words: "list_all label_char w" if "w \<in> set (dash_words ?s)" for w
  proof -
    have "set w \<subseteq> set ?s" using that set_split_on [of "CHR ''-''" ?s] by (auto simp: dash_words_def)
    then show ?thesis using slug_char_label by (auto simp: list_all_iff)
  qed
  have "label_char CHR ''-''" "list_all label_char ''app''" by code_simp+
  with words join_dash_words [of ?s] show ?thesis
    by (auto simp: slug_of_words word_over_def Let_def list_all_iff dest!: join_with_chars)
qed

text \<open>The id under which a converted project lives.\<close>

definition local_app_id :: "(string \<Rightarrow> string) \<Rightarrow> string \<Rightarrow> string" where
  "local_app_id to_lowercase name = ''local.poid.'' @ slug_of to_lowercase name"

text \<open>
  The slug is the words of the name, the maximal runs of ASCII letters and digits of its lower-case
  form, joined by single dashes, or \<open>app\<close> when there is none; whatever the name and whatever the table of
  lower-case letters, the application id built from it is a valid reverse-DNS name.
\<close>

theorem slug_is_the_words_of_the_name:
  "slug_of lower name =
     (let words = dash_words (map slug_char (chars_of (lower name)))
      in if words = [] then ''app'' else join_with CHR ''-'' words) \<and>
   reverse_dns_name (local_app_id lower name)"
proof
  show "reverse_dns_name (local_app_id lower name)"
    unfolding reverse_dns_name_def local_app_id_def
  proof (intro exI conjI)
    show "''local.poid.'' @ slug_of lower name =
        join_with CHR ''.'' ((CHR ''l'' # ''ocal'') # [''poid'', slug_of lower name])" by simp
    show "is_ascii_alphabetic CHR ''l''" "\<forall>d\<in>set ''ocal''. is_ascii_alphanumeric d" by code_simp+
    have "word_over label_char ''poid''" by code_simp
    then show "\<forall>l\<in>set [''poid'', slug_of lower name]. word_over label_char l" using slug_label by simp
  qed simp
qed (rule slug_of_words)

section \<open>The permissions\<close>

lemma infer_from_fields:
  "ip_clipboard (infer_from t out) \<longleftrightarrow> ip_clipboard out \<or> contains t ''navigator.clipboard'' \<or> contains t ''poid.ui.clipboard''"
  "ip_print (infer_from t out) \<longleftrightarrow> ip_print out \<or> contains t ''window.print'' \<or> contains t ''poid.ui.print''"
  "ip_notifications (infer_from t out) \<longleftrightarrow>
     ip_notifications out \<or> contains t ''new Notification('' \<or> contains t ''Notification.requestPermission''"
  "ip_filesystem_user_initiated (infer_from t out) \<longleftrightarrow> ip_filesystem_user_initiated out \<or> contains t ''poid.files''"
  by (auto simp: infer_from_def Let_def)

text \<open>A permission is requested if one of its markers occurs in one of the texts.\<close>

definition marked :: "string list \<Rightarrow> string list \<Rightarrow> bool" where
  "marked markers srcs = list_ex (\<lambda>t. list_ex (contains t) markers) srcs"

lemma infer_fold:
  "ip_clipboard (fold infer_from srcs out) \<longleftrightarrow> ip_clipboard out \<or> marked [''navigator.clipboard'', ''poid.ui.clipboard''] srcs"
  "ip_print (fold infer_from srcs out) \<longleftrightarrow> ip_print out \<or> marked [''window.print'', ''poid.ui.print''] srcs"
  "ip_notifications (fold infer_from srcs out) \<longleftrightarrow>
     ip_notifications out \<or> marked [''new Notification('', ''Notification.requestPermission''] srcs"
  "ip_filesystem_user_initiated (fold infer_from srcs out) \<longleftrightarrow> ip_filesystem_user_initiated out \<or> marked [''poid.files''] srcs"
  by (induction srcs arbitrary: out) (auto simp: infer_from_fields marked_def)

lemma converted_manifest_cases:
  "converted_manifest plan =
     rbind (validate (new_app (cp_app_id plan) (cp_name plan) ''1.0.0'' ''app/index.html'')) (\<lambda>_.
       Inr ((new_app (cp_app_id plan) (cp_name plan) ''1.0.0'' ''app/index.html'')\<lparr>
         m_permissions := Some (converted_permissions (cp_inferred plan)),
         m_runtime := map_option (recorded_runtime plan) (m_runtime (new_app (cp_app_id plan) (cp_name plan) ''1.0.0'' ''app/index.html''))\<rparr>))"
  by (simp add: converted_manifest_def Let_def validate_def validate_runnable_def new_app_def validate_runtime_def
      recorded_runtime_def require_def)

lemma converted_manifest_ok: "converted_manifest plan = Inr m \<Longrightarrow> manifest_ok m"
  unfolding converted_manifest_def Let_def by (auto simp: rbind_eq_Inr validate_iff [symmetric])


end
