(* ===== verification/Convert_Html.thy ===== *)
theory Convert_Html
  imports Text_Replace
begin

text \<open>
  \<open>poid-convert/src/html.rs\<close>: the bundle put into the page. References to project sources are cut out of the
  author's page, the built style sheet and script are inserted before the last \<open></body>\<close>, each with its
  own closing tag escaped. All of it works on bytes; the positions found are ASCII, so no character is split.
\<close>

section \<open>Escaping\<close>

record inline_parts =
  in_js :: "string option"
  in_css :: "string option"
  in_title :: string

definition escape_close :: "string \<Rightarrow> string \<Rightarrow> string" where
  "escape_close content tag = replace_all (''</'' @ tag) (''<'' @ [CHR 0x5C] @ ''/'' @ tag) content"

definition escape_html :: "string \<Rightarrow> string" where
  "escape_html s = replace_all ''<'' ''&lt;'' (replace_all ''&'' ''&amp;'' s)"

definition newline :: string where
  "newline = [CHR 0x0A]"

definition shell :: string where
  "shell =
     ''<!doctype html>'' @ newline @ ''<html lang=\"en\">'' @ newline @ ''<head>'' @ newline @
     ''<meta charset=\"utf-8\">'' @ newline @
     ''<meta name=\"viewport\" content=\"width=device-width, initial-scale=1\">'' @ newline @
     ''<title>{{title}}</title>'' @ newline @ ''</head>'' @ newline @ ''<body>'' @ newline @
     ''<div id=\"root\"></div>'' @ newline @ ''</body>'' @ newline @ ''</html>'' @ newline"

section \<open>References to project sources\<close>

text \<open>The end of a search: a tag found, none left, or a tag without its end, which ends the whole search.\<close>

datatype tag_search = Found nat nat | NotFound | Unfinished

definition references_source :: "string \<Rightarrow> string \<Rightarrow> bool" where
  "references_source opener tag \<longleftrightarrow>
     contains tag '' src=\"'' \<or> contains tag ('' src='' @ [CHR 0x27]) \<or>
     (opener = ''<link'' \<and> contains tag ''stylesheet'' \<and> contains tag '' href=\"'')"

definition external_tag :: "string \<Rightarrow> bool" where
  "external_tag tag \<longleftrightarrow> contains tag ''http://'' \<or> contains tag ''https://''"

function search_tags :: "string \<Rightarrow> string option \<Rightarrow> string \<Rightarrow> nat \<Rightarrow> tag_search" where
  "search_tags opener closing lower start =
     (case find_str opener (drop start lower) of
        None \<Rightarrow> NotFound
      | Some rel_start \<Rightarrow>
          let start = start + rel_start in
          (case find_str ''>'' (drop start lower) of
             None \<Rightarrow> Unfinished
           | Some i \<Rightarrow>
               let tag_end = start + i + 1; tag = take (tag_end - start) (drop start lower) in
               if references_source opener tag \<and> \<not> external_tag tag then
                 (case closing of
                    None \<Rightarrow> Found start tag_end
                  | Some c \<Rightarrow>
                      (case find_str c (drop tag_end lower) of
                         None \<Rightarrow> Unfinished
                       | Some j \<Rightarrow> Found start (tag_end + j + length c)))
               else search_tags opener closing lower tag_end))"
  by pat_completeness auto
termination
  by (relation "measure (\<lambda>(opener, closing, lower, start). length lower - start)")
    (auto dest!: find_str_Some)

declare search_tags.simps [simp del]

definition find_source_tag :: "string \<Rightarrow> (nat \<times> nat) option" where
  "find_source_tag html =
     (let lower = to_ascii_lowercase html in
      case search_tags ''<script'' (Some ''</script>'') lower 0 of
        Found a b \<Rightarrow> Some (a, b)
      | Unfinished \<Rightarrow> None
      | NotFound \<Rightarrow>
          (case search_tags ''<link'' None lower 0 of Found a b \<Rightarrow> Some (a, b) | _ \<Rightarrow> None))"

lemma search_tags_Found:
  "search_tags opener closing lower start = Found a b \<Longrightarrow> start \<le> a \<and> a < b \<and> b \<le> length lower"
proof (induction opener closing lower start rule: search_tags.induct)
  case (1 opener closing lower start)
  obtain r where r: "find_str opener (drop start lower) = Some r"
    using 1(2) by (subst (asm) search_tags.simps) (auto split: option.splits)
  obtain i where i: "find_str ''>'' (drop (start + r) lower) = Some i"
    using 1(2) r by (subst (asm) search_tags.simps) (auto simp: Let_def split: option.splits)
  have i': "start + r + i + 1 \<le> length lower"
    using find_str_Some [OF i] by auto
  let ?tag = "take (Suc i) (drop (start + r) lower)"
  show ?case
  proof (cases "references_source opener ?tag \<and> \<not> external_tag ?tag")
    case True
    show ?thesis
    proof (cases closing)
      case None
      with 1(2) r i i' True show ?thesis by (subst (asm) search_tags.simps) (simp add: Let_def)
    next
      case (Some c)
      with 1(2) r i True obtain j where j: "find_str c (drop (start + r + i + 1) lower) = Some j"
        by (subst (asm) search_tags.simps) (auto simp: Let_def split: option.splits)
      with 1(2) r i True Some have "a = start + r" "b = start + r + i + 1 + j + length c"
        by (subst (asm) search_tags.simps; simp add: Let_def)+
      with find_str_Some [OF j] i' show ?thesis by auto
    qed
  next
    case False
    with 1(2) r i have "search_tags opener closing lower (start + r + i + 1) = Found a b"
      by (subst (asm) search_tags.simps) (simp add: Let_def)
    moreover have "start + r + i + 1 = Suc (start + r + i)" by simp
    ultimately show ?thesis using 1(1) [OF r refl i refl refl] False by (simp add: Let_def)
  qed
qed

lemma length_to_ascii_lowercase [simp]: "length (to_ascii_lowercase s) = length s"
  by (simp add: to_ascii_lowercase_def)

lemma find_source_tag_Some: "find_source_tag html = Some (a, b) \<Longrightarrow> a < b \<and> b \<le> length html"
  by (auto simp: find_source_tag_def Let_def dest: search_tags_Found split: tag_search.splits)

function strip_source_references :: "string \<Rightarrow> string" where
  "strip_source_references html =
     (case find_source_tag html of
        None \<Rightarrow> html
      | Some (a, b) \<Rightarrow> take a html @ strip_source_references (drop b html))"
  by pat_completeness auto
termination
  by (relation "measure length") (auto dest!: find_source_tag_Some)

declare strip_source_references.simps [simp del]

section \<open>Inlining\<close>

definition inline_into_html :: "string option \<Rightarrow> inline_parts \<Rightarrow> string" where
  "inline_into_html html parts =
     (let base = (case html of
            Some doc \<Rightarrow> strip_source_references doc
          | None \<Rightarrow> replace_all ''{{title}}'' (escape_html (in_title parts)) shell);
          injection = [];
          injection = (case in_css parts of
            None \<Rightarrow> injection
          | Some css \<Rightarrow> injection @ ''<style>'' @ newline @ escape_close css ''style'' @ newline @ ''</style>'' @ newline);
          injection = (case in_js parts of
            None \<Rightarrow> injection
          | Some js \<Rightarrow> injection @ ''<script type=\"module\">'' @ newline @ escape_close js ''script'' @ newline @
              ''</script>'' @ newline)
      in if injection = [] then base
         else case rfind_str ''</body>'' base of
           Some idx \<Rightarrow> take idx base @ injection @ drop idx base
         | None \<Rightarrow> base @ injection)"

section \<open>What escaping leaves\<close>

lemma lower_lt [simp]: "to_ascii_lowercase_char c = CHR ''<'' \<longleftrightarrow> c = CHR ''<''"
proof
  assume l: "to_ascii_lowercase_char c = CHR ''<''"
  show "c = CHR ''<''"
  proof (cases "is_ascii_uppercase c")
    case True
    then have "(of_char c :: nat) < 91" "65 \<le> (of_char c :: nat)" by (auto simp: is_ascii_uppercase_def Let_def)
    then have "(of_char (to_ascii_lowercase_char c) :: nat) = of_char c + 32"
      using True by (simp add: to_ascii_lowercase_char_def)
    with l \<open>65 \<le> (of_char c :: nat)\<close> show ?thesis by simp
  qed (use l in \<open>simp add: to_ascii_lowercase_char_def\<close>)
qed (simp add: to_ascii_lowercase_char_def is_ascii_uppercase_def)

lemma starts_with_Cons: "starts_with (c # s) (x # q) \<longleftrightarrow> c = x \<and> starts_with s q"
  by (auto simp: starts_with_def)

lemma starts_with_Nil [simp]: "starts_with s []"
  by (simp add: starts_with_def)

lemma starts_with_Nil_left [simp]: "starts_with [] q \<longleftrightarrow> q = []"
  by (auto simp: starts_with_def)

text \<open>A text without an opening bracket at the start is neither made nor broken by a replacement that starts with it.\<close>

lemma replace_prefix:
  assumes "\<And>c. f c = CHR ''<'' \<longleftrightarrow> c = CHR ''<''" "CHR ''<'' \<notin> set q"
  shows "starts_with (map f (replace_all (CHR ''<'' # p) (CHR ''<'' # n) s)) q \<longleftrightarrow> starts_with (map f s) q"
  using assms(2)
proof (induction s arbitrary: q)
  case (Cons c s)
  show ?case
  proof (cases q)
    case q: (Cons x q')
    show ?thesis
    proof (cases "CHR ''<'' # p \<noteq> [] \<and> starts_with (c # s) (CHR ''<'' # p)")
      case True
      then have "c = CHR ''<''" by (simp add: starts_with_Cons)
      moreover have "x \<noteq> CHR ''<''" using Cons.prems q by auto
      ultimately show ?thesis
        unfolding replace_step(1) [OF True] q using assms(1) [of c] assms(1) [of "CHR ''<''"]
        by (auto simp: starts_with_Cons)
    next
      case False
      have "CHR ''<'' \<notin> set q'" using Cons.prems q by auto
      from Cons.IH [OF this] show ?thesis
        unfolding replace_step(2) [OF False] q by (simp add: starts_with_Cons)
    qed
  qed simp
qed simp

text \<open>An occurrence of the tag in other letters.\<close>

fun other_case :: "string \<Rightarrow> string \<Rightarrow> bool" where
  "other_case pat [] = False"
| "other_case pat (c # s) =
     (starts_with (to_ascii_lowercase (c # s)) pat \<and> \<not> starts_with (c # s) pat \<or> other_case pat s)"

lemma other_case_iff:
  "pat \<noteq> [] \<Longrightarrow> other_case pat s \<longleftrightarrow>
     (\<exists>n. starts_with (drop n (to_ascii_lowercase s)) pat \<and> \<not> starts_with (drop n s) pat)"
proof (induction s)
  case (Cons c s)
  have "(\<exists>n. P n) \<longleftrightarrow> P 0 \<or> (\<exists>n. P (Suc n))" for P :: "nat \<Rightarrow> bool" by (metis not0_implies_Suc)
  from this [of "\<lambda>n. starts_with (drop n (to_ascii_lowercase (c # s))) pat \<and> \<not> starts_with (drop n (c # s)) pat"]
    Cons show ?case by (simp add: to_ascii_lowercase_def)
qed (simp add: to_ascii_lowercase_def)

lemma contains_no_lt:
  "CHR ''<'' \<notin> set a \<Longrightarrow> contains (a @ b) (CHR ''<'' # q) = contains b (CHR ''<'' # q)"
  by (induction a) (auto simp: starts_with_Cons)

lemma other_case_skip:
  "CHR ''<'' \<notin> set a \<Longrightarrow> other_case (CHR ''<'' # q) (a @ b) = other_case (CHR ''<'' # q) b"
  by (induction a) (auto simp: starts_with_Cons to_ascii_lowercase_def)

lemma escape_remaining:
  assumes "CHR ''<'' \<notin> set p" "CHR ''<'' \<notin> set n"
    and "\<And>t. \<not> starts_with (n @ t) p" "\<And>t. \<not> starts_with (to_ascii_lowercase n @ t) p"
  shows "\<not> contains (replace_all (CHR ''<'' # p) (CHR ''<'' # n) s) (CHR ''<'' # p)"
    and "contains (to_ascii_lowercase (replace_all (CHR ''<'' # p) (CHR ''<'' # n) s)) (CHR ''<'' # p) \<longleftrightarrow>
      other_case (CHR ''<'' # p) s"
proof -
  let ?pat = "CHR ''<'' # p" and ?new = "CHR ''<'' # n"
  have lows: "to_ascii_lowercase = map to_ascii_lowercase_char" by (simp add: to_ascii_lowercase_def fun_eq_iff)
  have n': "CHR ''<'' \<notin> set (to_ascii_lowercase n)"
  proof
    assume "CHR ''<'' \<in> set (to_ascii_lowercase n)"
    then obtain x where x: "x \<in> set n" "to_ascii_lowercase_char x = CHR ''<''"
      unfolding to_ascii_lowercase_def set_map by (metis imageE)
    from x(2) have "x = CHR ''<''" by (simp only: lower_lt)
    with x(1) assms(2) show False by simp
  qed
  have lower: "starts_with (map to_ascii_lowercase_char (replace_all ?pat ?new s)) p \<longleftrightarrow>
      starts_with (map to_ascii_lowercase_char s) p" for s
    using assms(1) by (intro replace_prefix) simp_all
  have same: "starts_with (replace_all ?pat ?new s) p \<longleftrightarrow> starts_with s p" for s
    using replace_prefix [of "\<lambda>c. c" p p n s] assms(1) by simp
  show "\<not> contains (replace_all ?pat ?new s) ?pat"
  proof (induction ?pat ?new s rule: replace_all.induct)
    case (2 c s)
    show ?case
    proof (cases "?pat \<noteq> [] \<and> starts_with (c # s) ?pat")
      case True
      with 2(1) [OF True] show ?thesis unfolding replace_step(1) [OF True]
        using contains_no_lt [OF assms(2)] assms(3) by (simp add: starts_with_Cons)
    next
      case False
      with 2(2) [OF False] same show ?thesis unfolding replace_step(2) [OF False]
        by (auto simp: starts_with_Cons)
    qed
  qed simp
  show "contains (to_ascii_lowercase (replace_all ?pat ?new s)) ?pat \<longleftrightarrow> other_case ?pat s"
  proof (induction ?pat ?new s rule: replace_all.induct)
    case (2 c s)
    show ?case
    proof (cases "?pat \<noteq> [] \<and> starts_with (c # s) ?pat")
      case True
      then obtain r where r: "c = CHR ''<''" "s = p @ r" by (auto simp: starts_with_iff)
      with 2(1) [OF True] show ?thesis unfolding replace_step(1) [OF True]
        using contains_no_lt [OF n'] assms(4) other_case_skip [OF assms(1)]
        by (auto simp: starts_with_Cons lows)
    next
      case False
      with 2(2) [OF False] lower show ?thesis unfolding replace_step(2) [OF False]
        by (auto simp: starts_with_Cons lows)
    qed
  qed (simp add: to_ascii_lowercase_def)
qed

lemma escape_close_remaining:
  assumes "CHR ''<'' \<notin> set tag"
  shows "\<not> contains (escape_close content tag) (''</'' @ tag)"
    and "contains (to_ascii_lowercase (escape_close content tag)) (''</'' @ tag) \<longleftrightarrow> other_case (''</'' @ tag) content"
proof -
  have 1: "CHR ''<'' \<notin> set (''/'' @ tag)" "CHR ''<'' \<notin> set (CHR 0x5C # ''/'' @ tag)" using assms by simp_all
  have 2: "\<not> starts_with ((CHR 0x5C # ''/'' @ tag) @ t) (''/'' @ tag)" for t by (simp add: starts_with_Cons)
  have 3: "\<not> starts_with (to_ascii_lowercase (CHR 0x5C # ''/'' @ tag) @ t) (''/'' @ tag)" for t
    by (simp add: starts_with_Cons to_ascii_lowercase_def to_ascii_lowercase_char_def is_ascii_uppercase_def)
  from escape_remaining [OF 1 2 3, of content]
  show "\<not> contains (escape_close content tag) (''</'' @ tag)"
    "contains (to_ascii_lowercase (escape_close content tag)) (''</'' @ tag) \<longleftrightarrow> other_case (''</'' @ tag) content"
    by (simp_all add: escape_close_def)
qed

text \<open>
  What escaping achieves: the closing tag in lower case never remains in the inlined script or style,
  nor does the replacement make one. HTML ends an element at its closing tag in any letters, and one of
  these remains exactly when the content has a closing tag in other letters than lower case: \<open></SCRIPT>\<close>
  in a bundle ends the script early.
\<close>

theorem escaping_is_case_sensitive:
  "\<not> contains (escape_close js ''script'') ''</script'' \<and> \<not> contains (escape_close css ''style'') ''</style'' \<and>
   (contains (to_ascii_lowercase (escape_close js ''script'')) ''</script'' \<longleftrightarrow>
      (\<exists>n. starts_with (drop n (to_ascii_lowercase js)) ''</script'' \<and> \<not> starts_with (drop n js) ''</script'')) \<and>
   escape_close ''</SCRIPT>'' ''script'' = ''</SCRIPT>''"
proof -
  have "escape_close ''</SCRIPT>'' ''script'' = ''</SCRIPT>''" by code_simp
  with escape_close_remaining [of "''script''" js] escape_close_remaining [of "''style''" css]
    other_case_iff [of "''</script''" js]
  show ?thesis by simp
qed

section \<open>What is cut out of the page\<close>

text \<open>An element that refers to a project source: a script up to its closing tag, or a link.\<close>

definition source_element :: "string \<Rightarrow> bool" where
  "source_element e =
     (let lower = to_ascii_lowercase e in
      case find_str ''>'' lower of
        None \<Rightarrow> False
      | Some i \<Rightarrow>
          let tag = take (i + 1) lower in
          \<not> external_tag tag \<and>
          (starts_with lower ''<script'' \<and> references_source ''<script'' tag \<and> ends_with lower ''</script>'' \<or>
           starts_with lower ''<link'' \<and> references_source ''<link'' tag \<and> lower = tag))"

inductive cut :: "string \<Rightarrow> string \<Rightarrow> bool" where
  cut_nothing: "cut s s"
| cut_element: "source_element e \<Longrightarrow> cut rest out \<Longrightarrow> cut (before @ e @ rest) (before @ out)"

lemma find_str_take: "find_str ''>'' s = Some i \<Longrightarrow> i < n \<Longrightarrow> find_str ''>'' (take n s) = Some i"
proof (induction s arbitrary: i n)
  case (Cons c s)
  then obtain m where n: "n = Suc m" by (cases n) auto
  show ?case
  proof (cases "c = CHR ''>''")
    case True
    with Cons.prems n show ?thesis by (simp add: starts_with_Cons)
  next
    case False
    with Cons.prems obtain k where "find_str ''>'' s = Some k" "i = Suc k" by (auto simp: starts_with_Cons)
    with Cons.IH [of k m] Cons.prems(2) n False show ?thesis by (simp add: starts_with_Cons)
  qed
qed simp

text \<open>What the search finds.\<close>

definition found_tag :: "string \<Rightarrow> string option \<Rightarrow> string \<Rightarrow> nat \<Rightarrow> nat \<Rightarrow> bool" where
  "found_tag opener closing lower a b \<longleftrightarrow>
     starts_with (drop a lower) opener \<and>
     (\<exists>i. find_str ''>'' (drop a lower) = Some i \<and> a + i + 1 \<le> b \<and>
        references_source opener (take (i + 1) (drop a lower)) \<and> \<not> external_tag (take (i + 1) (drop a lower)) \<and>
        (case closing of
           None \<Rightarrow> b = a + i + 1
         | Some c \<Rightarrow> \<exists>j. find_str c (drop (a + i + 1) lower) = Some j \<and> b = a + i + 1 + j + length c))"

lemma search_tags_found_tag:
  "search_tags opener closing lower start = Found a b \<Longrightarrow> found_tag opener closing lower a b"
proof (induction opener closing lower start rule: search_tags.induct)
  case (1 opener closing lower start)
  obtain r where r: "find_str opener (drop start lower) = Some r"
    using 1(2) by (subst (asm) search_tags.simps) (auto split: option.splits)
  obtain i where i: "find_str ''>'' (drop (start + r) lower) = Some i"
    using 1(2) r by (subst (asm) search_tags.simps) (auto simp: Let_def split: option.splits)
  have opens: "starts_with (drop (start + r) lower) opener" using find_str_Some [OF r] by (simp add: add.commute)
  let ?tag = "take (Suc i) (drop (start + r) lower)"
  show ?case
  proof (cases "references_source opener ?tag \<and> \<not> external_tag ?tag")
    case True
    show ?thesis
    proof (cases closing)
      case None
      with 1(2) r i True have "a = start + r" "b = start + r + i + 1"
        by (subst (asm) search_tags.simps; simp add: Let_def)+
      with None i True opens show ?thesis by (simp add: found_tag_def)
    next
      case (Some c)
      with 1(2) r i True obtain j where j: "find_str c (drop (start + r + i + 1) lower) = Some j"
        by (subst (asm) search_tags.simps) (auto simp: Let_def split: option.splits)
      with 1(2) r i True Some have "a = start + r" "b = start + r + i + 1 + j + length c"
        by (subst (asm) search_tags.simps; simp add: Let_def)+
      with Some i j True opens show ?thesis by (simp add: found_tag_def)
    qed
  next
    case False
    with 1(2) r i have "search_tags opener closing lower (start + r + i + 1) = Found a b"
      by (subst (asm) search_tags.simps) (simp add: Let_def)
    with 1(1) [OF r refl i refl refl] False show ?thesis by (simp add: Let_def)
  qed
qed

lemma starts_with_take: "starts_with s p \<Longrightarrow> length p \<le> n \<Longrightarrow> starts_with (take n s) p"
  by (auto simp: starts_with_iff)

lemma ends_with_at: "starts_with (drop k s) c \<Longrightarrow> ends_with (take (k + length c) s) c"
proof -
  assume "starts_with (drop k s) c"
  then obtain t where "drop k s = c @ t" by (auto simp: starts_with_iff)
  moreover have "s = take k s @ drop k s" by simp
  ultimately have "take (k + length c) s = take k s @ c" by (simp add: take_add)
  then show ?thesis unfolding ends_with_iff by blast
qed

lemma lower_take_drop: "to_ascii_lowercase (take n (drop a s)) = take n (drop a (to_ascii_lowercase s))"
  by (simp add: to_ascii_lowercase_def take_map drop_map)

lemma found_script_element:
  assumes "found_tag ''<script'' (Some ''</script>'') (to_ascii_lowercase html) a b"
  shows "source_element (take (b - a) (drop a html))"
proof -
  let ?l = "drop a (to_ascii_lowercase html)"
  from assms obtain i j where i: "find_str ''>'' ?l = Some i" and s: "starts_with ?l ''<script''"
    and t: "references_source ''<script'' (take (i + 1) ?l)" "\<not> external_tag (take (i + 1) ?l)"
    and j: "find_str ''</script>'' (drop (a + i + 1) (to_ascii_lowercase html)) = Some j" "b = a + i + 1 + j + 9"
    by (auto simp: found_tag_def)
  have n: "b - a = i + 1 + j + length ''</script>''" using j(2) by simp
  have "starts_with (drop (i + 1 + j) ?l) ''</script>''"
    using find_str_Some [OF j(1)] by (simp add: add.commute add.left_commute)
  from ends_with_at [OF this] have e: "ends_with (take (b - a) ?l) ''</script>''" by (simp only: n)
  have st: "starts_with (take (b - a) ?l) ''<script''" using starts_with_take [OF s, of "b - a"] n by simp
  have f: "find_str ''>'' (take (b - a) ?l) = Some i" using find_str_take [OF i, of "b - a"] n by simp
  have tk: "take (i + 1) (take (b - a) ?l) = take (i + 1) ?l" using n by (simp add: min_def)
  show ?thesis
    unfolding source_element_def lower_take_drop Let_def f option.case tk using t e st by simp
qed

lemma find_str_nth: "find_str ''>'' s = Some i \<Longrightarrow> s ! i = CHR ''>''"
proof (induction s arbitrary: i)
  case (Cons c s)
  then show ?case by (cases "c = CHR ''>''") (auto simp: starts_with_Cons)
qed simp

lemma found_link_element:
  assumes "found_tag ''<link'' None (to_ascii_lowercase html) a b"
  shows "source_element (take (b - a) (drop a html))"
proof -
  let ?l = "drop a (to_ascii_lowercase html)"
  from assms obtain i where i: "find_str ''>'' ?l = Some i" and s: "starts_with ?l ''<link''"
    and t: "references_source ''<link'' (take (i + 1) ?l)" "\<not> external_tag (take (i + 1) ?l)" and b: "b = a + i + 1"
    by (auto simp: found_tag_def)
  have n: "b - a = i + 1" using b by simp
  have f: "find_str ''>'' (take (i + 1) ?l) = Some i" using find_str_take [OF i, of "i + 1"] by simp
  have "5 \<le> i + 1"
  proof (rule ccontr)
    assume "\<not> 5 \<le> i + 1"
    then have "i < 4" by simp
    moreover from s obtain r where r: "?l = ''<link'' @ r" by (auto simp: starts_with_iff)
    moreover have "?l ! i = CHR ''>''" using find_str_nth [OF i] .
    ultimately show False by (auto simp: less_Suc_eq numeral_eq_Suc)
  qed
  then have st: "starts_with (take (i + 1) ?l) ''<link''" using starts_with_take [OF s, of "i + 1"] by simp
  show ?thesis
    unfolding n source_element_def lower_take_drop Let_def f option.case using t st by simp
qed

lemma find_source_tag_element:
  assumes "find_source_tag html = Some (a, b)"
  shows "source_element (take (b - a) (drop a html))"
proof (cases "search_tags ''<script'' (Some ''</script>'') (to_ascii_lowercase html) 0")
  case (Found a' b')
  with assms have "a' = a" "b' = b" by (simp_all add: find_source_tag_def Let_def)
  with search_tags_found_tag [OF Found] found_script_element show ?thesis by simp
next
  case NotFound
  with assms have "search_tags ''<link'' None (to_ascii_lowercase html) 0 = Found a b"
    by (auto simp: find_source_tag_def Let_def split: tag_search.splits)
  from found_link_element [OF search_tags_found_tag [OF this]] show ?thesis .
qed (use assms in \<open>simp add: find_source_tag_def Let_def\<close>)

lemma strip_cuts: "cut html (strip_source_references html)"
proof (induction html rule: strip_source_references.induct)
  case (1 html)
  show ?case
  proof (cases "find_source_tag html")
    case None
    then show ?thesis by (subst strip_source_references.simps) (simp add: cut_nothing)
  next
    case (Some ab)
    obtain a b where ab: "ab = (a, b)" by (cases ab)
    note tag = find_source_tag_Some [OF Some [unfolded ab]]
    have html: "html = take a html @ take (b - a) (drop a html) @ drop b html"
      using tag by (metis append_take_drop_id drop_drop le_add_diff_inverse2 less_imp_le)
    have "cut (take a html @ take (b - a) (drop a html) @ drop b html) (take a html @ strip_source_references (drop b html))"
      using cut_element [OF find_source_tag_element [OF Some [unfolded ab]] 1(1) [OF Some ab [symmetric]]] .
    then show ?thesis using html Some ab by (subst strip_source_references.simps) simp
  qed
qed

section \<open>The built page\<close>

definition style_block :: "string option \<Rightarrow> string" where
  "style_block css = (case css of
     None \<Rightarrow> [] | Some css \<Rightarrow> ''<style>'' @ newline @ escape_close css ''style'' @ newline @ ''</style>'' @ newline)"

definition script_block :: "string option \<Rightarrow> string" where
  "script_block js = (case js of
     None \<Rightarrow> []
   | Some js \<Rightarrow> ''<script type=\"module\">'' @ newline @ escape_close js ''script'' @ newline @ ''</script>'' @ newline)"

definition shell_with_title :: "string \<Rightarrow> string" where
  "shell_with_title title = replace_all ''{{title}}'' (escape_html title) shell"

lemma rfind_str_None: "rfind_str pat s = None \<longleftrightarrow> \<not> contains s pat"
  by (induction s) (auto split: option.splits)

lemma rfind_str_last:
  "rfind_str pat s = Some n \<Longrightarrow> pat \<noteq> [] \<Longrightarrow> \<not> contains (drop (Suc n) s) pat"
proof (induction s arbitrary: n)
  case (Cons c s)
  show ?case
  proof (cases "rfind_str pat s")
    case None
    with Cons.prems have "n = 0" by (simp split: if_splits)
    with None show ?thesis by (simp add: rfind_str_None)
  qed (use Cons in auto)
qed simp

text \<open>
  The built page is the author's page, or the shell with the title, with the style and the script put
  in one place, before the last closing tag of the body, or at the end when there is none. From the
  author's page nothing is cut but scripts and links whose tag refers to a source and mentions no
  \<open>http\<close> address; nothing is added to it.
\<close>

theorem page_keeps_all_but_source_references:
  "\<exists>before after. inline_into_html html parts = before @ style_block (in_css parts) @ script_block (in_js parts) @ after \<and>
     (case html of Some doc \<Rightarrow> cut doc (before @ after) | None \<Rightarrow> before @ after = shell_with_title (in_title parts)) \<and>
     (if contains (before @ after) ''</body>'' \<and> (in_css parts \<noteq> None \<or> in_js parts \<noteq> None)
      then starts_with after ''</body>'' \<and> \<not> contains (tl after) ''</body>'' else after = [])"
  (is "\<exists>before after. ?P before after")
proof -
  define base where "base = (case html of Some doc \<Rightarrow> strip_source_references doc | None \<Rightarrow> shell_with_title (in_title parts))"
  have base: "case html of Some doc \<Rightarrow> cut doc base | None \<Rightarrow> base = shell_with_title (in_title parts)"
    by (simp add: base_def strip_cuts split: option.split)
  let ?inj = "style_block (in_css parts) @ script_block (in_js parts)"
  have inl: "inline_into_html html parts =
      (if ?inj = [] then base
       else case rfind_str ''</body>'' base of Some idx \<Rightarrow> take idx base @ ?inj @ drop idx base | None \<Rightarrow> base @ ?inj)"
    by (simp add: inline_into_html_def base_def shell_with_title_def style_block_def script_block_def Let_def
        cong: option.case_cong split: option.split)
  have no_block: "?inj = [] \<longleftrightarrow> in_css parts = None \<and> in_js parts = None"
    by (cases "in_css parts"; cases "in_js parts") (simp_all add: style_block_def script_block_def)
  show ?thesis
  proof (cases "?inj = []")
    case True
    with no_block have "\<not> (in_css parts \<noteq> None \<or> in_js parts \<noteq> None)" by (simp only: simp_thms)
    with True inl base have "?P base []" unfolding append_Nil2 by (simp only: if_True simp_thms if_False append_Nil append_Nil2 append_is_Nil_conv)
    then show ?thesis by blast
  next
    case False
    show ?thesis
    proof (cases "rfind_str ''</body>'' base")
      case None
      then have "\<not> contains base ''</body>''" by (rule rfind_str_None [THEN iffD1])
      with None inl False base have "?P base []" unfolding append_Nil2 by simp
      then show ?thesis by blast
    next
      case (Some idx)
      have one: "in_css parts \<noteq> None \<or> in_js parts \<noteq> None" using False no_block by (simp only: de_Morgan_conj simp_thms)
      have has: "contains base ''</body>''" using Some rfind_str_None [of "''</body>''" base] by auto
      have at: "starts_with (drop idx base) ''</body>''" "\<not> contains (tl (drop idx base)) ''</body>''"
        using rfind_str_Some [OF Some] rfind_str_last [OF Some] by (simp_all add: drop_Suc tl_drop)
      have "inline_into_html html parts = take idx base @ style_block (in_css parts) @ script_block (in_js parts) @ drop idx base"
        using inl False Some by (simp only: if_False option.case append_assoc)
      then have "?P (take idx base) (drop idx base)"
        unfolding append_take_drop_id using one has at base by (simp only: simp_thms if_True)
      then show ?thesis by blast
    qed
  qed
qed

text \<open>A script of another site named without a scheme is taken for a source and cut out.\<close>

lemma protocol_relative_script_is_cut:
  "strip_source_references ''<script src=\"//c/x\"></script>'' = []"
  "strip_source_references ''<script src=\"http://c/x\"></script>'' = ''<script src=\"http://c/x\"></script>''"
  by code_simp+

end
