(* ===== verification/Cli_Support.thy ===== *)
theory Cli_Support
  imports Core_Errors Hex_Text Text_Trim Atomic_Files
begin

text \<open>
  What the commands of \<open>poid-cli\<close> share: the error a failed command prints (\<open>output.rs\<close>), and the small text
  functions of \<open>commands.rs\<close>, and the sizes as people read them. The text of an error and of an integer, and upper- and lower-casing of Unicode
  text, are parameters.
\<close>

section \<open>Errors and reports\<close>

record cmd_error =
  ce_code :: string
  ce_message :: string
  ce_poid_code :: "string option"

definition cli_err :: "string \<Rightarrow> string \<Rightarrow> cmd_error" where
  "cli_err code_text msg = \<lparr>ce_code = code_text, ce_message = msg, ce_poid_code = None\<rparr>"

definition of_poid_error :: "(poid_error \<Rightarrow> string) \<Rightarrow> poid_error \<Rightarrow> cmd_error" where
  "of_poid_error to_string e =
     \<lparr>ce_code = code e, ce_message = to_string e, ce_poid_code = conformance_code e\<rparr>"

definition of_io_error :: "string \<Rightarrow> cmd_error" where
  "of_io_error msg = \<lparr>ce_code = ''io'', ce_message = msg, ce_poid_code = None\<rparr>"

text \<open>\<open>Path::display\<close>.\<close>

definition display_path :: "path \<Rightarrow> string" where
  "display_path p = join_with CHR ''/'' p"

definition em_dash :: string where
  "em_dash = [CHR 0xE2, CHR 0x80, CHR 0x94]"

section \<open>Sizes\<close>

text \<open>\<open>value /= 1024.0\<close> until it is below 1024 or the units end: the unit and its divisor. The quotients are exact in
  floating point for sizes below \<open>2 ^ 53\<close>.\<close>

fun size_unit :: "nat \<Rightarrow> nat \<Rightarrow> string list \<Rightarrow> string \<times> nat" where
  "size_unit bytes d [] = ([], d)"
| "size_unit bytes d [u] = (u, d)"
| "size_unit bytes d (u # u' # us) = (if 1024 * d \<le> bytes then size_unit bytes (1024 * d) (u' # us) else (u, d))"

text \<open>The quotient in tenths, a half rounded to even (\<open>{:.1}\<close>).\<close>

definition tenths :: "nat \<Rightarrow> nat \<Rightarrow> nat" where
  "tenths n d =
     (let q = 10 * n div d; r = 10 * n mod d in if d < 2 * r \<or> (d = 2 * r \<and> odd q) then q + 1 else q)"

definition human_size :: "nat \<Rightarrow> string" where
  "human_size bytes =
     (let (unit, d) = size_unit bytes 1 [''B'', ''KiB'', ''MiB'', ''GiB'']
      in if d = 1 then show_nat bytes @ '' B''
         else show_nat (tenths bytes d div 10) @ ''.'' @ show_nat (tenths bytes d mod 10) @ '' '' @ unit)"

section \<open>Hexadecimal\<close>

definition hex_encode :: "byte list \<Rightarrow> string" where
  "hex_encode bytes = concat (map (\<lambda>b. [hex_char (unat b div 16), hex_char (unat b mod 16)]) bytes)"

definition hex_digit :: "char \<Rightarrow> nat option" where
  "hex_digit c =
     (let n = (of_char c :: nat) in
      if 48 \<le> n \<and> n \<le> 57 then Some (n - 48)
      else if 97 \<le> n \<and> n \<le> 102 then Some (n - 97 + 10)
      else None)"

fun hex_pairs :: "string \<Rightarrow> byte list option" where
  "hex_pairs (a # b # rest) =
     Option.bind (hex_digit a) (\<lambda>x. Option.bind (hex_digit b) (\<lambda>y.
       map_option (Cons (word_of_nat (x * 16 + y))) (hex_pairs rest)))"
| "hex_pairs _ = Some []"

definition hex_decode :: "string \<Rightarrow> byte list option" where
  "hex_decode s = (if odd (length s) then None else hex_pairs s)"

section \<open>Names\<close>

definition sanitize_label :: "(string \<Rightarrow> string) \<Rightarrow> string \<Rightarrow> string" where
  "sanitize_label to_lowercase name =
     (let cleaned = map (\<lambda>cp. if cp < 128 \<and> is_ascii_alphanumeric (char_of cp) then char_of cp else CHR ''-'')
            (chars_of (to_lowercase name));
          trimmed = rev (dropWhile (\<lambda>c. c = CHR ''-'') (rev (dropWhile (\<lambda>c. c = CHR ''-'') cleaned)))
      in if trimmed = [] then ''app'' else trimmed)"

definition capitalize :: "(string \<Rightarrow> string) \<Rightarrow> string \<Rightarrow> string" where
  "capitalize to_uppercase name =
     (case pieces name of [] \<Rightarrow> ''App'' | first # rest \<Rightarrow> to_uppercase first @ concat rest)"

section \<open>Round trip\<close>

lemma hex_digit_hex_char: "n < 16 \<Longrightarrow> hex_digit (hex_char n) = Some n"
  by (auto simp: hex_digit_def hex_char_def Let_def)

lemma hex_digit_bound: "hex_digit c = Some n \<Longrightarrow> n < 16 \<and> c = hex_char n"
proof -
  assume n: "hex_digit c = Some n"
  then have "n < 16" by (auto simp: hex_digit_def Let_def split: if_splits)
  moreover have "c = hex_char n"
    using n by (auto simp: hex_digit_def hex_char_def Let_def split: if_splits)
  ultimately show ?thesis by simp
qed

lemma hex_encode_text: "hex_encode bytes = hex_text bytes"
  unfolding hex_encode_def hex_text_def by (rule arg_cong [of _ _ concat]) (simp add: hex_byte_def)

lemma hex_pairs_text: "hex_pairs (hex_text bytes) = Some bytes"
proof (induction bytes)
  case (Cons b bytes)
  have "word_of_nat (unat b div 16 * 16 + unat b mod 16) = b" by (simp only: div_mult_mod_eq) simp
  with Cons byte_split [of b] show ?case by (simp add: hex_byte_def hex_digit_hex_char del: of_nat_add of_nat_mult)
qed simp

text \<open>Decoding inverts encoding, and accepts nothing else: no upper-case digits, no odd length.\<close>

lemma hex_decode_iff: "hex_decode s = Some bytes \<longleftrightarrow> s = hex_encode bytes"
proof
  assume d: "hex_decode s = Some bytes"
  then have "even (length s)" "hex_pairs s = Some bytes" by (auto simp: hex_decode_def split: if_splits)
  then show "s = hex_encode bytes"
  proof (induction s arbitrary: bytes rule: hex_pairs.induct)
    case (1 a b rest)
    then obtain x y bs where xy: "hex_digit a = Some x" "hex_digit b = Some y" "hex_pairs rest = Some bs"
      "bytes = word_of_nat (x * 16 + y) # bs" by (auto simp: bind_eq_Some_conv)
    have r: "rest = hex_encode bs" using 1 xy by simp
    have b: "x < 16" "y < 16" "a = hex_char x" "b = hex_char y" using xy(1,2) hex_digit_bound by blast+
    then have "x * 16 + y < 2 ^ 8" by simp
    then have "unat (word_of_nat (x * 16 + y) :: byte) = x * 16 + y" by (simp add: unat_of_nat take_bit_eq_mod del: of_nat_add of_nat_mult)
    with r b xy(4) show ?case by (simp add: hex_encode_def del: of_nat_add of_nat_mult)
  qed (auto simp: hex_encode_def)
next
  assume "s = hex_encode bytes"
  then show "hex_decode s = Some bytes"
    by (simp add: hex_decode_def hex_encode_text hex_pairs_text)
qed

end
