(* ===== verification/Cli_Project.thy ===== *)
theory Cli_Project
  imports Cli_Support Text_Replace Btree_Map "HOL-Library.List_Lexorder" "HOL-Library.Char_ord" "HOL-Library.Multiset"
begin

text \<open>
  \<open>poid-cli/src/project.rs\<close>: the files of a project directory, the bare imports of its sources, and the call
  of the bundler. A directory is a tree in the order the platform lists it; a name's \<open>to_string_lossy\<close>, the
  bundler and its process are parameters. What is collected is shown to be exactly what the rules
  pack, and what the import scan finds is characterised by the shape of the text.
\<close>

section \<open>The files of a directory\<close>

text \<open>A file that cannot be read, or a directory that cannot be listed, has no content.\<close>

datatype fs_node =
  FileNode "byte list option"
| DirNode "(string \<times> fs_node) list option"

record project_file =
  pf_rel :: string
  pf_content :: "byte list"

definition skip_dirs :: "string list" where
  "skip_dirs = [''node_modules'', ''target'', ''dist'']"

definition skip_root_files :: "string list" where
  "skip_root_files =
     [''package.json'', ''package-lock.json'', ''pnpm-lock.yaml'', ''yarn.lock'', ''tsconfig.json'',
      ''vite.config.ts'', ''vite.config.js'', ''eslint.config.js'', ''postcss.config.js'']"

text \<open>The components of the directory relative to the root, then its entries.\<close>

fun walk_dir :: "(string \<Rightarrow> string) \<Rightarrow> string list \<Rightarrow> (string \<times> fs_node) list \<Rightarrow> project_file list \<Rightarrow>
    cmd_error + project_file list"
and walk_entry :: "(string \<Rightarrow> string) \<Rightarrow> string list \<Rightarrow> string \<Rightarrow> fs_node \<Rightarrow> project_file list \<Rightarrow>
    cmd_error + project_file list" where
  "walk_dir lossy dir [] out = Inr out"
| "walk_dir lossy dir ((file_name, node) # rest) out =
     rbind (walk_entry lossy dir file_name node out) (\<lambda>out. walk_dir lossy dir rest out)"
| "walk_entry lossy dir file_name (DirNode entries) out =
     (let name = lossy file_name in
      if starts_with name ''.'' then Inr out
      else if name \<in> set skip_dirs then Inr out
      else case entries of
        None \<Rightarrow> Inl (of_io_error ''read_dir'')
      | Some es \<Rightarrow> walk_dir lossy (dir @ [file_name]) es out)"
| "walk_entry lossy dir file_name (FileNode content) out =
     (let name = lossy file_name; at_root = (dir = []) in
      if starts_with name ''.'' then Inr out
      else if name = ''poid.json'' \<and> at_root then Inr out
      else if at_root \<and> name \<in> set skip_root_files then Inr out
      else if ends_with name ''.poid'' then Inr out
      else case content of
        None \<Rightarrow> Inl (of_io_error ''read'')
      | Some c \<Rightarrow>
          Inr (out @ [\<lparr>pf_rel = join_with CHR ''/'' (map lossy (dir @ [file_name])), pf_content = c\<rparr>]))"

definition collect_files :: "(string \<Rightarrow> string) \<Rightarrow> (string \<times> fs_node) list option \<Rightarrow> cmd_error + project_file list" where
  "collect_files lossy entries =
     (case entries of
        None \<Rightarrow> Inl (of_io_error ''read_dir'')
      | Some es \<Rightarrow> rbind (walk_dir lossy [] es []) (\<lambda>out. Inr (sort_key pf_rel out)))"

section \<open>What is packable\<close>

text \<open>Every file of a tree with its components, and every directory that cannot be listed.\<close>

fun tree_files :: "(string \<times> fs_node) list \<Rightarrow> (string list \<times> byte list option) list" where
  "tree_files [] = []"
| "tree_files ((n, FileNode c) # rest) = ([n], c) # tree_files rest"
| "tree_files ((n, DirNode None) # rest) = tree_files rest"
| "tree_files ((n, DirNode (Some es)) # rest) = map (apfst (Cons n)) (tree_files es) @ tree_files rest"

fun tree_unlisted :: "(string \<times> fs_node) list \<Rightarrow> string list list" where
  "tree_unlisted [] = []"
| "tree_unlisted ((n, FileNode c) # rest) = tree_unlisted rest"
| "tree_unlisted ((n, DirNode None) # rest) = [n] # tree_unlisted rest"
| "tree_unlisted ((n, DirNode (Some es)) # rest) = map (Cons n) (tree_unlisted es) @ tree_unlisted rest"

text \<open>What is packed: no component starts with a dot, no directory is one of the skipped ones, and the file is
  neither a container nor one of the tooling files at the root.\<close>

definition entered :: "(string \<Rightarrow> string) \<Rightarrow> string list \<Rightarrow> bool" where
  "entered lossy p \<longleftrightarrow> (\<forall>n \<in> set p. \<not> starts_with (lossy n) ''.'' \<and> lossy n \<notin> set skip_dirs)"

definition packable :: "(string \<Rightarrow> string) \<Rightarrow> bool \<Rightarrow> string list \<Rightarrow> bool" where
  "packable lossy rooted p \<longleftrightarrow>
     entered lossy (butlast p) \<and> \<not> starts_with (lossy (last p)) ''.'' \<and> \<not> ends_with (lossy (last p)) ''.poid'' \<and>
     (rooted \<and> length p = 1 \<longrightarrow> lossy (last p) \<notin> set (''poid.json'' # skip_root_files))"

definition packed_files :: "(string \<Rightarrow> string) \<Rightarrow> string list \<Rightarrow> (string \<times> fs_node) list \<Rightarrow> project_file list" where
  "packed_files lossy dir es =
     map (\<lambda>(p, c). \<lparr>pf_rel = join_with CHR ''/'' (map lossy (dir @ p)), pf_content = the c\<rparr>)
       (filter (\<lambda>(p, c). packable lossy (dir = []) p) (tree_files es))"

definition all_readable :: "(string \<Rightarrow> string) \<Rightarrow> bool \<Rightarrow> (string \<times> fs_node) list \<Rightarrow> bool" where
  "all_readable lossy rooted es \<longleftrightarrow>
     (\<forall>(p, c) \<in> set (tree_files es). packable lossy rooted p \<longrightarrow> c \<noteq> None) \<and>
     (\<forall>p \<in> set (tree_unlisted es). \<not> entered lossy p)"

lemma tree_files_not_empty: "(p, c) \<in> set (tree_files es) \<Longrightarrow> p \<noteq> []"
  by (induction es arbitrary: p c rule: tree_files.induct) auto

lemma entered_Cons: "entered lossy (n # p) \<longleftrightarrow> \<not> starts_with (lossy n) ''.'' \<and> lossy n \<notin> set skip_dirs \<and> entered lossy p"
  by (auto simp: entered_def)

lemma packable_Cons:
  "p \<noteq> [] \<Longrightarrow> packable lossy rooted (n # p) \<longleftrightarrow>
     \<not> starts_with (lossy n) ''.'' \<and> lossy n \<notin> set skip_dirs \<and> packable lossy False p"
  by (auto simp: packable_def entered_Cons)

lemma packed_below:
  "packed_files lossy dir ((n, DirNode (Some es)) # rest) =
     (if starts_with (lossy n) ''.'' \<or> lossy n \<in> set skip_dirs then [] else packed_files lossy (dir @ [n]) es) @
     packed_files lossy dir rest"
proof -
  have "filter (\<lambda>(p, c). packable lossy rooted p) (map (apfst (Cons n)) (tree_files es)) =
      (if starts_with (lossy n) ''.'' \<or> lossy n \<in> set skip_dirs then []
       else map (apfst (Cons n)) (filter (\<lambda>(p, c). packable lossy False p) (tree_files es)))" for rooted
    unfolding filter_map
    by (auto simp: packable_Cons tree_files_not_empty filter_empty_conv intro!: arg_cong [of _ _ "map _"] filter_cong)
  then show ?thesis by (simp add: packed_files_def)
qed

lemma readable_below:
  "all_readable lossy rooted ((n, DirNode (Some es)) # rest) \<longleftrightarrow>
     (starts_with (lossy n) ''.'' \<or> lossy n \<in> set skip_dirs \<or> all_readable lossy False es) \<and> all_readable lossy rooted rest"
proof -
  have below: "packable lossy rooted (n # fst x) \<longleftrightarrow>
      \<not> starts_with (lossy n) ''.'' \<and> lossy n \<notin> set skip_dirs \<and> packable lossy False (fst x)"
    if "x \<in> set (tree_files es)" for x
    using that tree_files_not_empty [of "fst x" "snd x" es] by (simp add: packable_Cons)
  have files: "(\<forall>x \<in> set (map (apfst (Cons n)) (tree_files es)). packable lossy rooted (fst x) \<longrightarrow> snd x \<noteq> None) \<longleftrightarrow>
      starts_with (lossy n) ''.'' \<or> lossy n \<in> set skip_dirs \<or>
      (\<forall>x \<in> set (tree_files es). packable lossy False (fst x) \<longrightarrow> snd x \<noteq> None)"
    using below by auto
  have dirs: "(\<forall>p \<in> set (map (Cons n) (tree_unlisted es)). \<not> entered lossy p) \<longleftrightarrow>
      starts_with (lossy n) ''.'' \<or> lossy n \<in> set skip_dirs \<or> (\<forall>p \<in> set (tree_unlisted es). \<not> entered lossy p)"
    by (auto simp: entered_Cons)
  have "?thesis \<longleftrightarrow>
    ((\<forall>x \<in> set (map (apfst (Cons n)) (tree_files es)). packable lossy rooted (fst x) \<longrightarrow> snd x \<noteq> None) \<and>
     (\<forall>x \<in> set (tree_files rest). packable lossy rooted (fst x) \<longrightarrow> snd x \<noteq> None) \<and>
     (\<forall>p \<in> set (map (Cons n) (tree_unlisted es)). \<not> entered lossy p) \<and> (\<forall>p \<in> set (tree_unlisted rest). \<not> entered lossy p) \<longleftrightarrow>
     (starts_with (lossy n) ''.'' \<or> lossy n \<in> set skip_dirs \<or>
      (\<forall>x \<in> set (tree_files es). packable lossy False (fst x) \<longrightarrow> snd x \<noteq> None) \<and> (\<forall>p \<in> set (tree_unlisted es). \<not> entered lossy p)) \<and>
     (\<forall>x \<in> set (tree_files rest). packable lossy rooted (fst x) \<longrightarrow> snd x \<noteq> None) \<and> (\<forall>p \<in> set (tree_unlisted rest). \<not> entered lossy p))"
    unfolding all_readable_def tree_files.simps tree_unlisted.simps set_append ball_Un split_beta
    by (simp only: conj_ac)
  then show ?thesis unfolding files dirs by blast
qed

lemma tree_first:
  "tree_files (e # rest) = tree_files [e] @ tree_files rest"
  "tree_unlisted (e # rest) = tree_unlisted [e] @ tree_unlisted rest"
proof -
  obtain n node where e: "e = (n, node)" by (cases e)
  have "tree_files ((n, node) # rest) = tree_files [(n, node)] @ tree_files rest \<and>
      tree_unlisted ((n, node) # rest) = tree_unlisted [(n, node)] @ tree_unlisted rest"
  proof (cases node)
    case (DirNode es)
    then show ?thesis by (cases es) simp_all
  qed simp
  then show "tree_files (e # rest) = tree_files [e] @ tree_files rest"
    "tree_unlisted (e # rest) = tree_unlisted [e] @ tree_unlisted rest" by (simp_all only: e)
qed

text \<open>The walk.\<close>

lemma walk_exact:
  "walk_dir lossy dir es out = Inr out' \<longleftrightarrow> all_readable lossy (dir = []) es \<and> out' = out @ packed_files lossy dir es"
  "walk_entry lossy dir n node out = Inr out' \<longleftrightarrow>
     all_readable lossy (dir = []) [(n, node)] \<and> out' = out @ packed_files lossy dir [(n, node)]"
proof (induction lossy dir es out and lossy dir n node out arbitrary: out' and out' rule: walk_dir_walk_entry.induct)
  case (1 lossy dir out)
  show ?case by (auto simp: all_readable_def packed_files_def)
next
  case (2 lossy dir n node rest out)
  have split: "all_readable lossy (dir = []) ((n, node) # rest) \<longleftrightarrow>
      all_readable lossy (dir = []) [(n, node)] \<and> all_readable lossy (dir = []) rest"
    "packed_files lossy dir ((n, node) # rest) = packed_files lossy dir [(n, node)] @ packed_files lossy dir rest"
    using tree_first [of "(n, node)" rest]
    by (simp_all only: all_readable_def packed_files_def set_append ball_Un filter_append map_append conj_ac)
  let ?mid = "out @ packed_files lossy dir [(n, node)]"
  show ?case
  proof (cases "all_readable lossy (dir = []) [(n, node)]")
    case True
    then have mid: "walk_entry lossy dir n node out = Inr ?mid" unfolding 2(1) by simp
    show ?thesis unfolding split walk_dir.simps mid rbind_Inr 2(2) [OF mid] using True by auto
  next
    case False
    then have "walk_entry lossy dir n node out \<noteq> Inr mid" for mid unfolding 2(1) by simp
    with False show ?thesis unfolding split walk_dir.simps rbind_eq_Inr by blast
  qed
next
  case (3 lossy dir n entries out)
  show ?case
  proof (cases entries)
    case None
    then show ?thesis by (auto simp: Let_def all_readable_def packed_files_def entered_def)
  next
    case (Some es)
    have "tree_files [] = []" "tree_unlisted [] = []" by simp_all
    then have nil: "packed_files lossy dir [] = []" "all_readable lossy (dir = []) []"
      by (simp_all add: packed_files_def all_readable_def)
    show ?thesis
      using 3 Some by (auto simp: Let_def packed_below readable_below nil)
  qed
next
  case (4 lossy dir n content out)
  show ?case by (cases content) (auto simp: Let_def all_readable_def packed_files_def packable_def entered_def)
qed

text \<open>
  C24: Collecting a project succeeds exactly when every directory it enters can be listed and every file it
  packs can be read; it then returns exactly the packable files of the tree, each under its path
  from the root, ordered by that path: a name that starts with a dot is left out at every depth, a build
  or dependency directory with all below it, a \<open>.poid\<close> file anywhere, and the tooling files and the
  manifest only at the root.
\<close>

theorem collected_files_are_the_packable_ones:
  "collect_files lossy (Some es) = Inr fs \<longleftrightarrow>
     all_readable lossy True es \<and> fs = sort_key pf_rel (packed_files lossy [] es)"
  by (auto simp: collect_files_def result_simps walk_exact)

section \<open>Bare imports\<close>

text \<open>\<open>str::match_indices\<close>: the positions of the matches, not overlapping.\<close>

function match_indices :: "string \<Rightarrow> nat \<Rightarrow> string \<Rightarrow> nat list" where
  "match_indices pat i [] = []"
| "match_indices pat i (c # s) =
     (if pat \<noteq> [] \<and> starts_with (c # s) pat then i # match_indices pat (i + length pat) (drop (length pat) (c # s))
      else match_indices pat (Suc i) s)"
  by pat_completeness auto
termination
  by (relation "measure (\<lambda>(pat, i, s). length s)") auto

definition is_ascii_whitespace :: "char \<Rightarrow> bool" where
  "is_ascii_whitespace c \<longleftrightarrow> (of_char c :: nat) \<in> {9, 10, 12, 13, 32}"

definition is_quote :: "char \<Rightarrow> bool" where
  "is_quote c \<longleftrightarrow> c = CHR 0x22 \<or> c = CHR 0x27"

text \<open>The literal that follows the keyword at a position.\<close>

definition specifier_at :: "string \<Rightarrow> nat \<Rightarrow> string option" where
  "specifier_at source i =
     (let s = dropWhile is_ascii_alphabetic (drop i source);
          s = dropWhile (\<lambda>c. is_ascii_whitespace c \<or> c = CHR ''('') s
      in case s of
           [] \<Rightarrow> None
         | q # rest \<Rightarrow>
             if is_quote q then map_option (\<lambda>n. take n rest) (find_str [q] rest) else None)"

definition import_specifiers :: "string \<Rightarrow> string list" where
  "import_specifiers source =
     List.map_filter (specifier_at source)
       (sort (match_indices ''from'' 0 source @ match_indices ''import'' 0 source))"

definition is_module_source :: "string \<Rightarrow> bool" where
  "is_module_source rel = list_ex (ends_with rel) [''.js'', ''.mjs'', ''.ts'', ''.tsx'', ''.jsx'']"

definition is_bare :: "string \<Rightarrow> bool" where
  "is_bare spec \<longleftrightarrow>
     (let relative = starts_with spec ''./'' \<or> starts_with spec ''../'';
          url = contains spec ''://'' \<or> starts_with spec ''data:''
      in \<not> relative \<and> \<not> url \<and> \<not> starts_with spec ''/'' \<and> spec \<noteq> [])"

text \<open>The set of all files' bare specifiers, as the ordered set it is.\<close>

definition bare_imports :: "project_file list \<Rightarrow> (string, unit) btree" where
  "bare_imports files =
     fold (\<lambda>file found.
       if \<not> is_module_source (pf_rel file) then found
       else case from_utf8 (pf_content file) of
         None \<Rightarrow> found
       | Some source \<Rightarrow>
           fold (\<lambda>spec found. if is_bare spec then bt_insert spec () found else found)
             (import_specifiers source) found)
       files []"

text \<open>An import as the scan reads it: a keyword, the letters that continue it, blanks and opening parentheses,
  and a literal in one kind of quotes.\<close>

definition imports_at :: "string \<Rightarrow> string \<Rightarrow> bool" where
  "imports_at source spec \<longleftrightarrow>
     (\<exists>pre kw letters blanks q post.
        source = pre @ kw @ letters @ blanks @ q # spec @ q # post \<and> kw \<in> {''from'', ''import''} \<and>
        list_all is_ascii_alphabetic letters \<and> list_all (\<lambda>c. is_ascii_whitespace c \<or> c = CHR ''('') blanks \<and>
        is_quote q \<and> q \<notin> set spec)"

lemma match_indices_exact:
  assumes "pat \<noteq> []" "hd pat \<notin> set (tl pat)"
  shows "j \<in> set (match_indices pat i s) \<longleftrightarrow> (\<exists>k. j = i + k \<and> starts_with (drop k s) pat)"
  using assms
proof (induction pat i s arbitrary: j rule: match_indices.induct)
  case (1 pat i)
  have "\<not> starts_with [] pat" using 1(1) by (simp add: starts_with_iff)
  then show ?case by simp
next
  case (2 pat i c s)
  show ?case
  proof (cases "starts_with (c # s) pat")
    case True
    then obtain r where r: "c # s = pat @ r" unfolding starts_with_iff by blast
    have inner: "\<not> starts_with (drop k (c # s)) pat" if "0 < k" "k < length pat" for k
    proof
      assume "starts_with (drop k (c # s)) pat"
      then obtain r' where r': "drop k (pat @ r) = pat @ r'" unfolding starts_with_iff r by blast
      have "hd (drop k (pat @ r)) = pat ! k" using that by (simp add: hd_append hd_drop_conv_nth)
      moreover have "hd (pat @ r') = hd pat" using 2(3) by simp
      moreover have "pat ! k \<in> set (tl pat)" using that by (cases pat) (auto simp: nth_Cons')
      ultimately show False using r' 2(4) by simp
    qed
    have IH: "j \<in> set (match_indices pat (i + length pat) (drop (length pat) (c # s))) \<longleftrightarrow>
        (\<exists>k. j = i + length pat + k \<and> starts_with (drop k (drop (length pat) (c # s))) pat)"
      using 2(1) True 2(3,4) by blast
    have "(\<exists>k. j = i + k \<and> starts_with (drop k (c # s)) pat) \<longleftrightarrow>
        j = i \<or> (\<exists>k. j = i + length pat + k \<and> starts_with (drop (length pat + k) (c # s)) pat)"
    proof
      assume "\<exists>k. j = i + k \<and> starts_with (drop k (c # s)) pat"
      then obtain k where k: "j = i + k" "starts_with (drop k (c # s)) pat" by blast
      show "j = i \<or> (\<exists>k. j = i + length pat + k \<and> starts_with (drop (length pat + k) (c # s)) pat)"
      proof (cases "k = 0 \<or> length pat \<le> k")
        case True
        then show ?thesis using k by (auto simp: le_iff_add)
      next
        case False
        with inner [of k] k show ?thesis by simp
      qed
    next
      assume "j = i \<or> (\<exists>k. j = i + length pat + k \<and> starts_with (drop (length pat + k) (c # s)) pat)"
      then show "\<exists>k. j = i + k \<and> starts_with (drop k (c # s)) pat"
      proof
        assume "j = i"
        with True have "j = i + 0 \<and> starts_with (drop 0 (c # s)) pat" by simp
        then show ?thesis by blast
      qed (metis add.assoc)
    qed
    with IH 2(3) True show ?thesis by (simp add: add.commute)
  next
    case False
    have IH: "j \<in> set (match_indices pat (Suc i) s) \<longleftrightarrow> (\<exists>k. j = Suc i + k \<and> starts_with (drop k s) pat)"
      using 2(2) False 2(3,4) by blast
    have "(\<exists>k. j = i + k \<and> starts_with (drop k (c # s)) pat) \<longleftrightarrow> (\<exists>k. j = i + Suc k \<and> starts_with (drop k s) pat)"
      using False by (metis drop0 drop_Suc_Cons not0_implies_Suc)
    with IH False show ?thesis by simp
  qed
qed

lemma find_char: "find_str [q] s = (if q \<in> set s then Some (length (takeWhile (\<lambda>c. c \<noteq> q) s)) else None)"
  by (induction s) auto

lemma dropWhile_eq_iff:
  "dropWhile P s = c # rest \<longleftrightarrow> (\<exists>ls. s = ls @ c # rest \<and> list_all P ls \<and> \<not> P c)"
proof
  assume d: "dropWhile P s = c # rest"
  then have "s = takeWhile P s @ c # rest" by (metis takeWhile_dropWhile_id)
  moreover have "\<not> P c" using d by (metis hd_dropWhile list.distinct(1) list.sel(1))
  ultimately show "\<exists>ls. s = ls @ c # rest \<and> list_all P ls \<and> \<not> P c"
    by (metis list_all_iff set_takeWhileD)
next
  assume "\<exists>ls. s = ls @ c # rest \<and> list_all P ls \<and> \<not> P c"
  then show "dropWhile P s = c # rest" by (auto simp: list_all_iff dropWhile_append2)
qed

lemma literal_iff:
  "map_option (\<lambda>n. take n rest) (find_str [q] rest) = Some spec \<longleftrightarrow>
     (\<exists>post. rest = spec @ q # post \<and> q \<notin> set spec)"
proof -
  have "take (length (takeWhile P rest)) rest = takeWhile P rest" for P
    by (metis append_eq_conv_conj takeWhile_dropWhile_id)
  then have "map_option (\<lambda>n. take n rest) (find_str [q] rest) = Some spec \<longleftrightarrow>
      q \<in> set rest \<and> takeWhile (\<lambda>c. c \<noteq> q) rest = spec"
    by (simp add: find_char)
  moreover have upto_quote: "takeWhile (\<lambda>c. c \<noteq> q) (ys @ q # zs) = ys" if "q \<notin> set ys" for ys zs
    using that by (induction ys) auto
  moreover have "q \<in> set rest \<and> takeWhile (\<lambda>c. c \<noteq> q) rest = spec \<longleftrightarrow> (\<exists>post. rest = spec @ q # post \<and> q \<notin> set spec)"
  proof
    assume a: "q \<in> set rest \<and> takeWhile (\<lambda>c. c \<noteq> q) rest = spec"
    then obtain ys zs where ys: "rest = ys @ q # zs" "q \<notin> set ys" by (metis split_list_first)
    with a upto_quote [OF ys(2)] have "spec = ys" by simp
    with ys show "\<exists>post. rest = spec @ q # post \<and> q \<notin> set spec" by blast
  next
    assume "\<exists>post. rest = spec @ q # post \<and> q \<notin> set spec"
    with upto_quote show "q \<in> set rest \<and> takeWhile (\<lambda>c. c \<noteq> q) rest = spec" by auto
  qed
  ultimately show ?thesis by (simp only:)
qed


lemma in_map_filter: "x \<in> set (List.map_filter f xs) \<longleftrightarrow> (\<exists>y \<in> set xs. f y = Some x)"
  by (induction xs) (auto simp: map_filter_simps split: option.splits)

lemma specifier_at_iff:
  assumes "list_all is_ascii_alphabetic kw"
  shows "specifier_at (pre @ kw @ rest) (length pre) = Some spec \<longleftrightarrow>
    (\<exists>letters blanks q post. rest = letters @ blanks @ q # spec @ q # post \<and> list_all is_ascii_alphabetic letters \<and>
       list_all (\<lambda>c. is_ascii_whitespace c \<or> c = CHR ''('') blanks \<and> is_quote q \<and> q \<notin> set spec)"
    (is "_ \<longleftrightarrow> ?import")
proof -
  let ?blank = "\<lambda>c. is_ascii_whitespace c \<or> c = CHR ''(''"
  have kw: "dropWhile is_ascii_alphabetic (kw @ rest) = dropWhile is_ascii_alphabetic rest"
    using assms by (simp add: dropWhile_append2 list_all_iff)
  have apart: "\<not> is_ascii_alphabetic c" if "?blank c \<or> is_quote c" for c
    using that by (auto simp: is_ascii_whitespace_def is_quote_def is_ascii_alphabetic_def is_ascii_lowercase_def is_ascii_uppercase_def)
  have quote: "\<not> ?blank q" if "is_quote q" for q
    using that by (auto simp: is_ascii_whitespace_def is_quote_def)
  have "specifier_at (pre @ kw @ rest) (length pre) = Some spec \<longleftrightarrow>
    (\<exists>q r. dropWhile ?blank (dropWhile is_ascii_alphabetic rest) = q # r \<and> is_quote q \<and>
       (\<exists>post. r = spec @ q # post \<and> q \<notin> set spec))"
  proof -
    define d where "d = dropWhile ?blank (dropWhile is_ascii_alphabetic rest)"
    have sp: "specifier_at (pre @ kw @ rest) (length pre) = (case d of [] \<Rightarrow> None
        | q # r \<Rightarrow> if is_quote q then map_option (\<lambda>n. take n r) (find_str [q] r) else None)"
      by (simp add: specifier_at_def kw Let_def d_def)
    show ?thesis unfolding d_def [symmetric]
    proof (cases d)
      case Nil
      then show "specifier_at (pre @ kw @ rest) (length pre) = Some spec \<longleftrightarrow>
          (\<exists>q r. d = q # r \<and> is_quote q \<and> (\<exists>post. r = spec @ q # post \<and> q \<notin> set spec))" by (simp add: sp)
    next
      case (Cons q r)
      then have "specifier_at (pre @ kw @ rest) (length pre) = Some spec \<longleftrightarrow>
          is_quote q \<and> (\<exists>post. r = spec @ q # post \<and> q \<notin> set spec)"
        unfolding literal_iff [symmetric] by (simp add: sp)
      with Cons show "specifier_at (pre @ kw @ rest) (length pre) = Some spec \<longleftrightarrow>
          (\<exists>q r. d = q # r \<and> is_quote q \<and> (\<exists>post. r = spec @ q # post \<and> q \<notin> set spec))" by simp
    qed
  qed
  also have "\<dots> \<longleftrightarrow> ?import"
  proof
    assume "\<exists>q r. dropWhile ?blank (dropWhile is_ascii_alphabetic rest) = q # r \<and> is_quote q \<and>
       (\<exists>post. r = spec @ q # post \<and> q \<notin> set spec)"
    then obtain q post where d: "dropWhile ?blank (dropWhile is_ascii_alphabetic rest) = q # spec @ q # post"
      and q: "is_quote q" "q \<notin> set spec" by blast
    from d obtain blanks where b: "dropWhile is_ascii_alphabetic rest = blanks @ q # spec @ q # post" "list_all ?blank blanks"
      unfolding dropWhile_eq_iff by blast
    have "rest = takeWhile is_ascii_alphabetic rest @ blanks @ q # spec @ q # post" by (metis b(1) takeWhile_dropWhile_id)
    moreover have "list_all is_ascii_alphabetic (takeWhile is_ascii_alphabetic rest)"
      unfolding list_all_iff by (intro ballI) (drule set_takeWhileD, erule conjunct2)
    ultimately show ?import using b(2) q by blast
  next
    assume ?import
    then obtain letters blanks q post where r: "rest = letters @ blanks @ q # spec @ q # post"
      and l: "list_all is_ascii_alphabetic letters" and b: "list_all ?blank blanks" and q: "is_quote q" "q \<notin> set spec"
      by blast
    have "dropWhile is_ascii_alphabetic (blanks @ q # spec @ q # post) = blanks @ q # spec @ q # post"
      using apart b q by (cases blanks) auto
    then have "dropWhile is_ascii_alphabetic rest = blanks @ q # spec @ q # post"
      using l by (simp add: r dropWhile_append2 list_all_iff)
    moreover have "dropWhile ?blank (blanks @ q # spec @ q # post) = q # spec @ q # post"
      unfolding dropWhile_eq_iff using b quote [OF q(1)] by (intro exI [of _ blanks] conjI refl)
    ultimately show "\<exists>q r. dropWhile ?blank (dropWhile is_ascii_alphabetic rest) = q # r \<and> is_quote q \<and>
       (\<exists>post. r = spec @ q # post \<and> q \<notin> set spec)"
      using q by (intro exI [of _ q] exI [of _ "spec @ q # post"] exI [of _ post] conjI refl) simp_all
  qed
  finally show ?thesis .
qed

text \<open>
  The scan finds a specifier exactly when the text has, somewhere, one of the two keywords, letters that
  continue it, blanks and opening parentheses in any number, and then the specifier in one kind of quotes.
  Nothing else about the place matters: comments and strings are read like code, and a statement
  that puts anything else before its literal is missed.
\<close>

theorem import_scan_exact: "spec \<in> set (import_specifiers source) \<longleftrightarrow> imports_at source spec"
proof -
  have hit: "i \<in> set (match_indices kw 0 source) \<longleftrightarrow> (\<exists>pre rest. source = pre @ kw @ rest \<and> length pre = i)"
    if "kw \<in> {''from'', ''import''}" for kw i
  proof -
    have "kw \<noteq> []" "hd kw \<notin> set (tl kw)" using that by auto
    then have "i \<in> set (match_indices kw 0 source) \<longleftrightarrow> starts_with (drop i source) kw" by (simp add: match_indices_exact)
    also have "\<dots> \<longleftrightarrow> (\<exists>pre rest. source = pre @ kw @ rest \<and> length pre = i)"
    proof
      assume "starts_with (drop i source) kw"
      then obtain rest where r: "drop i source = kw @ rest" unfolding starts_with_iff by blast
      with \<open>kw \<noteq> []\<close> have "i < length source" by (metis append_is_Nil_conv drop_all not_less)
      with r have "source = take i source @ kw @ rest" "length (take i source) = i" by (metis append_take_drop_id, simp)
      then show "\<exists>pre rest. source = pre @ kw @ rest \<and> length pre = i" by blast
    next
      assume "\<exists>pre rest. source = pre @ kw @ rest \<and> length pre = i"
      then show "starts_with (drop i source) kw" by auto
    qed
    finally show ?thesis .
  qed
  have letters: "list_all is_ascii_alphabetic kw" if "kw \<in> {''from'', ''import''}" for kw
    using that by (auto simp: is_ascii_alphabetic_def is_ascii_lowercase_def is_ascii_uppercase_def)
  have "spec \<in> set (import_specifiers source) \<longleftrightarrow>
      (\<exists>kw \<in> {''from'', ''import''}. \<exists>i \<in> set (match_indices kw 0 source). specifier_at source i = Some spec)"
    by (auto simp: import_specifiers_def in_map_filter)
  also have "\<dots> \<longleftrightarrow> (\<exists>kw \<in> {''from'', ''import''}. \<exists>pre rest. source = pre @ kw @ rest \<and>
      specifier_at (pre @ kw @ rest) (length pre) = Some spec)"
    using hit by (metis (no_types, lifting))
  also have "\<dots> \<longleftrightarrow> imports_at source spec"
  proof
    assume "\<exists>kw \<in> {''from'', ''import''}. \<exists>pre rest. source = pre @ kw @ rest \<and>
      specifier_at (pre @ kw @ rest) (length pre) = Some spec"
    then obtain kw pre rest where kw: "kw \<in> {''from'', ''import''}" "source = pre @ kw @ rest"
      "specifier_at (pre @ kw @ rest) (length pre) = Some spec" by blast
    from kw(3) [unfolded specifier_at_iff [OF letters [OF kw(1)]]] obtain letters blanks q post
      where rest: "rest = letters @ blanks @ q # spec @ q # post" and l: "list_all is_ascii_alphabetic letters"
        and b: "list_all (\<lambda>c. is_ascii_whitespace c \<or> c = CHR ''('') blanks" and q: "is_quote q" "q \<notin> set spec"
      by (elim exE conjE)
    show "imports_at source spec" unfolding imports_at_def kw(2) rest using kw(1) l b q
      by (intro exI conjI) (rule refl, assumption+)
  next
    assume "imports_at source spec"
    then obtain pre kw letters blanks q post where src: "source = pre @ kw @ letters @ blanks @ q # spec @ q # post"
      and kw: "kw \<in> {''from'', ''import''}" and l: "list_all is_ascii_alphabetic letters"
      and b: "list_all (\<lambda>c. is_ascii_whitespace c \<or> c = CHR ''('') blanks" and q: "is_quote q" "q \<notin> set spec"
      unfolding imports_at_def by (elim exE conjE)
    let ?rest = "letters @ blanks @ q # spec @ q # post"
    have "specifier_at (pre @ kw @ ?rest) (length pre) = Some spec"
      unfolding specifier_at_iff [OF letters [OF kw]] using l b q by (intro exI conjI) (rule refl, assumption+)
    with kw src show "\<exists>kw \<in> {''from'', ''import''}. \<exists>pre rest. source = pre @ kw @ rest \<and>
      specifier_at (pre @ kw @ rest) (length pre) = Some spec" by blast
  qed
  finally show ?thesis .
qed


section \<open>The bundler\<close>

record build_contract =
  bc_esbuild :: string
  bc_format :: string
  bc_platform :: string
  bc_target :: string
  bc_charset :: string
  bc_legal_comments :: string
  bc_jsx :: string
  bc_minify :: bool
  bc_entry_name :: string
  bc_define :: "(string, string) btree"
  bc_loader :: "(string, string) btree"

text \<open>The contract compiled into the tool (\<open>packages/poid-toolchain/src/build-contract.json\<close>), its maps in
  order.\<close>

definition the_contract :: build_contract where
  "the_contract =
     \<lparr>bc_esbuild = ''0.25.12'', bc_format = ''esm'', bc_platform = ''browser'', bc_target = ''es2022'',
      bc_charset = ''utf8'', bc_legal_comments = ''none'', bc_jsx = ''automatic'', bc_minify = True,
      bc_entry_name = ''main'',
      bc_define = [(''process.env.NODE_ENV'', [CHR 0x22] @ ''production'' @ [CHR 0x22])],
      bc_loader =
        [(''.avif'', ''dataurl''), (''.csv'', ''text''), (''.gif'', ''dataurl''), (''.ico'', ''dataurl''),
         (''.jpeg'', ''dataurl''), (''.jpg'', ''dataurl''), (''.md'', ''text''), (''.mp3'', ''dataurl''),
         (''.otf'', ''dataurl''), (''.png'', ''dataurl''), (''.svg'', ''dataurl''), (''.ttf'', ''dataurl''),
         (''.txt'', ''text''), (''.wav'', ''dataurl''), (''.webp'', ''dataurl''), (''.woff'', ''dataurl''),
         (''.woff2'', ''dataurl'')]\<rparr>"

definition contract_flags :: "build_contract \<Rightarrow> string list" where
  "contract_flags c =
     [''--bundle'', ''--format='' @ bc_format c, ''--platform='' @ bc_platform c, ''--target='' @ bc_target c,
      ''--charset='' @ bc_charset c, ''--legal-comments='' @ bc_legal_comments c, ''--jsx='' @ bc_jsx c] @
     (if bc_minify c then [''--minify''] else []) @ [''--entry-names='' @ bc_entry_name c] @
     map (\<lambda>(key, v). ''--define:'' @ key @ ''='' @ v) (bc_define c) @
     map (\<lambda>(ext, loader). ''--loader:'' @ ext @ ''='' @ loader) (bc_loader c)"

text \<open>What the tool asks of the platform: whether a file is there, the version a bundler prints, and a run of it
  in a directory of staged files, which gives whether it succeeded, what it printed and the files it wrote.\<close>

record esbuild_process =
  eb_is_file :: "path \<Rightarrow> bool"
  eb_version_output :: "path \<Rightarrow> string + string"
  eb_run :: "path \<Rightarrow> (string \<rightharpoonup> byte list) \<Rightarrow> string list \<Rightarrow> string + (bool \<times> string \<times> (string \<rightharpoonup> byte list))"
  eb_env :: "path option"
  eb_exe_dir :: "path option"
  eb_exe_name :: string
  eb_out_dir :: string
  eb_stage_fails :: bool

record esbuild =
  es_exe :: path
  es_version :: string

definition esbuild_candidate :: "esbuild_process \<Rightarrow> path" where
  "esbuild_candidate B =
     (case eb_env B of
        Some (c # p) \<Rightarrow> c # p
      | _ \<Rightarrow> (case eb_exe_dir B of Some p \<Rightarrow> p | None \<Rightarrow> [''.'']) @ [eb_exe_name B])"

definition find_esbuild :: "esbuild_process \<Rightarrow> cmd_error + esbuild" where
  "find_esbuild B =
     (let candidate = esbuild_candidate B in
      if \<not> eb_is_file B candidate then
        Inl (cli_err ''esbuild-missing''
          (''this project needs bundling (TypeScript/JSX sources), but no esbuild sidecar was found at `'' @
           display_path candidate @
           ''`. Place the native esbuild binary next to `poid`, or point the POID_ESBUILD environment '' @
           ''variable at it. Nothing is ever downloaded silently.''))
      else rbind (map_err (\<lambda>e. cli_err ''esbuild-missing'' (''cannot run esbuild: '' @ e)) (eb_version_output B candidate))
        (\<lambda>stdout.
          let version = trim stdout; pinned = bc_esbuild the_contract in
          if version = [] then Inl (cli_err ''esbuild-missing'' ''esbuild --version produced no output'')
          else if version \<noteq> pinned then
            Inl (cli_err ''esbuild-version-mismatch''
              (''the esbuild sidecar reports '' @ version @ '', but the build contract pins '' @ pinned @
               ''. Builds must be reproducible, so the versions have to match exactly '' @ [CHR 0xE2, CHR 0x80, CHR 0x94] @
               '' install esbuild '' @ pinned @ '' and point POID_ESBUILD at it.''))
          else Inr \<lparr>es_exe = candidate, es_version = version\<rparr>))"

record bundled =
  bd_js :: "byte list"
  bd_css :: "byte list option"

definition staged_files :: "project_file list \<Rightarrow> string \<rightharpoonup> byte list" where
  "staged_files files = fold (\<lambda>f m. m(pf_rel f \<mapsto> pf_content f)) files Map.empty"

definition bundle_args :: "esbuild_process \<Rightarrow> string \<Rightarrow> (string \<times> path) list \<Rightarrow> string list" where
  "bundle_args B entry_file aliases =
     [entry_file] @ contract_flags the_contract @
     map (\<lambda>(specifier, path). ''--alias:'' @ specifier @ ''='' @ display_path path) aliases @
     [''--outdir='' @ eb_out_dir B]"

definition bundle_staged ::
  "esbuild_process \<Rightarrow> project_file list \<Rightarrow> string \<Rightarrow> (string \<times> path) list \<Rightarrow> esbuild \<Rightarrow> cmd_error + bundled" where
  "bundle_staged B files entry_file aliases eb =
     (if eb_stage_fails B then Inl (of_io_error ''stage'')
      else rbind (map_err (\<lambda>e. cli_err ''build-failed'' (''cannot run esbuild: '' @ e))
        (eb_run B (es_exe eb) (staged_files files) (bundle_args B entry_file aliases)))
        (\<lambda>(success, stderr, out).
          if \<not> success then Inl (cli_err ''build-failed'' (''esbuild failed:'' @ [CHR 0x0A] @ trim stderr))
          else case out (bc_entry_name the_contract @ ''.js'') of
            None \<Rightarrow> Inl (of_io_error ''read'')
          | Some js \<Rightarrow> Inr \<lparr>bd_js = js, bd_css = out (bc_entry_name the_contract @ ''.css'')\<rparr>))"

text \<open>Only the pinned version is ever run.\<close>

lemma find_esbuild_pinned:
  "find_esbuild B = Inr eb \<Longrightarrow> es_version eb = bc_esbuild the_contract \<and> es_exe eb = esbuild_candidate B"
  by (auto simp: find_esbuild_def Let_def result_simps split: if_splits)

text \<open>The result depends on the staged files, not on where or in which order the project's files lie.\<close>

lemma staged_files_set:
  "distinct (map pf_rel files) \<Longrightarrow> staged_files files = map_of (map (\<lambda>f. (pf_rel f, pf_content f)) files)"
proof -
  have staged: "fold (\<lambda>f m. m(pf_rel f \<mapsto> pf_content f)) files m = m ++ map_of (map (\<lambda>f. (pf_rel f, pf_content f)) files)"
    if "distinct (map pf_rel files)" for files and m :: "string \<rightharpoonup> byte list"
    using that
  proof (induction files arbitrary: m)
    case (Cons f files)
    have "map_of (map (\<lambda>f. (pf_rel f, pf_content f)) files) (pf_rel f) = None"
      using Cons.prems by (auto simp: map_of_eq_None_iff image_iff)
    then show ?case using Cons by (auto simp: map_add_def fun_eq_iff split: option.split)
  qed simp
  show ?thesis if "distinct (map pf_rel files)"
    using staged [OF that, of Map.empty] by (simp add: staged_files_def)
qed

end
