(* ===== verification/Cli_Stdlib.thy ===== *)
theory Cli_Stdlib
  imports Cli_Support Btree_Map "HOL-Library.List_Lexorder" "HOL-Library.Char_ord"
begin

text \<open>
  \<open>poid-cli/src/stdlib.rs\<close>: bare imports resolved against the catalog compiled into the tool. The catalog (a
  JSON file of another package) is a parameter. The work list of the resolution is shown to compute the
  closure of the requests under the catalog's externals, whatever the order.
\<close>

section \<open>The catalog\<close>

record catalog_specifier =
  sp_externals :: "string list"
  sp_sha256 :: string

record catalog_package =
  pk_version :: string
  pk_specifiers :: "(string, catalog_specifier) btree"

record catalog =
  ct_packages :: "(string, catalog_package) btree"
  ct_excluded :: "(string, string) btree"

record selection =
  sl_specifier :: string
  sl_record :: string
  sl_rel :: string
  sl_sha256 :: string

record resolution =
  rs_selected :: "selection list"
  rs_missing :: "string list"
  rs_exclusions :: "(string \<times> string) list"

text \<open>The record, the checksum and the externals of a specifier.\<close>

type_synonym specifier_map = "(string, string \<times> string \<times> string list) btree"

definition by_specifier :: "catalog \<Rightarrow> specifier_map" where
  "by_specifier C =
     fold (\<lambda>(pkg, entry) m.
       fold (\<lambda>(specifier, spec) m.
           bt_insert specifier (pkg @ ''@'' @ pk_version entry, sp_sha256 spec, sp_externals spec) m)
         (pk_specifiers entry) m)
       (ct_packages C) []"

section \<open>Resolving\<close>

definition select_name :: "string \<Rightarrow> string \<times> string \<times> string list \<Rightarrow> selection" where
  "select_name name e = (case e of (record_text, sha, _) \<Rightarrow>
     \<lparr>sl_specifier = name, sl_record = record_text, sl_rel = name @ ''.js'', sl_sha256 = sha\<rparr>)"

lemma fst_bt_insert: "fst ` set (bt_insert k v m) = insert k (fst ` set m)"
  by (induction m) auto

text \<open>The queue is popped at its end.\<close>

function resolve_queue ::
  "specifier_map \<Rightarrow> string list \<Rightarrow> (string, selection) btree \<Rightarrow> string list \<Rightarrow> (string, selection) btree \<times> string list" where
  "resolve_queue M queue selected missing =
     (if queue = [] then (selected, missing)
      else let name = last queue; queue = butlast queue in
        if bt_contains selected name \<or> name \<in> set missing then resolve_queue M queue selected missing
        else case bt_get M name of
          Some e \<Rightarrow> resolve_queue M (queue @ snd (snd e)) (bt_insert name (select_name name e) selected) missing
        | None \<Rightarrow> resolve_queue M queue selected (missing @ [name]))"
  by pat_completeness auto

termination
proof (relation "measures [\<lambda>(M, queue, selected, missing). card (fst ` set M - fst ` set selected),
    \<lambda>(M, queue, selected, missing). length queue]"; (intro wf_measures)?)
  fix M :: specifier_map and queue missing queue' :: "string list" and selected :: "(string, selection) btree" and name e
  assume "queue \<noteq> []" "name = last queue" "queue' = butlast queue"
    "\<not> (bt_contains selected name \<or> name \<in> set missing)" "bt_get M name = Some e"
  then have "name \<in> fst ` set M" "name \<notin> fst ` set selected"
    using bt_get_Some_set [of M name e] by (force, simp add: bt_contains_iff)
  then have "card (fst ` set M - insert name (fst ` set selected)) < card (fst ` set M - fst ` set selected)"
    by (intro psubset_card_mono) auto
  then show "((M, queue' @ snd (snd e), bt_insert name (select_name name e) selected, missing),
      M, queue, selected, missing) \<in> measures [\<lambda>(M, queue, selected, missing). card (fst ` set M - fst ` set selected),
        \<lambda>(M, queue, selected, missing). length queue]"
    by (simp add: fst_bt_insert)
qed auto

declare resolve_queue.simps [simp del]

definition package_of :: "string \<Rightarrow> string" where
  "package_of name = (case split_on CHR ''/'' name of [] \<Rightarrow> name | p # _ \<Rightarrow> p)"

definition resolve_imports :: "catalog \<Rightarrow> string list \<Rightarrow> resolution" where
  "resolve_imports C bare =
     (let (selected, missing) = resolve_queue (by_specifier C) bare [] [];
          missing = sort missing
      in \<lparr>rs_selected = map snd selected, rs_missing = missing,
          rs_exclusions = List.map_filter
            (\<lambda>m. map_option (Pair m) (bt_get (ct_excluded C) (package_of m))) missing\<rparr>)"

section \<open>Loading\<close>

text \<open>The library directory: the environment's, else beside the executable.\<close>

definition locate_dir :: "path option \<Rightarrow> path option \<Rightarrow> (path \<Rightarrow> bool) \<Rightarrow> cmd_error + path" where
  "locate_dir env_dir exe_dir is_dir =
     (let candidate = (case env_dir of
            Some (c # p) \<Rightarrow> c # p
          | _ \<Rightarrow> (case exe_dir of Some p \<Rightarrow> p | None \<Rightarrow> [''.'']) @ [''stdlib''])
      in if \<not> is_dir candidate then
           Inl (cli_err ''stdlib-missing''
             (''this project imports Standard Library packages, but no library was found at `'' @ display_path candidate @
              ''`. Point the POID_STDLIB environment variable at a built library '' @
              ''(pnpm --filter @poid/stdlib build:lib produces one in packages/poid-stdlib/lib). '' @
              ''Nothing is ever downloaded silently.''))
         else Inr candidate)"

definition load_verified ::
  "(byte list \<Rightarrow> byte list) \<Rightarrow> (path \<Rightarrow> byte list option) \<Rightarrow> path \<Rightarrow> selection \<Rightarrow> cmd_error + path" where
  "load_verified sha read_file dir s =
     (let path = dir @ split_on CHR ''/'' (sl_rel s) in
      case read_file path of
        None \<Rightarrow>
          Inl (cli_err ''stdlib-incomplete''
            (''the Standard Library at `'' @ display_path dir @ ''` has no `'' @ sl_rel s @ ''` '' @ em_dash @
             '' rebuild it (pnpm --filter @poid/stdlib build:lib)''))
      | Some content \<Rightarrow>
          if hex_text (sha content) \<noteq> sl_sha256 s then
            Inl (cli_err ''stdlib-checksum-mismatch''
              (''`'' @ sl_rel s @ ''` does not match the catalog checksum this CLI was built with; the library '' @
               ''on disk is stale or tampered '' @ em_dash @ '' rebuild it from the catalog''))
          else Inr path)"

section \<open>The closure\<close>

text \<open>What the requests need: themselves and the externals of what is needed.\<close>

inductive needed :: "specifier_map \<Rightarrow> string list \<Rightarrow> string \<Rightarrow> bool" for M bare where
  requested: "x \<in> set bare \<Longrightarrow> needed M bare x"
| external: "needed M bare x \<Longrightarrow> bt_get M x = Some e \<Longrightarrow> y \<in> set (snd (snd e)) \<Longrightarrow> needed M bare y"

text \<open>The state of the work list: what is done is needed and served from the catalog, and everything needed
  next is done or queued.\<close>

definition queue_ok ::
  "specifier_map \<Rightarrow> string list \<Rightarrow> string list \<Rightarrow> (string, selection) btree \<Rightarrow> string list \<Rightarrow> bool" where
  "queue_ok M bare queue selected missing \<longleftrightarrow>
     bt_ok selected \<and> distinct missing \<and>
     (\<forall>x\<in>set queue. needed M bare x) \<and>
     (\<forall>x s. bt_get selected x = Some s \<longrightarrow> needed M bare x \<and> (\<exists>e. bt_get M x = Some e \<and> s = select_name x e \<and>
        set (snd (snd e)) \<subseteq> set queue \<union> fst ` set selected \<union> set missing)) \<and>
     (\<forall>x\<in>set missing. needed M bare x \<and> bt_get M x = None) \<and>
     set bare \<subseteq> set queue \<union> fst ` set selected \<union> set missing"

lemma in_fst_bt: "x \<in> fst ` set m \<longleftrightarrow> (\<exists>v. bt_get m x = Some v)"
  using bt_contains_iff [of m x] by (auto simp: bt_contains_def)

lemma resolve_queue_ok:
  "queue_ok M bare queue selected missing \<Longrightarrow> resolve_queue M queue selected missing = (sel, mis) \<Longrightarrow>
     queue_ok M bare [] sel mis"
proof (induction M queue selected missing rule: resolve_queue.induct)
  case (1 M queue selected missing)
  show ?case
  proof (cases "queue = []")
    case True
    with 1(4,5) show ?thesis by (simp add: resolve_queue.simps)
  next
    case False
    let ?name = "last queue" and ?rest = "butlast queue"
    have q: "set queue = insert ?name (set ?rest)"
      using False by (metis append_butlast_last_id list.set(1,2) set_append Un_commute Un_insert_left sup_bot.left_neutral)
    note inv = 1(4) [unfolded queue_ok_def]
    have name: "needed M bare ?name" using inv False by simp
    show ?thesis
    proof (cases "bt_contains selected ?name \<or> ?name \<in> set missing")
      case True
      then have known: "?name \<in> fst ` set selected \<union> set missing" by (auto simp: bt_contains_iff)
      have "queue_ok M bare ?rest selected missing"
        using inv known unfolding queue_ok_def q by blast
      with 1(1) [OF False refl refl True] 1(5) False True show ?thesis
        by (simp add: resolve_queue.simps [of M queue] Let_def)
    next
      case new: False
      then have unknown: "?name \<notin> fst ` set selected" "?name \<notin> set missing" by (auto simp: bt_contains_iff)
      show ?thesis
      proof (cases "bt_get M ?name")
        case None
        have "queue_ok M bare ?rest selected (missing @ [?name])"
          using inv unknown None name unfolding queue_ok_def q by auto
        with 1(2) [OF False refl refl new None] 1(5) False new None show ?thesis
          by (simp add: resolve_queue.simps [of M queue] Let_def)
      next
        case (Some e)
        let ?sel = "bt_insert ?name (select_name ?name e) selected" and ?q = "?rest @ snd (snd e)"
        have old: "\<exists>e'. bt_get M x = Some e' \<and> s = select_name x e' \<and>
            set (snd (snd e')) \<subseteq> insert ?name (set ?rest) \<union> fst ` set selected \<union> set missing"
          and needed: "needed M bare x" if "bt_get selected x = Some s" for x s
          using inv that unfolding q by blast+
        have "queue_ok M bare ?q ?sel missing"
          unfolding queue_ok_def
        proof (intro conjI allI impI ballI)
          show "bt_ok ?sel" "distinct missing" using inv by simp_all
          show "needed M bare x" if "x \<in> set ?q" for x
            using that inv q needed.external [OF name Some] by auto
          show "needed M bare x" if "bt_get ?sel x = Some s" for x s
            using that name needed by (auto split: if_splits)
          show "\<exists>e'. bt_get M x = Some e' \<and> s = select_name x e' \<and>
              set (snd (snd e')) \<subseteq> set ?q \<union> fst ` set ?sel \<union> set missing" if sel: "bt_get ?sel x = Some s" for x s
          proof (cases "x = ?name")
            case True
            with sel Some show ?thesis by auto
          next
            case False
            with sel have "bt_get selected x = Some s" by simp
            from old [OF this] show ?thesis unfolding fst_bt_insert by auto
          qed
          show "needed M bare x" "bt_get M x = None" if "x \<in> set missing" for x using inv that by blast+
          show "set bare \<subseteq> set ?q \<union> fst ` set ?sel \<union> set missing"
            using inv unfolding q fst_bt_insert by auto
        qed
        with 1(3) [OF False refl refl new Some] 1(5) False new Some show ?thesis
          by (simp add: resolve_queue.simps [of M queue] Let_def)
      qed
    qed
  qed
qed

lemma resolve_queue_closure:
  assumes "resolve_queue M bare [] [] = (sel, mis)"
  shows "bt_ok sel" "distinct mis"
    "bt_get sel x = Some s \<longleftrightarrow> needed M bare x \<and> (\<exists>e. bt_get M x = Some e \<and> s = select_name x e)"
    "x \<in> set mis \<longleftrightarrow> needed M bare x \<and> bt_get M x = None"
proof -
  have "queue_ok M bare bare [] []" by (auto simp: queue_ok_def intro: needed.requested)
  note ok = resolve_queue_ok [OF this assms, unfolded queue_ok_def]
  show "bt_ok sel" "distinct mis" using ok by simp_all
  have sel_ok: "needed M bare x \<and> (\<exists>e. bt_get M x = Some e \<and> s = select_name x e \<and>
      set (snd (snd e)) \<subseteq> set [] \<union> fst ` set sel \<union> set mis)" if "bt_get sel x = Some s" for x s
    using ok that by blast
  have mis_ok: "needed M bare x \<and> bt_get M x = None" if "x \<in> set mis" for x
    using ok that by blast
  have all: "x \<in> fst ` set sel \<union> set mis" if "needed M bare x" for x
    using that
  proof induction
    case (requested x)
    have "set bare \<subseteq> set [] \<union> fst ` set sel \<union> set mis" using ok by (elim conjE)
    with requested show ?case by auto
  next
    case (external x e y)
    have "x \<notin> set mis" using external.hyps(2) mis_ok [of x] by auto
    with external.IH obtain s where s: "bt_get sel x = Some s" unfolding Un_iff in_fst_bt by blast
    from sel_ok [OF s] obtain e' where e': "bt_get M x = Some e'"
        "set (snd (snd e')) \<subseteq> set [] \<union> fst ` set sel \<union> set mis" by blast
    have "e' = e" using e'(1) external.hyps(2) by simp
    with e'(2) external.hyps(3) show ?case by auto
  qed
  have sel: "needed M bare x \<and> (\<exists>e. bt_get M x = Some e \<and> s = select_name x e)" if "bt_get sel x = Some s" for x s
    using sel_ok [OF that] by blast
  note mis = mis_ok
  show "bt_get sel x = Some s \<longleftrightarrow> needed M bare x \<and> (\<exists>e. bt_get M x = Some e \<and> s = select_name x e)"
  proof
    assume r: "needed M bare x \<and> (\<exists>e. bt_get M x = Some e \<and> s = select_name x e)"
    then have "x \<in> fst ` set sel" using all [of x] mis [of x] by auto
    then obtain t where "bt_get sel x = Some t" by (auto simp: in_fst_bt)
    with sel [OF this] r show "bt_get sel x = Some s" by auto
  qed (rule sel)
  show "x \<in> set mis \<longleftrightarrow> needed M bare x \<and> bt_get M x = None"
  proof
    assume r: "needed M bare x \<and> bt_get M x = None"
    then show "x \<in> set mis" using all [of x] sel [of x] by (auto simp: in_fst_bt)
  qed (rule mis)
qed

lemma resolve_imports_closure:
  "set (rs_selected (resolve_imports C bare)) =
     {select_name x e | x e. needed (by_specifier C) bare x \<and> bt_get (by_specifier C) x = Some e} \<and>
   sorted_wrt (<) (map sl_specifier (rs_selected (resolve_imports C bare))) \<and>
   set (rs_missing (resolve_imports C bare)) = {x. needed (by_specifier C) bare x \<and> bt_get (by_specifier C) x = None} \<and>
   sorted_wrt (<) (rs_missing (resolve_imports C bare)) \<and>
   (set bare = set bare' \<longrightarrow> resolve_imports C bare = resolve_imports C bare')"
proof -
  let ?M = "by_specifier C"
  obtain sel mis where r: "resolve_queue ?M bare [] [] = (sel, mis)" by (cases "resolve_queue ?M bare [] []")
  obtain sel' mis' where r': "resolve_queue ?M bare' [] [] = (sel', mis')" by (cases "resolve_queue ?M bare' [] []")
  note c = resolve_queue_closure [OF r] and c' = resolve_queue_closure [OF r']
  have res: "rs_selected (resolve_imports C bare) = map snd sel" "rs_missing (resolve_imports C bare) = sort mis"
    by (simp_all add: resolve_imports_def r Let_def)
  have entry: "(x, s) \<in> set sel \<longleftrightarrow> needed ?M bare x \<and> (\<exists>e. bt_get ?M x = Some e \<and> s = select_name x e)" for x s
    using bt_mem_iff [OF c(1), of "(x, s)"] c(3) [of x s] by simp
  have m1: "set (map snd sel) = {select_name x e | x e. needed ?M bare x \<and> bt_get ?M x = Some e}"
    using entry by (auto simp: image_iff) (metis snd_conv)+
  have keys: "map sl_specifier (map snd sel) = map fst sel"
    using entry by (auto simp: select_name_def split: prod.splits)
  have m2: "sorted_wrt (<) (map sl_specifier (map snd sel))" unfolding keys using c(1) unfolding bt_ok_def .
  have m3: "set (sort mis) = {x. needed ?M bare x \<and> bt_get ?M x = None}" using c(4) by auto
  have m4: "sorted_wrt (<) (sort mis)" using c(2) by (simp add: strict_sorted_iff)
  have m5: "resolve_imports C bare = resolve_imports C bare'" if "set bare = set bare'"
  proof -
    have "needed ?M bare x = needed ?M bare' x" for x
    proof
      show "needed ?M bare x \<Longrightarrow> needed ?M bare' x"
        by (induction rule: needed.induct) (use that in \<open>auto intro: needed.intros\<close>)
      show "needed ?M bare' x \<Longrightarrow> needed ?M bare x"
        by (induction rule: needed.induct) (use that in \<open>auto intro: needed.intros\<close>)
    qed
    then have same: "bt_get sel x = Some s \<longleftrightarrow> bt_get sel' x = Some s" "x \<in> set mis \<longleftrightarrow> x \<in> set mis'" for x s
      using c(3,4) c'(3,4) by simp_all
    have "bt_get sel x = bt_get sel' x" for x
    proof (rule option.expand)
      show "(bt_get sel x = None) = (bt_get sel' x = None)" using same(1) [of x] by (metis option.exhaust)
      show "the (bt_get sel x) = the (bt_get sel' x)"
        if "bt_get sel x \<noteq> None" "bt_get sel' x \<noteq> None"
        using that same(1) [of x] by (metis option.sel option.exhaust)
    qed
    then have "sel = sel'" using c(1) c'(1) by (intro bt_ext)
    moreover have "sort mis = sort mis'"
      using c(2) c'(2) same(2) by (intro sorted_distinct_set_unique) auto
    ultimately show ?thesis by (simp add: resolve_imports_def r r' Let_def)
  qed
  from m1 m2 m3 m4 show ?thesis unfolding res by (intro conjI impI m5)
qed

text \<open>
  C40: Resolving ends for every catalog, cyclic ones included, and computes exactly the closure of the
  requests under the catalog's externals: what is selected is the catalog's entry for each specifier the
  closure needs and the catalog has, once, in order; what is missing is the rest of the closure, sorted
  without repetition. The result is the same for every order and repetition of the requests.
\<close>

theorem resolution_is_the_closure:
  "set (rs_selected (resolve_imports C bare)) =
     {select_name x e | x e. needed (by_specifier C) bare x \<and> bt_get (by_specifier C) x = Some e} \<and>
   sorted_wrt (<) (map sl_specifier (rs_selected (resolve_imports C bare))) \<and>
   set (rs_missing (resolve_imports C bare)) = {x. needed (by_specifier C) bare x \<and> bt_get (by_specifier C) x = None} \<and>
   sorted_wrt (<) (rs_missing (resolve_imports C bare)) \<and>
   (set bare = set bare' \<longrightarrow> resolve_imports C bare = resolve_imports C bare')"
  by (rule resolve_imports_closure)

text \<open>A cyclic catalog, and a request it does not have.\<close>

definition cyclic_catalog :: catalog where
  "cyclic_catalog =
     \<lparr>ct_packages = [(''react'', \<lparr>pk_version = ''18'', pk_specifiers =
        [(''react'', \<lparr>sp_externals = [''scheduler''], sp_sha256 = ''aa''\<rparr>),
         (''scheduler'', \<lparr>sp_externals = [''react'', ''tone''], sp_sha256 = ''bb''\<rparr>)]\<rparr>)],
      ct_excluded = [(''tone'', ''too large'')]\<rparr>"

theorem resolution_is_the_closure_witness:
  "map sl_specifier (rs_selected (resolve_imports cyclic_catalog [''react''])) = [''react'', ''scheduler''] \<and>
   resolve_imports cyclic_catalog [''react'', ''react''] = resolve_imports cyclic_catalog [''react'']"
proof -
  have "map sl_specifier (rs_selected (resolve_imports cyclic_catalog [''react''])) = [''react'', ''scheduler'']"
    by code_simp
  with resolution_is_the_closure [of cyclic_catalog "[''react'', ''react'']" "[''react'']"] show ?thesis by simp
qed

text \<open>Nothing is loaded whose digest is not the catalog's.\<close>

lemma load_verified_digest:
  "load_verified sha read_file dir s = Inr path \<Longrightarrow>
     \<exists>content. read_file path = Some content \<and> hex_text (sha content) = sl_sha256 s"
  by (auto simp: load_verified_def Let_def split: option.splits if_splits)

end
