(* ===== verification/Cli_Build.thy ===== *)
theory Cli_Build
  imports Cli_Project Cli_Stdlib Convert_Project Convert_Html Container_Files Connection_Records
begin

text \<open>
  Building and packing (\<open>poid-cli/src/commands.rs\<close>: \<open>build_app\<close>, \<open>pack\<close>, \<open>convert\<close> and what they load): the
  composition of the collection of files, the classification, the Standard Library, the bundler, the page
  and the container writer. What a command reads of the platform is an argument; what it writes is a disk.
  A report holds what the two commands print, as JSON and for people.
\<close>

section \<open>What a build takes from elsewhere\<close>

record zip_member =
  zm_is_dir :: bool
  zm_enclosed :: "string list option"
  zm_content :: "byte list option"

record build_env =
  bn_crates :: crates
  bn_process :: esbuild_process
  bn_catalog :: catalog
  bn_stdlib_env :: "path option"
  bn_exe_dir :: "path option"
  bn_is_dir :: "path \<Rightarrow> bool"
  bn_read :: "path \<Rightarrow> byte list option"
  bn_lossy :: "string \<Rightarrow> string"
  bn_utf8_lossy :: "byte list \<Rightarrow> string"
  bn_to_lowercase :: "string \<Rightarrow> string"
  bn_to_uppercase :: "string \<Rightarrow> string"
  bn_error_text :: "poid_error \<Rightarrow> string"
  bn_unzip :: "byte list \<Rightarrow> string + (string + zip_member) list"

definition cli_version :: string where
  "cli_version = ''0.0.1''"

text \<open>\<open>?\<close> on an error of the core.\<close>

definition core :: "build_env \<Rightarrow> poid_error + 'a \<Rightarrow> cmd_error + 'a" where
  "core E = map_err (of_poid_error (bn_error_text E))"

section \<open>Building\<close>

record built_app =
  ba_app_files :: "project_file list"
  ba_data_files :: "project_file list"
  ba_bundled_deps :: "string list"
  ba_esbuild_version :: "string option"
  ba_index_html :: "string option"

definition at_root :: "project_file \<Rightarrow> bool" where
  "at_root f \<longleftrightarrow>
     pf_rel f = ''data'' \<or> starts_with (pf_rel f) ''data/'' \<or> pf_rel f = ''deps'' \<or> starts_with (pf_rel f) ''deps/'' \<or>
     pf_rel f = ''migrations'' \<or> starts_with (pf_rel f) ''migrations/''"

definition file_named :: "string \<Rightarrow> project_file list \<Rightarrow> project_file option" where
  "file_named rel files = find (\<lambda>f. pf_rel f = rel) files"

text \<open>Static content is packed as it is; a lone document becomes \<open>index.html\<close>.\<close>

definition renamed_document :: "project_shape \<Rightarrow> project_file \<Rightarrow> project_file" where
  "renamed_document shape f =
     (if ps_kind shape = SingleHtml \<and> ps_html shape = Some (pf_rel f) then f\<lparr>pf_rel := ''index.html''\<rparr> else f)"

definition static_app :: "project_shape \<Rightarrow> project_file list \<Rightarrow> project_file list \<Rightarrow> built_app" where
  "static_app shape data_files rest =
     (let app_files = map (renamed_document shape) rest in
      \<lparr>ba_app_files = app_files, ba_data_files = data_files, ba_bundled_deps = [], ba_esbuild_version = None,
       ba_index_html = Option.bind (file_named ''index.html'' app_files) (\<lambda>f. from_utf8 (pf_content f))\<rparr>)"

function trim_end_matches :: "string \<Rightarrow> string \<Rightarrow> string" where
  "trim_end_matches pat s =
     (if pat \<noteq> [] \<and> ends_with s pat then trim_end_matches pat (take (length s - length pat) s) else s)"
  by pat_completeness auto
termination
proof (relation "measure (\<lambda>(pat, s). length s)")
  fix pat s :: string assume "pat \<noteq> [] \<and> ends_with s pat"
  then have p: "0 < length pat" "length pat \<le> length s"
    using starts_with_length [of "rev s" "rev pat"] by (auto simp: ends_with_def)
  then have "0 < length s" by linarith
  with p have "length s - length pat < length s" by linarith
  then show "((pat, take (length s - length pat) s), pat, s) \<in> measure (\<lambda>(pat, s). length s)" by simp
qed simp

declare trim_end_matches.simps [simp del]

definition artifact_entry :: "string \<Rightarrow> string" where
  "artifact_entry component_stem =
     ''import App from \"./'' @ component_stem @ ''\";'' @ newline @
     ''import { createRoot } from \"react-dom/client\";'' @ newline @
     ''const node = document.getElementById(\"root\") ?? (() => {'' @ newline @
     ''  const d = document.createElement(\"div\");'' @ newline @
     ''  d.id = \"root\";'' @ newline @
     ''  document.body.append(d);'' @ newline @
     ''  return d;'' @ newline @
     ''})();'' @ newline @
     ''createRoot(node).render(<App />);'' @ newline"

definition entry_name_generated :: string where
  "entry_name_generated = ''__poid_entry.jsx''"

definition jsx_runtime :: string where
  "jsx_runtime = ''react/jsx-runtime''"

definition push_new :: "'a \<Rightarrow> 'a list \<Rightarrow> 'a list" where
  "push_new x xs = (if x \<in> set xs then xs else xs @ [x])"

text \<open>The imports to resolve, the files to stage and the entry.\<close>

definition build_plan ::
  "project_shape \<Rightarrow> project_file list \<Rightarrow> cmd_error + string list \<times> project_file list \<times> string" where
  "build_plan shape rest =
     (let requested = bt_keys (bare_imports rest);
          requested = (if ps_uses_jsx shape then push_new jsx_runtime requested else requested)
      in if ps_kind shape = Artifact then
           let component = (case ps_entry shape of Some c \<Rightarrow> c | None \<Rightarrow> []);
               stem = trim_end_matches ''.jsx'' (trim_end_matches ''.tsx'' component)
           in Inr (fold push_new [''react'', jsx_runtime, ''react-dom/client''] requested,
                rest @ [\<lparr>pf_rel = entry_name_generated, pf_content = bytes_of (artifact_entry stem)\<rparr>],
                entry_name_generated)
         else rbind (ok_or (cli_err ''bundle-entry-missing''
             (''this project has sources to build but no entry file; looked for '' @
              join_str '', '' entry_candidates)) (ps_entry shape))
           (\<lambda>entry_file. Inr (requested, rest, entry_file)))"

definition unresolved_message :: "resolution \<Rightarrow> string" where
  "unresolved_message r =
     ''cannot resolve bare import(s): `'' @ join_str ''`, `'' (rs_missing r) @
     ''`. They are not in the Standard Library (Tier 1). In Studio, the Resolver can download a dependency with '' @
     ''your consent and store it inside the POID (Tier 2); with the CLI, vendor the files into the project and '' @
     ''import them with relative paths. Nothing is fetched from the network without consent.'' @
     concat (map (\<lambda>(name, reason). newline @ ''  `'' @ name @ ''`: '' @ reason) (rs_exclusions r))"

text \<open>The selected libraries, each checked against the catalog, with the records of their packages.\<close>

fun load_selected ::
  "build_env \<Rightarrow> path \<Rightarrow> selection list \<Rightarrow> (string \<times> path) list \<times> string list \<Rightarrow> cmd_error + (string \<times> path) list \<times> string list" where
  "load_selected E lib_dir [] acc = Inr acc"
| "load_selected E lib_dir (s # rest) acc =
     rbind (load_verified (sha256 (bn_crates E)) (bn_read E) lib_dir s) (\<lambda>path.
       load_selected E lib_dir rest (fst acc @ [(sl_specifier s, path)], push_new (sl_record s) (snd acc)))"

definition resolved_aliases :: "build_env \<Rightarrow> resolution \<Rightarrow> cmd_error + (string \<times> path) list \<times> string list" where
  "resolved_aliases E r =
     (if rs_missing r \<noteq> [] then Inl (cli_err ''unresolved-dependency'' (unresolved_message r))
      else if rs_selected r = [] then Inr ([], [])
      else rbind (locate_dir (bn_stdlib_env E) (bn_exe_dir E) (bn_is_dir E)) (\<lambda>lib_dir.
        rbind (load_selected E lib_dir (rs_selected r) ([], [])) (\<lambda>(aliases, deps). Inr (aliases, sort deps))))"

definition consumed :: "project_shape \<Rightarrow> string \<Rightarrow> bool" where
  "consumed shape rel \<longleftrightarrow>
     list_ex (ends_with rel) [''.js'', ''.mjs'', ''.ts'', ''.tsx'', ''.jsx'', ''.css''] \<or> ps_html shape = Some rel"

definition built_page :: "build_env \<Rightarrow> project_shape \<Rightarrow> project_file list \<Rightarrow> string \<Rightarrow> bundled \<Rightarrow> string" where
  "built_page E shape rest title b =
     (let html_source = Option.bind (ps_html shape) (\<lambda>rel.
            Option.bind (file_named rel rest) (\<lambda>f. from_utf8 (pf_content f)));
          parts = \<lparr>in_js = Some (bn_utf8_lossy E (bd_js b)), in_css = map_option (bn_utf8_lossy E) (bd_css b), in_title = title\<rparr>
      in inline_into_html html_source parts)"

definition built_files :: "project_shape \<Rightarrow> project_file list \<Rightarrow> string \<Rightarrow> project_file list" where
  "built_files shape rest index_html =
     sort_key pf_rel
       (filter (\<lambda>f. \<not> consumed shape (pf_rel f)) rest @ [\<lparr>pf_rel = ''index.html'', pf_content = bytes_of index_html\<rparr>])"

definition build_app :: "build_env \<Rightarrow> project_file list \<Rightarrow> string \<Rightarrow> cmd_error + built_app" where
  "build_app E files title =
     (let data_files = filter at_root files; rest = filter (\<lambda>f. \<not> at_root f) files;
          shape = classify_input (map (\<lambda>f. \<lparr>sf_rel = pf_rel f, sf_content = pf_content f\<rparr>) rest)
      in if ps_kind shape = Static \<or> ps_kind shape = SingleHtml then Inr (static_app shape data_files rest)
         else
           rbind (build_plan shape rest) (\<lambda>(requested, staged, entry_file).
           rbind (resolved_aliases E (resolve_imports (bn_catalog E) requested)) (\<lambda>(aliases, bundled_deps).
           rbind (find_esbuild (bn_process E)) (\<lambda>eb.
           rbind (bundle_staged (bn_process E) staged entry_file aliases eb) (\<lambda>b.
             let index_html = built_page E shape rest title b in
             Inr \<lparr>ba_app_files = built_files shape rest index_html, ba_data_files = data_files,
                  ba_bundled_deps = bundled_deps, ba_esbuild_version = Some (es_version eb),
                  ba_index_html = Some index_html\<rparr>)))))"

section \<open>Writing a container\<close>

text \<open>\<open>atomic_write\<close> of the commands: a temporary file of the \<open>tempfile\<close> crate, which removes it on failure.\<close>

definition write_out :: "bool \<Rightarrow> path \<Rightarrow> byte list \<Rightarrow> disk \<Rightarrow> (cmd_error + unit) \<times> disk" where
  "write_out fails path bytes d = (if fails then (Inl (of_io_error ''write''), d) else (Inr (), d(path \<mapsto> bytes)))"

definition add_files :: "build_env \<Rightarrow> built_app \<Rightarrow> manifest \<Rightarrow> poid_error + poid_builder" where
  "add_files E b m =
     rbind (fold_each (\<lambda>f. builder_file (''app/'' @ pf_rel f) (pf_content f)) (ba_app_files b) (builder_new m)) (\<lambda>bl.
       fold_each (\<lambda>f. builder_file (pf_rel f) (pf_content f)) (ba_data_files b) bl)"

text \<open>The bytes, opened and verified before anything is written.\<close>

definition packed_and_checked :: "build_env \<Rightarrow> built_app \<Rightarrow> manifest \<Rightarrow> cmd_error + byte list \<times> poid" where
  "packed_and_checked E b m =
     core E
       (rbind (add_files E b m) (\<lambda>bl.
        rbind (pack (bn_crates E) bl) (\<lambda>bytes.
        rbind (open_poid (bn_crates E) bytes) (\<lambda>p.
        rbind (verify (bn_crates E) p) (\<lambda>_. Inr (bytes, p))))))"

record pack_report =
  kr_output :: path
  kr_files :: nat
  kr_bytes :: nat
  kr_integrity :: "string option \<times> string option"
  kr_bundled_deps :: "string list"
  kr_esbuild :: "string option"
  kr_human :: string

definition file_count :: "built_app \<Rightarrow> nat" where
  "file_count b = length (ba_app_files b) + length (ba_data_files b)"

definition write_container ::
  "build_env \<Rightarrow> bool \<Rightarrow> (nat \<Rightarrow> nat \<Rightarrow> string) \<Rightarrow> path \<Rightarrow> built_app \<Rightarrow> manifest \<Rightarrow> disk \<Rightarrow>
   (cmd_error + pack_report) \<times> disk" where
  "write_container E fails human out b m d =
     (case packed_and_checked E b m of
        Inl e \<Rightarrow> (Inl e, d)
      | Inr (bytes, p) \<Rightarrow>
          (case write_out fails out bytes d of
             (Inl e, d) \<Rightarrow> (Inl e, d)
           | (Inr _, d) \<Rightarrow>
               (Inr \<lparr>kr_output = out, kr_files = file_count b, kr_bytes = length bytes,
                     kr_integrity = (case m_integrity (c_manifest p) of Some i \<Rightarrow> (g_app i, g_deps i) | None \<Rightarrow> (None, None)),
                     kr_bundled_deps = ba_bundled_deps b, kr_esbuild = ba_esbuild_version b,
                     kr_human = human (file_count b) (length bytes)\<rparr>, d)))"


section \<open>Packing a project\<close>

text \<open>The generated fields of the author's manifest.\<close>

definition recorded_toolchain :: "built_app \<Rightarrow> runtime \<Rightarrow> runtime" where
  "recorded_toolchain b rt =
     (let tc = (case r_toolchain rt of Some t \<Rightarrow> t | None \<Rightarrow> \<lparr>tc_builder = None, tc_esbuild = None, tc_extra = []\<rparr>);
          tc = tc\<lparr>tc_builder := Some (''poid-cli@'' @ cli_version)\<rparr>;
          tc = (case ba_esbuild_version b of Some v \<Rightarrow> tc\<lparr>tc_esbuild := Some v\<rparr> | None \<Rightarrow> tc);
          rt = rt\<lparr>r_toolchain := Some tc\<rparr>
      in if ba_bundled_deps b = [] then rt
         else rt\<lparr>r_bundled_deps := Some (sort (fold push_new (ba_bundled_deps b)
                (case r_bundled_deps rt of Some ds \<Rightarrow> ds | None \<Rightarrow> [])))\<rparr>)"

definition generated_fields :: "built_app \<Rightarrow> manifest \<Rightarrow> manifest" where
  "generated_fields b m =
     (let m = (if m_type m \<noteq> DataType \<and> m_instance m = None
               then m\<lparr>m_instance := Some \<lparr>i_id = None, i_extra = []\<rparr>\<rparr> else m)
      in m\<lparr>m_runtime := map_option (recorded_toolchain b) (m_runtime m)\<rparr>)"

text \<open>The directory, its manifest and its listing, as the platform gives them.\<close>

record project_input =
  pi_dir :: path
  pi_is_dir :: bool
  pi_manifest :: "byte list option"
  pi_entries :: "(string \<times> fs_node) list option"

definition file_name_of :: "path \<Rightarrow> string option" where
  "file_name_of p = (if p = [] \<or> last p = ''..'' then None else Some (last p))"

definition pack_output :: "build_env \<Rightarrow> path option \<Rightarrow> path \<Rightarrow> path" where
  "pack_output E output dir =
     (case output of
        Some p \<Rightarrow> p
      | None \<Rightarrow> [(case file_name_of dir of Some n \<Rightarrow> bn_lossy E n | None \<Rightarrow> ''out'') @ ''.poid''])"

definition pack_manifest :: "build_env \<Rightarrow> project_input \<Rightarrow> cmd_error + manifest" where
  "pack_manifest E i =
     (if \<not> pi_is_dir i then Inl (cli_err ''project-missing'' (''`'' @ display_path (pi_dir i) @ ''` is not a directory''))
      else rbind (ok_or (cli_err ''poid-json-missing''
          (''`'' @ display_path (pi_dir i) @ ''` has no poid.json '' @ em_dash @
           '' run `poid init` first, or author one (SPEC 3.1)'')) (pi_manifest i)) (\<lambda>bytes.
        core E (map_err ManifestErr (manifest_parse (bn_crates E) bytes))))"

definition pack_project ::
  "build_env \<Rightarrow> bool \<Rightarrow> project_input \<Rightarrow> path option \<Rightarrow> disk \<Rightarrow> (cmd_error + pack_report) \<times> disk" where
  "pack_project E fails i output d =
     (case rbind (pack_manifest E i) (\<lambda>m.
           rbind (collect_files (bn_lossy E) (pi_entries i)) (\<lambda>files.
           if files = [] then
             Inl (cli_err ''project-empty'' (''`'' @ display_path (pi_dir i) @ ''` contains no packable files''))
           else rbind (build_app E files (case m_app m of Some a \<Rightarrow> a_name a | None \<Rightarrow> ''App'')) (\<lambda>b.
             Inr (b, generated_fields b m)))) of
        Inl e \<Rightarrow> (Inl e, d)
      | Inr (b, m) \<Rightarrow>
          let out = pack_output E output (pi_dir i) in
          write_container E fails (\<lambda>count bytes. ''Packed '' @ show_nat count @ '' files ('' @ human_size bytes @ '') -> '' @
            display_path out) out b m d)"

section \<open>Converting\<close>

definition strip_common_root :: "project_file list \<Rightarrow> project_file list" where
  "strip_common_root files =
     (case files of
        [] \<Rightarrow> files
      | first # _ \<Rightarrow>
          let root = hd (split_on CHR ''/'' (pf_rel first)); prefix_text = root @ ''/'' in
          if 1 < length files \<and> list_all (\<lambda>f. starts_with (pf_rel f) prefix_text) files
          then map (\<lambda>f. f\<lparr>pf_rel := drop (length prefix_text) (pf_rel f)\<rparr>) files
          else files)"

definition bad_zip :: "string \<Rightarrow> cmd_error" where
  "bad_zip e = cli_err ''convert-bad-zip'' (''cannot read the ZIP: '' @ e)"

fun zip_files :: "build_env \<Rightarrow> (string + zip_member) list \<Rightarrow> project_file list \<Rightarrow> cmd_error + project_file list" where
  "zip_files E [] out = Inr out"
| "zip_files E (Inl e # rest) out = Inl (bad_zip e)"
| "zip_files E (Inr m # rest) out =
     (if zm_is_dir m then zip_files E rest out
      else case zm_enclosed m of
        None \<Rightarrow> Inl (cli_err ''convert-bad-zip'' ''the ZIP contains a path that escapes its root'')
      | Some comps \<Rightarrow>
          (case zm_content m of
             None \<Rightarrow> Inl (of_io_error ''read_to_end'')
           | Some content \<Rightarrow>
               zip_files E rest (out @ [\<lparr>pf_rel = join_with CHR ''/'' (map (bn_lossy E) comps), pf_content = content\<rparr>])))"

text \<open>What follows the last dot of a name, unless nothing comes before it.\<close>

definition path_extension :: "string \<Rightarrow> string option" where
  "path_extension name = (case rsplit_once CHR ''.'' name of
     Some (stem, ext) \<Rightarrow> if stem = [] then None else Some ext | None \<Rightarrow> None)"

record convert_input =
  ci_path :: path
  ci_is_dir :: bool
  ci_entries :: "(string \<times> fs_node) list option"
  ci_content :: "byte list option"

definition load_convert_input :: "build_env \<Rightarrow> convert_input \<Rightarrow> cmd_error + project_file list \<times> string" where
  "load_convert_input E i =
     (let name = file_name_of (ci_path i);
          stem = (case name of Some n \<Rightarrow> bn_lossy E (file_stem n) | None \<Rightarrow> ''app'');
          ext = (case Option.bind name path_extension of Some x \<Rightarrow> bn_to_lowercase E (bn_lossy E x) | None \<Rightarrow> [])
      in if ci_is_dir i then rbind (collect_files (bn_lossy E) (ci_entries i)) (\<lambda>files. Inr (files, stem))
         else if ext = ''zip'' then
           rbind (ok_or (of_io_error ''open'') (ci_content i)) (\<lambda>bytes.
           rbind (map_err bad_zip (bn_unzip E bytes)) (\<lambda>members.
           rbind (zip_files E members []) (\<lambda>files.
             Inr (sort_key pf_rel (strip_common_root files), stem))))
         else if ext \<in> {''html'', ''htm'', ''jsx'', ''tsx''} then
           rbind (ok_or (of_io_error ''read'') (ci_content i)) (\<lambda>content.
             Inr ([\<lparr>pf_rel = (case name of Some n \<Rightarrow> bn_lossy E n | None \<Rightarrow> ''index.html''), pf_content = content\<rparr>], stem))
         else Inl (cli_err ''convert-unsupported-input''
           (''`'' @ display_path (ci_path i) @ ''` is not something the converter understands '' @ em_dash @
            '' give it a folder, a .zip, a .html document or a single .jsx/.tsx artifact'')))"

definition conversion_plan :: "build_env \<Rightarrow> string \<Rightarrow> string \<Rightarrow> built_app \<Rightarrow> convert_plan" where
  "conversion_plan E raw_name name b =
     \<lparr>cp_name = name, cp_app_id = ''local.poid.'' @ slug_of (bn_to_lowercase E) raw_name,
      cp_inferred = infer_permissions [case ba_index_html b of Some h \<Rightarrow> h | None \<Rightarrow> []],
      cp_bundled_deps = ba_bundled_deps b, cp_builder = ''poid-cli@'' @ cli_version, cp_esbuild = ba_esbuild_version b\<rparr>"

definition convert_project ::
  "build_env \<Rightarrow> bool \<Rightarrow> convert_input \<Rightarrow> path option \<Rightarrow> disk \<Rightarrow> (cmd_error + pack_report) \<times> disk" where
  "convert_project E fails i output d =
     (case rbind (load_convert_input E i) (\<lambda>(files, raw_name).
           if files = [] then
             Inl (cli_err ''project-empty'' (''`'' @ display_path (ci_path i) @ ''` contains no convertible files''))
           else
             let name = capitalize (bn_to_uppercase E) raw_name in
             rbind (build_app E files name) (\<lambda>b.
             if \<not> list_ex (\<lambda>f. pf_rel f = ''index.html'') (ba_app_files b) then
               Inl (cli_err ''convert-no-document''
                 (''the input produced no HTML document to open '' @ em_dash @ '' a POID needs an app/index.html''))
             else rbind (core E (map_err ManifestErr (converted_manifest (conversion_plan E raw_name name b)))) (\<lambda>m.
               Inr (raw_name, b, m)))) of
        Inl e \<Rightarrow> (Inl e, d)
      | Inr (raw_name, b, m) \<Rightarrow>
          let out = (case output of Some p \<Rightarrow> p | None \<Rightarrow> [slug_of (bn_to_lowercase E) raw_name @ ''.poid'']) in
          write_container E fails (\<lambda>count bytes. ''Converted `'' @ display_path (ci_path i) @ ''` -> '' @ display_path out @
            '' ('' @ show_nat count @ '' files, '' @ human_size bytes @ '')'') out b m d)"


section \<open>What is written opens\<close>

lemma write_container_checked:
  "case write_container E fails human out b m d of
     (Inl e, d') \<Rightarrow> d' = d
   | (Inr r, d') \<Rightarrow> (\<exists>bytes p. d' = d(out \<mapsto> bytes) \<and> open_poid (bn_crates E) bytes = Inr p \<and> verify (bn_crates E) p = Inr () \<and>
       kr_output r = out \<and> kr_bytes r = length bytes \<and> kr_files r = file_count b)"
proof (cases "packed_and_checked E b m")
  case (Inl e)
  then show ?thesis by (simp add: write_container_def)
next
  case (Inr bp)
  obtain bytes p where bp: "bp = (bytes, p)" by (cases bp)
  have "open_poid (bn_crates E) bytes = Inr p \<and> verify (bn_crates E) p = Inr ()"
    using Inr bp by (auto simp: packed_and_checked_def core_def result_simps)
  with Inr bp show ?thesis by (cases fails) (auto simp: write_container_def write_out_def)
qed

lemma write_container_failed: "write_container E fails human out b m d = (Inl e, d') \<Longrightarrow> d' = d"
  using write_container_checked [where E = E and fails = fails and human = human and out = out and d = d and b = b and m = m] by simp

lemma run_of_case:
  "(\<And>d' e. R = (Inl e, d') \<Longrightarrow> d' = d) \<Longrightarrow> (\<And>r d'. R = (Inr r, d') \<Longrightarrow> Q r d') \<Longrightarrow>
     (case R of (Inl e, d') \<Rightarrow> d' = d | (Inr r, d') \<Rightarrow> Q r d')"
  by (auto split: prod.split sum.split)

text \<open>
  C25: Neither packing nor converting leaves anything on the disk but a container that opens and whose digests
  verify: whatever fails on the way (the manifest, a file, a missing library, the bundler, the writer, the
  container's own check), the disk is as before, and a success has changed one file, the one the report
  names, to bytes this very reader accepts.
\<close>

theorem only_openable_containers_are_written:
  "(case pack_project E fails i output d of
      (Inl e, d') \<Rightarrow> d' = d
    | (Inr r, d') \<Rightarrow> (\<exists>bytes p. d' = d(kr_output r \<mapsto> bytes) \<and> kr_output r = pack_output E output (pi_dir i) \<and>
        kr_bytes r = length bytes \<and> open_poid (bn_crates E) bytes = Inr p \<and> verify (bn_crates E) p = Inr ())) \<and>
   (case convert_project E fails j output d of
      (Inl e, d') \<Rightarrow> d' = d
    | (Inr r, d') \<Rightarrow> (\<exists>bytes p. d' = d(kr_output r \<mapsto> bytes) \<and>
        kr_bytes r = length bytes \<and> open_poid (bn_crates E) bytes = Inr p \<and> verify (bn_crates E) p = Inr ()))"
proof (intro conjI run_of_case)
  note w = write_container_checked
  show "d' = d" if "pack_project E fails i output d = (Inl e, d')" for e d'
    using that by (auto simp: pack_project_def Let_def dest: write_container_failed split: sum.splits prod.splits)
  show "\<exists>bytes p. d' = d(kr_output r \<mapsto> bytes) \<and> kr_output r = pack_output E output (pi_dir i) \<and>
        kr_bytes r = length bytes \<and> open_poid (bn_crates E) bytes = Inr p \<and> verify (bn_crates E) p = Inr ()"
    if run: "pack_project E fails i output d = (Inr r, d')" for r d'
  proof -
    obtain human b m where "write_container E fails human (pack_output E output (pi_dir i)) b m d = (Inr r, d')"
      using run by (auto simp: pack_project_def Let_def split: sum.splits prod.splits)
    with w [where E = E and fails = fails and human = human and out = "pack_output E output (pi_dir i)" and d = d and b = b and m = m] show ?thesis by auto
  qed
  show "d' = d" if "convert_project E fails j output d = (Inl e, d')" for e d'
    using that by (auto simp: convert_project_def Let_def dest: write_container_failed split: sum.splits prod.splits)
  show "\<exists>bytes p. d' = d(kr_output r \<mapsto> bytes) \<and>
        kr_bytes r = length bytes \<and> open_poid (bn_crates E) bytes = Inr p \<and> verify (bn_crates E) p = Inr ()"
    if run: "convert_project E fails j output d = (Inr r, d')" for r d'
  proof -
    obtain human out b m where "write_container E fails human out b m d = (Inr r, d')"
      using run by (auto simp: convert_project_def Let_def split: sum.splits prod.splits)
    with w [where E = E and fails = fails and human = human and out = out and d = d and b = b and m = m] show ?thesis by auto
  qed
qed


section \<open>What is bundled\<close>

lemma set_push_new [simp]: "set (push_new x xs) = insert x (set xs)" "distinct (push_new x xs) \<longleftrightarrow> distinct xs"
  by (auto simp: push_new_def)

lemma load_selected_done:
  "load_selected E lib_dir ss (as, ds) = Inr (as', ds') \<Longrightarrow>
     (\<exists>bs. as' = as @ bs \<and> list_all2 (\<lambda>s (x, path). x = sl_specifier s \<and>
        (\<exists>content. bn_read E path = Some content \<and> hex_text (sha256 (bn_crates E) content) = sl_sha256 s)) ss bs) \<and>
     set ds' = set ds \<union> sl_record ` set ss \<and> (distinct ds \<longrightarrow> distinct ds')"
proof (induction ss arbitrary: as ds)
  case (Cons s ss)
  then obtain path where l: "load_verified (sha256 (bn_crates E)) (bn_read E) lib_dir s = Inr path"
    and rest: "load_selected E lib_dir ss (as @ [(sl_specifier s, path)], push_new (sl_record s) ds) = Inr (as', ds')"
    by (auto simp: result_simps)
  from l have "\<exists>content. bn_read E path = Some content \<and> hex_text (sha256 (bn_crates E) content) = sl_sha256 s"
    by (auto simp: load_verified_def Let_def split: option.splits if_splits)
  moreover from Cons.IH [OF rest] obtain bs where "as' = as @ (sl_specifier s, path) # bs"
    and "list_all2 (\<lambda>s (x, path). x = sl_specifier s \<and>
        (\<exists>content. bn_read E path = Some content \<and> hex_text (sha256 (bn_crates E) content) = sl_sha256 s)) ss bs"
    and ds: "set ds' = insert (sl_record s) (set ds) \<union> sl_record ` set ss" "distinct ds \<longrightarrow> distinct ds'"
    by auto
  ultimately show ?case by (intro conjI exI [of _ "(sl_specifier s, path) # bs"]) auto
qed auto

lemma select_name_fields [simp]:
  "sl_specifier (select_name x e) = x" "sl_record (select_name x e) = fst e" "sl_sha256 (select_name x e) = fst (snd e)"
  by (simp_all add: select_name_def split: prod.split)

lemma image_of_selected:
  "f ` {select_name x e | x e. P x e} = {f (select_name x e) | x e. P x e}"
  by blast

text \<open>
  What is handed to the bundler besides the project's own files is exactly the closure of the requested
  imports under the catalog, one file for each specifier and each with the digest the catalog compiled into
  the tool has for it; nothing requested is left out, and the recorded packages are those of the closure, sorted
  and each once.
\<close>

theorem bundled_libraries_are_the_verified_closure:
  assumes "resolved_aliases E (resolve_imports C requested) = Inr (aliases, deps)"
  shows "fst ` set aliases = {x. needed (by_specifier C) requested x} \<and>
    (\<forall>(x, path) \<in> set aliases. \<exists>record_text sha externals content.
      bt_get (by_specifier C) x = Some (record_text, sha, externals) \<and> bn_read E path = Some content \<and>
      hex_text (sha256 (bn_crates E) content) = sha) \<and>
    set deps = {fst e | x e. needed (by_specifier C) requested x \<and> bt_get (by_specifier C) x = Some e} \<and>
    sorted deps \<and> distinct deps"
proof -
  let ?r = "resolve_imports C requested" and ?M = "by_specifier C"
  have none: "rs_missing ?r = []" using assms by (auto simp: resolved_aliases_def split: if_splits)
  note closure = resolve_imports_closure [of C requested requested]
  note sel = closure [THEN conjunct1] and mis = closure [THEN conjunct2, THEN conjunct2, THEN conjunct1]
  from mis none have found: "\<exists>e. bt_get ?M x = Some e" if "needed ?M requested x" for x
    using that by (metis (mono_tags, lifting) empty_iff list.set(1) mem_Collect_eq option.exhaust)
  obtain ds where load: "(\<exists>lib_dir. load_selected E lib_dir (rs_selected ?r) ([], []) = Inr (aliases, ds)) \<or>
      rs_selected ?r = [] \<and> aliases = [] \<and> ds = []" and deps: "deps = sort ds"
  proof (cases "rs_selected ?r = []")
    case True
    then have "aliases = []" "deps = sort []" using assms none by (simp_all add: resolved_aliases_def)
    with True that [of "[]"] show thesis by blast
  next
    case False
    obtain lib_dir where dir: "locate_dir (bn_stdlib_env E) (bn_exe_dir E) (bn_is_dir E) = Inr lib_dir"
      and load: "rbind (load_selected E lib_dir (rs_selected ?r) ([], [])) (\<lambda>(aliases, deps). Inr (aliases, sort deps)) = Inr (aliases, deps)"
      using assms none False unfolding resolved_aliases_def by (simp add: rbind_eq_Inr) blast
    from load obtain as ds where "load_selected E lib_dir (rs_selected ?r) ([], []) = Inr (as, ds)" "as = aliases" "deps = sort ds"
      by (simp add: rbind_eq_Inr) blast
    with that [of ds] show thesis by blast
  qed
  have "list_all2 (\<lambda>s (x, path). x = sl_specifier s \<and>
        (\<exists>content. bn_read E path = Some content \<and> hex_text (sha256 (bn_crates E) content) = sl_sha256 s))
      (rs_selected ?r) aliases \<and> set ds = sl_record ` set (rs_selected ?r) \<and> distinct ds"
    using load load_selected_done [of E _ "rs_selected ?r" "[]" "[]" aliases ds] by auto
  then have al: "list_all2 (\<lambda>s (x, path). x = sl_specifier s \<and>
        (\<exists>content. bn_read E path = Some content \<and> hex_text (sha256 (bn_crates E) content) = sl_sha256 s))
      (rs_selected ?r) aliases" and ds: "set ds = sl_record ` set (rs_selected ?r)" "distinct ds" by blast+
  have "map fst aliases = map sl_specifier (rs_selected ?r)"
    using al by (induction rule: list_all2_induct) auto
  then have "fst ` set aliases = sl_specifier ` set (rs_selected ?r)" by (metis list.set_map)
  also have "\<dots> = {x. needed ?M requested x}"
    unfolding sel image_of_selected select_name_fields using found by blast
  finally have keys: "fst ` set aliases = {x. needed ?M requested x}" .
  have verified: "\<forall>(x, path) \<in> set aliases. \<exists>record_text sha externals content.
      bt_get ?M x = Some (record_text, sha, externals) \<and> bn_read E path = Some content \<and>
      hex_text (sha256 (bn_crates E) content) = sha"
  proof clarify
    fix x path assume "(x, path) \<in> set aliases"
    with al obtain s content where s: "s \<in> set (rs_selected ?r)" "x = sl_specifier s" "bn_read E path = Some content"
      "hex_text (sha256 (bn_crates E) content) = sl_sha256 s"
      unfolding list_all2_conv_all_nth in_set_conv_nth by fastforce
    from s(1) sel obtain y e where "s = select_name y e" "bt_get ?M y = Some e" by auto
    with s(2-4) show "\<exists>record_text sha externals content.
      bt_get ?M x = Some (record_text, sha, externals) \<and> bn_read E path = Some content \<and>
      hex_text (sha256 (bn_crates E) content) = sha"
      by (cases e) simp
  qed
  have "set deps = {fst e | x e. needed ?M requested x \<and> bt_get ?M x = Some e}"
    unfolding deps set_sort ds(1) sel image_of_selected select_name_fields by (rule refl)
  with keys verified deps ds(2) show ?thesis by simp
qed


text \<open>A library of one package, whose only file is there.\<close>

definition small_catalog :: catalog where
  "small_catalog =
     \<lparr>ct_packages = [(''react'', \<lparr>pk_version = ''18'', pk_specifiers =
        [(''react'', \<lparr>sp_externals = [], sp_sha256 = hex_text (sample_sha [1])\<rparr>)]\<rparr>)], ct_excluded = []\<rparr>"

definition sample_process :: esbuild_process where
  "sample_process =
     \<lparr>eb_is_file = (\<lambda>_. True), eb_version_output = (\<lambda>_. Inr ''0.25.12''),
      eb_run = (\<lambda>_ _ _. Inr (True, [], [''main.js'' \<mapsto> [1]])), eb_env = None, eb_exe_dir = None,
      eb_exe_name = ''esbuild'', eb_out_dir = ''out'', eb_stage_fails = False\<rparr>"

definition sample_build_env :: build_env where
  "sample_build_env =
     \<lparr>bn_crates = sample_crates, bn_process = sample_process, bn_catalog = small_catalog, bn_stdlib_env = Some [''lib''],
      bn_exe_dir = None, bn_is_dir = (\<lambda>_. True),
      bn_read = (\<lambda>p. if p = [''lib'', ''react.js''] then Some [1] else None), bn_lossy = (\<lambda>s. s),
      bn_utf8_lossy = string_of, bn_to_lowercase = (\<lambda>s. s), bn_to_uppercase = (\<lambda>s. s),
      bn_error_text = (\<lambda>_. []), bn_unzip = (\<lambda>_. Inl [])\<rparr>"

theorem bundled_libraries_are_the_verified_closure_witness:
  "{x. needed (by_specifier small_catalog) [''react''] x} = {''react''}"
proof -
  have rs: "rs_missing (resolve_imports small_catalog [''react'']) = []"
    "rs_selected (resolve_imports small_catalog [''react'']) =
      [\<lparr>sl_specifier = ''react'', sl_record = ''react@18'', sl_rel = ''react.js'', sl_sha256 = hex_text (sample_sha [1])\<rparr>]"
    by code_simp+
  have "split_on CHR ''/'' ''react.js'' = [''react.js'']" by code_simp
  then have "resolved_aliases sample_build_env (resolve_imports small_catalog [''react'']) =
      Inr ([(''react'', [''lib'', ''react.js''])], [''react@18''])"
    by (simp add: resolved_aliases_def rs locate_dir_def load_verified_def sample_build_env_def sample_crates_def push_new_def Let_def)
  from bundled_libraries_are_the_verified_closure [OF this] show ?thesis by auto
qed

end
