(* ===== verification/Cli_Commands.thy ===== *)
theory Cli_Commands
  imports Cli_Support Container_Files Vault_Protect Connection_Records
begin

text \<open>
  The commands of \<open>poid-cli/src/commands.rs\<close> that work on a container file: checking, signing, updating,
  protecting, extracting, and the conformance suite. Each is a function from the disk to a result and the disk
  after it. A report is what is printed, as JSON and for people; what the platform
  refuses, and the random bytes, are arguments. A report's object lists its keys in the order JSON
  prints them.
\<close>

section \<open>What a command takes from elsewhere\<close>

record cli_env =
  le_crates :: crates
  le_crypto :: crypto
  le_error_text :: "poid_error \<Rightarrow> string"
  le_vault_text :: "vault_error \<Rightarrow> string"
  le_json_from_slice :: "byte list \<Rightarrow> string + json"
  le_lossy :: "string \<Rightarrow> string"

text \<open>What the platform does: files that cannot be read, a write that does not begin or stops after some bytes,
  directories that cannot be made.\<close>

record cli_io =
  lo_unreadable :: "path \<Rightarrow> bool"
  lo_save_fails :: bool
  lo_open_fails :: "path \<Rightarrow> bool"
  lo_written :: "path \<Rightarrow> nat option"
  lo_mkdir_fails :: "path \<Rightarrow> bool"

record report =
  rp_human :: string
  rp_json :: json
  rp_exit_failure :: bool

definition reported :: "string \<Rightarrow> (string \<times> json) list \<Rightarrow> report" where
  "reported human keys = \<lparr>rp_human = human, rp_json = JObject keys, rp_exit_failure = False\<rparr>"

definition nl :: string where
  "nl = [CHR 0x0A]"

definition core_result :: "cli_env \<Rightarrow> poid_error + 'a \<Rightarrow> cmd_error + 'a" where
  "core_result E = map_err (of_poid_error (le_error_text E))"

definition json_nat :: "nat \<Rightarrow> json" where
  "json_nat n = JNumber (show_nat n)"

definition json_path :: "path \<Rightarrow> json" where
  "json_path p = JString (display_path p)"

definition read_file :: "cli_io \<Rightarrow> disk \<Rightarrow> path \<Rightarrow> byte list option" where
  "read_file io d p = (if lo_unreadable io p then None else d p)"

text \<open>\<open>poid_core::open_path\<close> at a path.\<close>

definition file_at :: "cli_io \<Rightarrow> disk \<Rightarrow> path \<Rightarrow> file_system" where
  "file_at io d p =
     \<lparr>fs_metadata_len = (\<lambda>_. case d p of None \<Rightarrow> Inl ''metadata'' | Some b \<Rightarrow> Inr (length b)),
      fs_read = (\<lambda>_. ok_or ''read'' (read_file io d p))\<rparr>"

definition open_file :: "cli_env \<Rightarrow> cli_io \<Rightarrow> disk \<Rightarrow> path \<Rightarrow> cmd_error + poid" where
  "open_file E io d p =
     core_result E (open_path_with_limits (le_crates E) (file_at io d p) limits_default (display_path p))"

text \<open>\<open>fs::write\<close>, which is not atomic.\<close>

definition write_file :: "cli_io \<Rightarrow> path \<Rightarrow> byte list \<Rightarrow> disk \<Rightarrow> (cmd_error + unit) \<times> disk" where
  "write_file io p bytes d =
     (if lo_open_fails io p then (Inl (of_io_error ''write''), d)
      else case lo_written io p of
        Some n \<Rightarrow> (Inl (of_io_error ''write''), d(p \<mapsto> take n bytes))
      | None \<Rightarrow> (Inr (), d(p \<mapsto> bytes)))"

text \<open>Saving a container in place and reporting.\<close>

definition save_and_report ::
  "cli_env \<Rightarrow> cli_io \<Rightarrow> path \<Rightarrow> disk \<Rightarrow> cmd_error + poid \<times> report \<Rightarrow> (cmd_error + report) \<times> disk" where
  "save_and_report E io file d r =
     (case r of
        Inl e \<Rightarrow> (Inl e, d)
      | Inr (p, rep) \<Rightarrow>
          (case save_path (le_crates E) (lo_save_fails io) p file d of
             (Inl e, d) \<Rightarrow> (Inl (of_poid_error (le_error_text E) e), d)
           | (Inr _, d) \<Rightarrow> (Inr rep, d)))"

section \<open>Checking\<close>

definition type_name :: "container_type \<Rightarrow> string" where
  "type_name t = (case t of AppType \<Rightarrow> ''app'' | DataType \<Rightarrow> ''data'' | WorkspaceType \<Rightarrow> ''workspace'')"

definition validate_command :: "cli_env \<Rightarrow> cli_io \<Rightarrow> path \<Rightarrow> disk \<Rightarrow> cmd_error + report" where
  "validate_command E io file d =
     rbind (open_file E io d file) (\<lambda>p.
     rbind (core_result E (verify (le_crates E) p)) (\<lambda>_.
     rbind (core_result E (signature_status_of (le_crates E) p)) (\<lambda>status.
       if status = SigInvalid then Inl (of_poid_error (le_error_text E) SignatureInvalid)
       else Inr (reported (''OK: '' @ display_path file @ '' is a conformant POID (spec '' @ m_poid (c_manifest p) @ '')'')
         [(''spec'', JString (m_poid (c_manifest p))),
         (''type'', JString (type_name (m_type (c_manifest p)))), (''valid'', JBool True)]))))"

definition verify_command :: "cli_env \<Rightarrow> cli_io \<Rightarrow> path \<Rightarrow> disk \<Rightarrow> cmd_error + report" where
  "verify_command E io file d =
     rbind (open_file E io d file) (\<lambda>p.
     rbind (core_result E (verify (le_crates E) p)) (\<lambda>_.
     rbind (core_result E (signature_status_of (le_crates E) p)) (\<lambda>status.
       case status of
         Unsigned \<Rightarrow> Inr (reported (''integrity: OK'' @ nl @ ''signature: none (this POID is unsigned)'')
           [(''integrity'', JString ''ok''), (''signature'', JString ''unsigned'')])
       | SigValid public_key \<Rightarrow> Inr (reported (''integrity: OK'' @ nl @ ''signature: valid'' @ nl @ ''public key: '' @ public_key)
           [(''integrity'', JString ''ok''), (''public_key'', JString public_key),
           (''signature'', JString ''valid'')])
       | SigInvalid \<Rightarrow> Inl (cli_err ''signature-invalid''
           (''integrity is OK, but the signature does not match the content '' @ em_dash @
            '' the file was modified after signing, or the signature is not genuine'')))))"

definition signature_text :: "crates \<Rightarrow> poid \<Rightarrow> string" where
  "signature_text K p =
     (case signature_status_of K p of
        Inr Unsigned \<Rightarrow> ''unsigned''
      | Inr (SigValid public_key) \<Rightarrow> ''valid ('' @ public_key @ '')''
      | Inr SigInvalid \<Rightarrow> ''INVALID''
      | Inl _ \<Rightarrow> ''MALFORMED'')"

definition mode_text :: "storage_mode \<Rightarrow> string" where
  "mode_text m = (case m of Vault \<Rightarrow> ''vault'' | Embedded \<Rightarrow> ''embedded'' | Connection \<Rightarrow> ''connection'')"

definition permissions_lines :: "manifest \<Rightarrow> string list" where
  "permissions_lines m =
     (case m_permissions m of
        None \<Rightarrow> [''(none requested)'']
      | Some p \<Rightarrow>
          [case p_network p of
             None \<Rightarrow> ''network: none '' @ em_dash @ '' enforced by CSP''
           | Some [] \<Rightarrow> ''network: none '' @ em_dash @ '' enforced by CSP''
           | Some origins \<Rightarrow> ''network: '' @ join_str '', '' origins,
           case p_filesystem p of
             Some UserInitiated \<Rightarrow> ''filesystem: only via a file dialog the user opens''
           | _ \<Rightarrow> ''filesystem: none''] @
          List.map_filter (\<lambda>(name, flag). if flag = Some True then Some (name @ '': requested'') else None)
            [(''clipboard'', p_clipboard p), (''print'', p_print p), (''notifications'', p_notifications p)] @
          (case p_mcp p of
             Some mcp \<Rightarrow> if mcp \<noteq> [] then [''mcp: '' @ join_str '', '' mcp] else []
           | None \<Rightarrow> []))"

definition trim_end :: "string \<Rightarrow> string" where
  "trim_end s = concat (rev (dropWhile blank_piece (rev (pieces s))))"

definition pad_left :: "nat \<Rightarrow> string \<Rightarrow> string" where
  "pad_left width s = replicate (width - length s) CHR '' '' @ s"

definition inspect_text :: "manifest \<Rightarrow> string \<Rightarrow> (string \<times> nat) list \<Rightarrow> nat \<Rightarrow> string" where
  "inspect_text m signature rows total_bytes =
     trim_end
       ((case m_app m of
           Some app \<Rightarrow> a_name app @ '' '' @ a_version app @ ''  ('' @ a_id app @ '')'' @ nl | None \<Rightarrow> []) @
        ''type: '' @ type_name (m_type m) @ nl @
        (case m_entry m of Some e \<Rightarrow> ''entry: '' @ e @ nl | None \<Rightarrow> []) @
        (case m_runtime m of Some rt \<Rightarrow> ''runtime: '' @ r_profile rt @ nl | None \<Rightarrow> []) @
        (case m_storage m of Some st \<Rightarrow> ''storage: '' @ mode_text (s_mode st) @ nl | None \<Rightarrow> []) @
        ''signature: '' @ signature @ nl @ ''permissions:'' @ nl @
        concat (map (\<lambda>line. ''  '' @ line @ nl) (permissions_lines m)) @
        ''files: '' @ show_nat (length rows) @ '' entries, '' @ human_size total_bytes @ '' uncompressed'' @ nl @
        concat (map (\<lambda>(path, n). ''  '' @ pad_left 9 (human_size n) @ ''  '' @ path @ nl) rows))"

definition inspect_command :: "cli_env \<Rightarrow> cli_io \<Rightarrow> path \<Rightarrow> disk \<Rightarrow> cmd_error + report" where
  "inspect_command E io file d =
     rbind (open_file E io d file) (\<lambda>p.
       let file_rows = map (\<lambda>(path, content). (path, length content)) (c_files p);
           total_bytes = sum_list (map snd file_rows);
           signature = signature_text (le_crates E) p in
     rbind (core_result E (map_err ManifestErr (to_json_bytes (le_crates E) (c_manifest p)))) (\<lambda>bytes.
     rbind (map_err (cli_err ''io'') (le_json_from_slice E bytes)) (\<lambda>manifest_value.
       Inr (reported (inspect_text (c_manifest p) signature file_rows total_bytes)
         [(''files'', JArray (map (\<lambda>(path, n). JObject [(''bytes'', json_nat n), (''path'', JString path)]) file_rows)),
          (''manifest'', manifest_value),
          (''signature'', JString signature),
          (''total_bytes'', json_nat total_bytes)]))))"

section \<open>Keys and signatures\<close>

text \<open>The seed is what the random generator gives, if it does.\<close>

definition keygen_command ::
  "cli_env \<Rightarrow> cli_io \<Rightarrow> (path \<Rightarrow> bool) \<Rightarrow> string + byte list \<Rightarrow> bool \<Rightarrow> path \<Rightarrow> bool \<Rightarrow> disk \<Rightarrow> (cmd_error + report) \<times> disk" where
  "keygen_command E io exists random permissions_fail output force d =
     (if exists output \<and> \<not> force then
        (Inl (cli_err ''key-exists'' (''`'' @ display_path output @ ''` already exists; pass --force to overwrite it'')), d)
      else case random of
        Inl e \<Rightarrow> (Inl (cli_err ''rng'' (''cannot gather randomness: '' @ e)), d)
      | Inr seed \<Rightarrow>
          let public_key = hex_encode (ed_public (le_crates E) seed) in
          (case write_file io output (bytes_of (hex_encode seed @ [CHR 0x0A])) d of
             (Inl e, d) \<Rightarrow> (Inl e, d)
           | (Inr _, d) \<Rightarrow>
               if permissions_fail then (Inl (of_io_error ''set_permissions''), d)
               else (Inr (reported
                 (''Private key written to '' @ display_path output @ '' '' @ em_dash @ '' keep this file secret.'' @ nl @
                  ''Public key: '' @ public_key)
                 [(''output'', json_path output), (''public_key'', JString public_key)]), d)))"

definition read_seed :: "cli_io \<Rightarrow> path \<Rightarrow> disk \<Rightarrow> cmd_error + byte list" where
  "read_seed io key d =
     rbind (ok_or (cli_err ''key-missing'' (''cannot read key file `'' @ display_path key @ ''`''))
       (Option.bind (read_file io d key) from_utf8)) (\<lambda>key_text.
     ok_or (cli_err ''invalid-key'' ''the key file must contain 64 hex characters (create one with `poid keygen`)'')
       (Option.bind (hex_decode (trim key_text)) (\<lambda>v. if length v = 32 then Some v else None)))"

definition signed_answer :: "cli_env \<Rightarrow> path \<Rightarrow> poid \<Rightarrow> cmd_error + report" where
  "signed_answer E file p =
     rbind (core_result E (signature_status_of (le_crates E) p)) (\<lambda>status.
       case status of
         SigValid public_key \<Rightarrow> Inr (reported (''Signed '' @ display_path file @ nl @ ''Public key: '' @ public_key)
           [(''public_key'', JString public_key), (''signed'', json_path file)])
       | _ \<Rightarrow> Inl (cli_err ''sign-failed'' ''signature did not verify after signing''))"

definition sign_command :: "cli_env \<Rightarrow> cli_io \<Rightarrow> path \<Rightarrow> path \<Rightarrow> disk \<Rightarrow> (cmd_error + report) \<times> disk" where
  "sign_command E io file key d =
     (case rbind (read_seed io key d) (\<lambda>seed.
           rbind (open_file E io d file) (\<lambda>p.
             let (p, r) = sign (le_crates E) seed p in rbind (core_result E r) (\<lambda>_. Inr p))) of
        Inl e \<Rightarrow> (Inl e, d)
      | Inr p \<Rightarrow>
          (case save_path (le_crates E) (lo_save_fails io) p file d of
             (Inl e, d) \<Rightarrow> (Inl (of_poid_error (le_error_text E) e), d)
           | (Inr _, d) \<Rightarrow>
               (signed_answer E file p, d)))"

section \<open>Updating\<close>

definition update_text :: "path \<Rightarrow> update_report \<Rightarrow> string \<Rightarrow> string" where
  "update_text file u version =
     (let notes =
        (if schema_advanced u then
           [''schema '' @ show_nat (unat (u_old_schema_version u)) @ '' '' @ [CHR 0xE2, CHR 0x86, CHR 0x92] @ '' '' @
            show_nat (unat (u_new_schema_version u)) @ '': migrations will run on next open''] else []) @
        (if u_permissions_widened u then [''permissions widened: the reader will re-request consent''] else [])
      in ''Updated '' @ display_path file @ '' to v'' @ version @ ''. Data preserved.'' @
         (if notes = [] then [] else nl @ ''  '' @ join_str (nl @ ''  '') notes))"

definition update_command :: "cli_env \<Rightarrow> cli_io \<Rightarrow> path \<Rightarrow> path \<Rightarrow> disk \<Rightarrow> (cmd_error + report) \<times> disk" where
  "update_command E io file from_file d =
     save_and_report E io file d
       (rbind (open_file E io d file) (\<lambda>target.
        rbind (open_file E io d from_file) (\<lambda>newer.
        rbind (core_result E (update_program (le_crates E) target newer)) (\<lambda>(target, u).
          let version = (case m_app (c_manifest target) of Some a \<Rightarrow> a_version a | None \<Rightarrow> ''?'') in
          Inr (target, reported (update_text file u version)
            [(''new_schema_version'', json_nat (unat (u_new_schema_version u))),
             (''old_schema_version'', json_nat (unat (u_old_schema_version u))),
             (''permissions_widened'', JBool (u_permissions_widened u)),
             (''schema_advanced'', JBool (schema_advanced u)),
             (''updated'', json_path file),
             (''version'', JString version)])))))"

section \<open>Protecting\<close>

definition passphrase_of :: "string option \<Rightarrow> string option \<Rightarrow> cmd_error + string" where
  "passphrase_of flag env_var =
     (let v = (case flag of Some s \<Rightarrow> s | None \<Rightarrow> (case env_var of Some s \<Rightarrow> s | None \<Rightarrow> []))
      in if v = [] then Inl (cli_err ''no-passphrase''
           ''provide a passphrase with --passphrase or the POID_PASSPHRASE environment variable'')
         else Inr v)"

text \<open>The container with its data sealed, under the random salt and nonce.\<close>

definition protected_container ::
  "cli_env \<Rightarrow> string \<Rightarrow> string + byte list \<Rightarrow> string + byte list \<Rightarrow> poid \<Rightarrow> cmd_error + poid" where
  "protected_container E passphrase salt nonce p =
     (if is_protected p then Inl (cli_err ''already-protected'' ''this container's data is already encrypted'')
      else
        rbind (ok_or (cli_err ''no-data''
          (''this container has no embedded data to protect (SPEC '' @ [CHR 0xC2, CHR 0xA7] @ ''9.2 protects `data/`)''))
          (data_of p)) (\<lambda>plaintext.
        rbind (map_err (\<lambda>e. cli_err ''rng'' (''cannot gather randomness: '' @ e)) salt) (\<lambda>salt.
        rbind (map_err (\<lambda>e. cli_err ''rng'' (''cannot gather randomness: '' @ e)) nonce) (\<lambda>nonce.
        rbind (map_err (\<lambda>e. cli_err ''encrypt'' (le_vault_text E e))
          (rbind (seal (le_crypto E) plaintext (bytes_of passphrase) salt nonce kdf_params_default)
             (envelope_to_bytes (le_crypto E)))) (\<lambda>bytes.
          Inr (set_protected_blob bytes p))))))"

definition protect_command ::
  "cli_env \<Rightarrow> cli_io \<Rightarrow> string option \<Rightarrow> string option \<Rightarrow> string + byte list \<Rightarrow> string + byte list \<Rightarrow> path \<Rightarrow> disk \<Rightarrow>
   (cmd_error + report) \<times> disk" where
  "protect_command E io flag env_var salt nonce file d =
     save_and_report E io file d
       (rbind (passphrase_of flag env_var) (\<lambda>passphrase.
        rbind (open_file E io d file) (\<lambda>p.
        rbind (protected_container E passphrase salt nonce p) (\<lambda>p.
          Inr (p, reported
            (''Encrypted the data in '' @ display_path file @ '' (AES-256-GCM + Argon2id).'' @ nl @
             ''Note: sending a POID with no data is safer still '' @ em_dash @ '' absent data cannot leak.'')
            [(''alg'', JString ''aes-256-gcm''), (''protected'', json_path file)])))))"

text \<open>Opening an envelope may panic, as the value \<open>None\<close>.\<close>

definition unprotected_container :: "cli_env \<Rightarrow> string \<Rightarrow> poid \<Rightarrow> (cmd_error + poid) option" where
  "unprotected_container E passphrase p =
     pbind (Some (ok_or (cli_err ''not-protected'' ''this container has no encrypted data (`data/store.enc`)'')
       (protected_blob p))) (\<lambda>blob.
     pbind (Some (map_err (\<lambda>e. cli_err ''decrypt'' (le_vault_text E e)) (envelope_from_bytes (le_crypto E) blob)))
       (\<lambda>env.
     pbind (map_option (map_err (\<lambda>e. cli_err ''decrypt'' (le_vault_text E e)))
       (open_envelope (le_crypto E) env (bytes_of passphrase))) (\<lambda>plaintext.
       Some (Inr (set_plain_data plaintext p)))))"

definition unprotect_command ::
  "cli_env \<Rightarrow> cli_io \<Rightarrow> string option \<Rightarrow> string option \<Rightarrow> path \<Rightarrow> disk \<Rightarrow> ((cmd_error + report) \<times> disk) option" where
  "unprotect_command E io flag env_var file d =
     map_option (save_and_report E io file d)
       (pbind (Some (passphrase_of flag env_var)) (\<lambda>passphrase.
        pbind (Some (open_file E io d file)) (\<lambda>p.
        pbind (unprotected_container E passphrase p) (\<lambda>p.
          Some (Inr (p, reported (''Decrypted the data in '' @ display_path file @ '' back to plaintext.'') [(''unprotected'', json_path file)]))))))"


section \<open>Taking things out\<close>

definition escapes :: "string \<Rightarrow> bool" where
  "escapes path \<longleftrightarrow> starts_with path ''/'' \<or> contains path ''..'' \<or> CHR 0x5C \<in> set path"

definition extracted_path :: "path \<Rightarrow> string \<Rightarrow> path" where
  "extracted_path output path = output @ split_on CHR ''/'' path"

fun extract_files ::
  "cli_io \<Rightarrow> path \<Rightarrow> (string \<times> byte list) list \<Rightarrow> nat \<Rightarrow> disk \<Rightarrow> (cmd_error + nat) \<times> disk" where
  "extract_files io output [] count d = (Inr count, d)"
| "extract_files io output ((path, content) # rest) count d =
     (if escapes path then (Inl (cli_err ''path-traversal'' (''refusing to extract `'' @ path @ ''`'')), d)
      else
        let dest = extracted_path output path in
        if lo_mkdir_fails io (butlast dest) then (Inl (of_io_error ''create_dir_all''), d)
        else case write_file io dest content d of
          (Inl e, d) \<Rightarrow> (Inl e, d)
        | (Inr _, d) \<Rightarrow> extract_files io output rest (count + 1) d)"

text \<open>The directory: whether it is there, and whether it holds anything (reading it may fail).\<close>

definition extract_command ::
  "cli_env \<Rightarrow> cli_io \<Rightarrow> (path \<Rightarrow> bool) \<Rightarrow> (path \<Rightarrow> string + bool) \<Rightarrow> bool \<Rightarrow> path \<Rightarrow> path \<Rightarrow> disk \<Rightarrow>
   (cmd_error + report) \<times> disk" where
  "extract_command E io exists has_entries force file output d =
     (case rbind (open_file E io d file) (\<lambda>p.
           rbind (if exists output then map_err of_io_error (has_entries output) else Inr False) (\<lambda>occupied.
           if occupied \<and> \<not> force then
             Inl (cli_err ''dir-not-empty''
               (''`'' @ display_path output @ ''` is not empty; pass --force to extract into it anyway''))
           else if lo_mkdir_fails io output then Inl (of_io_error ''create_dir_all'')
           else Inr p)) of
        Inl e \<Rightarrow> (Inl e, d)
      | Inr p \<Rightarrow>
          (case write_file io (output @ [''mimetype'']) (bytes_of media_type) d of
             (Inl e, d) \<Rightarrow> (Inl e, d)
           | (Inr _, d) \<Rightarrow>
               (case core_result E (map_err ManifestErr (to_json_bytes (le_crates E) (c_manifest p))) of
                  Inl e \<Rightarrow> (Inl e, d)
                | Inr manifest_bytes \<Rightarrow>
                    (case write_file io (output @ [''manifest.json'']) manifest_bytes d of
                       (Inl e, d) \<Rightarrow> (Inl e, d)
                     | (Inr _, d) \<Rightarrow>
                         (case extract_files io output (c_files p) 2 d of
                            (Inl e, d) \<Rightarrow> (Inl e, d)
                          | (Inr count, d) \<Rightarrow>
                              (Inr (reported (''Extracted '' @ show_nat count @ '' files to '' @ display_path output)
                                [(''files'', json_nat count), (''output'', json_path output)]), d))))))"

definition data_command :: "cli_env \<Rightarrow> cli_io \<Rightarrow> path \<Rightarrow> path \<Rightarrow> disk \<Rightarrow> (cmd_error + report) \<times> disk" where
  "data_command E io file export d =
     (case rbind (open_file E io d file) (\<lambda>p.
           ok_or (cli_err ''no-data'' (''this container has no embedded data (storage mode: '' @
             (case m_storage (c_manifest p) of Some s \<Rightarrow> mode_text (s_mode s) | None \<Rightarrow> ''unknown'') @ '')'')) (data_of p)) of
        Inl e \<Rightarrow> (Inl e, d)
      | Inr bytes \<Rightarrow>
          if lo_save_fails io then (Inl (of_io_error ''write''), d)
          else (Inr (reported
            (''Exported '' @ human_size (length bytes) @ '' of user data to '' @ display_path export) [(''bytes'', json_nat (length bytes)), (''export'', json_path export)]), d(export \<mapsto> bytes)))"

section \<open>The conformance suite\<close>

text \<open>A directory of the suite, as the platform lists it, with what its files hold.\<close>

type_synonym listing = "(string \<times> byte list option) list"

record fixture_row =
  fr_name :: string
  fr_pass :: bool
  fr_expected :: string
  fr_got :: string

definition has_poid_extension :: "string \<Rightarrow> bool" where
  "has_poid_extension name = (case rsplit_once CHR ''.'' name of
     Some (stem, ext) \<Rightarrow> stem \<noteq> [] \<and> ext = ''poid'' | None \<Rightarrow> False)"

definition json_field :: "json \<Rightarrow> string \<Rightarrow> json" where
  "json_field j key = (case j of JObject fs \<Rightarrow> (case map_of fs key of Some v \<Rightarrow> v | None \<Rightarrow> JNull) | _ \<Rightarrow> JNull)"

text \<open>The verdict the sibling file names.\<close>

definition expected_verdict :: "cli_env \<Rightarrow> string \<Rightarrow> string \<Rightarrow> listing \<Rightarrow> cmd_error + string" where
  "expected_verdict E grp stem listing =
     rbind (ok_or (cli_err ''suite-invalid''
         (''fixture '' @ grp @ ''/'' @ stem @ '' lacks a sibling '' @ stem @ ''.expected.json''))
       (Option.bind (map_of listing (stem @ ''.expected.json'')) id)) (\<lambda>expected_bytes.
     rbind (map_err (\<lambda>e. cli_err ''suite-invalid'' (stem @ ''.expected.json: '' @ e)) (le_json_from_slice E expected_bytes)) (\<lambda>expected.
       case json_field expected ''valid'' of
         JBool want_valid \<Rightarrow>
           Inr (if want_valid then ''valid''
                else case json_field expected ''code'' of JString c \<Rightarrow> c | _ \<Rightarrow> ''invalid'')
       | _ \<Rightarrow> Inl (cli_err ''suite-invalid'' (stem @ ''.expected.json lacks a boolean `valid`''))))"

definition verdict :: "cli_env \<Rightarrow> byte list \<Rightarrow> string" where
  "verdict E bytes =
     (case conformance_check (le_crates E) limits_default bytes of
        Inr _ \<Rightarrow> ''valid''
      | Inl e \<Rightarrow> (case conformance_code e of Some c \<Rightarrow> c | None \<Rightarrow> ''io''))"

definition fixture_row_of :: "cli_env \<Rightarrow> string \<Rightarrow> listing \<Rightarrow> string \<times> byte list option \<Rightarrow> cmd_error + fixture_row" where
  "fixture_row_of E grp listing f =
     (let stem = le_lossy E (file_stem (fst f)) in
      rbind (expected_verdict E grp stem listing) (\<lambda>want.
      rbind (ok_or (of_io_error ''read'') (snd f)) (\<lambda>bytes.
        let got = verdict E bytes in
        Inr \<lparr>fr_name = grp @ ''/'' @ stem, fr_pass = (got = want), fr_expected = want, fr_got = got\<rparr>)))"

fun fixture_rows ::
  "cli_env \<Rightarrow> string \<Rightarrow> listing \<Rightarrow> (string \<times> byte list option) list \<Rightarrow> cmd_error + fixture_row list" where
  "fixture_rows E grp listing [] = Inr []"
| "fixture_rows E grp listing (f # rest) =
     rbind (fixture_row_of E grp listing f) (\<lambda>row.
     rbind (fixture_rows E grp listing rest) (\<lambda>rows. Inr (row # rows)))"

definition group_rows :: "cli_env \<Rightarrow> path \<Rightarrow> (string \<Rightarrow> listing option) \<Rightarrow> string \<Rightarrow> cmd_error + fixture_row list" where
  "group_rows E dir suite grp =
     rbind (ok_or (cli_err ''suite-missing''
         (''`'' @ display_path dir @ ''` does not contain a `'' @ grp @ ''/` directory'')) (suite grp)) (\<lambda>listing.
       fixture_rows E grp listing (sort_key fst (filter (\<lambda>f. has_poid_extension (fst f)) listing)))"

definition conformance_report :: "fixture_row list \<Rightarrow> report" where
  "conformance_report rows =
     (let count = length rows; passed = length (filter fr_pass rows); failed = count - passed in
      \<lparr>rp_human = trim_end (concat (map (\<lambda>r.
           if fr_pass r then ''PASS  '' @ fr_name r @ nl
           else ''FAIL  '' @ fr_name r @ ''  expected '' @ fr_expected r @ '', got '' @ fr_got r @ nl) rows) @
         nl @ show_nat passed @ ''/'' @ show_nat count @ '' fixtures passed'' @
         (if failed = 0 then '' '' @ em_dash @ '' conformant'' else [])),
       rp_json = JObject
         [(''failed'', json_nat failed), (''passed'', json_nat passed),
          (''results'', JArray (map (\<lambda>r. JObject
             [(''expected'', JString (fr_expected r)), (''fixture'', JString (fr_name r)), (''got'', JString (fr_got r)),
              (''pass'', JBool (fr_pass r))]) rows)),
          (''total'', json_nat count)],
       rp_exit_failure = (0 < failed)\<rparr>)"

definition conformance_command :: "cli_env \<Rightarrow> path \<Rightarrow> (string \<Rightarrow> listing option) \<Rightarrow> cmd_error + report" where
  "conformance_command E dir suite =
     rbind (group_rows E dir suite ''valid'') (\<lambda>valid_rows.
     rbind (group_rows E dir suite ''invalid'') (\<lambda>invalid_rows.
       let rows = valid_rows @ invalid_rows in
       if rows = [] then Inl (cli_err ''suite-missing'' ''no fixtures found'')
       else Inr (conformance_report rows)))"

section \<open>The exit code and the error text (\<open>main.rs\<close>)\<close>

definition exits_well :: "cmd_error + report \<Rightarrow> bool" where
  "exits_well r = (case r of Inl _ \<Rightarrow> False | Inr rep \<Rightarrow> \<not> rp_exit_failure rep)"

definition error_json :: "cmd_error \<Rightarrow> json" where
  "error_json e = JObject [(''error'', JObject
     [(''code'', JString (ce_code e)), (''message'', JString (ce_message e)),
      (''poid'', case ce_poid_code e of Some c \<Rightarrow> JString c | None \<Rightarrow> JNull)])]"

definition error_line :: "cmd_error \<Rightarrow> string" where
  "error_line e =
     ''error['' @ ce_code e @ (case ce_poid_code e of Some c \<Rightarrow> '' / '' @ c | None \<Rightarrow> []) @ '']: '' @ ce_message e"


section \<open>Checking\<close>

lemma core_result_ok [simp]: "core_result E m = Inr x \<longleftrightarrow> m = Inr x" "is_ok (core_result E m) \<longleftrightarrow> is_ok m"
  by (cases m; simp add: core_result_def is_ok_def)+

lemma is_ok_rbind: "is_ok (rbind m f) \<longleftrightarrow> (\<exists>x. m = Inr x \<and> is_ok (f x))"
  by (cases m) (simp_all add: is_ok_def)

lemma open_file_ok:
  "open_file E io d file = Inr p \<longleftrightarrow>
     (\<exists>bytes. d file = Some bytes \<and> \<not> lo_unreadable io file \<and> length bytes \<le> max_total_uncompressed limits_default \<and>
        open_with_limits (le_crates E) limits_default bytes = Inr p)"
  by (auto simp: open_file_def open_path_with_limits_def file_at_def read_file_def result_simps not_less
      split: option.splits if_splits)

text \<open>
  \<open>validate\<close> and \<open>verify\<close> accept the same files, and exactly those the conformance check of the core passes:
  a file that can be read, is no longer than the size limit, opens, has the digests it declares, and carries no
  signature or a valid one.
\<close>

theorem checks_accept_exactly_conformant_files:
  "(is_ok (validate_command E io file d) \<longleftrightarrow>
      (\<exists>bytes. d file = Some bytes \<and> \<not> lo_unreadable io file \<and> length bytes \<le> max_total_uncompressed limits_default \<and>
         is_ok (conformance_check (le_crates E) limits_default bytes))) \<and>
   (is_ok (verify_command E io file d) \<longleftrightarrow> is_ok (validate_command E io file d))"
proof -
  let ?passes = "\<lambda>p. verify (le_crates E) p = Inr () \<and> (\<exists>s. signature_status_of (le_crates E) p = Inr s \<and> s \<noteq> SigInvalid)"
  have validate: "is_ok (validate_command E io file d) \<longleftrightarrow> (\<exists>p. open_file E io d file = Inr p \<and> ?passes p)"
    unfolding validate_command_def is_ok_rbind core_result_ok by (auto simp: is_ok_def)
  have answers: "is_ok (case s of Unsigned \<Rightarrow> Inr a | SigValid k \<Rightarrow> Inr (f k) | SigInvalid \<Rightarrow> Inl e) \<longleftrightarrow> s \<noteq> SigInvalid"
    for s and a :: report and f and e :: cmd_error
    by (cases s) (simp_all add: is_ok_def)
  have verify: "is_ok (verify_command E io file d) \<longleftrightarrow> (\<exists>p. open_file E io d file = Inr p \<and> ?passes p)"
    unfolding verify_command_def is_ok_rbind core_result_ok answers by auto
  have check: "is_ok (conformance_check (le_crates E) limits_default bytes) \<longleftrightarrow>
      (\<exists>p. open_with_limits (le_crates E) limits_default bytes = Inr p \<and> ?passes p)" for bytes
    unfolding conformance_check_def is_ok_rbind by (auto simp: is_ok_def)
  show ?thesis unfolding verify validate check open_file_ok by blast
qed

section \<open>Replacing in place\<close>

text \<open>The file has become a packed container, and nothing else has changed.\<close>

definition replaced :: "cli_env \<Rightarrow> path \<Rightarrow> disk \<Rightarrow> disk \<Rightarrow> bool" where
  "replaced E file d d' \<longleftrightarrow> (\<exists>p bytes. to_bytes (le_crates E) p = Inr bytes \<and> d' = d(file \<mapsto> bytes))"

definition replace_or_keep :: "cli_env \<Rightarrow> path \<Rightarrow> disk \<Rightarrow> (cmd_error + 'a) \<times> disk \<Rightarrow> bool" where
  "replace_or_keep E file d r = (case r of (Inl _, d') \<Rightarrow> d' = d | (Inr _, d') \<Rightarrow> replaced E file d d')"

lemma save_and_report_replaces: "replace_or_keep E file d (save_and_report E io file d r)"
  by (auto simp: replace_or_keep_def replaced_def save_and_report_def save_path_done
      dest: save_path_failed split: sum.splits prod.splits)



section \<open>Protecting\<close>

lemma set_protected_blob_fields:
  "c_files (set_protected_blob envelope p) = bt_insert data_store_enc envelope (bt_remove data_store (c_files p))"
  "is_protected (set_protected_blob envelope p)"
  by (simp_all add: set_protected_blob_def storage_mut_def put_file_def is_protected_def)

lemma set_plain_data_fields:
  "c_files (set_plain_data plaintext p) = bt_insert data_store plaintext (bt_remove data_store_enc (c_files p))"
  "\<not> is_protected (set_plain_data plaintext p)"
  by (simp_all add: set_plain_data_def storage_mut_def put_file_def is_protected_def)

lemma data_names_differ [simp]: "data_store \<noteq> data_store_enc" "data_store_enc \<noteq> data_store"
  by (simp_all add: data_store_def data_store_enc_def)

lemma protected_container_done:
  assumes "protected_container E passphrase salt nonce p = Inr q"
  obtains plaintext salt_bytes nonce_bytes env bytes where "\<not> is_protected p" "data_of p = Some plaintext"
    "salt = Inr salt_bytes" "nonce = Inr nonce_bytes"
    "seal (le_crypto E) plaintext (bytes_of passphrase) salt_bytes nonce_bytes kdf_params_default = Inr env"
    "envelope_to_bytes (le_crypto E) env = Inr bytes" "q = set_protected_blob bytes p"
  using assms by (auto simp: protected_container_def result_simps split: if_splits)

text \<open>
  C28: What \<open>protect\<close> has encrypted, \<open>unprotect\<close> with the same passphrase restores: the protected container has no
  data in the clear and says it is protected, and unprotecting it gives back the data byte for byte, with
  every other file as it was and the flag cleared. A container that is protected already, or has no data, is
  refused.
\<close>

theorem unprotecting_undoes_protecting:
  assumes "aead_ok (le_crypto E)"
    and serde: "\<And>env bytes. cr_to_vec (le_crypto E) env = Inr bytes \<Longrightarrow> cr_from_slice (le_crypto E) bytes = Inr env"
    and "bt_ok (c_files p)"
    and run: "protected_container E passphrase salt (Inr nonce) p = Inr q" "length nonce = nonce_len"
  shows "is_protected q \<and> data_of q = None \<and>
    (\<exists>r. unprotected_container E passphrase q = Some (Inr r) \<and> \<not> is_protected r \<and> protected_blob r = None \<and>
       data_of r = data_of p \<and>
       c_files r = bt_insert data_store (the (data_of p)) (bt_remove data_store_enc (c_files p)))"
proof -
  from run(1) obtain plaintext salt_bytes env bytes where data: "data_of p = Some plaintext"
    and sealed: "seal (le_crypto E) plaintext (bytes_of passphrase) salt_bytes nonce kdf_params_default = Inr env"
    and bytes: "envelope_to_bytes (le_crypto E) env = Inr bytes" and q: "q = set_protected_blob bytes p"
    by (rule protected_container_done) simp
  have from_bytes: "envelope_from_bytes (le_crypto E) bytes = Inr env"
    using bytes serde by (simp add: envelope_to_bytes_def envelope_from_bytes_def result_simps)
  have opened: "open_envelope (le_crypto E) env (bytes_of passphrase) = Some (Inr plaintext)"
    using sealed_opens [OF assms(1) sealed run(2), of "[]"] by (rule conjunct1)
  have files: "c_files q = bt_insert data_store_enc bytes (bt_remove data_store (c_files p))" "is_protected q"
    unfolding q by (rule set_protected_blob_fields)+
  have blob: "protected_blob q = Some bytes" "data_of q = None"
    using assms(3) by (simp_all add: protected_blob_def data_of_def file_of_def files bt_get_remove)
  have "unprotected_container E passphrase q = Some (Inr (set_plain_data plaintext q))"
    using from_bytes opened by (simp add: unprotected_container_def blob pbind_def)
  moreover have "c_files (set_plain_data plaintext q) = bt_insert data_store plaintext (bt_remove data_store_enc (c_files p))"
    unfolding set_plain_data_fields files using assms(3)
    by (intro bt_ext) (auto simp: bt_get_remove)
  moreover have "protected_blob (set_plain_data plaintext q) = None" "data_of (set_plain_data plaintext q) = Some plaintext"
    using assms(3) by (simp_all add: protected_blob_def data_of_def file_of_def set_plain_data_fields files bt_get_remove)
  ultimately show ?thesis using files(2) blob(2) data set_plain_data_fields(2) [of plaintext q] by auto
qed

text \<open>
  A protected container may still hold state in the clear: only \<open>data/store.json\<close> is encrypted. The SQL
  database and the stores of the slots are the same bytes as before, in a container whose manifest says that
  its data is protected.
\<close>

theorem protecting_leaves_other_state_in_the_clear:
  assumes "bt_ok (c_files p)" "protected_container E passphrase salt nonce p = Inr q"
    and "path \<notin> {data_store, data_store_enc}"
  shows "is_protected q \<and> file_of q path = file_of p path \<and> sql_data q = sql_data p"
proof -
  obtain bytes where "q = set_protected_blob bytes p" by (rule protected_container_done [OF assms(2)])
  then have q: "c_files q = bt_insert data_store_enc bytes (bt_remove data_store (c_files p))" "is_protected q"
    using set_protected_blob_fields by simp_all
  have "data_sql \<notin> {data_store, data_store_enc}" by (simp add: data_sql_def data_store_def data_store_enc_def)
  with assms(1,3) q show ?thesis by (simp add: file_of_def sql_data_def bt_get_remove)
qed


text \<open>The witness: the sample cipher with a serialization of the one envelope that is made.\<close>

definition sample_cli :: "envelope \<Rightarrow> cli_env" where
  "sample_cli made =
     \<lparr>le_crates = sample_reader_crates,
      le_crypto = sample_crypto\<lparr>cr_to_vec := (\<lambda>env. if env = made then Inr [1] else Inl ''''), cr_from_slice := (\<lambda>_. Inr made)\<rparr>,
      le_error_text = (\<lambda>_. ''''), le_vault_text = (\<lambda>_. ''''), le_json_from_slice = (\<lambda>_. Inr JNull), le_lossy = id\<rparr>"

definition sample_stateful :: poid where
  "sample_stateful = sample_poid\<lparr>c_files := [(''app/i'', [1]), (data_sql, [3]), (data_store, [2])]\<rparr>"

lemma sample_protects:
  obtains made q where
    "protected_container (sample_cli made) ''pw'' (Inr (replicate 16 0)) (Inr (replicate 12 3)) sample_stateful = Inr q"
    "aead_ok (le_crypto (sample_cli made))" "bt_ok (c_files sample_stateful)"
    "data_of sample_stateful = Some [2]" "sql_data sample_stateful = Some [3]"
proof -
  obtain made where made: "seal sample_crypto [2] (bytes_of ''pw'') (replicate 16 0) (replicate 12 3) kdf_params_default = Inr made"
    by (simp add: seal_def derive_key_def sample_crypto_def)
  have same: "seal (le_crypto (sample_cli made)) = seal sample_crypto"
    by (simp add: fun_eq_iff seal_def derive_key_def sample_cli_def)
  have stored: "envelope_to_bytes (le_crypto (sample_cli made)) made = Inr [1]"
    by (simp add: envelope_to_bytes_def sample_cli_def)
  have "\<not> is_protected sample_stateful"
    by (simp add: is_protected_def sample_stateful_def sample_poid_def new_app_def)
  moreover have data: "data_of sample_stateful = Some [2]" "sql_data sample_stateful = Some [3]"
    by (simp_all add: data_of_def sql_data_def file_of_def sample_stateful_def data_store_def data_sql_def)
  ultimately have "\<exists>q. protected_container (sample_cli made) ''pw'' (Inr (replicate 16 0)) (Inr (replicate 12 3)) sample_stateful = Inr q"
    using made stored by (simp add: protected_container_def same)
  moreover have "aead_ok (le_crypto (sample_cli made))"
    by (auto simp: aead_ok_def sample_cli_def sample_crypto_def strip_prefix_eq_Some)
  moreover have "bt_ok (c_files sample_stateful)"
    by (simp add: sample_stateful_def bt_ok_def data_sql_def data_store_def)
  ultimately show ?thesis using data that by blast
qed


theorem unprotecting_undoes_protecting_witness:
  "\<exists>made q r. protected_container (sample_cli made) ''pw'' (Inr (replicate 16 0)) (Inr (replicate 12 3)) sample_stateful = Inr q \<and>
     unprotected_container (sample_cli made) ''pw'' q = Some (Inr r) \<and> data_of r = Some [2]"
proof -
  obtain made q where run:
    "protected_container (sample_cli made) ''pw'' (Inr (replicate 16 0)) (Inr (replicate 12 3)) sample_stateful = Inr q"
    and ok: "aead_ok (le_crypto (sample_cli made))" "bt_ok (c_files sample_stateful)"
    and data: "data_of sample_stateful = Some [2]"
    by (rule sample_protects)
  have serde: "cr_from_slice (le_crypto (sample_cli made)) bytes = Inr env"
    if "cr_to_vec (le_crypto (sample_cli made)) env = Inr bytes" for env bytes
    using that by (simp add: sample_cli_def split: if_splits)
  have "length (replicate 12 3 :: byte list) = nonce_len" by (simp add: nonce_len_def)
  from unprotecting_undoes_protecting [OF ok(1) serde ok(2) run this] run data show ?thesis by metis
qed

theorem protecting_leaves_other_state_in_the_clear_witness:
  "\<exists>made q. protected_container (sample_cli made) ''pw'' (Inr (replicate 16 0)) (Inr (replicate 12 3)) sample_stateful = Inr q \<and>
     is_protected q \<and> sql_data q = Some [3]"
proof -
  obtain made q where run:
    "protected_container (sample_cli made) ''pw'' (Inr (replicate 16 0)) (Inr (replicate 12 3)) sample_stateful = Inr q"
    and ok: "bt_ok (c_files sample_stateful)" and data: "sql_data sample_stateful = Some [3]"
    by (rule sample_protects)
  have "data_sql \<notin> {data_store, data_store_enc}" by (simp add: data_sql_def data_store_def data_store_enc_def)
  from protecting_leaves_other_state_in_the_clear [OF ok run this] run data show ?thesis by auto
qed

section \<open>Extracting\<close>

lemma opened_container_inv: "open_with_limits K l bytes = Inr p \<Longrightarrow> container_inv p"
  unfolding open_iff using acceptable_container(1) by blast

lemma escapes_container_path:
  "container_path path \<Longrightarrow> escapes path \<longleftrightarrow> contains path ''..''"
proof -
  assume path: "container_path path"
  have "CHR 0x5C \<notin> set path"
  proof
    assume "CHR 0x5C \<in> set path"
    then have "\<exists>s\<in>set (split_on CHR ''/'' path). CHR 0x5C \<in> set s" by (simp add: in_split_on)
    with path show False by (auto simp: container_path_def plain_segment_def list_all_iff)
  qed
  with container_path_not_absolute [OF path] show ?thesis by (simp add: escapes_def)
qed

text \<open>A path may be legal and yet be refused: two dots inside a name.\<close>

lemma legal_path_refused: "check_container_path ''app/a..b'' = Inr () \<and> escapes ''app/a..b''"
proof
  show path: "check_container_path ''app/a..b'' = Inr ()" by code_simp
  have "contains ''app/a..b'' ''..''"
    unfolding contains_iff by (rule exI [of _ "''app/a''"], rule exI [of _ "''b''"]) simp
  then show "escapes ''app/a..b''" by (simp add: escapes_def)
qed

text \<open>What an extraction is to write.\<close>

definition extraction :: "path \<Rightarrow> byte list \<Rightarrow> files \<Rightarrow> (path \<times> byte list) list" where
  "extraction output manifest files =
     (output @ [''mimetype''], bytes_of media_type) # (output @ [''manifest.json''], manifest) #
     map (\<lambda>(path, content). (extracted_path output path, content)) files"

lemma write_file_frame: "write_file io p bytes d = (r, d') \<Longrightarrow> {q. d' q \<noteq> d q} \<subseteq> {p}"
  by (auto simp: write_file_def split: if_splits option.splits)

lemma changed_trans: "{q. d1 q \<noteq> d q} \<subseteq> A \<Longrightarrow> {q. d2 q \<noteq> d1 q} \<subseteq> A \<Longrightarrow> {q. d2 q \<noteq> d q} \<subseteq> A"
  for d d1 d2 :: disk
proof -
  assume a: "{q. d1 q \<noteq> d q} \<subseteq> A" and b: "{q. d2 q \<noteq> d1 q} \<subseteq> A"
  have "{q. d2 q \<noteq> d q} \<subseteq> {q. d1 q \<noteq> d q} \<union> {q. d2 q \<noteq> d1 q}" by auto
  also have "\<dots> \<subseteq> A" using a b by (rule Un_least)
  finally show ?thesis .
qed

lemma write_file_done: "write_file io p bytes d = (Inr u, d') \<Longrightarrow> d' = d(p \<mapsto> bytes)"
  by (auto simp: write_file_def split: if_splits option.splits)

lemma extract_files_frame:
  "extract_files io out fs n d = (r, d') \<Longrightarrow> {q. d' q \<noteq> d q} \<subseteq> extracted_path out ` fst ` set fs"
proof (induction io out fs n d rule: extract_files.induct)
  case (2 io out path content rest count d)
  obtain w d1 where w: "write_file io (extracted_path out path) content d = (w, d1)"
    by (cases "write_file io (extracted_path out path) content d")
  have first: "{q. d1 q \<noteq> d q} \<subseteq> {extracted_path out path}" by (rule write_file_frame [OF w])
  show ?case
  proof (cases "escapes path \<or> lo_mkdir_fails io (butlast (extracted_path out path)) \<or> (\<exists>e. w = Inl e)")
    case True
    with "2.prems" w have "d' = d \<or> d' = d1" by (auto simp: Let_def split: if_splits)
    with first show ?thesis by auto
  next
    case False
    then obtain u where u: "w = Inr u" by (cases w) auto
    have "{q. d' q \<noteq> d1 q} \<subseteq> extracted_path out ` fst ` set rest"
      using False "2.prems" w u by (intro "2.IH" [OF _ refl _ w [symmetric] u]) auto
    then have "{q. d' q \<noteq> d1 q} \<subseteq> extracted_path out ` fst ` set ((path, content) # rest)"
      by (rule subset_trans) (intro image_mono, simp add: subset_insertI)
    moreover have "{q. d1 q \<noteq> d q} \<subseteq> extracted_path out ` fst ` set ((path, content) # rest)"
      using first by (rule subset_trans) simp
    ultimately show ?thesis by (rule changed_trans [rotated])
  qed
qed simp

lemma extract_files_done:
  assumes "extract_files io out fs n d = (Inr k, d')" "distinct (map (\<lambda>(path, content). extracted_path out path) fs)"
  shows "k = n + length fs \<and> d' = d ++ map_of (map (\<lambda>(path, content). (extracted_path out path, content)) fs)"
  using assms
proof (induction io out fs n d rule: extract_files.induct)
  case (2 io out path content rest count d)
  let ?rest = "map (\<lambda>(path, content). (extracted_path out path, content)) rest"
  obtain w d1 where w: "write_file io (extracted_path out path) content d = (w, d1)"
    by (cases "write_file io (extracted_path out path) content d")
  from "2.prems"(1) w obtain u where u: "w = Inr u" and go: "\<not> escapes path"
    "\<not> lo_mkdir_fails io (butlast (extracted_path out path))"
    by (cases w) (auto simp: Let_def split: if_splits)
  have d1: "d1 = d(extracted_path out path \<mapsto> content)"
    using w u by (simp add: write_file_done)
  have "k = count + 1 + length rest \<and> d' = d1 ++ map_of ?rest"
    using go "2.prems" w u by (intro "2.IH" [OF go(1) refl go(2) w [symmetric] u]) (auto simp: Let_def)
  moreover have "extracted_path out path \<notin> dom (map_of ?rest)"
    using "2.prems"(2) by (auto simp: dom_map_of_conv_image_fst image_image case_prod_beta)
  ultimately show ?case by (auto simp: d1 fun_eq_iff map_add_def split: option.splits)
qed simp


lemma extraction_keys:
  assumes "container_inv p"
  shows "distinct (map fst (extraction out manifest (c_files p)))"
    and "fst ` set (extraction out manifest (c_files p)) \<subseteq> {out @ segs |segs. segs \<noteq> []}"
proof -
  have ok: "distinct (map fst (c_files p))" and names: "\<And>k. k \<in> fst ` set (c_files p) \<Longrightarrow> \<not> reserved_name k"
    using assms strict_sorted_iff by (auto simp: container_inv_def bt_ok_def)
  have split_inj: "split_on CHR ''/'' a = split_on CHR ''/'' b \<Longrightarrow> a = b" for a b by (metis join_split)
  have inj: "inj_on (extracted_path out) A" for A by (rule inj_onI) (simp add: extracted_path_def split_inj)
  have reserved: "extracted_path out k \<noteq> out @ [name]" if "k \<in> fst ` set (c_files p)" "reserved_name name" "CHR ''/'' \<notin> set name" for k name
    using names [OF that(1)] that(2) split_on_no_sep [OF that(3)] split_inj [of k name] by (auto simp: extracted_path_def)
  have base: "reserved_name ''mimetype''" "reserved_name ''manifest.json''"
    by (simp_all add: reserved_name_def mimetype_name_def manifest_name_def)
  have keys: "map fst (map (\<lambda>(path, content). (extracted_path out path, content)) (c_files p)) = map (extracted_path out) (map fst (c_files p))"
    by (simp add: case_prod_beta)
  have "distinct (map (extracted_path out) (map fst (c_files p)))"
    using ok inj [of "set (map fst (c_files p))"] by (simp add: distinct_map comp_inj_on)
  moreover have "out @ [''mimetype''] \<notin> extracted_path out ` fst ` set (c_files p)"
    "out @ [''manifest.json''] \<notin> extracted_path out ` fst ` set (c_files p)"
    using reserved base by fastforce+
  ultimately show "distinct (map fst (extraction out manifest (c_files p)))"
    unfolding extraction_def list.map keys by (simp add: image_comp)
  show "fst ` set (extraction out manifest (c_files p)) \<subseteq> {out @ segs |segs. segs \<noteq> []}"
    by (auto simp: extraction_def extracted_path_def)
qed


lemma map_of_key: "map_of kvs q = Some c \<Longrightarrow> q \<in> set (map fst kvs)"
  using map_of_SomeD by force

lemma extract_writes:
  assumes "container_inv p" and man: "to_json_bytes (le_crates E) (c_manifest p) = Inr manifest"
    and w1: "write_file io (out @ [''mimetype'']) (bytes_of media_type) d = (r1, d1)"
    and w2: "write_file io (out @ [''manifest.json'']) manifest d1 = (r2, d2)"
    and w3: "extract_files io out (c_files p) 2 d2 = (r3, d3)"
  shows "{q. d1 q \<noteq> d q} \<subseteq> {out @ segs |segs. segs \<noteq> []}" "{q. d2 q \<noteq> d q} \<subseteq> {out @ segs |segs. segs \<noteq> []}"
    and "{q. d3 q \<noteq> d q} \<subseteq> {out @ segs |segs. segs \<noteq> []}"
    and "r1 = Inr u1 \<Longrightarrow> r2 = Inr u2 \<Longrightarrow> r3 = Inr k \<Longrightarrow>
      k = 2 + length (c_files p) \<and> d3 = d ++ map_of (extraction out manifest (c_files p))"
proof -
  let ?in = "{out @ segs |segs. segs \<noteq> []}"
  show d1: "{q. d1 q \<noteq> d q} \<subseteq> ?in" using write_file_frame [OF w1] by auto
  have "{q. d2 q \<noteq> d1 q} \<subseteq> ?in" using write_file_frame [OF w2] by auto
  with d1 show d2: "{q. d2 q \<noteq> d q} \<subseteq> ?in" by (rule changed_trans)
  have "extracted_path out k \<in> ?in" for k by (simp add: extracted_path_def)
  with extract_files_frame [OF w3] have "{q. d3 q \<noteq> d2 q} \<subseteq> ?in" by blast
  with d2 show "{q. d3 q \<noteq> d q} \<subseteq> ?in" by (rule changed_trans)
  assume r: "r1 = Inr u1" "r2 = Inr u2" "r3 = Inr k"
  note dist = extraction_keys(1) [OF assms(1), of out manifest]
  let ?files = "map (\<lambda>(path, content). (extracted_path out path, content)) (c_files p)"
  have names: "map fst ?files = map (\<lambda>(path, content). extracted_path out path) (c_files p)"
    by (simp add: case_prod_beta)
  then have "distinct (map (\<lambda>(path, content). extracted_path out path) (c_files p))"
    using dist unfolding extraction_def list.map names by simp
  from extract_files_done [OF w3 [unfolded r] this]
  have k: "k = 2 + length (c_files p)" and d3: "d3 = d2 ++ map_of ?files" by blast+
  have d2: "d2 = d(out @ [''mimetype''] \<mapsto> bytes_of media_type, out @ [''manifest.json''] \<mapsto> manifest)"
    using write_file_done w1 w2 r by metis
  have "d3 q = (d ++ map_of (extraction out manifest (c_files p))) q" for q
  proof (cases "map_of ?files q")
    case (Some c)
    then have q: "q \<in> set (map fst ?files)" by (rule map_of_key)
    from dist have "distinct ((out @ [''mimetype'']) # (out @ [''manifest.json'']) # map fst ?files)"
      unfolding extraction_def list.map fst_conv .
    with q have "q \<noteq> out @ [''mimetype'']" "q \<noteq> out @ [''manifest.json'']"
      unfolding distinct.simps(2) list.set by (metis insertI2)+
    with Some show ?thesis by (simp add: d3 extraction_def map_add_def)
  qed (simp add: d3 d2 extraction_def map_add_def)
  then show "k = 2 + length (c_files p) \<and> d3 = d ++ map_of (extraction out manifest (c_files p))"
    using k by (simp add: fun_eq_iff)
qed


section \<open>The suite\<close>

text \<open>A fixture whose expectation can be read and whose verdict is the one expected.\<close>

definition agrees :: "cli_env \<Rightarrow> string \<Rightarrow> listing \<Rightarrow> string \<times> byte list option \<Rightarrow> bool" where
  "agrees E grp listing f \<longleftrightarrow> (\<exists>bytes. snd f = Some bytes \<and>
     expected_verdict E grp (le_lossy E (file_stem (fst f))) listing = Inr (verdict E bytes))"

definition fixtures_of :: "listing \<Rightarrow> (string \<times> byte list option) list" where
  "fixtures_of listing = filter (\<lambda>f. has_poid_extension (fst f)) listing"

lemma fixture_row_agrees:
  "(\<exists>row. fixture_row_of E grp listing f = Inr row \<and> fr_pass row) \<longleftrightarrow> agrees E grp listing f"
  by (auto simp: fixture_row_of_def agrees_def result_simps Let_def)

lemma fixture_rows_agree:
  "(\<exists>rows. fixture_rows E grp listing fs = Inr rows \<and> list_all fr_pass rows \<and> length rows = length fs) \<longleftrightarrow>
     list_all (agrees E grp listing) fs"
proof (induction fs)
  case (Cons f fs)
  have "(\<exists>rows. fixture_rows E grp listing (f # fs) = Inr rows \<and> list_all fr_pass rows \<and> length rows = length (f # fs)) \<longleftrightarrow>
      (\<exists>row. fixture_row_of E grp listing f = Inr row \<and> fr_pass row) \<and>
      (\<exists>rows. fixture_rows E grp listing fs = Inr rows \<and> list_all fr_pass rows \<and> length rows = length fs)"
    by (auto simp: result_simps)
  then show ?case unfolding list.pred_inject Cons fixture_row_agrees .
qed simp

lemma fixture_rows_length: "fixture_rows E grp listing fs = Inr rows \<Longrightarrow> length rows = length fs"
  by (induction fs arbitrary: rows) (auto simp: result_simps)

lemma group_rows_agree:
  "(\<exists>rows. group_rows E dir suite grp = Inr rows \<and> list_all fr_pass rows \<and> P (length rows)) \<longleftrightarrow>
     (\<exists>listing. suite grp = Some listing \<and> list_all (agrees E grp listing) (fixtures_of listing) \<and>
        P (length (fixtures_of listing)))"
proof -
  have sorted: "list_all Q (sort_key fst xs) \<longleftrightarrow> list_all Q xs" for Q and xs :: "(string \<times> byte list option) list"
    by (simp add: list_all_iff)
  show ?thesis
  proof (cases "suite grp")
    case (Some listing)
    let ?fs = "sort_key fst (fixtures_of listing)"
    have "group_rows E dir suite grp = fixture_rows E grp listing ?fs"
      by (simp add: group_rows_def Some fixtures_of_def)
    moreover have "(\<exists>rows. fixture_rows E grp listing ?fs = Inr rows \<and> list_all fr_pass rows \<and> P (length rows)) \<longleftrightarrow>
        list_all (agrees E grp listing) ?fs \<and> P (length ?fs)"
      using fixture_rows_agree [of E grp listing ?fs] fixture_rows_length [of E grp listing ?fs] by metis
    ultimately show ?thesis by (simp add: Some sorted)
  qed (simp add: group_rows_def)
qed

text \<open>
  The conformance command exits with success exactly when both groups of the suite are there, they hold a
  fixture, and every fixture in them can be read and gets the verdict its sibling file expects; a missing
  directory, an unreadable expectation or one wrong verdict makes it fail.
\<close>

theorem suite_passes_exactly_when_every_fixture_agrees:
  "exits_well (conformance_command E dir suite) \<longleftrightarrow>
     (\<exists>vs is. suite ''valid'' = Some vs \<and> suite ''invalid'' = Some is \<and>
        fixtures_of vs @ fixtures_of is \<noteq> [] \<and>
        list_all (agrees E ''valid'' vs) (fixtures_of vs) \<and> list_all (agrees E ''invalid'' is) (fixtures_of is))"
proof -
  have report: "\<not> rp_exit_failure (conformance_report rows) \<longleftrightarrow> list_all fr_pass rows" for rows
  proof -
    have "length (filter fr_pass rows) \<le> length rows" by (rule length_filter_le)
    then have "\<not> rp_exit_failure (conformance_report rows) \<longleftrightarrow> length (filter fr_pass rows) = length rows"
      by (auto simp: conformance_report_def Let_def not_less intro: le_antisym)
    also have "\<dots> \<longleftrightarrow> list_all fr_pass rows"
      unfolding list_all_iff by (metis filter_True length_filter_less less_irrefl)
    finally show ?thesis .
  qed
  have "exits_well (conformance_command E dir suite) \<longleftrightarrow>
      (\<exists>a. group_rows E dir suite ''valid'' = Inr a \<and> list_all fr_pass a \<and>
        (\<exists>b. group_rows E dir suite ''invalid'' = Inr b \<and> list_all fr_pass b \<and> length a + length b \<noteq> 0))"
    by (cases "group_rows E dir suite ''valid''"; cases "group_rows E dir suite ''invalid''")
      (simp_all add: conformance_command_def exits_well_def Let_def report)
  also have "\<dots> \<longleftrightarrow> (\<exists>a. group_rows E dir suite ''valid'' = Inr a \<and> list_all fr_pass a \<and>
      (\<exists>is. suite ''invalid'' = Some is \<and> list_all (agrees E ''invalid'' is) (fixtures_of is) \<and>
        length a + length (fixtures_of is) \<noteq> 0))"
    unfolding group_rows_agree [where P = "\<lambda>n. _ + n \<noteq> 0"] by (rule refl)
  also have "\<dots> \<longleftrightarrow> (\<exists>vs. suite ''valid'' = Some vs \<and> list_all (agrees E ''valid'' vs) (fixtures_of vs) \<and>
      (\<exists>is. suite ''invalid'' = Some is \<and> list_all (agrees E ''invalid'' is) (fixtures_of is) \<and>
        length (fixtures_of vs) + length (fixtures_of is) \<noteq> 0))"
    by (rule group_rows_agree [where P = "\<lambda>n. \<exists>is. suite ''invalid'' = Some is \<and>
      list_all (agrees E ''invalid'' is) (fixtures_of is) \<and> n + length (fixtures_of is) \<noteq> 0"])
  finally show ?thesis by auto
qed

end
