(* ===== verification/Cli_Init.thy ===== *)
theory Cli_Init
  imports Cli_Commands
begin

text \<open>
  \<open>poid init\<close>: the templates of \<open>poid-cli/src/templates.rs\<close>, whose texts are written out here line by line, and the
  command of \<open>commands.rs\<close> that writes one of them into a directory.
\<close>

section \<open>The templates\<close>

datatype template = Web | Python | Survey

text \<open>A text of lines, each with its newline.\<close>

definition lines_text :: "string list \<Rightarrow> string" where
  "lines_text ls = concat (map (\<lambda>l. l @ nl) ls)"

definition manifest_json :: "string \<Rightarrow> string \<Rightarrow> string \<Rightarrow> string option \<Rightarrow> string" where
  "manifest_json app_id app_name profile engines =
     (let engines_field = (case engines of
            Some e \<Rightarrow> '','' @ nl @ ''    \"engines\": { '' @ e @ '' }'' | None \<Rightarrow> [])
      in lines_text [
      ''{'',
      ''  \"poid\": \"1.0\",'',
      ''  \"type\": \"app\",'',
      ''  \"app\": {'',
      ''    \"id\": \"'' @ app_id @ ''\",'',
      ''    \"name\": \"'' @ app_name @ ''\",'',
      ''    \"version\": \"0.1.0\"'',
      ''  },'',
      ''  \"runtime\": {'',
      ''    \"profile\": \"'' @ profile @ ''\"'' @ engines_field,
      ''  },'',
      ''  \"entry\": \"app/index.html\",'',
      ''  \"storage\": {'',
      ''    \"mode\": \"embedded\"'',
      ''  },'',
      ''  \"permissions\": {'',
      ''    \"network\": []'',
      ''  }'',
      ''}''])"

definition index_html :: "string \<Rightarrow> string \<Rightarrow> string" where
  "index_html title script = lines_text [
      ''<!doctype html>'',
      ''<html lang=\"en\">'',
      ''  <head>'',
      ''    <meta charset=\"utf-8\" />'',
      ''    <meta name=\"viewport\" content=\"width=device-width, initial-scale=1\" />'',
      ''    <title>'' @ title @ ''</title>'',
      ''    <link rel=\"stylesheet\" href=\"style.css\" />'',
      ''  </head>'',
      ''  <body>'',
      ''    <main id=\"app\"></main>'',
      ''    <script type=\"module\" src=\"'' @ script @ ''\"></script>'',
      ''  </body>'',
      ''</html>'']"

definition style_css :: string where
  "style_css = lines_text [
      ''body {'',
      ''  font-family: system-ui, sans-serif;'',
      ''  display: grid;'',
      ''  place-items: center;'',
      ''  min-height: 100vh;'',
      ''  margin: 0;'',
      ''}'',
      ''main {'',
      ''  text-align: center;'',
      ''}'',
      ''button {'',
      ''  font-size: 1.25rem;'',
      ''  padding: 0.5rem 1.5rem;'',
      ''  cursor: pointer;'',
      ''}'']"

definition web_main_js :: string where
  "web_main_js = lines_text [
      ''// Relative imports only '' @ em_dash @ '' this app packs with no build step and no network.'',
      ''// The `window.poid` API (storage, files, '' @ [CHR 0xE2, CHR 0x80, CHR 0xA6] @ '') arrives with the Reader runtime.'',
      ''import { createCounter } from \"./counter.js\";'',
      [],
      ''createCounter(document.getElementById(\"app\"));'']"

definition web_counter_js :: string where
  "web_counter_js = lines_text [
      ''export function createCounter(root) {'',
      ''  let count = 0;'',
      ''  const heading = document.createElement(\"h1\");'',
      ''  const button = document.createElement(\"button\");'',
      ''  const render = () => {'',
      ''    heading.textContent = `Count: ${count}`;'',
      ''    button.textContent = \"+1\";'',
      ''  };'',
      ''  button.addEventListener(\"click\", () => {'',
      ''    count += 1;'',
      ''    render();'',
      ''  });'',
      ''  render();'',
      ''  root.append(heading, button);'',
      ''  return { render };'',
      ''}'']"

definition python_main :: string where
  "python_main = lines_text [
      ''# Runs inside the reader via Pyodide (runtime profile \"web+python\").'',
      ''# Third-party wheels ship in deps/ '' @ em_dash @ '' never fetched at run time (SPEC 5.4).'',
      [],
      [],
      ''def greet() -> str:'',
      ''    return \"Hello from Python inside a POID!\"'',
      [],
      [],
      ''if __name__ == \"__main__\":'',
      ''    print(greet())'']"

definition python_index :: string where
  "python_index = lines_text [
      ''<!doctype html>'',
      ''<html lang=\"en\">'',
      ''  <head>'',
      ''    <meta charset=\"utf-8\" />'',
      ''    <title>Python POID</title>'',
      ''    <link rel=\"stylesheet\" href=\"style.css\" />'',
      ''  </head>'',
      ''  <body>'',
      ''    <main id=\"app\">'',
      ''      <h1>Python POID</h1>'',
      ''      <p>'',
      ''        This template targets the <code>web+python</code> runtime profile.'',
      ''        The reader provides the Pyodide engine; <code>main.py</code> is the'',
      ''        application. Wiring Python to the DOM arrives with the engine'',
      ''        milestone.'',
      ''      </p>'',
      ''    </main>'',
      ''  </body>'',
      ''</html>'']"

definition survey_main_js :: string where
  "survey_main_js = lines_text [
      ''// Offline survey: answers stay on this machine. The respondent exports a'',
      ''// small data file and sends it back '' @ em_dash @ '' no server, no account (SPEC 11).'',
      ''const form = document.getElementById(\"survey\");'',
      ''const exportBtn = document.getElementById(\"export\");'',
      [],
      ''exportBtn.addEventListener(\"click\", () => {'',
      ''  const answers = Object.fromEntries(new FormData(form).entries());'',
      ''  const blob = new Blob([JSON.stringify({ schema: \"responses/v1\", answers }, null, 2)], {'',
      ''    type: \"application/json\",'',
      ''  });'',
      ''  const a = document.createElement(\"a\");'',
      ''  a.href = URL.createObjectURL(blob);'',
      ''  a.download = \"response.json\";'',
      ''  a.click();'',
      ''  URL.revokeObjectURL(a.href);'',
      ''});'']"

definition survey_index :: string where
  "survey_index = lines_text [
      ''<!doctype html>'',
      ''<html lang=\"en\">'',
      ''  <head>'',
      ''    <meta charset=\"utf-8\" />'',
      ''    <title>Survey</title>'',
      ''    <link rel=\"stylesheet\" href=\"style.css\" />'',
      ''  </head>'',
      ''  <body>'',
      ''    <main id=\"app\">'',
      ''      <h1>Survey</h1>'',
      ''      <form id=\"survey\">'',
      ''        <p><label>Name: <input name=\"name\" /></label></p>'',
      ''        <p><label>How did it go? <input name=\"feedback\" /></label></p>'',
      ''      </form>'',
      ''      <button id=\"export\">Export answers</button>'',
      ''    </main>'',
      ''    <script type=\"module\" src=\"main.js\"></script>'',
      ''  </body>'',
      ''</html>'']"

definition web_template :: "string \<Rightarrow> string \<Rightarrow> (string \<times> string) list" where
  "web_template app_name app_id =
     [(''poid.json'', manifest_json app_id app_name ''web'' None), (''index.html'', index_html app_name ''main.js''),
      (''main.js'', web_main_js), (''counter.js'', web_counter_js), (''style.css'', style_css)]"

definition python_template :: "string \<Rightarrow> string \<Rightarrow> (string \<times> string) list" where
  "python_template app_name app_id =
     [(''poid.json'', manifest_json app_id app_name ''web+python'' (Some ''\"pyodide\": \">=0.26\"'')), (''index.html'', python_index),
      (''main.py'', python_main), (''style.css'', style_css)]"

definition survey_template :: "string \<Rightarrow> string \<Rightarrow> (string \<times> string) list" where
  "survey_template app_name app_id =
     [(''poid.json'', manifest_json app_id app_name ''web'' None), (''index.html'', survey_index),
      (''main.js'', survey_main_js), (''style.css'', style_css)]"

definition template_files :: "template \<Rightarrow> string \<Rightarrow> string \<Rightarrow> (string \<times> string) list" where
  "template_files t app_name app_id =
     (case t of
        Web \<Rightarrow> web_template app_name app_id
      | Python \<Rightarrow> python_template app_name app_id
      | Survey \<Rightarrow> survey_template app_name app_id)"

section \<open>The command\<close>

fun write_project :: "cli_io \<Rightarrow> path \<Rightarrow> (string \<times> string) list \<Rightarrow> disk \<Rightarrow> (cmd_error + unit) \<times> disk" where
  "write_project io dir [] d = (Inr (), d)"
| "write_project io dir ((rel, content) # rest) d =
     (case write_file io (dir @ [rel]) (bytes_of content) d of
        (Inl e, d) \<Rightarrow> (Inl e, d)
      | (Inr _, d) \<Rightarrow> write_project io dir rest d)"

definition init_name :: "cli_env \<Rightarrow> path \<Rightarrow> string" where
  "init_name E dir = (if dir = [] \<or> last dir = ''..'' then ''app'' else le_lossy E (last dir))"

definition init_app_id :: "(string \<Rightarrow> string) \<Rightarrow> string \<Rightarrow> string" where
  "init_app_id to_lowercase raw_name = ''com.example.'' @ sanitize_label to_lowercase raw_name"

definition init_files ::
  "cli_env \<Rightarrow> (string \<Rightarrow> string) \<Rightarrow> (string \<Rightarrow> string) \<Rightarrow> template \<Rightarrow> path \<Rightarrow> (string \<times> string) list" where
  "init_files E to_lowercase to_uppercase t dir =
     template_files t (capitalize to_uppercase (init_name E dir)) (init_app_id to_lowercase (init_name E dir))"

definition init_command ::
  "cli_env \<Rightarrow> cli_io \<Rightarrow> (path \<Rightarrow> bool) \<Rightarrow> (path \<Rightarrow> string + bool) \<Rightarrow> (string \<Rightarrow> string) \<Rightarrow> (string \<Rightarrow> string) \<Rightarrow>
   template \<Rightarrow> bool \<Rightarrow> path \<Rightarrow> disk \<Rightarrow> (cmd_error + report) \<times> disk" where
  "init_command E io exists has_entries to_lowercase to_uppercase t force dir d =
     (case rbind (if exists dir then map_err of_io_error (has_entries dir) else Inr False) (\<lambda>occupied.
           if occupied \<and> \<not> force then
             Inl (cli_err ''dir-not-empty''
               (''`'' @ display_path dir @ ''` is not empty; pass --force to write into it anyway''))
           else if lo_mkdir_fails io dir then Inl (of_io_error ''create_dir_all'')
           else Inr ()) of
        Inl e \<Rightarrow> (Inl e, d)
      | Inr _ \<Rightarrow>
          let files = init_files E to_lowercase to_uppercase t dir; written = map fst files in
          (case write_project io dir files d of
             (Inl e, d) \<Rightarrow> (Inl e, d)
           | (Inr _, d) \<Rightarrow>
               (Inr (reported
                  (''Created project in '' @ display_path dir @ nl @ ''  '' @ join_str (nl @ ''  '') written @ nl @ nl @
                   ''Next:'' @ nl @ ''  poid pack '' @ display_path dir @ '' -o '' @
                   sanitize_label to_lowercase (init_name E dir) @ ''.poid'')
                  [(''app_id'', JString (init_app_id to_lowercase (init_name E dir))),
                   (''dir'', json_path dir), (''files'', JArray (map JString written))]), d)))"

section \<open>What is written\<close>

lemma template_names: "distinct (map fst (template_files t app_name app_id))"
  by (cases t) (simp_all add: template_files_def web_template_def python_template_def survey_template_def)

lemma write_project_frame:
  "write_project io dir fs d = (r, d') \<Longrightarrow> {q. d' q \<noteq> d q} \<subseteq> {dir @ [rel] |rel. rel \<in> fst ` set fs}"
proof (induction io dir fs d rule: write_project.induct)
  case (2 io dir rel content rest d)
  obtain w d1 where w: "write_file io (dir @ [rel]) (bytes_of content) d = (w, d1)"
    by (cases "write_file io (dir @ [rel]) (bytes_of content) d")
  have "{q. d1 q \<noteq> d q} \<subseteq> {dir @ [rel]}" by (rule write_file_frame [OF w])
  then have first: "{q. d1 q \<noteq> d q} \<subseteq> {dir @ [rel'] |rel'. rel' \<in> fst ` set ((rel, content) # rest)}"
    by (rule subset_trans) auto
  show ?case
  proof (cases w)
    case (Inl e)
    with "2.prems" w first show ?thesis by simp
  next
    case (Inr u)
    with "2.prems" w have "{q. d' q \<noteq> d1 q} \<subseteq> {dir @ [rel] |rel. rel \<in> fst ` set rest}"
      by (intro "2.IH" [OF w [symmetric] Inr]) simp
    then have "{q. d' q \<noteq> d1 q} \<subseteq> {dir @ [rel'] |rel'. rel' \<in> fst ` set ((rel, content) # rest)}"
      by (rule subset_trans) auto
    with first show ?thesis by (rule changed_trans)
  qed
qed simp

lemma write_project_done:
  assumes "write_project io dir fs d = (Inr u, d')" "distinct (map fst fs)" "(rel, content) \<in> set fs"
  shows "d' (dir @ [rel]) = Some (bytes_of content)"
  using assms
proof (induction io dir fs d rule: write_project.induct)
  case (2 io dir rel' content' rest d)
  obtain w d1 where w: "write_file io (dir @ [rel']) (bytes_of content') d = (w, d1)"
    by (cases "write_file io (dir @ [rel']) (bytes_of content') d")
  with "2.prems"(1) obtain v where v: "w = Inr v" by (cases w) simp_all
  then have d1: "d1 = d(dir @ [rel'] \<mapsto> bytes_of content')" using w by (simp add: write_file_done)
  have rest: "write_project io dir rest d1 = (Inr u, d')" using "2.prems"(1) w v by simp
  show ?case
  proof (cases "(rel, content) \<in> set rest")
    case True
    with "2.prems"(2) show ?thesis by (intro "2.IH" [OF w [symmetric] v rest]) simp_all
  next
    case False
    with "2.prems"(3) have same: "rel = rel'" "content = content'" by auto
    have "rel' \<notin> fst ` set rest" using "2.prems"(2) by simp
    then have "dir @ [rel'] \<notin> {q. d' q \<noteq> d1 q}" using write_project_frame [OF rest] by auto
    then show ?thesis by (simp add: same d1)
  qed
qed simp

text \<open>
  The application id of a new project is always one that validation accepts, whatever the directory is called.
\<close>

lemma init_app_id_valid: "is_reverse_dns (init_app_id to_lowercase raw_name)"
proof -
  let ?s = "sanitize_label to_lowercase raw_name"
  have "set (dropWhile P xs) \<subseteq> set xs" for P and xs :: string by (rule set_dropWhileD [THEN subsetI])
  then have trimmed: "set (rev (dropWhile P (rev (dropWhile P xs)))) \<subseteq> set xs" for P and xs :: string
    by (metis set_rev subset_trans)
  define xs where "xs = map (\<lambda>cp. if cp < 128 \<and> is_ascii_alphanumeric (char_of cp) then char_of cp else CHR ''-'')
    (chars_of (to_lowercase raw_name))"
  have xs: "list_all label_char xs" by (auto simp: xs_def list_all_iff label_char_def)
  have s: "?s = (let t = rev (dropWhile (\<lambda>c. c = CHR ''-'') (rev (dropWhile (\<lambda>c. c = CHR ''-'') xs)))
      in if t = [] then ''app'' else t)"
    by (simp add: sanitize_label_def xs_def Let_def)
  have "list_all label_char ''app''" by code_simp
  with trimmed [of "\<lambda>c. c = CHR ''-''" xs] xs have "list_all label_char ?s"
    unfolding s Let_def by (auto simp: list_all_iff dest!: subsetD)
  moreover have "?s \<noteq> []" by (simp add: sanitize_label_def Let_def)
  moreover have "init_app_id to_lowercase raw_name = join_with CHR ''.'' [''com'', ''example'', ?s]"
    by (simp add: init_app_id_def)
  moreover have "list_all label_char ''example''" "is_ascii_alphabetic CHR ''c''" "list_all is_ascii_alphanumeric ''om''"
    by code_simp+
  ultimately show ?thesis
    unfolding is_reverse_dns_iff reverse_dns_name_def
    by (intro exI [of _ "CHR ''c''"] exI [of _ "''om''"] exI [of _ "[''example'', ?s]"]) (simp add: word_over_def list_all_iff)
qed

text \<open>
  A new project changes only the files of its template inside the directory, whether the command succeeds or
  not; when it succeeds each of them is there whole, and the report names them and the id.
\<close>

theorem new_project_is_its_template:
  "case init_command E io exists has_entries to_lowercase to_uppercase t force dir d of (r, d') \<Rightarrow>
     {q. d' q \<noteq> d q} \<subseteq> {dir @ [rel] |rel. rel \<in> fst ` set (init_files E to_lowercase to_uppercase t dir)} \<and>
     (case r of Inl e \<Rightarrow> True
      | Inr rep \<Rightarrow> list_all (\<lambda>(rel, content). d' (dir @ [rel]) = Some (bytes_of content))
          (init_files E to_lowercase to_uppercase t dir))"
proof -
  let ?files = "init_files E to_lowercase to_uppercase t dir"
  obtain r d' where w: "write_project io dir ?files d = (r, d')" by fastforce
  note frame = write_project_frame [OF w]
  have names: "distinct (map fst ?files)" by (simp add: init_files_def template_names)
  have whole: "list_all (\<lambda>(rel, content). d' (dir @ [rel]) = Some (bytes_of content)) ?files" if "r = Inr ()"
    using write_project_done [OF w [unfolded that] names] by (auto simp: list_all_iff)
  show ?thesis
  proof (cases r)
    case (Inl e)
    then show ?thesis using frame w by (simp add: init_command_def Let_def split: sum.split)
  next
    case (Inr u)
    then show ?thesis using frame w whole by (simp add: init_command_def Let_def split: sum.split)
  qed
qed

end
