(* ===== verification/Web_Bindings.thy ===== *)
theory Web_Bindings
  imports Container_Files Convert_Project Convert_Html Vault_Documents
begin

text \<open>
  The reader of the browser (\<open>poid-wasm\<close>): what the bindings add to the core, the converter and the vault they
  forward to. Opening keeps the status of the signature beside the container; errors become an object with a
  code, a registry code and a text. The parsers of JSON and of UUIDs, and the texts of errors, are parameters.
\<close>

section \<open>Errors\<close>

record container_error =
  kx_code :: string
  kx_registry :: "string option"
  kx_message :: string

definition container_error_of :: "(poid_error \<Rightarrow> string) \<Rightarrow> poid_error \<Rightarrow> container_error" where
  "container_error_of to_string e =
     \<lparr>kx_code = code e, kx_registry = conformance_code e, kx_message = to_string e\<rparr>"

definition invalid_argument :: "string \<Rightarrow> container_error" where
  "invalid_argument msg = \<lparr>kx_code = ''invalid-argument'', kx_registry = None, kx_message = msg\<rparr>"

section \<open>Containers\<close>

record web_poid =
  wp_inner :: poid
  wp_signature :: signature_status

definition open_container :: "crates \<Rightarrow> (poid_error \<Rightarrow> string) \<Rightarrow> byte list \<Rightarrow> container_error + web_poid" where
  "open_container K to_string bytes =
     map_err (container_error_of to_string)
       (rbind (conformance_check K limits_default bytes) (\<lambda>p.
        rbind (signature_status_of K p) (\<lambda>signature.
          Inr \<lparr>wp_inner = p, wp_signature = signature\<rparr>)))"

definition utf8_text :: "(byte list \<Rightarrow> container_error) \<Rightarrow> byte list \<Rightarrow> container_error + string" where
  "utf8_text failed bytes = (case from_utf8 bytes of None \<Rightarrow> Inl (failed bytes) | Some s \<Rightarrow> Inr s)"

definition web_manifest_json ::
  "crates \<Rightarrow> (poid_error \<Rightarrow> string) \<Rightarrow> (byte list \<Rightarrow> string) \<Rightarrow> web_poid \<Rightarrow> container_error + string" where
  "web_manifest_json K to_string utf8_error w =
     rbind (map_err (container_error_of to_string) (map_err ManifestErr (to_json_bytes K (c_manifest (wp_inner w)))))
       (utf8_text (\<lambda>bytes. \<lparr>kx_code = ''manifest-encoding'', kx_registry = None,
          kx_message = ''manifest is not valid UTF-8 after serialization: '' @ utf8_error bytes\<rparr>))"

definition web_signature_status :: "web_poid \<Rightarrow> string" where
  "web_signature_status w = (case wp_signature w of SigValid _ \<Rightarrow> ''valid'' | _ \<Rightarrow> ''unsigned'')"

definition web_file_paths :: "web_poid \<Rightarrow> string list" where
  "web_file_paths w = map (\<lambda>(path, _). path) (c_files (wp_inner w))"

definition web_file :: "web_poid \<Rightarrow> string \<Rightarrow> byte list option" where
  "web_file w path = file_of (wp_inner w) path"

definition web_data :: "web_poid \<Rightarrow> byte list option" where
  "web_data w = data_of (wp_inner w)"

definition web_sql_data :: "web_poid \<Rightarrow> byte list option" where
  "web_sql_data w = sql_data (wp_inner w)"

definition web_set_instance_id ::
  "(string \<Rightarrow> string + uuid) \<Rightarrow> string \<Rightarrow> web_poid \<Rightarrow> (container_error + unit) \<times> web_poid" where
  "web_set_instance_id parse_uuid id_text w =
     (case parse_uuid id_text of
        Inl e \<Rightarrow> (Inl (invalid_argument (''`'' @ id_text @ ''` is not a UUID: '' @ e)), w)
      | Inr uid \<Rightarrow> (Inr (), w\<lparr>wp_inner := set_instance_id uid (wp_inner w)\<rparr>))"

definition web_set_data :: "byte list \<Rightarrow> web_poid \<Rightarrow> web_poid" where
  "web_set_data content w = w\<lparr>wp_inner := set_data content (wp_inner w)\<rparr>"

definition web_set_sql_data :: "byte list \<Rightarrow> web_poid \<Rightarrow> web_poid" where
  "web_set_sql_data dump w = w\<lparr>wp_inner := set_sql_data dump (wp_inner w)\<rparr>"

definition web_to_bytes :: "crates \<Rightarrow> (poid_error \<Rightarrow> string) \<Rightarrow> web_poid \<Rightarrow> container_error + byte list" where
  "web_to_bytes K to_string w = map_err (container_error_of to_string) (to_bytes K (wp_inner w))"

section \<open>The converter\<close>

record text_file =
  xf_rel :: string
  xf_text :: string

definition parse_files ::
  "(string \<Rightarrow> string + text_file list) \<Rightarrow> string \<Rightarrow> container_error + source_file list" where
  "parse_files from_json files_json =
     rbind (map_err (\<lambda>e. invalid_argument (''files must be JSON `[{rel, text}]`: '' @ e)) (from_json files_json)) (\<lambda>files.
       Inr (map (\<lambda>f. \<lparr>sf_rel = xf_rel f, sf_content = bytes_of (xf_text f)\<rparr>) files))"

definition optional_json :: "string option \<Rightarrow> json" where
  "optional_json x = (case x of None \<Rightarrow> JNull | Some s \<Rightarrow> JString s)"

text \<open>The object, its keys in the order JSON prints them.\<close>

definition classify_project :: "(string \<Rightarrow> string + text_file list) \<Rightarrow> string \<Rightarrow> container_error + json" where
  "classify_project from_json files_json =
     rbind (parse_files from_json files_json) (\<lambda>files.
       let shape = classify_input files;
           kind = (case ps_kind shape of
             SingleHtml \<Rightarrow> ''single-html'' | Artifact \<Rightarrow> ''artifact'' | Project \<Rightarrow> ''project'' | Static \<Rightarrow> ''static'')
       in Inr (JObject [(''entry'', optional_json (ps_entry shape)), (''html'', optional_json (ps_html shape)),
            (''kind'', JString kind), (''usesJsx'', JBool (ps_uses_jsx shape))]))"

definition nonempty :: "string \<Rightarrow> string option" where
  "nonempty s = (if s = [] then None else Some s)"

definition web_inline_into_html :: "string \<Rightarrow> string \<Rightarrow> string \<Rightarrow> string \<Rightarrow> string" where
  "web_inline_into_html html js css title =
     inline_into_html (nonempty html) \<lparr>in_js = nonempty js, in_css = nonempty css, in_title = title\<rparr>"

definition web_plan ::
  "(string \<Rightarrow> string) \<Rightarrow> string \<Rightarrow> string \<Rightarrow> string list \<Rightarrow> string \<Rightarrow> string \<Rightarrow> convert_plan" where
  "web_plan to_lowercase name index_html bundled_deps builder esbuild_version =
     \<lparr>cp_name = name, cp_app_id = ''local.poid.'' @ slug_of to_lowercase name,
      cp_inferred = infer_permissions [index_html], cp_bundled_deps = bundled_deps, cp_builder = builder,
      cp_esbuild = nonempty esbuild_version\<rparr>"

definition web_converted_manifest ::
  "crates \<Rightarrow> (poid_error \<Rightarrow> string) \<Rightarrow> (byte list \<Rightarrow> string) \<Rightarrow> (string \<Rightarrow> string) \<Rightarrow> (string \<Rightarrow> string + string list) \<Rightarrow>
   string \<Rightarrow> string \<Rightarrow> string \<Rightarrow> string \<Rightarrow> string \<Rightarrow> container_error + string" where
  "web_converted_manifest K to_string utf8_error to_lowercase from_json name index_html bundled_deps_json builder
      esbuild_version =
     rbind (map_err (\<lambda>e. invalid_argument (''bundledDeps must be a JSON string array: '' @ e)) (from_json bundled_deps_json))
       (\<lambda>bundled_deps.
     rbind (map_err (container_error_of to_string)
        (rbind (map_err ManifestErr (converted_manifest
            (web_plan to_lowercase name index_html bundled_deps builder esbuild_version))) (\<lambda>m.
          map_err ManifestErr (to_json_bytes K m))))
       (utf8_text (\<lambda>bytes. \<lparr>kx_code = ''internal'', kx_registry = None,
          kx_message = ''manifest serialization: '' @ utf8_error bytes\<rparr>)))"

section \<open>Documents\<close>

text \<open>A document of the vault with its errors as texts (\<open>js_error\<close>) and its values as JSON texts. The number of
  stored bytes crosses the boundary as a floating point number, exact below \<open>2 ^ 53\<close>.\<close>

definition web_doc_load :: "'d automerge \<Rightarrow> (vault_error \<Rightarrow> string) \<Rightarrow> byte list \<Rightarrow> string + 'd" where
  "web_doc_load A js_error bytes = map_err js_error (doc_load A bytes)"

definition web_doc_new :: "'d automerge \<Rightarrow> 'd" where
  "web_doc_new A = doc_new A"

definition web_doc_save :: "'d automerge \<Rightarrow> 'd \<Rightarrow> byte list \<times> 'd" where
  "web_doc_save A d = doc_save A d"

definition web_kv_list :: "'d automerge \<Rightarrow> 'd \<Rightarrow> string \<Rightarrow> string option \<Rightarrow> string list" where
  "web_kv_list A d slot pre = kv_list A d slot pre"

definition web_usage :: "'d automerge \<Rightarrow> 'd \<Rightarrow> string \<Rightarrow> nat" where
  "web_usage A d slot = slot_usage A d slot"

definition web_total_usage :: "'d automerge \<Rightarrow> 'd \<Rightarrow> nat" where
  "web_total_usage A d = total_usage A d"

definition web_slots :: "'d automerge \<Rightarrow> 'd \<Rightarrow> string list" where
  "web_slots A d = doc_slots A d"

definition web_current_slot :: "'d automerge \<Rightarrow> 'd \<Rightarrow> string" where
  "web_current_slot A d = current_slot A d"

definition web_doc_merge :: "'d automerge \<Rightarrow> (vault_error \<Rightarrow> string) \<Rightarrow> byte list \<Rightarrow> 'd \<Rightarrow> (string + unit) \<times> 'd" where
  "web_doc_merge A js_error other d = apfst (map_err js_error) (doc_merge_bytes A other d)"

definition web_kv_get ::
  "'d automerge \<Rightarrow> 'v serde_value \<Rightarrow> ('v \<Rightarrow> string) \<Rightarrow> (vault_error \<Rightarrow> string) \<Rightarrow> 'd \<Rightarrow> string \<Rightarrow> string \<Rightarrow> string + string option" where
  "web_kv_get A V show_value js_error d slot key =
     rbind (map_err js_error (kv_get A V d slot key)) (\<lambda>v. Inr (map_option show_value v))"

definition web_kv_set ::
  "'d automerge \<Rightarrow> 'v serde_value \<Rightarrow> (string \<Rightarrow> string + 'v) \<Rightarrow> (vault_error \<Rightarrow> string) \<Rightarrow> string \<Rightarrow> string \<Rightarrow> string \<Rightarrow> 'd \<Rightarrow>
   (string + unit) \<times> 'd" where
  "web_kv_set A V from_json js_error slot key json_text d =
     (case from_json json_text of
        Inl e \<Rightarrow> (Inl (js_error (VaultInvalid e)), d)
      | Inr v \<Rightarrow> apfst (map_err js_error) (kv_set A V slot key v d))"

definition web_kv_delete :: "'d automerge \<Rightarrow> (vault_error \<Rightarrow> string) \<Rightarrow> string \<Rightarrow> string \<Rightarrow> 'd \<Rightarrow> (string + unit) \<times> 'd" where
  "web_kv_delete A js_error slot key d = apfst (map_err js_error) (kv_delete A slot key d)"

definition web_kv_clear :: "'d automerge \<Rightarrow> (vault_error \<Rightarrow> string) \<Rightarrow> string \<Rightarrow> 'd \<Rightarrow> (string + unit) \<times> 'd" where
  "web_kv_clear A js_error slot d = apfst (map_err js_error) (kv_clear A slot d)"

definition web_set_current_slot :: "'d automerge \<Rightarrow> (vault_error \<Rightarrow> string) \<Rightarrow> string \<Rightarrow> 'd \<Rightarrow> (string + unit) \<times> 'd" where
  "web_set_current_slot A js_error slot d = apfst (map_err js_error) (set_current_slot A slot d)"

section \<open>The status that was kept stays true\<close>

datatype web_op = WebInstanceId string | WebData "byte list" | WebSqlData "byte list"

fun web_step :: "(string \<Rightarrow> string + uuid) \<Rightarrow> web_op \<Rightarrow> web_poid \<Rightarrow> web_poid" where
  "web_step parse_uuid (WebInstanceId id_text) w = snd (web_set_instance_id parse_uuid id_text w)"
| "web_step parse_uuid (WebData content) w = web_set_data content w"
| "web_step parse_uuid (WebSqlData dump) w = web_set_sql_data dump w"

text \<open>Each is an operation of the container, or none.\<close>

lemma web_step_inner:
  "wp_signature (web_step parse_uuid op w) = wp_signature w"
  "\<exists>ops. wp_inner (web_step parse_uuid op w) = fold reader_step ops (wp_inner w)"
proof -
  show "wp_signature (web_step parse_uuid op w) = wp_signature w"
    by (cases op) (auto simp: web_set_instance_id_def web_set_data_def web_set_sql_data_def split: sum.splits)
  show "\<exists>ops. wp_inner (web_step parse_uuid op w) = fold reader_step ops (wp_inner w)"
  proof (cases op)
    case (WebInstanceId id_text)
    show ?thesis
    proof (cases "parse_uuid id_text")
      case (Inl e)
      then have "wp_inner (web_step parse_uuid op w) = fold reader_step [] (wp_inner w)"
        by (simp add: WebInstanceId web_set_instance_id_def)
      then show ?thesis by blast
    next
      case (Inr uid)
      then have "wp_inner (web_step parse_uuid op w) = fold reader_step [SetInstanceId uid] (wp_inner w)"
        by (simp add: WebInstanceId web_set_instance_id_def)
      then show ?thesis by blast
    qed
  next
    case (WebData content)
    then have "wp_inner (web_step parse_uuid op w) = fold reader_step [SetData content] (wp_inner w)"
      by (simp add: web_set_data_def)
    then show ?thesis by blast
  next
    case (WebSqlData dump)
    then have "wp_inner (web_step parse_uuid op w) = fold reader_step [SetSqlData dump] (wp_inner w)"
      by (simp add: web_set_sql_data_def)
    then show ?thesis by blast
  qed
qed

lemma web_steps_inner:
  "wp_signature (fold (web_step parse_uuid) ops w) = wp_signature w \<and>
   (\<exists>rops. wp_inner (fold (web_step parse_uuid) ops w) = fold reader_step rops (wp_inner w))"
proof (induction ops arbitrary: w)
  case Nil
  have "\<exists>rops. wp_inner w = fold reader_step rops (wp_inner w)" by (rule exI [of _ "[]"]) simp
  then show ?case by simp
next
  case (Cons op ops)
  obtain rops where first: "wp_inner (web_step parse_uuid op w) = fold reader_step rops (wp_inner w)"
    using web_step_inner(2) by blast
  obtain rops' where "wp_inner (fold (web_step parse_uuid) ops (web_step parse_uuid op w)) =
      fold reader_step rops' (wp_inner (web_step parse_uuid op w))"
    using Cons by blast
  then have "wp_inner (fold (web_step parse_uuid) (op # ops) w) = fold reader_step (rops @ rops') (wp_inner w)"
    by (simp add: first)
  moreover have "wp_signature (fold (web_step parse_uuid) (op # ops) w) = wp_signature w"
    using Cons web_step_inner(1) by simp
  ultimately show ?case by blast
qed

lemma open_container_Inr:
  "open_container K to_string bytes = Inr w \<longleftrightarrow>
     conformance_check K limits_default bytes = Inr (wp_inner w) \<and> signature_status_of K (wp_inner w) = Inr (wp_signature w)"
  by (cases w) (auto simp: open_container_def result_simps)

lemma conformance_check_done:
  assumes "conformance_check K l bytes = Inr p"
  shows "container_inv p" "verify K p = Inr ()" "signature_status_of K p \<noteq> Inr SigInvalid"
proof -
  from assms have opened: "open_with_limits K l bytes = Inr p" and "verify K p = Inr ()" "signature_status_of K p \<noteq> Inr SigInvalid"
    by (auto simp: conformance_check_def result_simps split: if_splits)
  from opened show "container_inv p" unfolding open_iff using acceptable_container(1) by blast
  show "verify K p = Inr ()" "signature_status_of K p \<noteq> Inr SigInvalid" by fact+
qed

text \<open>
  The status of the signature that the browser's reader keeps at opening stays true: whatever sequence of
  identities, data and SQL databases is set, well-formed or not, the container it holds is well formed, its digests
  verify, and it has the very status that was kept, which is never that of a forged one. What the page shows
  as \<open>valid\<close> is a signature that verifies, over the container as it is now.
\<close>

theorem web_signature_status_stays_true:
  "case open_container K to_string bytes of
     Inl e \<Rightarrow> True
   | Inr w \<Rightarrow>
       (let w' = fold (web_step parse_uuid) ops w in
        container_inv (wp_inner w') \<and> verify K (wp_inner w') = Inr () \<and>
        signature_status_of K (wp_inner w') = Inr (wp_signature w') \<and> wp_signature w' \<noteq> SigInvalid \<and>
        (web_signature_status w' = ''valid'' \<longleftrightarrow> (\<exists>key. signature_status_of K (wp_inner w') = Inr (SigValid key))))"
proof (cases "open_container K to_string bytes")
  case (Inr w)
  let ?w = "fold (web_step parse_uuid) ops w"
  from Inr have check: "conformance_check K limits_default bytes = Inr (wp_inner w)"
    and status: "signature_status_of K (wp_inner w) = Inr (wp_signature w)"
    by (simp_all add: open_container_Inr)
  note inv = conformance_check_done [OF check]
  obtain rops where inner: "wp_inner ?w = fold reader_step rops (wp_inner w)" and kept: "wp_signature ?w = wp_signature w"
    using web_steps_inner by blast
  have inv': "container_inv (wp_inner ?w)" and frame: "program_of (wp_inner ?w) = program_of (wp_inner w)"
    unfolding inner using inv(1) by (rule reader.run_inv, rule reader.run_frame)
  moreover have "bt_ok (c_files (wp_inner w))" "bt_ok (c_files (wp_inner ?w))"
    using inv(1) inv' by (simp_all add: container_inv_def)
  ultimately have now: "verify K (wp_inner ?w) = Inr ()" "signature_status_of K (wp_inner ?w) = Inr (wp_signature w)"
    using program_signature [OF frame] program_verify [OF frame] inv(2) status by simp_all
  have "wp_signature w \<noteq> SigInvalid" using inv(3) status by auto
  then show ?thesis using inv' now kept
    by (cases "wp_signature w") (simp_all add: Inr Let_def web_signature_status_def)
qed simp

end
