(* ===== verification/Raw_Zip.thy ===== *)
theory Raw_Zip
  imports Container_Writer
begin

text \<open>
  \<open>poid-fixtures/src/rawzip.rs\<close>: a ZIP archive written byte by byte, entries stored. The checksum (the \<open>crc32fast\<close>
  crate) is a parameter. The archive read back, record by record, is the list of entries it was built from;
  and the reader's raw header check gives on it the verdict that its first entry deserves. Lengths and offsets are
  cut to the width of their fields, as the casts of the code do.
\<close>

unbundle bit_operations_syntax

section \<open>The builder\<close>

record raw_entry =
  re_name :: "byte list"
  re_method :: u16
  re_crc :: u32
  re_data :: "byte list"
  re_uncompressed_len :: u32
  re_external_attrs :: u32
  re_extra :: "byte list"

type_synonym raw_zip = "raw_entry list"

definition raw_new :: raw_zip where
  "raw_new = []"

definition raw_entry_add ::
  "(byte list \<Rightarrow> u32) \<Rightarrow> byte list \<Rightarrow> u16 \<Rightarrow> byte list \<Rightarrow> u32 \<Rightarrow> byte list \<Rightarrow> raw_zip \<Rightarrow> raw_zip" where
  "raw_entry_add crc name method data external_attrs extra_bytes entries =
     entries @ [\<lparr>re_name = name, re_method = method, re_crc = crc data, re_data = data,
       re_uncompressed_len = word_of_nat (length data), re_external_attrs = external_attrs, re_extra = extra_bytes\<rparr>]"

definition regular_attrs :: u32 where
  "regular_attrs = push_bit 16 0x81A4"

definition raw_stored :: "(byte list \<Rightarrow> u32) \<Rightarrow> string \<Rightarrow> byte list \<Rightarrow> raw_zip \<Rightarrow> raw_zip" where
  "raw_stored crc name content = raw_entry_add crc (bytes_of name) 0 content regular_attrs []"

definition raw_stored_with_extra ::
  "(byte list \<Rightarrow> u32) \<Rightarrow> string \<Rightarrow> byte list \<Rightarrow> byte list \<Rightarrow> raw_zip \<Rightarrow> raw_zip" where
  "raw_stored_with_extra crc name content extra_bytes = raw_entry_add crc (bytes_of name) 0 content regular_attrs extra_bytes"

definition raw_with_method :: "(byte list \<Rightarrow> u32) \<Rightarrow> string \<Rightarrow> u16 \<Rightarrow> byte list \<Rightarrow> raw_zip \<Rightarrow> raw_zip" where
  "raw_with_method crc name method content = raw_entry_add crc (bytes_of name) method content regular_attrs []"

definition raw_symlink :: "(byte list \<Rightarrow> u32) \<Rightarrow> string \<Rightarrow> string \<Rightarrow> raw_zip \<Rightarrow> raw_zip" where
  "raw_symlink crc name target = raw_entry_add crc (bytes_of name) 0 (bytes_of target) (push_bit 16 0xA1FF) []"

definition raw_mimetype :: "(byte list \<Rightarrow> u32) \<Rightarrow> raw_zip \<Rightarrow> raw_zip" where
  "raw_mimetype crc = raw_stored crc ''mimetype'' (bytes_of media_type)"

text \<open>Serializing a manifest in memory is expected to succeed; otherwise the builder panics.\<close>

definition raw_manifest :: "(byte list \<Rightarrow> u32) \<Rightarrow> crates \<Rightarrow> manifest \<Rightarrow> raw_zip \<Rightarrow> raw_zip option" where
  "raw_manifest crc K m entries =
     (case to_json_bytes K m of Inl _ \<Rightarrow> None | Inr json \<Rightarrow> Some (raw_stored crc ''manifest.json'' json entries))"

section \<open>The bytes\<close>

definition u16le :: "u16 \<Rightarrow> byte list" where
  "u16le v = [ucast v, ucast (drop_bit 8 v)]"

definition u32le :: "u32 \<Rightarrow> byte list" where
  "u32le v = [ucast v, ucast (drop_bit 8 v), ucast (drop_bit 16 v), ucast (drop_bit 24 v)]"

definition local_header :: "raw_entry \<Rightarrow> byte list" where
  "local_header e =
     pk_magic @ u16le 20 @ u16le 0 @ u16le (re_method e) @ u16le 0 @ u16le 0x21 @ u32le (re_crc e) @
     u32le (word_of_nat (length (re_data e))) @ u32le (re_uncompressed_len e) @
     u16le (word_of_nat (length (re_name e))) @ u16le (word_of_nat (length (re_extra e)))"

definition local_record :: "raw_entry \<Rightarrow> byte list" where
  "local_record e = local_header e @ re_name e @ re_extra e @ re_data e"

fun local_offsets :: "nat \<Rightarrow> raw_entry list \<Rightarrow> nat list" where
  "local_offsets off [] = []"
| "local_offsets off (e # es) = off # local_offsets (off + length (local_record e)) es"

definition central_magic :: "byte list" where
  "central_magic = [0x50, 0x4b, 0x01, 0x02]"

definition central_record :: "raw_entry \<times> nat \<Rightarrow> byte list" where
  "central_record eo = (case eo of (e, offset) \<Rightarrow>
     central_magic @ u16le 0x031e @ u16le 20 @ u16le 0 @ u16le (re_method e) @ u16le 0 @ u16le 0x21 @ u32le (re_crc e) @
     u32le (word_of_nat (length (re_data e))) @ u32le (re_uncompressed_len e) @
     u16le (word_of_nat (length (re_name e))) @ u16le 0 @ u16le 0 @ u16le 0 @ u16le 0 @
     u32le (re_external_attrs e) @ u32le (word_of_nat offset) @ re_name e)"

definition end_record :: "nat \<Rightarrow> nat \<Rightarrow> nat \<Rightarrow> byte list" where
  "end_record entries cd_size cd_offset =
     [0x50, 0x4b, 0x05, 0x06] @ u16le 0 @ u16le 0 @ u16le (word_of_nat entries) @ u16le (word_of_nat entries) @
     u32le (word_of_nat cd_size) @ u32le (word_of_nat cd_offset) @ u16le 0"

definition raw_build :: "raw_zip \<Rightarrow> byte list" where
  "raw_build entries =
     (let locals = concat (map local_record entries);
          central = concat (map central_record (zip entries (local_offsets 0 entries)))
      in locals @ central @ end_record (length entries) (length central) (length locals))"

section \<open>Reading it back\<close>

definition take_u16 :: "byte list \<Rightarrow> u16" where
  "take_u16 bs = (case bs of a # b # _ \<Rightarrow> ucast a OR push_bit 8 (ucast b) | _ \<Rightarrow> 0)"

definition take_u32 :: "byte list \<Rightarrow> u32" where
  "take_u32 bs = (case bs of a # b # c # d # _ \<Rightarrow>
     ucast a OR push_bit 8 (ucast b) OR push_bit 16 (ucast c) OR push_bit 24 (ucast d) | _ \<Rightarrow> 0)"

lemma take_u16le [simp]: "take_u16 (u16le v @ rest) = v"
proof -
  have "ucast (ucast v :: byte) OR push_bit 8 (ucast (ucast (drop_bit 8 v) :: byte)) = v"
    by (rule bit_eqI) (auto simp: bit_simps)
  then show ?thesis by (simp add: take_u16_def u16le_def)
qed

lemma bytes_of_u32:
  "ucast (ucast v :: byte) OR push_bit 8 (ucast (ucast (drop_bit 8 v) :: byte)) OR
     push_bit 16 (ucast (ucast (drop_bit 16 v) :: byte)) OR push_bit 24 (ucast (ucast (drop_bit 24 v) :: byte)) = (v :: u32)"
proof (rule bit_word_eqI)
  fix n :: nat
  assume n: "n < LENGTH(32)"
  have len32: "LENGTH(32) = 32" by simp
  have "n < 8 \<or> n - 8 < 8 \<and> 8 \<le> n \<or> n - 16 < 8 \<and> 16 \<le> n \<or> n - 24 < 8 \<and> 24 \<le> n"
    using n unfolding len32 by arith
  then show "bit (ucast (ucast v :: byte) OR push_bit 8 (ucast (ucast (drop_bit 8 v) :: byte)) OR
     push_bit 16 (ucast (ucast (drop_bit 16 v) :: byte)) OR push_bit 24 (ucast (ucast (drop_bit 24 v) :: byte)) :: u32) n = bit v n"
    using n by (auto simp: bit_simps)
qed

lemma take_u32le [simp]: "take_u32 (u32le v @ rest) = v"
  using bytes_of_u32 [of v] by (simp add: take_u32_def u32le_def)

lemma length_u16le [simp]: "length (u16le v) = 2"
  by (simp add: u16le_def)

lemma length_u32le [simp]: "length (u32le w) = 4"
  by (simp add: u32le_def)

lemma length_magics [simp]: "length pk_magic = 4" "length central_magic = 4"
  by (simp_all add: pk_magic_def central_magic_def)

text \<open>The local records up to the first that is none, and what follows them.\<close>

function read_locals :: "byte list \<Rightarrow> raw_entry list \<times> byte list" where
  "read_locals bs =
     (if take 4 bs = pk_magic then
        let name_len = unat (take_u16 (drop 26 bs)); extra_len = unat (take_u16 (drop 28 bs));
            data_len = unat (take_u32 (drop 18 bs)); body = drop 30 bs;
            e = \<lparr>re_name = take name_len body, re_method = take_u16 (drop 8 bs), re_crc = take_u32 (drop 14 bs),
                 re_data = take data_len (drop (name_len + extra_len) body),
                 re_uncompressed_len = take_u32 (drop 22 bs), re_external_attrs = 0,
                 re_extra = take extra_len (drop name_len body)\<rparr>;
            (es, rest) = read_locals (drop (name_len + extra_len + data_len) body)
        in (e # es, rest)
      else ([], bs))"
  by pat_completeness auto
termination
proof (relation "measure length")
  fix bs body :: "byte list" and name_len extra_len data_len :: nat
  assume "take 4 bs = pk_magic" "body = drop 30 bs"
  then have "bs \<noteq> []" by (auto simp: pk_magic_def)
  then have "length (drop 30 bs) < length bs" by simp
  then show "(drop (name_len + extra_len + data_len) body, bs) \<in> measure length"
    using \<open>body = drop 30 bs\<close> by simp
qed simp

declare read_locals.simps [simp del]

text \<open>The external attributes of the central records.\<close>

fun read_attrs :: "nat \<Rightarrow> byte list \<Rightarrow> u32 list" where
  "read_attrs 0 bs = []"
| "read_attrs (Suc n) bs =
     take_u32 (drop 38 bs) # read_attrs n (drop (46 + unat (take_u16 (drop 28 bs))) bs)"

definition raw_read :: "byte list \<Rightarrow> raw_zip" where
  "raw_read bs =
     (let (es, rest) = read_locals bs
      in map2 (\<lambda>e attrs. e\<lparr>re_external_attrs := attrs\<rparr>) es (read_attrs (length es) rest))"

definition raw_entry_fits :: "raw_entry \<Rightarrow> bool" where
  "raw_entry_fits e \<longleftrightarrow> length (re_name e) < 2 ^ 16 \<and> length (re_extra e) < 2 ^ 16 \<and> length (re_data e) < 2 ^ 32"

lemma local_header_fields:
  "take 4 (local_header e @ r) = pk_magic" "take_u16 (drop 8 (local_header e @ r)) = re_method e"
  "take_u32 (drop 14 (local_header e @ r)) = re_crc e"
  "take_u32 (drop 18 (local_header e @ r)) = word_of_nat (length (re_data e))"
  "take_u32 (drop 22 (local_header e @ r)) = re_uncompressed_len e"
  "take_u16 (drop 26 (local_header e @ r)) = word_of_nat (length (re_name e))"
  "take_u16 (drop 28 (local_header e @ r)) = word_of_nat (length (re_extra e))"
  "drop 30 (local_header e @ r) = r"
  by (simp_all add: local_header_def)

lemma read_locals_record:
  assumes "raw_entry_fits e"
  shows "read_locals (local_record e @ r) =
    (let (es, rest) = read_locals r in (e\<lparr>re_external_attrs := 0\<rparr> # es, rest))"
proof -
  let ?r = "re_name e @ re_extra e @ re_data e @ r"
  have bytes: "local_record e @ r = local_header e @ ?r" by (simp add: local_record_def)
  have lens: "unat (word_of_nat (length (re_name e)) :: u16) = length (re_name e)"
    "unat (word_of_nat (length (re_extra e)) :: u16) = length (re_extra e)"
    "unat (word_of_nat (length (re_data e)) :: u32) = length (re_data e)"
    using assms by (simp_all add: raw_entry_fits_def unat_of_nat take_bit_nat_eq_self)
  have body: "take (length (re_name e)) ?r = re_name e"
    "take (length (re_extra e)) (drop (length (re_name e)) ?r) = re_extra e"
    "take (length (re_data e)) (drop (length (re_name e) + length (re_extra e)) ?r) = re_data e"
    "drop (length (re_name e) + length (re_extra e) + length (re_data e)) ?r = r"
    by simp_all
  show ?thesis
    unfolding bytes read_locals.simps [of "local_header e @ ?r"] Let_def local_header_fields lens body
    by (simp split: prod.split)
qed

lemma read_locals_records:
  "list_all raw_entry_fits es \<Longrightarrow> take 4 r \<noteq> pk_magic \<Longrightarrow>
     read_locals (concat (map local_record es) @ r) = (map (\<lambda>e. e\<lparr>re_external_attrs := 0\<rparr>) es, r)"
proof (induction es)
  case Nil
  then show ?case by (simp add: read_locals.simps)
next
  case (Cons e es)
  then show ?case using read_locals_record [of e "concat (map local_record es) @ r"] by simp
qed

lemma read_attrs_records:
  "list_all (raw_entry_fits \<circ> fst) eos \<Longrightarrow>
     read_attrs (length eos) (concat (map central_record eos) @ r) = map (re_external_attrs \<circ> fst) eos"
proof (induction eos)
  case (Cons eo eos)
  obtain e offset where eo: "eo = (e, offset)" by (cases eo)
  let ?r = "concat (map central_record eos) @ r"
  have len: "unat (word_of_nat (length (re_name e)) :: u16) = length (re_name e)"
    using Cons(2) by (simp add: eo raw_entry_fits_def unat_of_nat take_bit_nat_eq_self)
  have "take_u32 (drop 38 (central_record eo @ ?r)) = re_external_attrs e"
    "take_u16 (drop 28 (central_record eo @ ?r)) = word_of_nat (length (re_name e))"
    "drop (46 + length (re_name e)) (central_record eo @ ?r) = ?r"
    by (simp_all add: eo central_record_def)
  then show ?case using Cons len by (simp add: eo)
qed simp

lemma local_offsets_length [simp]: "length (local_offsets off es) = length es"
  by (induction es arbitrary: off) simp_all

text \<open>
  A raw archive reads back: from the bytes, read record by record, come the entries it was built from, in order
  and with every field (method, checksum, sizes, attributes, extra bytes), as long as names and extra bytes are
  shorter than 2^16 and contents than 2^32.
\<close>

lemma raw_archive_reads_back:
  assumes "list_all raw_entry_fits es"
  shows "raw_read (raw_build es) = es"
proof -
  let ?eos = "zip es (local_offsets 0 es)"
  let ?central = "concat (map central_record ?eos)"
  let ?final = "end_record (length es) (length ?central) (length (concat (map local_record es)))"
  have "take 4 (?central @ ?final) \<noteq> pk_magic"
  proof (cases es)
    case Nil
    then show ?thesis by (simp add: end_record_def pk_magic_def)
  next
    case (Cons e rest)
    then have "take 4 (?central @ ?final) = central_magic" by (simp add: central_record_def)
    then show ?thesis by (simp add: central_magic_def pk_magic_def)
  qed
  then have locals: "read_locals (raw_build es) = (map (\<lambda>e. e\<lparr>re_external_attrs := 0\<rparr>) es, ?central @ ?final)"
    unfolding raw_build_def Let_def by (intro read_locals_records [OF assms])
  have "list_all (raw_entry_fits \<circ> fst) ?eos" using assms by (auto simp: list_all_iff dest: set_zip_leftD)
  from read_attrs_records [OF this, of ?final]
  have attrs: "read_attrs (length es) (?central @ ?final) = map re_external_attrs es"
    by (simp add: map_fst_zip flip: map_map)
  show ?thesis
    unfolding raw_read_def locals by (simp add: attrs zip_map1 zip_map2 zip_same_conv_map o_def)
qed


section \<open>The header check on a raw archive\<close>

lemma u16_at_drop: "off + i + 1 < length bs \<Longrightarrow> u16_at bs (off + i) = u16_at (drop off bs) i"
  by (simp add: u16_at_def)

lemma low_byte: "unat (ucast v :: byte) = unat v mod 256" for v :: "'a::len word"
  by (simp add: unsigned_ucast_eq take_bit_eq_mod)

lemma shifted_byte: "unat (ucast (drop_bit k v) :: byte) = unat v div 2 ^ k mod 256" for v :: "'a::len word"
proof -
  have "drop_bit k (unat v) = unat v div 2 ^ k" by (rule drop_bit_eq_div)
  then show ?thesis by (simp only: low_byte unat_drop_bit_eq)
qed

lemma two_digits: "n mod 256 + 256 * (n div 256 mod 256) = n mod 65536" for n :: nat
  using mod_mult2_eq [of n 256 256] by simp

lemma u16_at_u16le: "u16_at (u16le v @ r) 0 = unat v"
proof -
  have "unat v < 65536" using unsigned_less [of v, where ?'a = nat] by simp
  moreover have "u16_at (u16le v @ r) 0 = unat v mod 256 + 256 * (unat v div 2 ^ 8 mod 256)"
    unfolding u16_at_eq u16le_def by (simp add: low_byte [of v] shifted_byte)
  ultimately show ?thesis using two_digits [of "unat v"] by simp
qed

lemma size_of_u32le: "u16_at (u32le v @ r) 0 OR push_bit 16 (u16_at (u32le v @ r) 2) = unat v"
proof -
  have small: "unat v div 65536 < 65536" using unsigned_less [of v, where ?'a = nat] by simp
  have "u16_at (u32le v @ r) 0 = unat v mod 256 + 256 * (unat v div 2 ^ 8 mod 256)"
    unfolding u16_at_eq u32le_def by (simp add: low_byte [of v] shifted_byte)
  then have low: "u16_at (u32le v @ r) 0 = unat v mod 65536" using two_digits [of "unat v"] by simp
  have "u16_at (u32le v @ r) 2 = unat v div 2 ^ 16 mod 256 + 256 * (unat v div 2 ^ 24 mod 256)"
    unfolding u16_at_eq u32le_def by (simp add: low_byte [of v] shifted_byte)
  then have high: "u16_at (u32le v @ r) 2 = unat v div 65536"
    using two_digits [of "unat v div 65536"] small by (simp add: div_mult2_eq [symmetric])
  show ?thesis unfolding low high by (simp add: or_push_bit)
qed

lemma length_local_header [simp]: "length (local_header e) = 30"
  by (simp add: local_header_def)

text \<open>The verdict of the header check, read off the first entry.\<close>

definition first_entry_verdict :: "raw_entry \<Rightarrow> poid_error + unit" where
  "first_entry_verdict e =
     (if re_name e \<noteq> bytes_of mimetype_name then Inl (MimetypeNotFirst (from_utf8_lossy (re_name e)))
      else if re_method e \<noteq> 0 \<or> re_extra e \<noteq> [] then Inl MimetypeNotStored
      else if re_data e \<noteq> bytes_of media_type then Inl MimetypeMismatch
      else Inr ())"

lemma check_mimetype_local:
  assumes "raw_entry_fits e"
  shows "check_mimetype_raw (local_record e @ r) = first_entry_verdict e"
proof -
  let ?r = "re_name e @ re_extra e @ re_data e @ r"
  let ?b = "local_header e @ ?r"
  have lens: "unat (word_of_nat (length (re_name e)) :: u16) = length (re_name e)"
    "unat (word_of_nat (length (re_extra e)) :: u16) = length (re_extra e)"
    "unat (word_of_nat (length (re_data e)) :: u32) = length (re_data e)"
    using assms by (simp_all add: raw_entry_fits_def unat_of_nat take_bit_nat_eq_self)
  have starts: "drop 6 ?b = u16le 0 @ drop 8 ?b" "drop 8 ?b = u16le (re_method e) @ drop 10 ?b"
    "drop 18 ?b = u32le (word_of_nat (length (re_data e))) @ drop 22 ?b"
    "drop 26 ?b = u16le (word_of_nat (length (re_name e))) @ drop 28 ?b"
    "drop 28 ?b = u16le (word_of_nat (length (re_extra e))) @ drop 30 ?b"
    by (simp_all add: local_header_def)
  have "u16_at ?b 6 = unat (0 :: u16)" "u16_at ?b 8 = unat (re_method e)" "u16_at ?b 26 = length (re_name e)"
    "u16_at ?b 28 = length (re_extra e)"
    using u16_at_drop [of 6 0 ?b] u16_at_drop [of 8 0 ?b] u16_at_drop [of 26 0 ?b] u16_at_drop [of 28 0 ?b]
    unfolding starts u16_at_u16le lens by simp_all
  moreover have "u16_at ?b 18 OR push_bit 16 (u16_at ?b 20) = length (re_data e)"
    using u16_at_drop [of 18 0 ?b] u16_at_drop [of 18 2 ?b] size_of_u32le [of "word_of_nat (length (re_data e))" "drop 22 ?b"]
    unfolding starts lens by simp
  ultimately have fields: "u16_at ?b 6 = 0" "u16_at ?b 8 = unat (re_method e)" "u16_at ?b 26 = length (re_name e)"
    "u16_at ?b 28 = length (re_extra e)" "u16_at ?b 18 OR push_bit 16 (u16_at ?b 20) = length (re_data e)"
    by simp_all
  have body: "get_range ?b 30 (30 + length (re_name e)) = Some (re_name e)"
    "re_extra e = [] \<Longrightarrow>
       get_range ?b (30 + length (re_name e)) (30 + length (re_name e) + length (re_data e)) = Some (re_data e)"
    by (simp_all add: get_range_def)
  have "check_mimetype_raw ?b = first_entry_verdict e"
    unfolding check_mimetype_raw_def Let_def fields body local_header_fields first_entry_verdict_def
    using body(2) by (auto simp: unat_eq_0)
  then show ?thesis by (simp add: local_record_def)
qed

lemma check_mimetype_raw_archive:
  "raw_entry_fits e \<Longrightarrow> check_mimetype_raw (raw_build (e # es)) = first_entry_verdict e"
  by (simp add: raw_build_def Let_def check_mimetype_local)

end
