(* ===== verification/Raw_Reading.thy ===== *)
theory Raw_Reading
  imports Raw_Zip
begin

text \<open>
  What the container reader makes of a raw archive. Given that the \<open>zip\<close> crate reads such archives as documented, the
  verdict of the reader is a function of the entries alone, written out here without bytes; the conformance
  fixtures are judged with it.
\<close>

unbundle bit_operations_syntax

section \<open>Documented behaviour of the \<open>zip\<close> crate on raw archives\<close>

definition unix_mode_of :: "raw_entry \<Rightarrow> u32" where
  "unix_mode_of e = drop_bit 16 (re_external_attrs e)"

definition raw_method :: "raw_entry \<Rightarrow> compression_method" where
  "raw_method e = (if re_method e = 0 then Stored else if re_method e = 8 then Deflated
     else OtherMethod (unat (re_method e)))"

definition raw_is_dir :: "raw_entry \<Rightarrow> bool" where
  "raw_is_dir e \<longleftrightarrow> ends_with (string_of (re_name e)) ''/'' \<or> ends_with (string_of (re_name e)) [CHR 92]"

text \<open>How the crate shows one entry. The data of a compressed entry is not described.\<close>

definition raw_seen :: "raw_entry \<Rightarrow> zip_entry option \<Rightarrow> bool" where
  "raw_seen e eo \<longleftrightarrow> (\<exists>z. eo = Some z \<and> z_name_raw z = re_name e \<and> (\<not> raw_is_dir e \<longrightarrow> \<not> z_is_dir z) \<and>
     z_is_symlink z = (unix_mode_of e AND 0xF000 = 0xA000) \<and> z_unix_mode z = Some (unix_mode_of e) \<and>
     z_method z = raw_method e \<and>
     (re_method e = 0 \<longrightarrow> z_compressed z = length (re_data e) \<and>
        (\<exists>reader. z_reader z = Some reader \<and> payload reader = Some (re_data e))))"

text \<open>The archives it reads: small enough to need no ZIP64 records, checksums right, ASCII names, no name twice.\<close>

definition raw_archive_ok :: "(byte list \<Rightarrow> u32) \<Rightarrow> raw_zip \<Rightarrow> bool" where
  "raw_archive_ok crc es \<longleftrightarrow> list_all raw_entry_fits es \<and> length es < 65535 \<and> length (raw_build es) < 2 ^ 32 - 1 \<and>
     distinct (map re_name es) \<and> es \<noteq> [] \<and>
     (\<forall>e\<in>set es. re_crc e = crc (re_data e) \<and> re_uncompressed_len e = word_of_nat (length (re_data e)) \<and>
        unix_mode_of e \<noteq> 0 \<and> re_name e \<noteq> [] \<and> is_ascii (string_of (re_name e)))"

definition reads_raw :: "crates \<Rightarrow> (byte list \<Rightarrow> u32) \<Rightarrow> bool" where
  "reads_raw K crc \<longleftrightarrow> (\<forall>es. raw_archive_ok crc es \<longrightarrow>
     (\<exists>a. zip_new K (raw_build es) = Some a \<and> list_all2 raw_seen es (z_entries a) \<and>
        (\<forall>i<length es. z_index_for_name a (string_of (re_name (es ! i))) = Some i) \<and>
        (\<forall>name. name \<notin> string_of ` re_name ` set es \<longrightarrow> z_index_for_name a name = None)))"

section \<open>The verdict by entries\<close>

text \<open>An entry of a small archive: stored, a regular file or a symbolic link, at most 1 MiB, and no archive itself.\<close>

definition small_entry :: "raw_entry \<Rightarrow> bool" where
  "small_entry e \<longleftrightarrow> re_method e = 0 \<and> \<not> raw_is_dir e \<and> length (re_data e) \<le> 1024 * 1024 \<and>
     (unix_mode_of e = 0x81A4 \<or> unix_mode_of e = 0xA1FF) \<and> \<not> starts_with (re_data e) pk_magic"

definition raw_step :: "raw_entry \<Rightarrow> scan_state \<Rightarrow> poid_error + scan_state" where
  "raw_step e st = (case st of (budget, files, seen) \<Rightarrow>
     let name = string_of (re_name e) in
     rbind (check_container_path name) (\<lambda>_.
     if unix_mode_of e \<noteq> 0x81A4 then Inl (Link name)
     else case find (\<lambda>(magic, kind). starts_with (re_data e) magic) exec_magics of
       Some (magic, kind) \<Rightarrow> Inl (NativeCode name kind)
     | None \<Rightarrow>
         if to_ascii_lowercase name \<in> seen then Inl (DuplicatePath name)
         else Inr (budget - length (re_data e),
           if name \<noteq> mimetype_name \<and> name \<noteq> manifest_name then bt_insert name (re_data e) files else files,
           insert (to_ascii_lowercase name) seen)))"

definition raw_header :: "raw_zip \<Rightarrow> poid_error + unit" where
  "raw_header es = map_err (\<lambda>e. case e of
       MimetypeNotFirst _ \<Rightarrow> if mimetype_name \<in> string_of ` re_name ` set es then e else MimetypeMissing
     | _ \<Rightarrow> e) (first_entry_verdict (hd es))"

definition raw_open :: "crates \<Rightarrow> raw_zip \<Rightarrow> poid_error + poid" where
  "raw_open K es =
     rbind (raw_header es) (\<lambda>_.
     rbind (ok_or ManifestMissing (find (\<lambda>e. string_of (re_name e) = manifest_name) es)) (\<lambda>e.
     rbind (map_err ManifestErr (manifest_parse K (re_data e))) (\<lambda>m.
     rbind (map_err ManifestErr (validate m)) (\<lambda>_.
     rbind (fold_each raw_step es (1024 * 1024 * 1024 - length (re_data e), [], {})) (\<lambda>(budget, files, seen).
     rbind (check_type_rules m files) (\<lambda>_.
       Inr \<lparr>c_manifest = m, c_files = files\<rparr>))))))"

lemma raw_read_limited:
  assumes "payload reader = Some content" "length content \<le> 1024 * 1024" "length content \<le> budget"
  shows "read_limited reader name n limits_default budget = Inr (content, budget - length content)"
  using assms by (simp add: read_limited_iff ratio_cap_def limits_default_def)

lemma modes:
  "(0x81A4 :: u32) AND 0xF000 = 0x8000" "(0xA1FF :: u32) AND 0xF000 = 0xA000"
  by code_simp+

lemma open_raw_entry:
  assumes "raw_seen e eo" "small_entry e" "length (re_data e) \<le> budget"
    and "is_ascii (string_of (re_name e))"
  shows "open_entry K limits_default (i, eo) (budget, files, seen) = raw_step e (budget, files, seen)"
proof -
  let ?name = "string_of (re_name e)"
  obtain z reader where z: "eo = Some z" "z_name_raw z = re_name e" "\<not> z_is_dir z"
    "z_is_symlink z = (unix_mode_of e AND 0xF000 = 0xA000)" "z_unix_mode z = Some (unix_mode_of e)"
    "z_method z = Stored" "z_reader z = Some reader" "payload reader = Some (re_data e)"
    using assms(1,2) by (auto simp: raw_seen_def small_entry_def raw_method_def)
  have name: "entry_name z = Inr ?name"
    using from_utf8_ascii [OF assms(4)] by (simp add: entry_name_def z(2))
  have read: "read_limited reader ?name (z_compressed z) limits_default budget =
      Inr (re_data e, budget - length (re_data e))"
    using assms(2,3) by (intro raw_read_limited z(8)) (simp_all add: small_entry_def)
  have special: "check_not_special z ?name = (if unix_mode_of e \<noteq> 0x81A4 then Inl (Link ?name) else Inr ())"
    using assms(2) by (auto simp: small_entry_def check_not_special_def z(4,5) special_mode_def modes)
  have scan: "scan_content (zip_new K) limits_default ?name (re_data e) 1 b =
      (case find (\<lambda>(magic, kind). starts_with (re_data e) magic) exec_magics of
         Some (magic, kind) \<Rightarrow> Inl (NativeCode ?name kind) | None \<Rightarrow> Inr b)" for b
    using assms(2) by (simp add: scan_content.simps [of _ _ _ "re_data e"] small_entry_def split: option.splits)
  show ?thesis
    by (simp add: open_entry_def raw_step_def z(1,3,6,7) name special read scan check_method_def Let_def
        split: option.splits)
qed

lemma raw_step_budget:
  "raw_step e (budget, files, seen) = Inr (b, fs, sn) \<Longrightarrow> b = budget - length (re_data e)"
  by (auto simp: raw_step_def result_simps Let_def split: if_splits option.splits)

lemma open_raw_entries:
  assumes "list_all2 raw_seen es eos" "list_all small_entry es" "sum_list (map (\<lambda>e. length (re_data e)) es) \<le> budget"
    and "\<forall>e\<in>set es. is_ascii (string_of (re_name e))"
  shows "fold_each (open_entry K limits_default) (enumerate i eos) (budget, files, seen) =
    fold_each raw_step es (budget, files, seen)"
  using assms
proof (induction es eos arbitrary: i budget files seen rule: list_all2_induct)
  case (Cons e es eo eos)
  have "length (re_data e) \<le> budget" using Cons.prems by simp
  then have step: "open_entry K limits_default (i, eo) (budget, files, seen) = raw_step e (budget, files, seen)"
    using Cons by (intro open_raw_entry) simp_all
  show ?case
  proof (cases "raw_step e (budget, files, seen)")
    case (Inr st)
    obtain b fs sn where st: "st = (b, fs, sn)" by (cases st)
    with Inr have b: "b = budget - length (re_data e)" using raw_step_budget by blast
    then have "sum_list (map (\<lambda>e. length (re_data e)) es) \<le> b" using Cons.prems by simp
    then show ?thesis using Cons step Inr st by simp
  qed (simp add: step)
qed simp

lemma find_first_index:
  "find P xs = Some x \<Longrightarrow> \<exists>i<length xs. xs ! i = x \<and> P x"
  by (auto simp: find_Some_iff)

lemma open_raw_archive:
  assumes "reads_raw K crc" "raw_archive_ok crc es"
    and "raw_header es = Inr () \<longrightarrow> list_all small_entry es \<and>
      2 * sum_list (map (\<lambda>e. length (re_data e)) es) \<le> 1024 * 1024 * 1024 \<and> length es \<le> 10000"
  shows "open_with_limits K limits_default (raw_build es) = raw_open K es"
proof -
  obtain a where a: "zip_new K (raw_build es) = Some a" "list_all2 raw_seen es (z_entries a)"
    and idx: "\<And>i. i < length es \<Longrightarrow> z_index_for_name a (string_of (re_name (es ! i))) = Some i"
    and none: "\<And>name. name \<notin> string_of ` re_name ` set es \<Longrightarrow> z_index_for_name a name = None"
    using assms(1,2) unfolding reads_raw_def by blast
  obtain e rest where es: "es = e # rest" using assms(2) by (cases es) (simp_all add: raw_archive_ok_def)
  have raw: "check_mimetype_raw (raw_build es) = first_entry_verdict e"
    using assms(2) unfolding es by (intro check_mimetype_raw_archive) (simp add: raw_archive_ok_def)
  have named: "z_index_for_name a name \<noteq> None" if "name \<in> string_of ` re_name ` set es" for name
    using that idx by (auto simp: in_set_conv_nth)
  have header: "map_err (mimetype_failure K (raw_build es)) (check_mimetype_raw (raw_build es)) = raw_header es"
    using named [of mimetype_name] none [of mimetype_name]
    unfolding raw raw_header_def
    by (auto simp: first_entry_verdict_def mimetype_failure_def a(1) [unfolded es] es)
  show ?thesis
  proof (cases "raw_header es")
    case (Inl x)
    then show ?thesis by (simp add: open_with_limits_def header raw_open_def)
  next
    case (Inr u)
    with assms(3) have small: "list_all small_entry es" "length es \<le> 10000"
      and sum: "2 * sum_list (map (\<lambda>e. length (re_data e)) es) \<le> 1024 * 1024 * 1024" by simp_all
    have len: "length (z_entries a) = length es" using a(2) by (simp add: list_all2_lengthD)
    show ?thesis
    proof (cases "find (\<lambda>e. string_of (re_name e) = manifest_name) es")
      case None
      then have "manifest_name \<notin> string_of ` re_name ` set es" by (auto simp: find_None_iff)
      then show ?thesis
        using small(2) Inr None
        by (simp add: open_with_limits_def header a(1) len limits_default_def read_manifest_def none raw_open_def)
    next
      case (Some f)
      from find_first_index [OF this] obtain i where i: "i < length es" "es ! i = f"
        "string_of (re_name f) = manifest_name" by auto
      have seen: "raw_seen f (z_entries a ! i)" using list_all2_nthD [OF a(2) i(1)] i(2) by simp
      have f: "small_entry f" "f \<in> set es" using small(1) i nth_mem by (auto simp: list_all_iff)
      then have flen: "length (re_data f) \<le> sum_list (map (\<lambda>e. length (re_data e)) es)"
        by (auto intro!: member_le_sum_list)
      obtain z reader where z: "z_entries a ! i = Some z" "z_method z = Stored" "z_reader z = Some reader"
        "payload reader = Some (re_data f)"
        using seen f(1) by (auto simp: raw_seen_def small_entry_def raw_method_def)
      have "read_limited reader manifest_name (z_compressed z) limits_default (1024 * 1024 * 1024) =
          Inr (re_data f, 1024 * 1024 * 1024 - length (re_data f))"
        using f(1) sum flen by (intro raw_read_limited z(4)) (simp_all add: small_entry_def)
      then have manifest: "read_manifest K a limits_default (1024 * 1024 * 1024) =
          rbind (map_err ManifestErr (manifest_parse K (re_data f)))
            (\<lambda>m. Inr (m, 1024 * 1024 * 1024 - length (re_data f)))"
        using idx [OF i(1)] i z len
        by (simp add: read_manifest_def by_index_def check_method_def)
      have "sum_list (map (\<lambda>e. length (re_data e)) es) \<le> 1024 * 1024 * 1024 - length (re_data f)"
        using sum flen by linarith
      from open_raw_entries [OF a(2) small(1) this]
      have entries: "fold_each (open_entry K limits_default) (enumerate 0 (z_entries a))
          (1024 * 1024 * 1024 - length (re_data f), [], {}) =
        fold_each raw_step es (1024 * 1024 * 1024 - length (re_data f), [], {})"
        using assms(2) by (simp add: raw_archive_ok_def)
      have limits: "max_entries limits_default = 10000" "max_total_uncompressed limits_default = 1024 * 1024 * 1024"
        by (simp_all add: limits_default_def)
      show ?thesis
        using small(2) len entries manifest
        by (cases "manifest_parse K (re_data f)")
          (simp_all add: open_with_limits_def header a(1) limits raw_open_def Some Inr)
    qed
  qed
qed

end
