(* ===== verification/Conformance_Fixtures.thy ===== *)
theory Conformance_Fixtures
  imports Raw_Reading
begin

text \<open>
  \<open>poid-fixtures\<close>: the generators of the conformance suite (\<open>lib.rs\<close>, \<open>valid.rs\<close>, \<open>invalid.rs\<close>), one definition per
  fixture. The \<open>crc32fast\<close> crate and the text \<open>serde_json\<close> writes for a JSON value are parameters beside those of
  \<open>poid-core\<close>. A fixture of the raw builder is given as the archive before \<open>build()\<close>, which \<open>invalid_raw\<close> applies to
  it. That the invalid ones are refused with the registry codes the suite expects is proved in \<open>Conformance_Suite\<close>.
\<close>

unbundle bit_operations_syntax

section \<open>The suite\<close>

record fixture_env =
  fe_crates :: crates
  fe_crc :: "byte list \<Rightarrow> u32"
  fe_json_to_string :: "json \<Rightarrow> string"

datatype fixture_failure = Panicked | Failed poid_error

record fixture =
  fx_name :: string
  fx_valid :: bool
  fx_bytes :: "byte list"
  fx_expected_code :: "string option"

definition expected_json :: "fixture \<Rightarrow> json" where
  "expected_json f =
     (case fx_expected_code f of
        Some c \<Rightarrow> JObject [(''valid'', JBool False), (''code'', JString c)]
      | None \<Rightarrow> JObject [(''valid'', JBool True)])"

definition test_key_seed :: "byte list" where
  "test_key_seed = replicate 32 42"

definition xorshift :: "64 word \<Rightarrow> 64 word" where
  "xorshift state =
     (let state = state XOR push_bit 13 state;
          state = state XOR drop_bit 7 state
      in state XOR push_bit 17 state)"

definition u64_le_bytes :: "64 word \<Rightarrow> byte list" where
  "u64_le_bytes state = map (\<lambda>i. ucast (drop_bit (8 * i) state)) [0..<8]"

lemma length_u64_le_bytes [simp]: "length (u64_le_bytes state) = 8"
  by (simp add: u64_le_bytes_def)

function random_loop :: "nat \<Rightarrow> 64 word \<Rightarrow> byte list \<Rightarrow> byte list" where
  "random_loop len state out =
     (if length out < len then random_loop len (xorshift state) (out @ u64_le_bytes (xorshift state)) else out)"
  by pat_completeness auto
termination
  by (relation "measure (\<lambda>(len, state, out). len - length out)") auto

declare random_loop.simps [simp del]

definition pseudo_random_bytes :: "64 word \<Rightarrow> nat \<Rightarrow> byte list" where
  "pseudo_random_bytes seed len = take len (random_loop len (seed OR 1) [])"

definition mini_zip :: "crates \<Rightarrow> (string \<times> byte list) list \<Rightarrow> poid_error + byte list" where
  "mini_zip K entries = map_err IoErr (zip_write K (map (\<lambda>(name, content). (name, Deflated, content)) entries))"

text \<open>A builder filled file by file, and packed.\<close>

definition built_with :: "manifest \<Rightarrow> (string \<times> byte list) list \<Rightarrow> poid_error + poid_builder" where
  "built_with m files = fold_each (\<lambda>(path, content). builder_file path content) files (builder_new m)"

definition packed :: "crates \<Rightarrow> manifest \<Rightarrow> (string \<times> byte list) list \<Rightarrow> poid_error + byte list" where
  "packed K m files = rbind (built_with m files) (pack K)"

text \<open>The fixtures of a list, up to the first that fails.\<close>

fun in_order :: "('e + 'a) list \<Rightarrow> 'e + 'a list" where
  "in_order [] = Inr []"
| "in_order (r # rs) = rbind r (\<lambda>x. rbind (in_order rs) (\<lambda>xs. Inr (x # xs)))"

section \<open>The invalid fixtures\<close>

definition invalid_fixture :: "string \<Rightarrow> string \<Rightarrow> byte list \<Rightarrow> fixture" where
  "invalid_fixture name expected bytes =
     \<lparr>fx_name = name, fx_valid = False, fx_bytes = bytes, fx_expected_code = Some expected\<rparr>"

definition invalid_app :: "string \<Rightarrow> manifest" where
  "invalid_app name_suffix =
     new_app (''org.poid.conformance.'' @ name_suffix) ''Invalid Fixture'' ''1.0.0'' ''app/index.html''"

definition invalid_index :: "byte list" where
  "invalid_index = bytes_of ''<!doctype html><h1>invalid fixture</h1>''"

definition with_manifest :: "fixture_env \<Rightarrow> manifest \<Rightarrow> raw_zip \<Rightarrow> fixture_failure + raw_zip" where
  "with_manifest E m entries = ok_or Panicked (raw_manifest (fe_crc E) (fe_crates E) m entries)"

definition no_mimetype :: "fixture_env \<Rightarrow> fixture_failure + raw_zip" where
  "no_mimetype E =
     rbind (with_manifest E (invalid_app ''no-mimetype'') raw_new) (\<lambda>es.
       Inr (raw_stored (fe_crc E) ''app/index.html'' invalid_index es))"

definition mimetype_not_first :: "fixture_env \<Rightarrow> fixture_failure + raw_zip" where
  "mimetype_not_first E =
     with_manifest E (invalid_app ''not-first'')
       (raw_mimetype (fe_crc E) (raw_stored (fe_crc E) ''app/index.html'' invalid_index raw_new))"

definition mimetype_compressed :: "fixture_env \<Rightarrow> fixture_failure + raw_zip" where
  "mimetype_compressed E =
     rbind (with_manifest E (invalid_app ''compressed'') (raw_with_method (fe_crc E) ''mimetype'' 8 [1, 2, 3] raw_new))
       (\<lambda>es. Inr (raw_stored (fe_crc E) ''app/index.html'' invalid_index es))"

definition bad_manifest :: "fixture_env \<Rightarrow> raw_zip" where
  "bad_manifest E =
     raw_stored (fe_crc E) ''app/index.html'' invalid_index
       (raw_stored (fe_crc E) ''manifest.json'' (bytes_of ''{ this is not json'') (raw_mimetype (fe_crc E) raw_new))"

definition schema_violation_json :: json where
  "schema_violation_json =
     JObject [
       (''poid'', JString ''1.0''),
       (''type'', JString ''app''),
       (''app'', JObject [(''id'', JString ''org.poid.conformance.schema''), (''name'', JString ''Schema''),
          (''version'', JString ''1.0.0'')]),
       (''instance'', JObject [(''id'', JNull)]),
       (''runtime'', JObject [(''profile'', JString ''web'')]),
       (''storage'', JObject [(''mode'', JString ''embedded'')]),
       (''permissions'', JObject [(''network'', JArray [])]),
       (''integrity'', JObject [(''algo'', JString ''sha256'')])]"

definition schema_violation :: "fixture_env \<Rightarrow> raw_zip" where
  "schema_violation E =
     raw_stored (fe_crc E) ''app/index.html'' invalid_index
       (raw_stored (fe_crc E) ''manifest.json'' (bytes_of (fe_json_to_string E schema_violation_json))
         (raw_mimetype (fe_crc E) raw_new))"

text \<open>The shape most fixtures share: the media type, a manifest and one file, then what is wrong.\<close>

definition raw_app :: "fixture_env \<Rightarrow> manifest \<Rightarrow> string \<Rightarrow> fixture_failure + raw_zip" where
  "raw_app E m path =
     rbind (with_manifest E m (raw_mimetype (fe_crc E) raw_new)) (\<lambda>es.
       Inr (raw_stored (fe_crc E) path invalid_index es))"

definition contains_exe :: "fixture_env \<Rightarrow> fixture_failure + raw_zip" where
  "contains_exe E =
     rbind (raw_app E (invalid_app ''exe'') ''app/index.html'') (\<lambda>es.
       Inr (raw_stored (fe_crc E) ''app/tool.exe''
         (bytes_of ''MZ'' @ [0x90, 0, 3, 0, 0, 0] @ bytes_of ''rest-of-a-pe-file'') es))"

definition contains_elf :: "fixture_env \<Rightarrow> fixture_failure + raw_zip" where
  "contains_elf E =
     rbind (raw_app E (invalid_app ''elf'') ''app/index.html'') (\<lambda>es.
       Inr (raw_stored (fe_crc E) ''app/libnative.so''
         ([0x7f] @ bytes_of ''ELF'' @ [2, 1, 1, 0] @ bytes_of ''payload'') es))"

definition symlink_fixture :: "fixture_env \<Rightarrow> fixture_failure + raw_zip" where
  "symlink_fixture E =
     rbind (raw_app E (invalid_app ''symlink'') ''app/index.html'') (\<lambda>es.
       Inr (raw_symlink (fe_crc E) ''app/link'' ''/etc/passwd'' es))"

definition path_traversal :: "fixture_env \<Rightarrow> fixture_failure + raw_zip" where
  "path_traversal E =
     rbind (raw_app E (invalid_app ''traversal'') ''app/index.html'') (\<lambda>es.
       Inr (raw_stored (fe_crc E) ''../escape.txt'' (bytes_of ''outside the container'') es))"

definition bomb_zeros :: "byte list" where
  "bomb_zeros = replicate (8 * 1024 * 1024) 0"

definition zip_bomb :: "fixture_env \<Rightarrow> fixture_failure + byte list" where
  "zip_bomb E =
     map_err Failed
       (rbind (map_err ManifestErr (to_json_bytes (fe_crates E) (invalid_app ''bomb''))) (\<lambda>manifest_json.
          map_err IoErr (zip_write (fe_crates E)
            [(''mimetype'', Stored, bytes_of media_type),
             (''manifest.json'', Deflated, manifest_json),
             (''app/index.html'', Deflated, invalid_index),
             (''app/zeros.bin'', Deflated, bomb_zeros)])))"

definition integrity_mismatch :: "fixture_env \<Rightarrow> fixture_failure + raw_zip" where
  "integrity_mismatch E =
     rbind (map_err Failed (packed (fe_crates E) (invalid_app ''integrity'')
         [(''app/index.html'', bytes_of ''genuine content'')])) (\<lambda>genuine.
     rbind (map_err Failed (open_poid (fe_crates E) genuine)) (\<lambda>p.
     rbind (with_manifest E (c_manifest p) (raw_mimetype (fe_crc E) raw_new)) (\<lambda>es.
       Inr (raw_stored (fe_crc E) ''app/index.html'' (bytes_of ''tampered content'') es))))"

definition data_container_with_code :: "fixture_env \<Rightarrow> fixture_failure + raw_zip" where
  "data_container_with_code E =
     raw_app E (new_data ''org.poid.conformance.data'' ''1.0.0'' ''responses/v1'') ''app/index.html''"

definition entry_missing :: "fixture_env \<Rightarrow> fixture_failure + raw_zip" where
  "entry_missing E = raw_app E (invalid_app ''entry-missing'') ''app/other.html''"

definition tampered_signature :: "fixture_env \<Rightarrow> fixture_failure + byte list" where
  "tampered_signature E =
     map_err Failed
       (let K = fe_crates E; m = invalid_app ''tampered'' in
        rbind (packed K m [(''app/index.html'', bytes_of ''original content'')]) (\<lambda>original.
        rbind (open_poid K original) (\<lambda>p.
        let (signed, r) = sign K test_key_seed p in
        rbind r (\<lambda>_.
        rbind (ok_or SignatureInvalid (file_of signed signature_path)) (\<lambda>signature_block.
          packed K m [(''app/index.html'', bytes_of ''attacker-modified content''),
            (signature_path, signature_block)])))))"

definition workspace_missing_apps :: "fixture_env \<Rightarrow> fixture_failure + raw_zip" where
  "workspace_missing_apps E =
     raw_app E ((invalid_app ''workspace-empty'')\<lparr>m_type := WorkspaceType, m_entry := None\<rparr>) ''app/shell.html''"

definition invalid_raw :: "string \<Rightarrow> string \<Rightarrow> fixture_failure + raw_zip \<Rightarrow> fixture_failure + fixture" where
  "invalid_raw name expected r = rbind r (\<lambda>es. Inr (invalid_fixture name expected (raw_build es)))"

definition invalid_bytes :: "string \<Rightarrow> string \<Rightarrow> fixture_failure + byte list \<Rightarrow> fixture_failure + fixture" where
  "invalid_bytes name expected r = rbind r (\<lambda>bytes. Inr (invalid_fixture name expected bytes))"

definition invalid_results :: "fixture_env \<Rightarrow> (fixture_failure + fixture) list" where
  "invalid_results E =
     [invalid_raw ''no-mimetype'' ''POID-001'' (no_mimetype E),
      invalid_raw ''mimetype-not-first'' ''POID-002'' (mimetype_not_first E),
      invalid_raw ''mimetype-compressed'' ''POID-002'' (mimetype_compressed E),
      invalid_raw ''bad-manifest'' ''POID-011'' (Inr (bad_manifest E)),
      invalid_raw ''schema-violation'' ''POID-012'' (Inr (schema_violation E)),
      invalid_raw ''contains-exe'' ''POID-020'' (contains_exe E),
      invalid_raw ''contains-elf'' ''POID-020'' (contains_elf E),
      invalid_raw ''symlink'' ''POID-021'' (symlink_fixture E),
      invalid_raw ''path-traversal'' ''POID-022'' (path_traversal E),
      invalid_bytes ''zip-bomb'' ''POID-023'' (zip_bomb E),
      invalid_raw ''integrity-mismatch'' ''POID-031'' (integrity_mismatch E),
      invalid_raw ''data-container-with-code'' ''POID-040'' (data_container_with_code E),
      invalid_raw ''entry-missing'' ''POID-030'' (entry_missing E),
      invalid_bytes ''tampered-signature'' ''POID-050'' (tampered_signature E),
      invalid_raw ''workspace-missing-apps'' ''POID-041'' (workspace_missing_apps E)]"

definition invalid_all :: "fixture_env \<Rightarrow> fixture_failure + fixture list" where
  "invalid_all E = in_order (invalid_results E)"

section \<open>The valid fixtures\<close>

definition valid_fixture :: "string \<Rightarrow> byte list \<Rightarrow> fixture" where
  "valid_fixture name bytes = \<lparr>fx_name = name, fx_valid = True, fx_bytes = bytes, fx_expected_code = None\<rparr>"

definition fixed_instance_id :: uuid where
  "fixed_instance_id = 0xa1b2c3d4e5f64a7b8c9d0e1f2a3b4c5d"

definition valid_app :: "string \<Rightarrow> string \<Rightarrow> manifest" where
  "valid_app name_suffix display =
     new_app (''org.poid.conformance.'' @ name_suffix) display ''1.0.0'' ''app/index.html''"

definition valid_index :: "byte list" where
  "valid_index = bytes_of ''<!doctype html><html><head><meta charset=\"utf-8\"></head><body><h1>ok</h1></body></html>''"

definition minimal_html :: "crates \<Rightarrow> poid_error + byte list" where
  "minimal_html K = packed K (valid_app ''minimal'' ''Minimal HTML'') [(''app/index.html'', valid_index)]"

definition react_app :: "crates \<Rightarrow> poid_error + byte list" where
  "react_app K =
     (let m = valid_app ''react'' ''React App'';
          m = m\<lparr>m_runtime := map_option (\<lambda>r. r\<lparr>
            r_bundled_deps := Some [''react@18.3.1'', ''react-dom@18.3.1''],
            r_toolchain := Some \<lparr>tc_builder = Some ''poid-fixtures@0.0.1'', tc_esbuild = Some ''0.25.0'', tc_extra = []\<rparr>\<rparr>)
            (m_runtime m)\<rparr>
      in packed K m
        [(''app/index.html'', bytes_of ''<!doctype html><div id=\"root\"></div><script type=\"module\" src=\"main.js\"></script>''),
         (''app/main.js'', bytes_of (''// bundled output (esbuild); relative imports only'' @ [CHR 0xa] @
            ''const e=document.getElementById(\"root\");'' @
            ''e.textContent=\"hello from a bundle\";''))])"

definition python_pyodide :: "crates \<Rightarrow> poid_error + byte list" where
  "python_pyodide K =
     (let m = valid_app ''python'' ''Python App'';
          m = m\<lparr>m_runtime := map_option (\<lambda>r. r\<lparr>r_profile := ''web+python'',
            r_engines := Some (bt_of_list [(''pyodide'', ''>=0.26 <0.28'')])\<rparr>) (m_runtime m)\<rparr>
      in rbind (mini_zip K
           [(''hello_poid/__init__.py'',
               bytes_of (''def greet():'' @ [CHR 0xa] @ ''    return \"hello from a wheel\"'' @ [CHR 0xa])),
            (''hello_poid-1.0.0.dist-info/METADATA'',
               bytes_of (''Metadata-Version: 2.1'' @ [CHR 0xa] @ ''Name: hello-poid'' @ [CHR 0xa] @ ''Version: 1.0.0'' @ [CHR 0xa]))]) (\<lambda>wheel.
         packed K m
           [(''app/index.html'', valid_index),
            (''app/main.py'', bytes_of (''import hello_poid'' @ [CHR 0xa] @ ''print(hello_poid.greet())'' @ [CHR 0xa])),
            (''deps/hello_poid-1.0.0-py3-none-any.whl'', wheel)]))"

definition embedded_data :: "crates \<Rightarrow> poid_error + byte list" where
  "embedded_data K = packed K (valid_app ''embedded'' ''Embedded Data'')
     [(''app/index.html'', valid_index),
      (''data/store.json'', bytes_of ''{\"todos\":[{\"id\":1,\"text\":\"ship the conformance suite\",\"done\":true}]}'')]"

definition vault_mode :: "crates \<Rightarrow> poid_error + byte list" where
  "vault_mode K =
     (let m = valid_app ''vault'' ''Vault Mode'';
          m = m\<lparr>m_storage := map_option (\<lambda>s. s\<lparr>s_mode := Vault\<rparr>) (m_storage m)\<rparr>;
          m = m\<lparr>m_instance := map_option (\<lambda>i. i\<lparr>i_id := Some fixed_instance_id\<rparr>) (m_instance m)\<rparr>
      in packed K m [(''app/index.html'', valid_index)])"

definition slots_fixture :: "crates \<Rightarrow> poid_error + byte list" where
  "slots_fixture K =
     (let m = valid_app ''slots'' ''Slots'';
          m = m\<lparr>m_storage := map_option (\<lambda>s. s\<lparr>s_slots := Some True\<rparr>) (m_storage m)\<rparr>
      in packed K m
        [(''app/index.html'', valid_index),
         (''slots/project-a/store.json'', bytes_of ''{\"cards\":[\"a\"]}''),
         (''slots/project-b/store.json'', bytes_of ''{\"cards\":[\"b\"]}'')])"

definition protected_fixture :: "crates \<Rightarrow> poid_error + byte list" where
  "protected_fixture K =
     (let m = valid_app ''protected'' ''Protected'';
          m = m\<lparr>m_storage := map_option (\<lambda>s. s\<lparr>s_protected := Some True\<rparr>) (m_storage m)\<rparr>
      in packed K m
        [(''app/index.html'', valid_index),
         (''data/store.json'', [0] @ pseudo_random_bytes 0x9e3779b9 64)])"

definition workspace_fixture :: "crates \<Rightarrow> poid_error + byte list" where
  "workspace_fixture K =
     rbind (packed K (valid_app ''workspace.notes'' ''Notes'') [(''app/index.html'', valid_index)]) (\<lambda>inner.
       packed K ((valid_app ''workspace'' ''Workspace'')\<lparr>m_type := WorkspaceType, m_entry := None\<rparr>)
         [(''app/index.html'', valid_index), (''apps/notes.poid'', inner)])"

definition data_container :: "crates \<Rightarrow> poid_error + byte list" where
  "data_container K = packed K (new_data ''org.poid.conformance.survey'' ''1.0.0'' ''responses/v1'')
     [(''data/store.json'', bytes_of ''{\"answers\":{\"q1\":\"yes\",\"q2\":4}}'')]"

definition signed_fixture :: "crates \<Rightarrow> poid_error + byte list" where
  "signed_fixture K =
     rbind (packed K (valid_app ''signed'' ''Signed'') [(''app/index.html'', valid_index)]) (\<lambda>bytes.
     rbind (open_poid K bytes) (\<lambda>p.
     let (signed, r) = sign K test_key_seed p in
     rbind r (\<lambda>_. to_bytes K signed)))"

definition unknown_fields_json :: json where
  "unknown_fields_json =
     JObject [
       (''poid'', JString ''1.0''),
       (''type'', JString ''app''),
       (''x_future_top_level'', JObject [(''anything'', JArray [JNumber ''1'', JNumber ''2'', JNumber ''3''])]),
       (''app'', JObject [(''id'', JString ''org.poid.conformance.forward''), (''name'', JString ''Forward Compatible''),
          (''version'', JString ''1.0.0''), (''x_future_app_field'', JBool True)]),
       (''instance'', JObject [(''id'', JNull)]),
       (''runtime'', JObject [(''profile'', JString ''web''), (''x_future_runtime_field'', JString ''keep'')]),
       (''entry'', JString ''app/index.html''),
       (''storage'', JObject [(''mode'', JString ''embedded'')]),
       (''permissions'', JObject [(''network'', JArray []), (''x_future_permission'', JNull)]),
       (''integrity'', JObject [(''algo'', JString ''sha256'')])]"

definition unknown_manifest_fields :: "fixture_env \<Rightarrow> poid_error + byte list" where
  "unknown_manifest_fields E =
     rbind (map_err ManifestErr (manifest_parse (fe_crates E) (bytes_of (fe_json_to_string E unknown_fields_json)))) (\<lambda>m.
       packed (fe_crates E) m [(''app/index.html'', valid_index)])"

definition three_digits :: "nat \<Rightarrow> string" where
  "three_digits i = replicate (3 - length (show_nat i)) CHR ''0'' @ show_nat i"

definition large_but_legal :: "crates \<Rightarrow> poid_error + byte list" where
  "large_but_legal K =
     packed K (valid_app ''large'' ''Large But Legal'')
       ([(''app/index.html'', valid_index),
         (''app/assets/blob.bin'', pseudo_random_bytes 0x00c0ffee 1200000)] @
        map (\<lambda>i. (''app/files/f'' @ three_digits i @ ''.txt'',
          bytes_of (''file number '' @ show_nat i @ [CHR 0x0A]))) [0..<300])"

definition valid_packed :: "string \<Rightarrow> poid_error + byte list \<Rightarrow> fixture_failure + fixture" where
  "valid_packed name r = map_err Failed (rbind r (\<lambda>bytes. Inr (valid_fixture name bytes)))"

definition valid_all :: "fixture_env \<Rightarrow> fixture_failure + fixture list" where
  "valid_all E = (let K = fe_crates E in in_order
     [valid_packed ''minimal-html'' (minimal_html K),
      valid_packed ''react-app'' (react_app K),
      valid_packed ''python-pyodide'' (python_pyodide K),
      valid_packed ''embedded-data'' (embedded_data K),
      valid_packed ''vault-mode'' (vault_mode K),
      valid_packed ''slots'' (slots_fixture K),
      valid_packed ''protected'' (protected_fixture K),
      valid_packed ''workspace'' (workspace_fixture K),
      valid_packed ''data-container'' (data_container K),
      valid_packed ''signed'' (signed_fixture K),
      valid_packed ''unknown-manifest-fields'' (unknown_manifest_fields E),
      valid_packed ''large-but-legal'' (large_but_legal K)])"

definition conformance_fixtures :: "fixture_env \<Rightarrow> fixture_failure + fixture list" where
  "conformance_fixtures E =
     rbind (valid_all E) (\<lambda>fixtures. rbind (invalid_all E) (\<lambda>more. Inr (fixtures @ more)))"

section \<open>The generators\<close>

lemma random_loop_length: "len \<le> length (random_loop len state out)"
  by (induction len state out rule: random_loop.induct) (subst random_loop.simps, simp)

lemma length_pseudo_random_bytes [simp]: "length (pseudo_random_bytes seed len) = len"
  using random_loop_length [of len "seed OR 1" "[]"] by (simp add: pseudo_random_bytes_def)

end
