(* ===== verification/Conformance_Verdicts.thy ===== *)
theory Conformance_Verdicts
  imports Conformance_Fixtures
begin

text \<open>
  The verdicts on the invalid conformance fixtures: every one that the generator builds is refused by the conformance
  check with the registry code its \<open>expected.json\<close> names, under documented behaviour of the crates involved.
\<close>

unbundle bit_operations_syntax

section \<open>Documented behaviour of the crates\<close>

text \<open>Serializing this manifest gives a JSON object that parses back to it and takes no more than 64 KiB.\<close>

definition small_json :: "crates \<Rightarrow> manifest \<Rightarrow> bool" where
  "small_json K m \<longleftrightarrow> manifest_json_ok K m \<and> (\<forall>json. manifest_to_vec_pretty K m = Inr json \<longrightarrow> length json \<le> 65536)"

text \<open>The manifest that the text without an entry parses to.\<close>

definition schema_violation_manifest :: manifest where
  "schema_violation_manifest = (new_app ''org.poid.conformance.schema'' ''Schema'' ''1.0.0'' '''')\<lparr>
     m_entry := None, m_permissions := Some (permissions_default\<lparr>p_network := Some []\<rparr>)\<rparr>"

definition serde_reads_fixtures :: "fixture_env \<Rightarrow> bool" where
  "serde_reads_fixtures E \<longleftrightarrow>
     (\<exists>e. manifest_from_slice (fe_crates E) (bytes_of ''{ this is not json'') = Inl e) \<and>
     manifest_from_slice (fe_crates E) (bytes_of (fe_json_to_string E schema_violation_json)) = Inr schema_violation_manifest \<and>
     starts_with (fe_json_to_string E schema_violation_json) ''{'' \<and>
     length (fe_json_to_string E schema_violation_json) \<le> 65536"

section \<open>Archives of the right size\<close>

lemma length_local_record: "length (local_record e) = 30 + length (re_name e) + length (re_extra e) + length (re_data e)"
  by (simp add: local_record_def)

lemma length_central_record: "length (central_record (e, offset)) = 46 + length (re_name e)"
  by (simp add: central_record_def)

lemma length_raw_build:
  "length (raw_build es) = sum_list (map (\<lambda>e. 76 + 2 * length (re_name e) + length (re_extra e) + length (re_data e)) es) + 22"
proof -
  have central: "length eos = length es \<Longrightarrow> (\<Sum>eo\<leftarrow>zip es eos. length (central_record eo)) =
      sum_list (map (\<lambda>e. 46 + length (re_name e)) es)" for eos
    by (induction es eos rule: list_induct2') (simp_all add: length_central_record)
  show ?thesis
    unfolding raw_build_def Let_def
    by (simp add: length_concat central end_record_def length_local_record o_def ac_simps flip: sum_list_addf)
qed

section \<open>Reading entries of fixtures\<close>

lemmas raw_entries_defs = raw_new_def raw_stored_def raw_symlink_def raw_with_method_def raw_mimetype_def
  raw_entry_add_def regular_attrs_def

lemma fixture_modes:
  "(drop_bit 16 (push_bit 16 0x81A4 :: u32)) = 0x81A4" "(drop_bit 16 (push_bit 16 0xA1FF :: u32)) = 0xA1FF"
  by code_simp+

lemma fixture_paths:
  "check_container_path ''app/index.html'' = Inr ()" "check_container_path ''app/other.html'' = Inr ()"
  "check_container_path ''app/shell.html'' = Inr ()" "check_container_path ''app/tool.exe'' = Inr ()"
  "check_container_path ''app/libnative.so'' = Inr ()" "check_container_path ''app/link'' = Inr ()"
  "check_container_path ''mimetype'' = Inr ()" "check_container_path ''manifest.json'' = Inr ()"
  "check_container_path ''app/zeros.bin'' = Inr ()"
  by code_simp+

lemma escaping_path: "map_err conformance_code (check_container_path ''../escape.txt'') = Inl (Some ''POID-022'')"
  by code_simp

abbreviation magic_of :: "byte list \<Rightarrow> (byte list \<times> string) option" where
  "magic_of content \<equiv> find (\<lambda>(magic, kind). starts_with content magic) exec_magics"

text \<open>The magics start with one of six bytes, an archive with another.\<close>

lemma magic_of_first:
  "b \<notin> {0x4d, 0x7f, 0xfe, 0xce, 0xcf, 0x21} \<Longrightarrow> magic_of (b # r) = None"
  "b \<noteq> 0x50 \<Longrightarrow> \<not> starts_with (b # r) pk_magic"
  by (simp_all add: exec_magics_def pk_magic_def)

lemma fixture_first_bytes:
  "bytes_of media_type = 0x61 # bytes_of (tl media_type)" "invalid_index = 0x3c # tl invalid_index"
  by (simp_all add: media_type_def invalid_index_def)

lemma fixture_magics:
  "magic_of (bytes_of media_type) = None" "magic_of invalid_index = None"
  "\<not> starts_with (bytes_of media_type) pk_magic" "\<not> starts_with invalid_index pk_magic"
  by (subst fixture_first_bytes, simp add: magic_of_first)+

lemma json_magic:
  assumes "starts_with json (bytes_of ''{'')"
  shows "magic_of json = None" "\<not> starts_with json pk_magic"
proof -
  obtain r where "json = 0x7b # r" using assms by (auto simp: starts_with_iff)
  then show "magic_of json = None" "\<not> starts_with json pk_magic" by (simp_all add: magic_of_first)
qed

lemma fixture_folds:
  "to_ascii_lowercase ''app/index.html'' = ''app/index.html''" "to_ascii_lowercase ''app/other.html'' = ''app/other.html''"
  "to_ascii_lowercase ''app/shell.html'' = ''app/shell.html''" "to_ascii_lowercase ''app/tool.exe'' = ''app/tool.exe''"
  "to_ascii_lowercase ''app/libnative.so'' = ''app/libnative.so''"
  "to_ascii_lowercase ''mimetype'' = ''mimetype''" "to_ascii_lowercase ''manifest.json'' = ''manifest.json''"
  by code_simp+

lemma fixture_manifests_valid:
  "validate (invalid_app ''exe'') = Inr ()" "validate (invalid_app ''elf'') = Inr ()"
  "validate (invalid_app ''symlink'') = Inr ()" "validate (invalid_app ''traversal'') = Inr ()"
  "validate (invalid_app ''bomb'') = Inr ()" "validate (invalid_app ''integrity'') = Inr ()"
  "validate (invalid_app ''entry-missing'') = Inr ()" "validate (invalid_app ''tampered'') = Inr ()"
  "validate (new_data ''org.poid.conformance.data'' ''1.0.0'' ''responses/v1'') = Inr ()"
  "validate ((invalid_app ''workspace-empty'')\<lparr>m_type := WorkspaceType, m_entry := None\<rparr>) = Inr ()"
  "validate schema_violation_manifest = Inl (MissingField ''entry'')"
  by code_simp+

section \<open>Raw archives from a list of entries\<close>

type_synonym raw_spec = "string \<times> u16 \<times> byte list \<times> u32"

definition spec_entry :: "(byte list \<Rightarrow> u32) \<Rightarrow> raw_spec \<Rightarrow> raw_entry" where
  "spec_entry crc s = (case s of (name, method, content, attrs) \<Rightarrow>
     \<lparr>re_name = bytes_of name, re_method = method, re_crc = crc content, re_data = content,
      re_uncompressed_len = word_of_nat (length content), re_external_attrs = attrs, re_extra = []\<rparr>)"

lemma spec_entry_simps [simp]:
  "re_name (spec_entry crc (n, mt, c, at)) = bytes_of n" "re_method (spec_entry crc (n, mt, c, at)) = mt"
  "re_data (spec_entry crc (n, mt, c, at)) = c" "re_extra (spec_entry crc (n, mt, c, at)) = []"
  "re_crc (spec_entry crc (n, mt, c, at)) = crc c"
  "re_uncompressed_len (spec_entry crc (n, mt, c, at)) = word_of_nat (length c)"
  "unix_mode_of (spec_entry crc (n, mt, c, at)) = drop_bit 16 at"
  "raw_is_dir (spec_entry crc (n, mt, c, at)) = (ends_with n ''/'' \<or> ends_with n [CHR 92])"
  by (simp_all add: spec_entry_def unix_mode_of_def raw_is_dir_def)

definition link_attrs :: u32 where
  "link_attrs = push_bit 16 0xA1FF"

lemma attrs_modes [simp]: "drop_bit 16 regular_attrs = 0x81A4" "drop_bit 16 link_attrs = 0xA1FF"
  by (simp_all add: regular_attrs_def link_attrs_def fixture_modes)

lemma builder_specs [simp]:
  "raw_stored crc n c es = es @ [spec_entry crc (n, 0, c, regular_attrs)]"
  "raw_with_method crc n mt c es = es @ [spec_entry crc (n, mt, c, regular_attrs)]"
  "raw_symlink crc n t es = es @ [spec_entry crc (n, 0, bytes_of t, link_attrs)]"
  "raw_mimetype crc es = es @ [spec_entry crc (''mimetype'', 0, bytes_of media_type, regular_attrs)]"
  "raw_new = []"
  by (simp_all add: raw_stored_def raw_with_method_def raw_symlink_def raw_mimetype_def raw_entry_add_def raw_new_def
      spec_entry_def link_attrs_def)

definition good_spec :: "raw_spec \<Rightarrow> bool" where
  "good_spec s \<longleftrightarrow> (case s of (n, mt, c, at) \<Rightarrow> n \<noteq> [] \<and> is_ascii n \<and> length n \<le> 64 \<and> \<not> ends_with n ''/'' \<and>
     \<not> ends_with n [CHR 92] \<and> length c \<le> 65536 \<and> (at = regular_attrs \<or> at = link_attrs))"

definition plain_spec :: "raw_spec \<Rightarrow> bool" where
  "plain_spec s \<longleftrightarrow> (case s of (n, mt, c, at) \<Rightarrow> mt = 0 \<and> \<not> starts_with c pk_magic)"

definition refused :: "crates \<Rightarrow> byte list \<Rightarrow> string \<Rightarrow> bool" where
  "refused K bytes expected \<longleftrightarrow>
     (\<exists>e. conformance_check K limits_default bytes = Inl e \<and> conformance_code e = Some expected)"

lemma sum_list_bound: "(\<And>x. x \<in> set xs \<Longrightarrow> f x \<le> b) \<Longrightarrow> sum_list (map f xs) \<le> length xs * b" for f :: "_ \<Rightarrow> nat"
  by (induction xs) (auto simp: add_mono)

lemma spec_archive_ok:
  assumes "list_all good_spec specs" "specs \<noteq> []" "length specs \<le> 4" "distinct (map fst specs)"
  shows "raw_archive_ok crc (map (spec_entry crc) specs)"
    and "list_all plain_spec specs \<Longrightarrow> list_all small_entry (map (spec_entry crc) specs)"
    and "2 * sum_list (map (\<lambda>e. length (re_data e)) (map (spec_entry crc) specs)) \<le> 1024 * 1024 * 1024"
proof -
  let ?es = "map (spec_entry crc) specs"
  have entry: "length (re_name e) \<le> 64 \<and> length (re_data e) \<le> 65536 \<and> re_extra e = []" if "e \<in> set ?es" for e
    using that assms(1) by (force simp: list_all_iff good_spec_def)
  have fine: "raw_entry_fits e \<and> re_crc e = crc (re_data e) \<and> re_uncompressed_len e = word_of_nat (length (re_data e)) \<and>
      unix_mode_of e \<noteq> 0 \<and> re_name e \<noteq> [] \<and> is_ascii (string_of (re_name e))" if e: "e \<in> set ?es" for e
  proof -
    from e obtain s where s: "s \<in> set specs" "e = spec_entry crc s" by auto
    obtain n mt c at where f: "s = (n, mt, c, at)" by (cases s)
    have "good_spec (n, mt, c, at)" using assms(1) s(1) by (simp add: list_all_iff f)
    moreover have "n \<noteq> [] \<Longrightarrow> bytes_of n \<noteq> []" by (cases n) simp_all
    ultimately show ?thesis by (auto simp: s(2) f good_spec_def raw_entry_fits_def)
  qed
  have "length (raw_build ?es) \<le> length ?es * (76 + 128 + 65536) + 22"
    unfolding length_raw_build using entry by (intro add_right_mono sum_list_bound) force
  moreover have "length ?es * (76 + 128 + 65536) \<le> 4 * (76 + 128 + 65536)"
    using assms(3) by (intro mult_right_mono) simp_all
  ultimately have size: "length (raw_build ?es) < 2 ^ 32 - 1" by simp
  have names: "re_name (spec_entry crc s) = bytes_of (fst s)" for s by (cases s) simp
  have "distinct (map (bytes_of \<circ> fst) specs)"
    using assms(4) by (simp add: distinct_map inj_on_def)
  then have "distinct (map re_name ?es)" by (simp add: o_def names)
  then show "raw_archive_ok crc ?es"
    unfolding raw_archive_ok_def using size fine assms(2,3) by (auto simp: list_all_iff)
  show "list_all plain_spec specs \<Longrightarrow> list_all small_entry ?es"
    using assms(1) by (auto simp: list_all_iff good_spec_def plain_spec_def small_entry_def)
  have "sum_list (map (\<lambda>e. length (re_data e)) ?es) \<le> length ?es * 65536"
    using entry by (intro sum_list_bound) blast
  then show "2 * sum_list (map (\<lambda>e. length (re_data e)) ?es) \<le> 1024 * 1024 * 1024"
    using assms(3) by simp
qed

lemma spec_archive_refused:
  assumes "reads_raw K crc" "list_all good_spec specs" "specs \<noteq> []" "length specs \<le> 4" "distinct (map fst specs)"
    and "raw_header (map (spec_entry crc) specs) = Inr () \<longrightarrow> list_all plain_spec specs"
    and "map_err conformance_code (raw_open K (map (spec_entry crc) specs)) = Inl (Some expected)"
  shows "refused K (raw_build (map (spec_entry crc) specs)) expected"
proof -
  note ok = spec_archive_ok [OF assms(2-5), of crc]
  have "open_with_limits K limits_default (raw_build (map (spec_entry crc) specs)) = raw_open K (map (spec_entry crc) specs)"
    using assms(4,6) ok by (intro open_raw_archive [OF assms(1) ok(1)]) auto
  moreover obtain e where "raw_open K (map (spec_entry crc) specs) = Inl e" "conformance_code e = Some expected"
    using assms(7) by (cases "raw_open K (map (spec_entry crc) specs)") auto
  ultimately show ?thesis by (auto simp: refused_def conformance_check_def)
qed

section \<open>The raw fixtures\<close>

lemma raw_manifest_done:
  "with_manifest E m es = Inr es' \<longleftrightarrow> (\<exists>json. manifest_to_vec_pretty (fe_crates E) m = Inr json \<and>
     es' = es @ [spec_entry (fe_crc E) (''manifest.json'', 0, json, regular_attrs)])"
  by (auto simp: with_manifest_def raw_manifest_def to_json_bytes_def map_err_def ok_or_def split: sum.splits)

definition manifest_specs :: "byte list \<Rightarrow> string \<Rightarrow> raw_spec list" where
  "manifest_specs json path =
     [(''mimetype'', 0, bytes_of media_type, regular_attrs), (''manifest.json'', 0, json, regular_attrs),
      (path, 0, invalid_index, regular_attrs)]"

lemma raw_app_done:
  "raw_app E m path = Inr es \<longleftrightarrow> (\<exists>json. manifest_to_vec_pretty (fe_crates E) m = Inr json \<and>
     es = map (spec_entry (fe_crc E)) (manifest_specs json path))"
  by (auto simp: raw_app_def result_simps raw_manifest_done manifest_specs_def)

lemma fixture_names:
  "is_ascii ''mimetype''" "is_ascii ''manifest.json''" "is_ascii ''app/index.html''" "is_ascii ''app/other.html''"
  "is_ascii ''app/shell.html''" "is_ascii ''app/tool.exe''" "is_ascii ''app/libnative.so''" "is_ascii ''app/link''"
  "is_ascii ''../escape.txt''"
  by code_simp+

lemma fixture_contents: "length (bytes_of media_type) = 24" "length invalid_index = 39"
  by (simp_all add: invalid_index_def)

lemmas fixture_spec_simps = good_spec_def plain_spec_def manifest_specs_def fixture_names fixture_contents ends_with_def
  fixture_magics json_magic

text \<open>The manifest and the first three entries of a fixture of the usual shape.\<close>

lemma specs_header:
  "raw_header (map (spec_entry crc) (manifest_specs json path @ extra)) = Inr ()"
  by (simp add: raw_header_def manifest_specs_def first_entry_verdict_def mimetype_name_def)

lemma raw_step_spec:
  "raw_step (spec_entry crc (name, mt, content, at)) (budget, files, seen) =
    rbind (check_container_path name) (\<lambda>_.
    if drop_bit 16 at \<noteq> 0x81A4 then Inl (Link name)
    else case magic_of content of
      Some (magic, kind) \<Rightarrow> Inl (NativeCode name kind)
    | None \<Rightarrow>
        if to_ascii_lowercase name \<in> seen then Inl (DuplicatePath name)
        else Inr (budget - length content,
          if name \<noteq> mimetype_name \<and> name \<noteq> manifest_name then bt_insert name content files else files,
          insert (to_ascii_lowercase name) seen))"
  by (simp only: raw_step_def Let_def prod.case spec_entry_simps string_of_bytes_of)

lemma specs_open:
  assumes "manifest_from_slice K json = Inr m" "validate m = Inr ()" "starts_with json (bytes_of ''{'')"
    and "check_container_path path = Inr ()" "to_ascii_lowercase path = path"
    and "path \<noteq> ''mimetype''" "path \<noteq> ''manifest.json''"
  shows "raw_open K (map (spec_entry crc) (manifest_specs json path @ extra)) =
    rbind (fold_each raw_step (map (spec_entry crc) extra)
        (1024 * 1024 * 1024 - 63 - 2 * length json, [(path, invalid_index)],
         {''mimetype'', ''manifest.json'', path}))
      (\<lambda>(budget, files, seen). rbind (check_type_rules m files) (\<lambda>_. Inr \<lparr>c_manifest = m, c_files = files\<rparr>))"
proof -
  have first: "raw_step (spec_entry crc (''mimetype'', 0, bytes_of media_type, regular_attrs)) (b, [], {}) =
      Inr (b - 24, [], {''mimetype''})"
    "raw_step (spec_entry crc (''manifest.json'', 0, json, regular_attrs)) (b, [], {''mimetype''}) =
      Inr (b - length json, [], {''mimetype'', ''manifest.json''})"
    "raw_step (spec_entry crc (path, 0, invalid_index, regular_attrs)) (b, [], {''mimetype'', ''manifest.json''}) =
      Inr (b - 39, [(path, invalid_index)], {''mimetype'', ''manifest.json'', path})" for b
    using assms fixture_paths fixture_folds fixture_magics json_magic(1) [OF assms(3)]
    by (simp_all add: raw_step_spec fixture_contents mimetype_name_def manifest_name_def insert_commute)
  show ?thesis
    unfolding raw_open_def specs_header
    using assms(6,7)
    by (simp add: manifest_specs_def manifest_name_def manifest_parse_def assms(1,2) first fold_each_append
        mult_2 del: bytes_of_simps)
qed

lemma small_json_facts:
  assumes "small_json K m" "manifest_to_vec_pretty K m = Inr json"
  shows "manifest_from_slice K json = Inr m" "starts_with json (bytes_of ''{'')" "length json \<le> 65536"
  using assms by (auto simp: small_json_def manifest_json_ok_def)

lemma specs_refused:
  assumes "reads_raw K crc" "small_json K m" "manifest_to_vec_pretty K m = Inr json" "validate m = Inr ()"
    and "path \<in> {''app/index.html'', ''app/other.html'', ''app/shell.html''}"
    and "list_all good_spec extra" "list_all plain_spec extra" "length extra \<le> 1"
    and "\<And>s. s \<in> set extra \<Longrightarrow> fst s \<notin> {''mimetype'', ''manifest.json'', path}"
    and "\<And>budget. map_err conformance_code (rbind (fold_each raw_step (map (spec_entry crc) extra)
        (budget, [(path, invalid_index)], {''mimetype'', ''manifest.json'', path}))
      (\<lambda>(budget, files, seen). rbind (check_type_rules m files) (\<lambda>_. Inr \<lparr>c_manifest = m, c_files = files\<rparr>))) =
        Inl (Some expected)"
  shows "refused K (raw_build (map (spec_entry crc) (manifest_specs json path @ extra))) expected"
proof -
  note json = small_json_facts [OF assms(2,3)]
  have specs: "list_all good_spec (manifest_specs json path)" "list_all plain_spec (manifest_specs json path)"
    using json(3) json_magic [OF json(2)] assms(5)
    by (auto simp: fixture_spec_simps simp del: bytes_of_simps)
  have names: "distinct (map fst (manifest_specs json path @ extra))"
    using assms(5,8,9) by (cases extra) (auto simp: manifest_specs_def)
  have "raw_open K (map (spec_entry crc) (manifest_specs json path @ extra)) =
      rbind (fold_each raw_step (map (spec_entry crc) extra)
        (1024 * 1024 * 1024 - 63 - 2 * length json, [(path, invalid_index)], {''mimetype'', ''manifest.json'', path}))
      (\<lambda>(budget, files, seen). rbind (check_type_rules m files) (\<lambda>_. Inr \<lparr>c_manifest = m, c_files = files\<rparr>))"
    using assms(5) fixture_paths fixture_folds by (intro specs_open json(1,2) assms(4)) auto
  then show ?thesis
    using assms(6-10) specs names
    by (intro spec_archive_refused [OF assms(1)]) (auto simp: manifest_specs_def)
qed

lemma fixture_code_bytes:
  "bytes_of ''MZ'' @ [0x90, 0, 3, 0, 0, 0] @ bytes_of ''rest-of-a-pe-file'' = 0x4d # 0x5a # [0x90, 0, 3, 0, 0, 0] @ bytes_of ''rest-of-a-pe-file''"
  "[0x7f] @ bytes_of ''ELF'' @ [2, 1, 1, 0] @ bytes_of ''payload'' = 0x7f # 0x45 # 0x4c # 0x46 # [2, 1, 1, 0] @ bytes_of ''payload''"
  "bytes_of ''/etc/passwd'' = 0x2f # bytes_of ''etc/passwd''"
  "bytes_of ''outside the container'' = 0x6f # bytes_of ''utside the container''"
  by simp_all

text \<open>Each fixture of the usual shape.\<close>

lemma native_code_refused:
  assumes "reads_raw (fe_crates E) (fe_crc E)"
  shows "small_json (fe_crates E) (invalid_app ''exe'') \<Longrightarrow> contains_exe E = Inr es \<Longrightarrow>
      refused (fe_crates E) (raw_build es) ''POID-020''"
    and "small_json (fe_crates E) (invalid_app ''elf'') \<Longrightarrow> contains_elf E = Inr es' \<Longrightarrow>
      refused (fe_crates E) (raw_build es') ''POID-020''"
proof -
  assume j: "small_json (fe_crates E) (invalid_app ''exe'')" and b: "contains_exe E = Inr es"
  let ?c = "0x4d # 0x5a # [0x90, 0, 3, 0, 0, 0] @ bytes_of ''rest-of-a-pe-file''"
  obtain json where json: "manifest_to_vec_pretty (fe_crates E) (invalid_app ''exe'') = Inr json"
    and es: "es = map (spec_entry (fe_crc E)) (manifest_specs json ''app/index.html'' @
      [(''app/tool.exe'', 0, ?c, regular_attrs)])"
    using b unfolding contains_exe_def fixture_code_bytes rbind_eq_Inr raw_app_done builder_specs by auto
  have "magic_of ?c = Some (bytes_of ''MZ'', ''PE/DOS executable'')" by (simp add: exec_magics_def)
  then show "refused (fe_crates E) (raw_build es) ''POID-020''"
    unfolding es by (intro specs_refused [OF assms j json fixture_manifests_valid(1)])
      (auto simp: fixture_spec_simps raw_step_spec fixture_paths pk_magic_def)
next
  assume j: "small_json (fe_crates E) (invalid_app ''elf'')" and b: "contains_elf E = Inr es'"
  let ?c = "0x7f # 0x45 # 0x4c # 0x46 # [2, 1, 1, 0] @ bytes_of ''payload''"
  obtain json where json: "manifest_to_vec_pretty (fe_crates E) (invalid_app ''elf'') = Inr json"
    and es: "es' = map (spec_entry (fe_crc E)) (manifest_specs json ''app/index.html'' @
      [(''app/libnative.so'', 0, ?c, regular_attrs)])"
    using b unfolding contains_elf_def fixture_code_bytes rbind_eq_Inr raw_app_done builder_specs by auto
  have "magic_of ?c = Some ([0x7f, 0x45, 0x4c, 0x46], ''ELF binary'')" by (simp add: exec_magics_def)
  then show "refused (fe_crates E) (raw_build es') ''POID-020''"
    unfolding es by (intro specs_refused [OF assms j json fixture_manifests_valid(2)])
      (auto simp: fixture_spec_simps raw_step_spec fixture_paths pk_magic_def)
qed

lemma bad_entry_refused:
  assumes "reads_raw (fe_crates E) (fe_crc E)"
  shows "small_json (fe_crates E) (invalid_app ''symlink'') \<Longrightarrow> symlink_fixture E = Inr es \<Longrightarrow>
      refused (fe_crates E) (raw_build es) ''POID-021''"
    and "small_json (fe_crates E) (invalid_app ''traversal'') \<Longrightarrow> path_traversal E = Inr es' \<Longrightarrow>
      refused (fe_crates E) (raw_build es') ''POID-022''"
proof -
  assume j: "small_json (fe_crates E) (invalid_app ''symlink'')" and b: "symlink_fixture E = Inr es"
  obtain json where json: "manifest_to_vec_pretty (fe_crates E) (invalid_app ''symlink'') = Inr json"
    and es: "es = map (spec_entry (fe_crc E)) (manifest_specs json ''app/index.html'' @
      [(''app/link'', 0, bytes_of ''/etc/passwd'', link_attrs)])"
    using b unfolding symlink_fixture_def rbind_eq_Inr raw_app_done builder_specs by auto
  show "refused (fe_crates E) (raw_build es) ''POID-021''"
    unfolding es by (intro specs_refused [OF assms j json fixture_manifests_valid(3)])
      (auto simp: fixture_spec_simps raw_step_spec fixture_paths pk_magic_def)
next
  assume j: "small_json (fe_crates E) (invalid_app ''traversal'')" and b: "path_traversal E = Inr es'"
  obtain json where json: "manifest_to_vec_pretty (fe_crates E) (invalid_app ''traversal'') = Inr json"
    and es: "es' = map (spec_entry (fe_crc E)) (manifest_specs json ''app/index.html'' @
      [(''../escape.txt'', 0, bytes_of ''outside the container'', regular_attrs)])"
    using b unfolding path_traversal_def rbind_eq_Inr raw_app_done builder_specs by auto
  obtain e where "check_container_path ''../escape.txt'' = Inl e" "conformance_code e = Some ''POID-022''"
    using escaping_path by (cases "check_container_path ''../escape.txt''") auto
  then show "refused (fe_crates E) (raw_build es') ''POID-022''"
    unfolding es by (intro specs_refused [OF assms j json fixture_manifests_valid(4)])
      (auto simp: fixture_spec_simps raw_step_spec pk_magic_def)
qed

lemma type_rules_refused:
  assumes "reads_raw (fe_crates E) (fe_crc E)"
  shows "small_json (fe_crates E) (new_data ''org.poid.conformance.data'' ''1.0.0'' ''responses/v1'') \<Longrightarrow>
      data_container_with_code E = Inr es \<Longrightarrow> refused (fe_crates E) (raw_build es) ''POID-040''"
    and "small_json (fe_crates E) (invalid_app ''entry-missing'') \<Longrightarrow> entry_missing E = Inr es' \<Longrightarrow>
      refused (fe_crates E) (raw_build es') ''POID-030''"
    and "small_json (fe_crates E) ((invalid_app ''workspace-empty'')\<lparr>m_type := WorkspaceType, m_entry := None\<rparr>) \<Longrightarrow>
      workspace_missing_apps E = Inr es'' \<Longrightarrow> refused (fe_crates E) (raw_build es'') ''POID-041''"
proof -
  let ?data = "new_data ''org.poid.conformance.data'' ''1.0.0'' ''responses/v1''"
  assume j: "small_json (fe_crates E) ?data" and b: "data_container_with_code E = Inr es"
  obtain json where json: "manifest_to_vec_pretty (fe_crates E) ?data = Inr json"
    and es: "es = map (spec_entry (fe_crc E)) (manifest_specs json ''app/index.html'' @ [])"
    using b unfolding data_container_with_code_def raw_app_done by auto
  show "refused (fe_crates E) (raw_build es) ''POID-040''"
    unfolding es by (intro specs_refused [OF assms j json fixture_manifests_valid(9)])
      (simp_all add: check_type_rules_def new_data_def check_data_dir_def has_tree_def bt_keys_def starts_with_iff)
next
  assume j: "small_json (fe_crates E) (invalid_app ''entry-missing'')" and b: "entry_missing E = Inr es'"
  obtain json where json: "manifest_to_vec_pretty (fe_crates E) (invalid_app ''entry-missing'') = Inr json"
    and es: "es' = map (spec_entry (fe_crc E)) (manifest_specs json ''app/other.html'' @ [])"
    using b unfolding entry_missing_def raw_app_done by auto
  show "refused (fe_crates E) (raw_build es') ''POID-030''"
    unfolding es by (intro specs_refused [OF assms j json fixture_manifests_valid(7)])
      (simp_all add: check_type_rules_def invalid_app_def new_app_def has_tree_def bt_keys_def bt_contains_def)
next
  let ?m = "(invalid_app ''workspace-empty'')\<lparr>m_type := WorkspaceType, m_entry := None\<rparr>"
  assume j: "small_json (fe_crates E) ?m" and b: "workspace_missing_apps E = Inr es''"
  obtain json where json: "manifest_to_vec_pretty (fe_crates E) ?m = Inr json"
    and es: "es'' = map (spec_entry (fe_crc E)) (manifest_specs json ''app/shell.html'' @ [])"
    using b unfolding workspace_missing_apps_def raw_app_done by auto
  show "refused (fe_crates E) (raw_build es'') ''POID-041''"
    unfolding es by (intro specs_refused [OF assms j json fixture_manifests_valid(10)])
      (simp_all add: check_type_rules_def has_tree_def bt_keys_def)
qed

text \<open>The fixtures whose first entry is wrong, and those whose manifest is.\<close>

lemma header_refused:
  assumes "raw_header es = Inl e"
  shows "raw_open K es = Inl e"
  using assms by (simp add: raw_open_def)

lemma first_entry_refused:
  assumes "reads_raw (fe_crates E) (fe_crc E)"
  shows "small_json (fe_crates E) (invalid_app ''no-mimetype'') \<Longrightarrow> no_mimetype E = Inr es \<Longrightarrow>
      refused (fe_crates E) (raw_build es) ''POID-001''"
    and "small_json (fe_crates E) (invalid_app ''not-first'') \<Longrightarrow> mimetype_not_first E = Inr es' \<Longrightarrow>
      refused (fe_crates E) (raw_build es') ''POID-002''"
    and "small_json (fe_crates E) (invalid_app ''compressed'') \<Longrightarrow> mimetype_compressed E = Inr es'' \<Longrightarrow>
      refused (fe_crates E) (raw_build es'') ''POID-002''"
proof -
  assume j: "small_json (fe_crates E) (invalid_app ''no-mimetype'')" and b: "no_mimetype E = Inr es"
  obtain json where json: "manifest_to_vec_pretty (fe_crates E) (invalid_app ''no-mimetype'') = Inr json"
    and es: "es = map (spec_entry (fe_crc E)) [(''manifest.json'', 0, json, regular_attrs),
      (''app/index.html'', 0, invalid_index, regular_attrs)]"
    using b unfolding no_mimetype_def rbind_eq_Inr raw_manifest_done builder_specs by auto
  have "raw_header es = Inl MimetypeMissing"
    by (simp add: es raw_header_def first_entry_verdict_def mimetype_name_def del: bytes_of_simps)
  then show "refused (fe_crates E) (raw_build es) ''POID-001''"
    using small_json_facts(3) [OF j json] unfolding es
    by (intro spec_archive_refused [OF assms]) (simp_all add: header_refused fixture_spec_simps)
next
  assume j: "small_json (fe_crates E) (invalid_app ''not-first'')" and b: "mimetype_not_first E = Inr es'"
  obtain json where json: "manifest_to_vec_pretty (fe_crates E) (invalid_app ''not-first'') = Inr json"
    and es: "es' = map (spec_entry (fe_crc E)) [(''app/index.html'', 0, invalid_index, regular_attrs),
      (''mimetype'', 0, bytes_of media_type, regular_attrs), (''manifest.json'', 0, json, regular_attrs)]"
    using b unfolding mimetype_not_first_def raw_manifest_done builder_specs by auto
  have "raw_header es' = Inl (MimetypeNotFirst (from_utf8_lossy (bytes_of ''app/index.html'')))"
    by (simp add: es raw_header_def first_entry_verdict_def mimetype_name_def del: bytes_of_simps)
  then show "refused (fe_crates E) (raw_build es') ''POID-002''"
    using small_json_facts(3) [OF j json] unfolding es
    by (intro spec_archive_refused [OF assms]) (simp_all add: header_refused fixture_spec_simps)
next
  assume j: "small_json (fe_crates E) (invalid_app ''compressed'')" and b: "mimetype_compressed E = Inr es''"
  obtain json where json: "manifest_to_vec_pretty (fe_crates E) (invalid_app ''compressed'') = Inr json"
    and es: "es'' = map (spec_entry (fe_crc E)) [(''mimetype'', 8, [1, 2, 3], regular_attrs),
      (''manifest.json'', 0, json, regular_attrs), (''app/index.html'', 0, invalid_index, regular_attrs)]"
    using b unfolding mimetype_compressed_def rbind_eq_Inr raw_manifest_done builder_specs by auto
  have "raw_header es'' = Inl MimetypeNotStored"
    by (simp add: es raw_header_def first_entry_verdict_def mimetype_name_def del: bytes_of_simps)
  then show "refused (fe_crates E) (raw_build es'') ''POID-002''"
    using small_json_facts(3) [OF j json] unfolding es
    by (intro spec_archive_refused [OF assms]) (simp_all add: header_refused fixture_spec_simps)
qed

lemma manifest_refused:
  assumes "starts_with json (bytes_of ''{'')"
    and "map_err conformance_code (rbind (map_err ManifestErr (manifest_parse K json)) (\<lambda>m. map_err ManifestErr (validate m))) =
      Inl (Some expected)"
  shows "map_err conformance_code (raw_open K (map (spec_entry crc) (manifest_specs json path))) = Inl (Some expected)"
proof -
  have "raw_header (map (spec_entry crc) (manifest_specs json path)) = Inr ()"
    using specs_header [of crc json path "[]"] by simp
  then show ?thesis
    using assms(2)
    by (cases "manifest_parse K json") (auto simp: raw_open_def manifest_specs_def manifest_name_def map_err_def
        simp del: bytes_of_simps split: sum.splits)
qed

lemma bad_manifest_refused:
  assumes "reads_raw (fe_crates E) (fe_crc E)" "serde_reads_fixtures E"
  shows "refused (fe_crates E) (raw_build (bad_manifest E)) ''POID-011''"
    and "refused (fe_crates E) (raw_build (schema_violation E)) ''POID-012''"
proof -
  let ?bad = "bytes_of ''{ this is not json''"
  let ?schema = "bytes_of (fe_json_to_string E schema_violation_json)"
  have starts: "starts_with ?bad (bytes_of ''{'')" "starts_with ?schema (bytes_of ''{'')"
    using assms(2) by (auto simp: serde_reads_fixtures_def starts_with_iff)
  have es: "bad_manifest E = map (spec_entry (fe_crc E)) (manifest_specs ?bad ''app/index.html'')"
    "schema_violation E = map (spec_entry (fe_crc E)) (manifest_specs ?schema ''app/index.html'')"
    by (simp_all add: bad_manifest_def schema_violation_def manifest_specs_def del: bytes_of_simps)
  have "map_err conformance_code (raw_open (fe_crates E) (bad_manifest E)) = Inl (Some ''POID-011'')"
    unfolding es using assms(2)
    by (intro manifest_refused starts) (auto simp: serde_reads_fixtures_def manifest_parse_def)
  then show "refused (fe_crates E) (raw_build (bad_manifest E)) ''POID-011''"
    unfolding es using json_magic [OF starts(1)]
    by (intro spec_archive_refused [OF assms(1)])
      (simp_all add: good_spec_def plain_spec_def manifest_specs_def fixture_names fixture_contents ends_with_def fixture_magics)
  have "map_err conformance_code (raw_open (fe_crates E) (schema_violation E)) = Inl (Some ''POID-012'')"
    unfolding es using assms(2)
    by (intro manifest_refused starts)
      (simp add: serde_reads_fixtures_def manifest_parse_def fixture_manifests_valid)
  then show "refused (fe_crates E) (raw_build (schema_violation E)) ''POID-012''"
    unfolding es using json_magic [OF starts(2)] assms(2)
    by (intro spec_archive_refused [OF assms(1)])
      (simp_all add: serde_reads_fixtures_def good_spec_def plain_spec_def manifest_specs_def fixture_names fixture_contents
        ends_with_def fixture_magics)
qed

section \<open>The fixtures the writer makes\<close>

definition plain_file :: "string \<times> byte list \<Rightarrow> bool" where
  "plain_file f \<longleftrightarrow> (case f of (path, content) \<Rightarrow> container_path path \<and> \<not> reserved_name path \<and> is_ascii path \<and>
     \<not> reserved_name (to_ascii_lowercase path) \<and> length content \<le> 65536 \<and>
     magic_of content = None \<and> \<not> starts_with content pk_magic)"

lemma plain_clean: "plain_file f \<Longrightarrow> clean zn l d (snd f) u \<longleftrightarrow> u = 0"
  by (cases f) (auto simp: plain_file_def clean_iff find_magic_None)

lemma small_cap: "length content \<le> 65536 \<Longrightarrow> length content \<le> ratio_cap limits_default n"
  by (simp add: ratio_cap_def limits_default_def)

lemma small_pack_opens:
  assumes "zip_roundtrip K" "small_json K (refresh (sha256 K) m files)" "bt_ok files" "list_all plain_file files"
    and "length files \<le> 4" "pack K \<lparr>bl_manifest = m, bl_files = files\<rparr> = Inr bytes"
  shows "open_poid K bytes = Inr \<lparr>c_manifest = refresh (sha256 K) m files, c_files = files\<rparr>"
proof -
  let ?m = "refresh (sha256 K) m files"
  have plain: "plain_file (k, c)" if "(k, c) \<in> set files" for k c using assms(4) that by (auto simp: list_all_iff)
  have inv: "container_inv \<lparr>c_manifest = m, c_files = files\<rparr>"
    using assms(3) plain by (auto simp: container_inv_def plain_file_def)
  have keys: "k \<in> fst ` set files \<Longrightarrow> \<not> reserved_name k \<and> \<not> reserved_name (to_ascii_lowercase k) \<and> from_utf8 (bytes_of k) = Some k"
    for k using plain by (auto simp: plain_file_def from_utf8_ascii)
  have readable: "readable_back K json files bytes" if json: "manifest_to_vec_pretty K ?m = Inr json" for json
  proof -
    have written: "zip_write K (zip_entries_of json files) = Inr bytes"
      using assms(6) json by (auto simp: pack_iff)
    have len: "length json \<le> 65536" using small_json_facts(3) [OF assms(2) json] .
    have names: "map fst (zip_entries_of json files) = mimetype_name # manifest_name # bt_keys files"
      by (simp add: zip_entries_of_def bt_keys_def split_def)
    have "distinct (map fst (zip_entries_of json files))"
      unfolding names using keys bt_ok_distinct [OF assms(3)] by (auto simp: reserved_name_iff bt_keys_def)
    then have entries: "\<And>a. zip_new K bytes = Some a \<Longrightarrow> list_all2 entry_written (zip_entries_of json files) (z_entries a)"
      using assms(1) written unfolding zip_roundtrip_def by (metis option.inject)
    have small: "\<forall>(n, mt, c)\<in>set (zip_entries_of json files). length c \<le> 65536"
      using plain len by (auto simp: zip_entries_of_def plain_file_def)
    have caps: "list_all2 (\<lambda>(n, mt, c) eo. \<forall>e. eo = Some e \<longrightarrow> length c \<le> ratio_cap limits_default (z_compressed e))
        (zip_entries_of json files) (z_entries a)" if a: "zip_new K bytes = Some a" for a
    proof (rule list_all2_all_nthI)
      show "length (zip_entries_of json files) = length (z_entries a)" using entries [OF a] by (rule list_all2_lengthD)
      fix i
      assume "i < length (zip_entries_of json files)"
      then have "zip_entries_of json files ! i \<in> set (zip_entries_of json files)" by (rule nth_mem)
      from bspec [OF small this] show "(case zip_entries_of json files ! i of (n, mt, c) \<Rightarrow> \<lambda>eo.
          \<forall>e. eo = Some e \<longrightarrow> length c \<le> ratio_cap limits_default (z_compressed e)) (z_entries a ! i)"
        by (auto intro: small_cap)
    qed
    have "sum_list (map (\<lambda>(k, c). length c) files) \<le> length files * 65536"
      using plain by (intro sum_list_bound) (auto simp: plain_file_def)
    then have size: "sum_list (map (\<lambda>(k, c). length c) files) \<le> 4 * 65536" using assms(5) by simp
    have none: "sum_list us = 0" if "list_all2 (\<lambda>pc u. clean (zip_new K) limits_default 1 (snd pc) u) files us" for us
      using that assms(4) by (induction files us rule: list_all2_induct) (auto simp: plain_clean)
    have total: "24 + 2 * length json + sum_list (map (\<lambda>(k, c). length c) files) + sum_list us
        \<le> max_total_uncompressed limits_default"
      if "list_all2 (\<lambda>pc u. clean (zip_new K) limits_default 1 (snd pc) u) files us" for us
      using size len unfolding none [OF that] by (simp add: limits_default_def)
    have "length files + 2 \<le> max_entries limits_default" using assms(5) by (simp add: limits_default_def)
    then show ?thesis
      unfolding readable_back_def Let_def using keys caps total by (intro conjI) blast+
  qed
  show ?thesis
    using packed_opens [of K "\<lparr>bl_manifest = m, bl_files = files\<rparr>" bytes] assms(1,2,6) inv readable
    by (simp add: small_json_def)
qed

text \<open>SHA-256 gives these two contents of the start page different digests.\<close>

definition no_collision :: "crates \<Rightarrow> byte list \<Rightarrow> byte list \<Rightarrow> bool" where
  "no_collision K a b \<longleftrightarrow>
     (let digest = (\<lambda>c. sha256 K (file_bytes ''app/index.html'' c))
      in digest a \<noteq> digest b \<and> sha256 K (digest a) \<noteq> sha256 K (digest b))"

lemma page_digest:
  "tree_digest sha [(''app/index.html'', c)] ''app/'' = Some (to_hex (sha (sha (file_bytes ''app/index.html'' c))))"
  by (simp add: tree_digest_def bt_range_from_def)

lemma page_digests_differ:
  "no_collision K a b \<Longrightarrow> tree_digest (sha256 K) [(''app/index.html'', a)] ''app/'' \<noteq>
     tree_digest (sha256 K) [(''app/index.html'', b)] ''app/''"
  by (auto simp: page_digest no_collision_def Let_def to_hex_inject)

lemma page_built:
  "built_with m [(''app/index.html'', c)] = Inr \<lparr>bl_manifest = m, bl_files = [(''app/index.html'', c)]\<rparr>"
  by (simp add: built_with_def builder_file_def builder_new_def fixture_paths mimetype_name_def manifest_name_def
      bt_contains_def)

lemma plain_page:
  assumes "c = b # r" "b \<notin> {0x4d, 0x7f, 0xfe, 0xce, 0xcf, 0x21, 0x50}" "length c \<le> 65536"
  shows "plain_file (''app/index.html'', c)"
proof -
  have "container_path ''app/index.html''" using fixture_paths(1) by (simp add: check_container_path_iff)
  then show ?thesis
    using assms magic_of_first
    by (simp add: plain_file_def fixture_names fixture_folds reserved_name_def)
qed

lemma fixture_page_bytes:
  "bytes_of ''genuine content'' = 0x67 # bytes_of ''enuine content''"
  "bytes_of ''tampered content'' = 0x74 # bytes_of ''ampered content''"
  "bytes_of ''original content'' = 0x6f # bytes_of ''riginal content''"
  "bytes_of ''attacker-modified content'' = 0x61 # bytes_of ''ttacker-modified content''"
  by simp_all

lemma fixture_pages:
  "plain_file (''app/index.html'', bytes_of ''genuine content'')"
  "plain_file (''app/index.html'', bytes_of ''tampered content'')"
  "plain_file (''app/index.html'', bytes_of ''original content'')"
  "plain_file (''app/index.html'', bytes_of ''attacker-modified content'')"
  using fixture_page_bytes by (auto intro!: plain_page simp del: bytes_of_simps)

lemma packed_page_opens:
  assumes "zip_roundtrip K" "small_json K (refresh (sha256 K) m [(''app/index.html'', c)])"
    and "plain_file (''app/index.html'', c)" "packed K m [(''app/index.html'', c)] = Inr bytes"
  shows "open_poid K bytes =
      Inr \<lparr>c_manifest = refresh (sha256 K) m [(''app/index.html'', c)], c_files = [(''app/index.html'', c)]\<rparr>"
    and "validate (refresh (sha256 K) m [(''app/index.html'', c)]) = Inr ()"
proof -
  have pack: "pack K \<lparr>bl_manifest = m, bl_files = [(''app/index.html'', c)]\<rparr> = Inr bytes"
    using assms(4) by (simp add: packed_def page_built)
  from assms(1-3) pack show "open_poid K bytes =
      Inr \<lparr>c_manifest = refresh (sha256 K) m [(''app/index.html'', c)], c_files = [(''app/index.html'', c)]\<rparr>"
    by (intro small_pack_opens) (simp_all add: bt_ok_def)
  from pack show "validate (refresh (sha256 K) m [(''app/index.html'', c)]) = Inr ()"
    by (auto simp: pack_iff validate_iff)
qed

lemma integrity_mismatch_refused:
  assumes "reads_raw (fe_crates E) (fe_crc E)" "zip_roundtrip (fe_crates E)"
    and "small_json (fe_crates E) (refresh (sha256 (fe_crates E)) (invalid_app ''integrity'')
      [(''app/index.html'', bytes_of ''genuine content'')])"
    and "no_collision (fe_crates E) (bytes_of ''genuine content'') (bytes_of ''tampered content'')"
    and "integrity_mismatch E = Inr es"
  shows "refused (fe_crates E) (raw_build es) ''POID-031''"
proof -
  let ?K = "fe_crates E" and ?bad = "bytes_of ''tampered content''"
  let ?m = "refresh (sha256 ?K) (invalid_app ''integrity'') [(''app/index.html'', bytes_of ''genuine content'')]"
  obtain genuine where packed: "packed ?K (invalid_app ''integrity'')
      [(''app/index.html'', bytes_of ''genuine content'')] = Inr genuine"
    using assms(5) by (auto simp: integrity_mismatch_def result_simps simp del: bytes_of_simps)
  note plain = fixture_pages(1,2)
  note opened = packed_page_opens [OF assms(2,3) plain(1) packed]
  obtain json where json: "manifest_to_vec_pretty ?K ?m = Inr json"
    and es: "es = map (spec_entry (fe_crc E)) [(''mimetype'', 0, bytes_of media_type, regular_attrs),
      (''manifest.json'', 0, json, regular_attrs), (''app/index.html'', 0, ?bad, regular_attrs)]"
    using assms(5) unfolding integrity_mismatch_def packed opened map_err_simps rbind_Inr rbind_eq_Inr raw_manifest_done builder_specs
    by (auto simp: opened map_err_simps simp del: bytes_of_simps)
  note facts = small_json_facts [OF assms(3) json]
  let ?p = "\<lparr>c_manifest = ?m, c_files = [(''app/index.html'', ?bad)]\<rparr>"
  have header: "raw_header es = Inr ()"
    by (simp add: es raw_header_def first_entry_verdict_def mimetype_name_def del: bytes_of_simps)
  have "check_type_rules ?m [(''app/index.html'', ?bad)] = Inr ()"
    by (simp add: check_type_rules_def refresh_def Let_def invalid_app_def new_app_def has_tree_def bt_keys_def bt_contains_def)
  then have "raw_open ?K es = Inr ?p"
    using facts plain json_magic [OF facts(2)] fixture_magics fixture_paths fixture_folds
    unfolding raw_open_def header
    by (simp add: es manifest_name_def mimetype_name_def manifest_parse_def opened(2) raw_step_spec plain_file_def
        del: bytes_of_simps)
  moreover have "open_with_limits ?K limits_default (raw_build es) = raw_open ?K es"
  proof -
    have specs: "list_all good_spec [(''mimetype'', 0, bytes_of media_type, regular_attrs),
        (''manifest.json'', 0, json, regular_attrs), (''app/index.html'', 0, ?bad, regular_attrs)]"
      "list_all plain_spec [(''mimetype'', 0, bytes_of media_type, regular_attrs),
        (''manifest.json'', 0, json, regular_attrs), (''app/index.html'', 0, ?bad, regular_attrs)]"
      using facts plain json_magic [OF facts(2)]
      by (simp_all add: good_spec_def plain_spec_def fixture_names fixture_contents ends_with_def fixture_magics plain_file_def
          del: bytes_of_simps)
    note ok = spec_archive_ok [OF specs(1), of "fe_crc E"]
    show ?thesis
      unfolding es using ok(2) [OF _ _ _ specs(2)] ok(3)
      by (intro open_raw_archive [OF assms(1) ok(1)]) simp_all
  qed
  moreover have "verify ?K ?p = Inl (IntegrityMismatch ''app'')"
    using page_digests_differ [OF assms(4)] by (auto simp: verify_def refresh_def Let_def invalid_app_def new_app_def)
  ultimately show ?thesis by (simp add: refused_def conformance_check_def)
qed

section \<open>The zip bomb\<close>

lemma read_loop_ratio:
  "payload rs = Some data \<Longrightarrow> n + length data \<le> budget \<Longrightarrow> n \<le> cap \<Longrightarrow> cap < n + length data \<Longrightarrow>
     read_loop name cap budget rs n out = Inl (ZipBombRatio name)"
proof (induction name cap budget rs n out arbitrary: data rule: read_loop.induct)
  case (3 name cap budget buf rs n out)
  then show ?case by (cases "payload rs") (auto simp: Let_def split: if_splits)
qed auto

text \<open>The crate deflates 8 MiB of zeros to no more than 64 KiB.\<close>

definition deflates_zeros :: "crates \<Rightarrow> bool" where
  "deflates_zeros K \<longleftrightarrow> (\<forall>ws bytes a i name z. zip_write K ws = Inr bytes \<longrightarrow> zip_new K bytes = Some a \<longrightarrow>
     i < length ws \<longrightarrow> ws ! i = (name, Deflated, bomb_zeros) \<longrightarrow> z_entries a ! i = Some z \<longrightarrow> z_compressed z \<le> 65536)"

lemma open_written_entry:
  assumes "entry_written (name, mt, content) eo" "mt \<in> {Stored, Deflated}" "container_path name" "is_ascii name"
    and "magic_of content = None" "\<not> starts_with content pk_magic" "length content \<le> 65536" "length content \<le> budget"
    and "to_ascii_lowercase name \<notin> seen"
  shows "open_entry K limits_default (i, eo) (budget, files, seen) =
    Inr (add_outcome (Some (name, content, 0)) (budget, files, seen))"
proof -
  have "clean (zip_new K) limits_default 1 content 0"
    using assms(5,6) by (intro plain) (simp_all add: find_magic_None)
  then have "entry_ok K limits_default eo (Some (name, content, 0))"
    using assms(2-4,7) small_cap by (intro written_file_ok [OF assms(1)]) (auto intro: from_utf8_ascii)
  then show ?thesis
    unfolding open_entry_iff using assms(8,9)
    by (intro exI [of _ "Some (name, content, 0)"]) (simp add: found_fold_def found_name_def found_size_def)
qed

lemma open_bomb_entry:
  assumes "entry_written (''app/zeros.bin'', Deflated, bomb_zeros) (Some z)" "z_compressed z \<le> 65536"
    and "8 * 1024 * 1024 \<le> budget"
  shows "open_entry K limits_default (i, Some z) (budget, files, seen) = Inl (ZipBombRatio ''app/zeros.bin'')"
proof -
  let ?name = "''app/zeros.bin''"
  obtain reader where z: "z_name_raw z = bytes_of ?name" "\<not> z_is_dir z" "\<not> z_is_symlink z" "z_unix_mode z = Some 0x81A4"
    "z_method z = Deflated" "z_reader z = Some reader" "payload reader = Some bomb_zeros"
    using assms(1) by (auto simp: entry_written_def ends_with_def simp del: bytes_of_simps)
  have len: "length bomb_zeros = 8 * 1024 * 1024" by (simp add: bomb_zeros_def)
  have "ratio_cap limits_default (z_compressed z) < 8 * 1024 * 1024"
    using assms(2) by (simp add: ratio_cap_def saturating_mul_u64_def limits_default_def)
  then have read: "read_limited reader ?name (z_compressed z) limits_default budget = Inl (ZipBombRatio ?name)"
    using read_loop_ratio [OF z(7), of 0 budget] assms(3) len by (simp add: read_limited_def)
  have "is_ascii ?name" by code_simp
  then have "entry_name z = Inr ?name" by (simp add: entry_name_def z(1) from_utf8_ascii del: bytes_of_simps)
  moreover have "check_not_special z ?name = Inr ()"
    by (simp add: check_not_special_def z(3,4) special_mode_def modes)
  ultimately show ?thesis
    by (simp add: open_entry_def z(2,5,6) fixture_paths check_method_def read)
qed

lemma zip_bomb_refused:
  assumes "zip_roundtrip (fe_crates E)" "small_json (fe_crates E) (invalid_app ''bomb'')" "deflates_zeros (fe_crates E)"
    and "zip_bomb E = Inr bytes"
  shows "refused (fe_crates E) bytes ''POID-023''"
proof -
  let ?K = "fe_crates E" and ?m = "invalid_app ''bomb''"
  obtain json where json: "manifest_to_vec_pretty ?K ?m = Inr json"
    and written: "zip_write ?K [(''mimetype'', Stored, bytes_of media_type), (''manifest.json'', Deflated, json),
      (''app/index.html'', Deflated, invalid_index), (''app/zeros.bin'', Deflated, bomb_zeros)] = Inr bytes"
    using assms(4) by (auto simp: zip_bomb_def to_json_bytes_def result_simps simp del: bytes_of_simps)
  let ?ws = "[(''mimetype'', Stored, bytes_of media_type), (''manifest.json'', Deflated, json),
      (''app/index.html'', Deflated, invalid_index), (''app/zeros.bin'', Deflated, bomb_zeros)]"
  note facts = small_json_facts [OF assms(2) json]
  have "distinct (map fst ?ws)" by simp
  then obtain a where a: "zip_new ?K bytes = Some a" "list_all2 entry_written ?ws (z_entries a)"
    and idx: "\<forall>i<length ?ws. z_index_for_name a (fst (?ws ! i)) = Some i" and header: "poid_header bytes"
    using assms(1) written unfolding zip_roundtrip_def mimetype_name_def by blast
  obtain e0 e1 e2 e3 where es: "z_entries a = [e0, e1, e2, e3]"
    and e: "entry_written (''mimetype'', Stored, bytes_of media_type) e0" "entry_written (''manifest.json'', Deflated, json) e1"
      "entry_written (''app/index.html'', Deflated, invalid_index) e2"
      "entry_written (''app/zeros.bin'', Deflated, bomb_zeros) e3"
    using a(2) by (auto simp: list_all2_Cons1)
  obtain z1 reader where z1: "e1 = Some z1" "z_method z1 = Deflated" "z_reader z1 = Some reader" "payload reader = Some json"
    using e(2) by (auto simp: entry_written_def)
  have index: "z_index_for_name a ''manifest.json'' = Some 1" using idx [rule_format, of 1] by simp
  have "read_limited reader ''manifest.json'' (z_compressed z1) limits_default (1024 * 1024 * 1024) =
      Inr (json, 1024 * 1024 * 1024 - length json)"
    using facts(3) by (intro raw_read_limited z1(4)) simp_all
  then have manifest: "read_manifest ?K a limits_default (max_total_uncompressed limits_default) =
      Inr (?m, 1024 * 1024 * 1024 - length json)"
    by (simp add: read_manifest_def manifest_name_def index by_index_def es z1 check_method_def manifest_parse_def facts(1)
        limits_default_def)
  have paths: "container_path ''mimetype''" "container_path ''manifest.json''" "container_path ''app/index.html''"
    using fixture_paths by (simp_all add: check_container_path_iff)
  obtain z3 where z3: "e3 = Some z3" using e(4) by (auto simp: entry_written_def)
  have "z_compressed z3 \<le> 65536"
    using assms(3) written a(1) es z3 unfolding deflates_zeros_def
    by (metis (no_types, lifting) length_Cons lessI list.size(3) nth_Cons_0 nth_Cons_Suc numeral_3_eq_3)
  then have bomb: "open_entry ?K limits_default (3, e3) (budget, files, seen) = Inl (ZipBombRatio ''app/zeros.bin'')"
    if "8 * 1024 * 1024 \<le> budget" for budget files seen
    using open_bomb_entry that e(4) unfolding z3 by blast
  define b where "b = 1024 * 1024 * 1024 - length json"
  have big: "8 * 1024 * 1024 + 131072 \<le> b" using facts(3) by (simp add: b_def)
  have step0: "open_entry ?K limits_default (0, e0) (b, [], {}) = Inr (b - 24, [], {''mimetype''})"
    using big fixture_folds fixture_contents
    by (subst open_written_entry [OF e(1) _ paths(1) fixture_names(1) fixture_magics(1,3)])
      (simp_all add: found_size_def found_fold_def found_name_def add_found_def reserved_name_def)
  have step1: "open_entry ?K limits_default (1, e1) (b - 24, [], {''mimetype''}) =
      Inr (b - 24 - length json, [], {''mimetype'', ''manifest.json''})"
    using big facts(3) fixture_folds
    by (subst open_written_entry [OF e(2) _ paths(2) fixture_names(2) json_magic [OF facts(2)]])
      (auto simp: found_size_def found_fold_def found_name_def add_found_def reserved_name_def)
  have step2: "open_entry ?K limits_default (2, e2) (b - 24 - length json, [], {''mimetype'', ''manifest.json''}) =
      Inr (b - 24 - length json - 39, [(''app/index.html'', invalid_index)],
        {''mimetype'', ''manifest.json'', ''app/index.html''})"
    using big facts(3) fixture_folds fixture_contents
    by (subst open_written_entry [OF e(3) _ paths(3) fixture_names(3) fixture_magics(2,4)])
      (auto simp: found_size_def found_fold_def found_name_def add_found_def reserved_name_def)
  have "fold_each (open_entry ?K limits_default) [(0, e0), (1, e1), (2, e2), (3, e3)] (b, [], {}) =
      Inl (ZipBombRatio ''app/zeros.bin'')"
    using big facts(3) unfolding fold_each.simps step0 step1 step2 rbind_Inr by (subst bomb) simp_all
  moreover have "enumerate 0 (z_entries a) = [(0, e0), (1, e1), (2, e2), (3, e3)]"
    by (simp add: es numeral_eq_Suc)
  ultimately have "fold_each (open_entry ?K limits_default) (enumerate 0 (z_entries a)) (1024 * 1024 * 1024 - length json, [], {}) =
      Inl (ZipBombRatio ''app/zeros.bin'')"
    unfolding b_def by simp
  then have "open_with_limits ?K limits_default bytes = Inl (ZipBombRatio ''app/zeros.bin'')"
    using header a(1) manifest
    by (simp add: open_with_limits_def check_mimetype_raw_iff [THEN iffD2] es fixture_manifests_valid limits_default_def)
  then show ?thesis by (simp add: refused_def conformance_check_def)
qed

section \<open>The tampered signature\<close>

text \<open>Serde: a signature block is written as a small JSON object, a payload always serializes, and its text records the digest.\<close>

definition serde_writes_signatures :: "crates \<Rightarrow> bool" where
  "serde_writes_signatures K \<longleftrightarrow>
     (\<forall>b json. block_to_vec_pretty K b = Inr json \<longrightarrow> b_algo b = ''ed25519'' \<longrightarrow> length (b_public_key b) = 64 \<longrightarrow>
        length (b_signature b) = 128 \<longrightarrow> b_extra b = [] \<longrightarrow> starts_with json (bytes_of ''{'') \<and> length json \<le> 65536) \<and>
     (\<forall>y. \<exists>text. payload_to_vec K y = Inr text) \<and>
     (\<forall>y y'. payload_to_vec K y = payload_to_vec K y' \<longrightarrow> y_integrity_app y = y_integrity_app y')"

text \<open>Ed25519: the signature of the original payload does not verify for the other payload.\<close>

definition payload_with_page :: "crates \<Rightarrow> byte list \<Rightarrow> signed_payload" where
  "payload_with_page K c = payload_of (refresh (sha256 K) (invalid_app ''tampered'') [(''app/index.html'', c)])"

definition signature_binds :: "crates \<Rightarrow> byte list \<Rightarrow> byte list \<Rightarrow> bool" where
  "signature_binds K a b \<longleftrightarrow> (\<forall>x y. payload_to_vec K (payload_with_page K a) = Inr x \<longrightarrow>
     payload_to_vec K (payload_with_page K b) = Inr y \<longrightarrow> x \<noteq> y \<longrightarrow>
     \<not> ed_verify_strict K (ed_public K test_key_seed) y (ed_sign K test_key_seed x))"

lemma signed_page_files:
  "bt_insert signature_path block [(''app/index.html'', c)] = [(''app/index.html'', c), (signature_path, block)]"
  by (simp add: signature_path_def)

lemma refresh_signed_page:
  "refresh sha m [(''app/index.html'', c), (signature_path, block)] = refresh sha m [(''app/index.html'', c)]"
proof -
  have "tree_digest sha [(''app/index.html'', c), (signature_path, block)] dir =
      tree_digest sha [(''app/index.html'', c)] dir" if "dir \<in> {''app/'', ''deps/''}" for dir
    unfolding signed_page_files [symmetric]
    using that by (intro tree_digest_put_other) (auto simp: signature_path_def bt_ok_def)
  then show ?thesis by (simp add: refresh_def Let_def)
qed

lemma built_signed_page:
  "built_with m [(''app/index.html'', c), (signature_path, block)] =
    Inr \<lparr>bl_manifest = m, bl_files = [(''app/index.html'', c), (signature_path, block)]\<rparr>"
proof -
  have "check_container_path signature_path = Inr ()" by code_simp
  then show ?thesis
    by (simp add: built_with_def builder_file_def builder_new_def fixture_paths mimetype_name_def manifest_name_def
        bt_contains_def signature_path_def)
qed

lemma plain_block:
  assumes "starts_with block (bytes_of ''{'')" "length block \<le> 65536"
  shows "plain_file (signature_path, block)"
proof -
  have "container_path signature_path" "is_ascii signature_path" "\<not> reserved_name signature_path"
    "\<not> reserved_name (to_ascii_lowercase signature_path)"
    unfolding check_container_path_iff [symmetric] by code_simp+
  then show ?thesis using assms json_magic by (simp add: plain_file_def)
qed

lemma forged_block_invalid:
  assumes "ed25519_ok K seed" "sign_manifest K m seed = Inr b" "block_from_slice K json = Inr b"
    and "payload_to_vec K (payload_of m) = Inr x" "payload_to_vec K (payload_of m') = Inr y"
    and "\<not> ed_verify_strict K (ed_public K seed) y (ed_sign K seed x)"
  shows "verify_block K m' json = Inr SigInvalid"
  using assms
  by (auto simp: verify_block_def sign_manifest_def signature_payload_bytes_def result_simps ed25519_ok_def)


lemma tampered_signature_refused:
  assumes "zip_roundtrip (fe_crates E)" "block_json_ok (fe_crates E)" "ed25519_ok (fe_crates E) test_key_seed"
    and "serde_writes_signatures (fe_crates E)"
    and "\<And>c. c \<in> {bytes_of ''original content'', bytes_of ''attacker-modified content''} \<Longrightarrow> small_json (fe_crates E)
      (refresh (sha256 (fe_crates E)) (invalid_app ''tampered'') [(''app/index.html'', c)])"
    and "no_collision (fe_crates E) (bytes_of ''original content'') (bytes_of ''attacker-modified content'')"
    and "signature_binds (fe_crates E) (bytes_of ''original content'') (bytes_of ''attacker-modified content'')"
    and "tampered_signature E = Inr bytes"
  shows "refused (fe_crates E) bytes ''POID-050''"
proof -
  let ?K = "fe_crates E" and ?m = "invalid_app ''tampered''"
  define a b where ab: "a = bytes_of ''original content''" "b = bytes_of ''attacker-modified content''"
  let ?ma = "refresh (sha256 ?K) ?m [(''app/index.html'', a)]" and ?mb = "refresh (sha256 ?K) ?m [(''app/index.html'', b)]"
  note hyps = assms(5-8) [folded ab]
  have plain: "plain_file (''app/index.html'', a)" "plain_file (''app/index.html'', b)"
    unfolding ab by (rule fixture_pages)+
  obtain original where packed: "packed ?K ?m [(''app/index.html'', a)] = Inr original"
    using hyps(4) by (auto simp: tampered_signature_def Let_def result_simps ab simp del: bytes_of_simps)
  note opened = packed_page_opens(1) [OF assms(1) hyps(1) plain(1) packed]
  obtain signed block where sign: "sign ?K test_key_seed \<lparr>c_manifest = ?ma, c_files = [(''app/index.html'', a)]\<rparr> = (signed, Inr ())"
    and block: "file_of signed signature_path = Some block"
    and forged: "packed ?K ?m [(''app/index.html'', b), (signature_path, block)] = Inr bytes"
    using hyps(4) packed opened
    by (auto simp: tampered_signature_def Let_def result_simps ab [symmetric] simp del: bytes_of_simps split: prod.splits)
  obtain blk where blk: "sign_manifest ?K ?ma test_key_seed = Inr blk" "block_to_vec_pretty ?K blk = Inr block"
    using sign block unfolding sign_outcome by (auto simp: file_of_def signature_path_def)
  obtain x where x: "payload_to_vec ?K (payload_of ?ma) = Inr x"
    and fields: "b_version blk = 1" "b_algo blk = ''ed25519''" "b_extra blk = []"
      "length (b_public_key blk) = 64" "length (b_signature blk) = 128"
    using blk(1) assms(3) by (auto simp: sign_manifest_def signature_payload_bytes_def result_simps ed25519_ok_def length_to_hex)
  have parsed: "block_from_slice ?K block = Inr blk" using assms(2) fields blk(2) by (auto simp: block_json_ok_def)
  have "plain_file (signature_path, block)"
    using assms(4) blk(2) fields by (intro plain_block) (auto simp: serde_writes_signatures_def)
  then have files: "list_all plain_file [(''app/index.html'', b), (signature_path, block)]" using plain by simp
  obtain y where y: "payload_to_vec ?K (payload_of ?mb) = Inr y" using assms(4) unfolding serde_writes_signatures_def by metis
  have "y_integrity_app (payload_of ?ma) \<noteq> y_integrity_app (payload_of ?mb)"
    using page_digests_differ [OF hyps(2)] by (auto simp: payload_of_def refresh_def Let_def)
  then have "x \<noteq> y" using assms(4) x y unfolding serde_writes_signatures_def by metis
  then have unsigned: "\<not> ed_verify_strict ?K (ed_public ?K test_key_seed) y (ed_sign ?K test_key_seed x)"
    using hyps(3) x y by (simp add: signature_binds_def payload_with_page_def)
  let ?p = "\<lparr>c_manifest = ?mb, c_files = [(''app/index.html'', b), (signature_path, block)]\<rparr>"
  have "pack ?K \<lparr>bl_manifest = ?m, bl_files = [(''app/index.html'', b), (signature_path, block)]\<rparr> = Inr bytes"
    using forged by (simp add: packed_def built_signed_page)
  moreover have ok: "bt_ok [(''app/index.html'', b), (signature_path, block)]" by (simp add: bt_ok_def signature_path_def)
  ultimately have "open_poid ?K bytes = Inr ?p"
    using small_pack_opens [OF assms(1) _ ok files, of ?m bytes] hyps(1) [of b] by (simp add: refresh_signed_page)
  moreover have "verify ?K ?p = Inr ()"
    using verify_refresh [of ?K ?m "[(''app/index.html'', b), (signature_path, block)]"] by (simp add: refresh_signed_page)
  moreover have "signature_status_of ?K ?p = Inr SigInvalid"
    using forged_block_invalid [OF assms(3) blk(1) parsed x y unsigned] by (simp add: signature_status_of_def signature_path_def)
  ultimately show ?thesis by (simp add: refused_def conformance_check_def open_poid_def)
qed

end
