(* ===== verification/Conformance_Suite.thy ===== *)
theory Conformance_Suite
  imports Conformance_Verdicts
begin

text \<open>
  The invalid half of the conformance suite as a whole, and a concrete set of crates at which its verdict is evaluated:
  archives are the raw ones, deflating changes nothing but the reported size, and JSON texts are short tags.
\<close>

unbundle bit_operations_syntax

section \<open>The suite is refused\<close>

definition fixture_manifests :: "(byte list \<Rightarrow> byte list) \<Rightarrow> manifest list" where
  "fixture_manifests sha =
     map invalid_app [''no-mimetype'', ''not-first'', ''compressed'', ''exe'', ''elf'', ''symlink'', ''traversal'', ''bomb'',
       ''entry-missing''] @
     [new_data ''org.poid.conformance.data'' ''1.0.0'' ''responses/v1'',
      (invalid_app ''workspace-empty'')\<lparr>m_type := WorkspaceType, m_entry := None\<rparr>,
      refresh sha (invalid_app ''integrity'') [(''app/index.html'', bytes_of ''genuine content'')],
      refresh sha (invalid_app ''tampered'') [(''app/index.html'', bytes_of ''original content'')],
      refresh sha (invalid_app ''tampered'') [(''app/index.html'', bytes_of ''attacker-modified content'')]]"

text \<open>What the crates are relied on for: reading raw archives, reading back written ones, JSON, and cryptography.\<close>

definition archives_ok :: "fixture_env \<Rightarrow> bool" where
  "archives_ok E \<longleftrightarrow> reads_raw (fe_crates E) (fe_crc E) \<and> zip_roundtrip (fe_crates E) \<and> deflates_zeros (fe_crates E)"

definition serde_ok :: "fixture_env \<Rightarrow> bool" where
  "serde_ok E \<longleftrightarrow> serde_reads_fixtures E \<and> serde_writes_signatures (fe_crates E) \<and> block_json_ok (fe_crates E) \<and>
     list_all (small_json (fe_crates E)) (fixture_manifests (sha256 (fe_crates E)))"

definition crypto_ok :: "fixture_env \<Rightarrow> bool" where
  "crypto_ok E \<longleftrightarrow> (let K = fe_crates E; original = bytes_of ''original content'';
       modified = bytes_of ''attacker-modified content'' in
     ed25519_ok K test_key_seed \<and> no_collision K (bytes_of ''genuine content'') (bytes_of ''tampered content'') \<and>
     no_collision K original modified \<and> signature_binds K original modified)"

lemma in_order_results: "in_order rs = Inr xs \<Longrightarrow> list_all2 (\<lambda>r x. r = Inr x) rs xs"
  by (induction rs arbitrary: xs) (auto simp: result_simps)

lemma in_order_member: "in_order rs = Inr xs \<Longrightarrow> x \<in> set xs \<Longrightarrow> Inr x \<in> set rs"
  using in_order_results by (fastforce simp: list_all2_conv_all_nth in_set_conv_nth)

definition verdict_kept :: "crates \<Rightarrow> fixture_failure + fixture \<Rightarrow> bool" where
  "verdict_kept K r \<longleftrightarrow> (\<forall>f. r = Inr f \<longrightarrow> \<not> fx_valid f \<and>
     (\<exists>e. conformance_check K limits_default (fx_bytes f) = Inl e \<and> conformance_code e = fx_expected_code f))"

lemma verdict_kept_raw:
  "(\<And>es. r = Inr es \<Longrightarrow> refused K (raw_build es) expected) \<Longrightarrow> verdict_kept K (invalid_raw name expected r)"
  by (auto simp: verdict_kept_def invalid_raw_def invalid_fixture_def result_simps refused_def)

lemma verdict_kept_bytes:
  "(\<And>bytes. r = Inr bytes \<Longrightarrow> refused K bytes expected) \<Longrightarrow> verdict_kept K (invalid_bytes name expected r)"
  by (auto simp: verdict_kept_def invalid_bytes_def invalid_fixture_def result_simps refused_def)

lemma fixture_json:
  assumes "list_all P (fixture_manifests sha)"
  shows "P (invalid_app ''no-mimetype'')" "P (invalid_app ''not-first'')" "P (invalid_app ''compressed'')"
    "P (invalid_app ''exe'')" "P (invalid_app ''elf'')" "P (invalid_app ''symlink'')" "P (invalid_app ''traversal'')"
    "P (invalid_app ''bomb'')" "P (invalid_app ''entry-missing'')"
    "P (new_data ''org.poid.conformance.data'' ''1.0.0'' ''responses/v1'')"
    "P ((invalid_app ''workspace-empty'')\<lparr>m_type := WorkspaceType, m_entry := None\<rparr>)"
    "P (refresh sha (invalid_app ''integrity'') [(''app/index.html'', bytes_of ''genuine content'')])"
    "c \<in> {bytes_of ''original content'', bytes_of ''attacker-modified content''} \<Longrightarrow>
       P (refresh sha (invalid_app ''tampered'') [(''app/index.html'', c)])"
  using assms by (auto simp: fixture_manifests_def simp del: bytes_of_simps)

text \<open>
  C32: Every invalid fixture of the conformance suite is refused by the conformance check, with exactly the registry code
  that its \<open>expected.json\<close> names: fifteen archives, each with one thing wrong, from the missing media type to a
  signature over other content.
\<close>

theorem invalid_fixtures_are_refused_with_their_codes:
  assumes "archives_ok E" "serde_ok E" "crypto_ok E" "invalid_all E = Inr fs"
  shows "length fs = 15 \<and> (\<forall>f\<in>set fs. \<not> fx_valid f \<and>
    (\<exists>e. conformance_check (fe_crates E) limits_default (fx_bytes f) = Inl e \<and> conformance_code e = fx_expected_code f))"
proof -
  note raw = assms(1) [unfolded archives_ok_def, THEN conjunct1]
    and zip = assms(1) [unfolded archives_ok_def, THEN conjunct2, THEN conjunct1]
    and deflate = assms(1) [unfolded archives_ok_def, THEN conjunct2, THEN conjunct2]
  have serde: "serde_reads_fixtures E" "serde_writes_signatures (fe_crates E)" "block_json_ok (fe_crates E)"
    using assms(2) by (simp_all add: serde_ok_def)
  note json = fixture_json [of "small_json (fe_crates E)" "sha256 (fe_crates E)"]
  have json_ok: "list_all (small_json (fe_crates E)) (fixture_manifests (sha256 (fe_crates E)))"
    using assms(2) by (simp add: serde_ok_def)
  note json = json [OF json_ok]
  note crypto = assms(3) [unfolded crypto_ok_def Let_def]
  have results: "in_order (invalid_results E) = Inr fs" "length fs = 15"
    using assms(4) in_order_results [of "invalid_results E" fs]
    by (simp_all add: invalid_all_def invalid_results_def list_all2_lengthD [symmetric])
  have "list_all (verdict_kept (fe_crates E))
     [invalid_raw ''no-mimetype'' ''POID-001'' (no_mimetype E),
      invalid_raw ''mimetype-not-first'' ''POID-002'' (mimetype_not_first E),
      invalid_raw ''mimetype-compressed'' ''POID-002'' (mimetype_compressed E),
      invalid_raw ''bad-manifest'' ''POID-011'' (Inr (bad_manifest E)),
      invalid_raw ''schema-violation'' ''POID-012'' (Inr (schema_violation E))]"
    using first_entry_refused [OF raw] bad_manifest_refused [OF raw serde(1)] json(1-3)
    by (auto intro!: verdict_kept_raw)
  moreover have "list_all (verdict_kept (fe_crates E))
     [invalid_raw ''contains-exe'' ''POID-020'' (contains_exe E),
      invalid_raw ''contains-elf'' ''POID-020'' (contains_elf E),
      invalid_raw ''symlink'' ''POID-021'' (symlink_fixture E),
      invalid_raw ''path-traversal'' ''POID-022'' (path_traversal E),
      invalid_bytes ''zip-bomb'' ''POID-023'' (zip_bomb E)]"
    using native_code_refused [OF raw] bad_entry_refused [OF raw] zip_bomb_refused [OF zip _ deflate] json(4-8)
    by (auto intro!: verdict_kept_raw verdict_kept_bytes)
  moreover have "list_all (verdict_kept (fe_crates E))
     [invalid_raw ''integrity-mismatch'' ''POID-031'' (integrity_mismatch E),
      invalid_raw ''data-container-with-code'' ''POID-040'' (data_container_with_code E),
      invalid_raw ''entry-missing'' ''POID-030'' (entry_missing E),
      invalid_bytes ''tampered-signature'' ''POID-050'' (tampered_signature E),
      invalid_raw ''workspace-missing-apps'' ''POID-041'' (workspace_missing_apps E)]"
    using integrity_mismatch_refused [OF raw zip json(12)] type_rules_refused [OF raw] json(9-11) crypto
      tampered_signature_refused [OF zip serde(3) _ serde(2) json(13)]
    by (auto intro!: verdict_kept_raw verdict_kept_bytes simp del: bytes_of_simps)
  ultimately have "\<forall>r\<in>set (invalid_results E). verdict_kept (fe_crates E) r"
    unfolding invalid_results_def by (simp only: list_all_iff [symmetric] list.pred_inject)
  then have "\<forall>f\<in>set fs. verdict_kept (fe_crates E) (Inr f)"
    using results(1) by (metis in_order_member)
  with results(2) show ?thesis by (auto simp: verdict_kept_def)
qed

section \<open>A concrete set of crates\<close>

definition fixture_tag :: "manifest \<Rightarrow> string" where
  "fixture_tag m =
     (case m_app m of Some a \<Rightarrow> a_id a | None \<Rightarrow> ''data'') @
     (case m_integrity m of Some g \<Rightarrow> (case g_app g of Some d \<Rightarrow> d | None \<Rightarrow> []) | None \<Rightarrow> [])"

definition fixture_code :: "manifest \<Rightarrow> byte list" where
  "fixture_code m = bytes_of (CHR ''{'' # fixture_tag m)"

definition schema_text :: string where
  "schema_text = ''{schema''"

definition sample_manifest_parse :: "byte list \<Rightarrow> string + manifest" where
  "sample_manifest_parse bytes =
     (if bytes = bytes_of schema_text then Inr schema_violation_manifest
      else ok_or ''expected value'' (find (\<lambda>m. fixture_code m = bytes) (fixture_manifests sample_sha)))"

definition raw_of_input :: "string \<times> compression_method \<times> byte list \<Rightarrow> raw_entry" where
  "raw_of_input w = (case w of (name, method, content) \<Rightarrow>
     spec_entry (\<lambda>_. 0) (name, (if method = Stored then 0 else 8), content, regular_attrs))"

definition sample_zip_write :: "zip_input \<Rightarrow> string + byte list" where
  "sample_zip_write ws =
     (if list_all (\<lambda>(n, mt, c). mt \<in> {Stored, Deflated}) ws \<and> list_all raw_entry_fits (map raw_of_input ws)
      then Inr (raw_build (map raw_of_input ws)) else Inl ''unsupported'')"

definition sample_view :: "raw_entry \<Rightarrow> zip_entry" where
  "sample_view e =
     \<lparr>z_name_raw = re_name e, z_is_dir = ends_with (string_of (re_name e)) ''/'',
      z_is_symlink = (unix_mode_of e AND 0xF000 = 0xA000), z_unix_mode = Some (unix_mode_of e),
      z_method = raw_method e,
      z_compressed = (if re_method e = 0 then length (re_data e) else length (re_data e) div 1024),
      z_reader = Some [ReadChunk (re_data e)]\<rparr>"

definition sample_zip_archive :: "raw_zip \<Rightarrow> zip_archive" where
  "sample_zip_archive es =
     \<lparr>z_entries = map (\<lambda>e. Some (sample_view e)) es,
      z_index_for_name = (\<lambda>name. map_option fst (find (\<lambda>(i, e). string_of (re_name e) = name) (enumerate 0 es)))\<rparr>"

definition sample_payload_text :: "signed_payload \<Rightarrow> byte list" where
  "sample_payload_text y = bytes_of (case y_integrity_app y of None \<Rightarrow> ''n'' | Some d \<Rightarrow> d @ ''s'')"

definition sample_fixture_crates :: crates where
  "sample_fixture_crates = sample_crates\<lparr>
     payload_to_vec := (\<lambda>y. Inr (sample_payload_text y)),
     block_to_vec_pretty := (\<lambda>b. Inr (0x7b # sample_block_bytes b)),
     block_from_slice := (\<lambda>bytes. sample_block_parse (tl bytes)),
     manifest_from_slice := sample_manifest_parse,
     manifest_to_vec_pretty := (\<lambda>m. Inr (fixture_code m)),
     zip_new := (\<lambda>bytes. Some (sample_zip_archive (raw_read bytes))),
     zip_write := sample_zip_write\<rparr>"

definition sample_fixture_env :: fixture_env where
  "sample_fixture_env = \<lparr>fe_crates = sample_fixture_crates, fe_crc = (\<lambda>_. 0), fe_json_to_string = (\<lambda>_. schema_text)\<rparr>"

lemma sample_fields [simp]:
  "sha256 sample_fixture_crates = sample_sha"
  "manifest_from_slice sample_fixture_crates = sample_manifest_parse"
  "manifest_to_vec_pretty sample_fixture_crates = (\<lambda>m. Inr (fixture_code m))"
  "zip_new sample_fixture_crates = (\<lambda>bytes. Some (sample_zip_archive (raw_read bytes)))"
  "zip_write sample_fixture_crates = sample_zip_write"
  "payload_to_vec sample_fixture_crates = (\<lambda>y. Inr (sample_payload_text y))"
  "block_to_vec_pretty sample_fixture_crates = (\<lambda>b. Inr (0x7b # sample_block_bytes b))"
  "block_from_slice sample_fixture_crates = (\<lambda>bytes. sample_block_parse (tl bytes))"
  "ed_public sample_fixture_crates = (\<lambda>seed. take 32 (seed @ replicate 32 0))"
  "ed_sign sample_fixture_crates = (\<lambda>seed m. take 64 (m @ replicate 64 0))"
  "ed_key_ok sample_fixture_crates = (\<lambda>_. True)"
  "ed_verify_strict sample_fixture_crates = (\<lambda>k m s. s = take 64 (m @ replicate 64 0))"
  "fe_crates sample_fixture_env = sample_fixture_crates" "fe_crc sample_fixture_env = (\<lambda>_. 0)"
  "fe_json_to_string sample_fixture_env = (\<lambda>_. schema_text)"
  by (simp_all add: sample_fixture_crates_def sample_crates_def sample_fixture_env_def)

lemma sample_index:
  assumes "distinct (map re_name es)" "i < length es"
  shows "z_index_for_name (sample_zip_archive es) (string_of (re_name (es ! i))) = Some i"
proof -
  have inj: "string_of a = string_of b \<longleftrightarrow> a = b" for a b by (metis bytes_of_string_of)
  have "find (\<lambda>(j, e). string_of (re_name e) = string_of (re_name (es ! i))) (enumerate 0 es) = Some (i, es ! i)"
    unfolding find_Some_iff inj using assms
    by (intro exI [of _ i]) (auto simp: nth_enumerate_eq distinct_conv_nth)
  then show ?thesis by (simp add: sample_zip_archive_def)
qed

lemma sample_index_none:
  "name \<notin> string_of ` re_name ` set es \<Longrightarrow> z_index_for_name (sample_zip_archive es) name = None"
  by (auto simp: sample_zip_archive_def find_None_iff in_set_enumerate_eq)

lemma sample_reads_raw: "reads_raw sample_fixture_crates crc"
  unfolding reads_raw_def
proof (intro allI impI)
  fix es
  assume ok: "raw_archive_ok crc es"
  then have read: "raw_read (raw_build es) = es" by (intro raw_archive_reads_back) (simp add: raw_archive_ok_def)
  have "raw_seen e (Some (sample_view e))" for e
    by (simp add: raw_seen_def sample_view_def raw_is_dir_def)
  then have "list_all2 raw_seen es (z_entries (sample_zip_archive es))"
    by (simp add: sample_zip_archive_def list_all2_conv_all_nth)
  with ok read show "\<exists>a. zip_new sample_fixture_crates (raw_build es) = Some a \<and> list_all2 raw_seen es (z_entries a) \<and>
        (\<forall>i<length es. z_index_for_name a (string_of (re_name (es ! i))) = Some i) \<and>
        (\<forall>name. name \<notin> string_of ` re_name ` set es \<longrightarrow> z_index_for_name a name = None)"
    by (intro exI [of _ "sample_zip_archive es"])
      (auto simp: raw_archive_ok_def sample_index sample_index_none)
qed

lemma sample_written:
  assumes "sample_zip_write ws = Inr bytes"
  shows "list_all (\<lambda>(n, mt, c). mt \<in> {Stored, Deflated}) ws" "bytes = raw_build (map raw_of_input ws)"
    "raw_read bytes = map raw_of_input ws" "list_all raw_entry_fits (map raw_of_input ws)"
  using assms raw_archive_reads_back by (auto simp: sample_zip_write_def split: if_splits)

lemma sample_entry_written:
  "(case w of (n, mt, c) \<Rightarrow> mt \<in> {Stored, Deflated}) \<Longrightarrow> entry_written w (Some (sample_view (raw_of_input w)))"
  by (cases w) (auto simp: entry_written_def sample_view_def raw_of_input_def raw_method_def modes)

lemma sample_zip_roundtrip': "zip_roundtrip sample_fixture_crates"
  unfolding zip_roundtrip_def
proof (intro allI impI)
  fix ws bytes
  assume "zip_write sample_fixture_crates ws = Inr bytes" and dist: "distinct (map fst ws)"
  then have w: "sample_zip_write ws = Inr bytes" by simp
  note facts = sample_written [OF w]
  let ?a = "sample_zip_archive (map raw_of_input ws)"
  have name: "re_name (raw_of_input x) = bytes_of (fst x)" for x by (cases x) (simp add: raw_of_input_def)
  have "list_all2 entry_written ws (z_entries ?a)"
    using facts(1) sample_entry_written
    by (simp add: sample_zip_archive_def list_all2_conv_all_nth list_all_length)
  moreover have "distinct (map re_name (map raw_of_input ws))"
    using dist by (simp add: distinct_map inj_on_def name)
  then have "z_index_for_name ?a (fst (ws ! i)) = Some i" if "i < length ws" for i
    using sample_index [of "map raw_of_input ws" i] that by (simp add: name)
  moreover have "poid_header bytes" if "ws = (mimetype_name, Stored, bytes_of media_type) # rest" for rest
    using facts(4) that unfolding facts(2) check_mimetype_raw_iff [symmetric]
    by (simp add: check_mimetype_raw_archive) (simp add: first_entry_verdict_def raw_of_input_def)
  ultimately show "(\<exists>a. zip_new sample_fixture_crates bytes = Some a \<and> list_all2 entry_written ws (z_entries a) \<and>
      (\<forall>i<length ws. z_index_for_name a (fst (ws ! i)) = Some i)) \<and>
      (\<forall>rest. ws = (mimetype_name, Stored, bytes_of media_type) # rest \<longrightarrow> poid_header bytes)"
    using facts(3) by (intro conjI exI [of _ ?a]) auto
qed

lemma sample_deflates: "deflates_zeros sample_fixture_crates"
  unfolding deflates_zeros_def
proof (intro allI impI)
  fix ws bytes a i name z
  assume "zip_write sample_fixture_crates ws = Inr bytes" "zip_new sample_fixture_crates bytes = Some a"
    and i: "i < length ws" "ws ! i = (name, Deflated, bomb_zeros)" "z_entries a ! i = Some z"
  then have "sample_zip_write ws = Inr bytes" "a = sample_zip_archive (raw_read bytes)" by simp_all
  with sample_written(3) have "a = sample_zip_archive (map raw_of_input ws)" by metis
  with i have "z = sample_view (raw_of_input (name, Deflated, bomb_zeros))" by (simp add: sample_zip_archive_def)
  then show "z_compressed z \<le> 65536" by (simp add: sample_view_def raw_of_input_def bomb_zeros_def)
qed

definition page_hex :: "byte list \<Rightarrow> string" where
  "page_hex c = to_hex (sample_sha (sample_sha (file_bytes ''app/index.html'' c)))"

lemma fixture_tags:
  "fixture_tag (invalid_app s) = ''org.poid.conformance.'' @ s"
  "fixture_tag (new_data i v d) = ''data''"
  "fixture_tag ((invalid_app s)\<lparr>m_type := WorkspaceType, m_entry := None\<rparr>) = ''org.poid.conformance.'' @ s"
  "fixture_tag (refresh sample_sha (invalid_app s) [(''app/index.html'', c)]) = ''org.poid.conformance.'' @ s @ page_hex c"
  by (simp_all add: fixture_tag_def invalid_app_def new_app_def new_data_def refresh_def Let_def page_digest page_hex_def)

lemma length_page_hex [simp]: "length (page_hex c) = 64"
  by (simp add: page_hex_def)

lemma sample_hashes:
  "no_collision sample_fixture_crates (bytes_of ''genuine content'') (bytes_of ''tampered content'')"
  "no_collision sample_fixture_crates (bytes_of ''original content'') (bytes_of ''attacker-modified content'')"
  by (simp_all add: no_collision_def file_bytes_def sample_sha_def Let_def)

lemma page_hexes_differ: "page_hex (bytes_of ''original content'') \<noteq> page_hex (bytes_of ''attacker-modified content'')"
  using sample_hashes(2) by (simp add: no_collision_def Let_def page_hex_def to_hex_inject del: bytes_of_simps)

lemma sample_tags:
  "distinct (map fixture_tag (fixture_manifests sample_sha))"
  "list_all (\<lambda>m. length (fixture_tag m) \<le> 150 \<and> hd (fixture_tag m) \<in> {CHR ''o'', CHR ''d''}) (fixture_manifests sample_sha)"
  using page_hexes_differ by (simp_all add: fixture_manifests_def fixture_tags del: bytes_of_simps)

lemma sample_codes:
  "inj_on fixture_code (set (fixture_manifests sample_sha))"
  "m \<in> set (fixture_manifests sample_sha) \<Longrightarrow> length (fixture_code m) \<le> 200 \<and> fixture_code m \<noteq> bytes_of schema_text \<and>
     fixture_code m \<noteq> bytes_of ''{ this is not json''"
  "bytes_of schema_text \<noteq> bytes_of ''{ this is not json''"
proof -
  show "inj_on fixture_code (set (fixture_manifests sample_sha))"
    using sample_tags(1) by (auto simp: distinct_map inj_on_def fixture_code_def)
  assume "m \<in> set (fixture_manifests sample_sha)"
  from bspec [OF sample_tags(2) [unfolded list_all_iff] this]
  show "length (fixture_code m) \<le> 200 \<and> fixture_code m \<noteq> bytes_of schema_text \<and>
     fixture_code m \<noteq> bytes_of ''{ this is not json''"
    unfolding fixture_code_def schema_text_def bytes_of_inj
    by (auto simp: length_bytes_of simp del: bytes_of_simps)
qed (simp add: schema_text_def del: bytes_of_simps)

lemma find_by_image: "inj_on f (set xs) \<Longrightarrow> x \<in> set xs \<Longrightarrow> find (\<lambda>y. f y = f x) xs = Some x"
  by (induction xs) (auto simp: inj_on_def)

lemma sample_small_json: "list_all (small_json sample_fixture_crates) (fixture_manifests sample_sha)"
  unfolding list_all_iff
proof
  fix m
  assume m: "m \<in> set (fixture_manifests sample_sha)"
  have code: "length (fixture_code m) \<le> 200" "fixture_code m \<noteq> bytes_of schema_text"
    using sample_codes(2) [OF m] by simp_all
  have "find (\<lambda>m'. fixture_code m' = fixture_code m) (fixture_manifests sample_sha) = Some m"
    by (rule find_by_image [OF sample_codes(1) m])
  then have "sample_manifest_parse (fixture_code m) = Inr m"
    using code(2) by (simp add: sample_manifest_parse_def)
  moreover have "starts_with (fixture_code m) (bytes_of ''{'')" by (simp add: fixture_code_def)
  ultimately show "small_json sample_fixture_crates m"
    using code(1) by (simp add: small_json_def manifest_json_ok_def)
qed

lemma sample_serde_ok: "serde_ok sample_fixture_env"
proof -
  have "find (\<lambda>m. fixture_code m = bytes_of ''{ this is not json'') (fixture_manifests sample_sha) = None"
    using sample_codes(2) unfolding find_None_iff by blast
  then have "sample_manifest_parse (bytes_of ''{ this is not json'') = Inl ''expected value''"
    using sample_codes(3) [symmetric] by (simp add: sample_manifest_parse_def del: bytes_of_simps bytes_of_inj)
  then have "serde_reads_fixtures sample_fixture_env"
    by (simp add: serde_reads_fixtures_def sample_manifest_parse_def [of "bytes_of schema_text"] del: bytes_of_simps)
      (simp add: schema_text_def)
  moreover have "serde_writes_signatures sample_fixture_crates"
    by (auto simp: serde_writes_signatures_def sample_block_bytes_def sample_payload_text_def length_bytes_of
        split: option.splits)
  moreover have "block_json_ok sample_fixture_crates"
    by (simp add: block_json_ok_def sample_block_roundtrip)
  ultimately show ?thesis using sample_small_json by (simp add: serde_ok_def)
qed

lemma sample_signed_texts:
  "take 64 (sample_payload_text (payload_with_page sample_fixture_crates (bytes_of ''original content'')) @ replicate 64 0) \<noteq>
   take 64 (sample_payload_text (payload_with_page sample_fixture_crates (bytes_of ''attacker-modified content'')) @ replicate 64 0)"
  using page_hexes_differ
  by (simp add: sample_payload_text_def payload_with_page_def payload_of_def refresh_def Let_def invalid_app_def new_app_def page_digest
      page_hex_def [symmetric] del: bytes_of_simps)

lemma sample_ed25519: "ed25519_ok sample_fixture_crates test_key_seed"
  by (simp add: ed25519_ok_def test_key_seed_def min_def)

lemma sample_crypto_ok: "crypto_ok sample_fixture_env"
proof -
  have "signature_binds sample_fixture_crates (bytes_of ''original content'') (bytes_of ''attacker-modified content'')"
    unfolding signature_binds_def sample_fields using sample_signed_texts by simp
  then show ?thesis using sample_hashes sample_ed25519 by (simp add: crypto_ok_def Let_def del: bytes_of_simps)
qed

lemma sample_pack_small:
  assumes "bt_ok files" "list_all plain_file files" "distinct (map to_ascii_lowercase (bt_keys files))"
    and "validate (refresh sample_sha m files) = Inr ()" "check_type_rules (refresh sample_sha m files) files = Inr ()"
    and "length (fixture_code (refresh sample_sha m files)) \<le> 200" "\<forall>(k, c)\<in>set files. length k < 100"
  shows "\<exists>bytes. pack sample_fixture_crates \<lparr>bl_manifest = m, bl_files = files\<rparr> = Inr bytes"
proof -
  let ?json = "fixture_code (refresh sample_sha m files)"
  have clean: "list_all2 (\<lambda>pc u. clean zn limits_default 1 (snd pc) u) files (replicate (length files) 0)" for zn
    using assms(2) by (auto simp: list_all2_conv_all_nth list_all_length plain_clean)
  have "list_all raw_entry_fits (map raw_of_input (zip_entries_of ?json files))"
    using assms(2,6,7)
    by (auto simp: list_all_iff zip_entries_of_def raw_of_input_def raw_entry_fits_def plain_file_def length_bytes_of
        mimetype_name_def manifest_name_def simp del: bytes_of_simps dest!: bspec)
  then have "\<exists>bytes. sample_zip_write (zip_entries_of ?json files) = Inr bytes"
    by (auto simp: sample_zip_write_def zip_entries_of_def list_all_iff)
  moreover have "sum_list (replicate (length files) 0 :: nat list) \<le> max_total_uncompressed limits_default"
    by (simp add: sum_list_replicate)
  ultimately show ?thesis
    unfolding pack_iff poid_builder.simps sample_fields
    using assms(3,4,5) clean unfolding validate_iff check_type_rules_iff by blast
qed

lemma sample_page_manifest:
  assumes "s \<in> {''integrity'', ''tampered''}"
  shows "validate (refresh sample_sha (invalid_app s) [(''app/index.html'', c)]) = Inr ()"
    and "check_type_rules (refresh sample_sha (invalid_app s) [(''app/index.html'', c)]) [(''app/index.html'', c)] = Inr ()"
    and "length (fixture_code (refresh sample_sha (invalid_app s) [(''app/index.html'', c)])) \<le> 200"
proof -
  have "manifest_ok (invalid_app s)" using assms fixture_manifests_valid(6,8) by (auto simp: validate_iff)
  then show "validate (refresh sample_sha (invalid_app s) [(''app/index.html'', c)]) = Inr ()"
    by (simp add: validate_iff refresh_manifest_ok)
  show "check_type_rules (refresh sample_sha (invalid_app s) [(''app/index.html'', c)]) [(''app/index.html'', c)] = Inr ()"
    by (simp add: check_type_rules_def invalid_app_def new_app_def has_tree_def bt_keys_def bt_contains_def)
  show "length (fixture_code (refresh sample_sha (invalid_app s) [(''app/index.html'', c)])) \<le> 200"
    using assms by (auto simp: fixture_code_def fixture_tags length_bytes_of)
qed

lemma sample_packed_page:
  assumes "s \<in> {''integrity'', ''tampered''}" "plain_file (''app/index.html'', c)"
  shows "\<exists>bytes. packed sample_fixture_crates (invalid_app s) [(''app/index.html'', c)] = Inr bytes"
  unfolding packed_def page_built rbind_Inr using assms(2)
  by (intro sample_pack_small sample_page_manifest [OF assms(1)]) (simp_all add: bt_ok_def bt_keys_def)

lemma sample_packed_opens:
  assumes "s \<in> {''integrity'', ''tampered''}" "plain_file (''app/index.html'', c)"
    and "small_json sample_fixture_crates (refresh sample_sha (invalid_app s) [(''app/index.html'', c)])"
  obtains bytes where "packed sample_fixture_crates (invalid_app s) [(''app/index.html'', c)] = Inr bytes"
    "open_poid sample_fixture_crates bytes = Inr \<lparr>c_manifest = refresh sample_sha (invalid_app s) [(''app/index.html'', c)],
       c_files = [(''app/index.html'', c)]\<rparr>"
  using sample_packed_page [OF assms(1,2)] packed_page_opens(1) [OF sample_zip_roundtrip' _ assms(2)] assms(3) that
  by (metis sample_fields(1))

lemma sample_with_manifest: "is_ok (with_manifest sample_fixture_env m es)"
  by (simp add: with_manifest_def raw_manifest_def to_json_bytes_def is_ok_def ok_or_def)

lemma is_ok_made:
  "is_ok (rbind r (\<lambda>x. Inr (f x))) \<longleftrightarrow> is_ok r"
  "is_ok (invalid_raw n e r') \<longleftrightarrow> is_ok r'" "is_ok (invalid_bytes n e r'') \<longleftrightarrow> is_ok r''"
  by (simp_all add: is_ok_def rbind_def invalid_raw_def invalid_bytes_def split: sum.splits)

lemma is_ok_raw_app: "is_ok (raw_app sample_fixture_env m path)"
  unfolding raw_app_def is_ok_made by (rule sample_with_manifest)

lemmas is_ok_steps = is_ok_made is_ok_raw_app

lemma sample_integrity_mismatch: "is_ok (integrity_mismatch sample_fixture_env)"
proof -
  obtain bytes where "packed sample_fixture_crates (invalid_app ''integrity'') [(''app/index.html'', bytes_of ''genuine content'')] = Inr bytes"
    "open_poid sample_fixture_crates bytes = Inr \<lparr>c_manifest = refresh sample_sha (invalid_app ''integrity'')
       [(''app/index.html'', bytes_of ''genuine content'')], c_files = [(''app/index.html'', bytes_of ''genuine content'')]\<rparr>"
    using fixture_json(12) [OF sample_small_json] fixture_pages(1) by (auto elim: sample_packed_opens [rotated 2])
  then show ?thesis
    unfolding integrity_mismatch_def sample_fields by (simp add: is_ok_steps sample_with_manifest del: bytes_of_simps)
qed

lemma sample_zip_bomb: "is_ok (zip_bomb sample_fixture_env)"
proof -
  have "length (fixture_code (invalid_app ''bomb'')) \<le> 200"
    using sample_codes(2) [of "invalid_app ''bomb''"] by (simp add: fixture_manifests_def)
  then show ?thesis
    by (simp add: zip_bomb_def to_json_bytes_def sample_zip_write_def raw_of_input_def raw_entry_fits_def bomb_zeros_def
        fixture_contents length_bytes_of is_ok_def del: bytes_of_simps)
qed

lemma sample_tampered_signature: "is_ok (tampered_signature sample_fixture_env)"
proof -
  let ?K = sample_fixture_crates and ?m = "invalid_app ''tampered''"
  define a b where ab: "a = bytes_of ''original content''" "b = bytes_of ''attacker-modified content''"
  have plain: "plain_file (''app/index.html'', a)" "plain_file (''app/index.html'', b)"
    unfolding ab by (rule fixture_pages)+
  let ?p = "\<lparr>c_manifest = refresh sample_sha ?m [(''app/index.html'', a)], c_files = [(''app/index.html'', a)]\<rparr>"
  have "small_json ?K (refresh sample_sha ?m [(''app/index.html'', a)])"
    unfolding ab by (rule fixture_json(13) [OF sample_small_json]) simp
  from sample_packed_opens [OF _ plain(1) this] obtain original
    where original: "packed ?K ?m [(''app/index.html'', a)] = Inr original" "open_poid ?K original = Inr ?p" by auto
  obtain blk where blk: "sign_manifest ?K (refresh sample_sha ?m [(''app/index.html'', a)]) test_key_seed = Inr blk"
    by (simp add: sign_manifest_def signature_payload_bytes_def)
  let ?block = "0x7b # sample_block_bytes blk"
  have sign: "sign ?K test_key_seed ?p = (\<lparr>c_manifest = c_manifest ?p, c_files = [(''app/index.html'', a), (signature_path, ?block)]\<rparr>, Inr ())"
    unfolding sign_outcome using blk by (simp add: signature_path_def)
  have "length (b_public_key blk) = 64" "length (b_signature blk) = 128"
    using blk by (auto simp: sign_manifest_def signature_payload_bytes_def test_key_seed_def min_def)
  then have "plain_file (signature_path, ?block)"
    by (intro plain_block) (simp_all add: sample_block_bytes_def length_bytes_of)
  with plain(2) have page: "list_all plain_file [(''app/index.html'', b), (signature_path, ?block)]" by simp
  note page = page sample_page_manifest [of "''tampered''" b, simplified]
  have type: "check_type_rules (refresh sample_sha ?m [(''app/index.html'', b)]) [(''app/index.html'', b), (signature_path, ?block)] = Inr ()"
    by (simp add: check_type_rules_def invalid_app_def new_app_def has_tree_def bt_keys_def bt_contains_def)
  have "\<exists>bytes. pack ?K \<lparr>bl_manifest = ?m, bl_files = [(''app/index.html'', b), (signature_path, ?block)]\<rparr> = Inr bytes"
    using page type by (intro sample_pack_small)
      (simp_all add: refresh_signed_page, simp_all add: bt_ok_def bt_keys_def signature_path_def fixture_folds)
  then obtain bytes where "packed ?K ?m [(''app/index.html'', b), (signature_path, ?block)] = Inr bytes"
    by (auto simp: packed_def built_signed_page)
  moreover have "file_of \<lparr>c_manifest = c_manifest ?p, c_files = [(''app/index.html'', a), (signature_path, ?block)]\<rparr>
      signature_path = Some ?block"
    by (simp add: file_of_def signature_path_def)
  ultimately show ?thesis
    using original sign by (simp add: tampered_signature_def Let_def ab [symmetric] is_ok_def del: bytes_of_simps)
qed


lemma in_order_ok: "list_all is_ok rs \<Longrightarrow> is_ok (in_order rs)"
  by (induction rs) (auto simp: is_ok_def rbind_def split: sum.splits)

lemma sample_suite: "is_ok (invalid_all sample_fixture_env)"
proof -
  have "list_all is_ok (invalid_results sample_fixture_env)"
    using sample_with_manifest sample_zip_bomb sample_integrity_mismatch sample_tampered_signature
    by (simp add: invalid_results_def is_ok_steps no_mimetype_def mimetype_not_first_def mimetype_compressed_def
        contains_exe_def contains_elf_def symlink_fixture_def path_traversal_def data_container_with_code_def
        entry_missing_def workspace_missing_apps_def del: bytes_of_simps)
  then show ?thesis unfolding invalid_all_def by (rule in_order_ok)
qed

theorem invalid_fixtures_are_refused_with_their_codes_witness:
  "\<exists>fs. invalid_all sample_fixture_env = Inr fs \<and> length fs = 15 \<and> (\<forall>f\<in>set fs. \<not> fx_valid f \<and>
    (\<exists>e. conformance_check sample_fixture_crates limits_default (fx_bytes f) = Inl e \<and>
       conformance_code e = fx_expected_code f))"
proof -
  obtain fs where fs: "invalid_all sample_fixture_env = Inr fs"
    using sample_suite by (auto simp: is_ok_def split: sum.splits)
  have "archives_ok sample_fixture_env"
    using sample_reads_raw sample_zip_roundtrip' sample_deflates by (simp add: archives_ok_def)
  from invalid_fixtures_are_refused_with_their_codes [OF this sample_serde_ok sample_crypto_ok fs] fs
  show ?thesis by simp
qed

end
