(* ===== verification/Spec2Isabelle.thy ===== *)
theory Spec2Isabelle
  imports Container_Files Broker_Bindings Brokered_Fetch Broker_Redaction Binding_Registry
    Vault_Quota Vault_Protect Vault_Roundtrip Studio_Windows Convert_Project Convert_Html
    Cli_Build Cli_Commands Cli_Init Web_Bindings Conformance_Suite
begin

text \<open>
  A verification library for POID, portable application containers: a \<open>.poid\<close> file is a ZIP archive with an
  application, its data and a manifest, opened by readers that trust nothing in it.

  \<^bold>\<open>The program.\<close> Eight crates and a desktop application. \<open>poid-core\<close> reads, checks, signs, updates and writes
  containers. \<open>poid-broker\<close> decides what an opened application may reach, and \<open>poid-connections\<close> holds the user's
  connections and their credentials and carries out what the broker allows. \<open>poid-vault\<close> keeps the memory of an
  application outside its file. \<open>poid-convert\<close> turns projects into pages and manifests. \<open>poid-cli\<close> and \<open>poid-wasm\<close> are the
  command line and the browser's reader over them, \<open>apps/studio/src-tauri\<close> the desktop one, and \<open>poid-fixtures\<close> makes the
  conformance suite every reader is measured by. The readers call the
  libraries; state shared between components is the container in memory, the disk, the registry of connections
  with the keychain, the vault with its index, and the windows of the Studio.

  \<^bold>\<open>Conventions.\<close> Rust's strings and byte slices are \<open>string\<close> (UTF-8 bytes as characters) and \<open>byte list\<close>; a \<open>BTreeMap\<close> is
  an association list with its order as an invariant (\<open>Btree_Map\<close>); \<open>Result\<close> is a sum with the error on the
  left and \<open>?\<close> is \<open>rbind\<close>; an operation on \<open>mut self\<close> returns its result and the state after it; integers keep their
  width where it matters (\<open>u16_at\<close>, \<open>u32\<close> and \<open>u64\<close> fields, the quota) and are natural numbers where they only
  count. A panic is the value \<open>None\<close>. The disk is a map from paths to contents; what the platform refuses is an
  argument of the operation. Crates that are not part of the repository (SHA-256, Ed25519, serde, the ZIP
  reader and writer, automerge, Argon2id and AES-256-GCM, reqwest, the keychain, the SQL driver, esbuild) are
  records of functions; what the code relies on of them is a named hypothesis (\<open>sha256_ok\<close>, \<open>ed25519_ok\<close>,
  \<open>aead_ok\<close>, \<open>automerge_ok\<close>, and others), and each theorem that uses one is applied to a concrete instance of it.

  \<^bold>\<open>Theories and sources.\<close>
  \<^item> \<open>Prelude\<close>, \<open>Rust_Strings\<close>, \<open>Rust_Text\<close>, \<open>Text_Replace\<close>, \<open>Text_Trim\<close>, \<open>Hex_Text\<close>, \<open>Ip_Text\<close>, \<open>Btree_Map\<close>: the standard library as far
    as the sources use it, the result combinators, and the locales \<open>checker\<close> (a check that accepts exactly a
    predicate), \<open>invariant_machine\<close> and \<open>framed_machine\<close> (operations that keep an invariant, and a part of the state).
  \<^item> \<open>poid-core\<close>: \<open>Core_Errors\<close> (error.rs), \<open>Container_Paths\<close> (paths.rs), \<open>Manifests\<close> (manifest.rs), \<open>Integrity_Digests\<close>
    (integrity.rs), \<open>Signatures\<close> over \<open>Crate_Interfaces\<close> (signature.rs), \<open>Zip_Scan\<close> and \<open>Container_Reader\<close> (read.rs, limits.rs),
    \<open>Containers\<close> and \<open>Container_Files\<close> (poid.rs), \<open>Container_Writer\<close> (write.rs).
  \<^item> \<open>poid-broker\<close>: \<open>Broker_Errors\<close> and \<open>Policy_Messages\<close> (error.rs, connection.rs), \<open>Broker_Bindings\<close> (binding.rs),
    \<open>Broker_Network\<close> (network.rs), \<open>Broker_Redaction\<close> (scrub.rs).
  \<^item> \<open>poid-connections\<close>: \<open>Connection_Errors\<close> (error.rs), \<open>Connection_Records\<close> (record.rs, secret.rs; the locale
    \<open>secret_store\<close> is the contract of a credential store), \<open>Connection_Registry\<close> (store.rs), \<open>Binding_Registry\<close> (bindings.rs),
    \<open>Dsn_Parsing\<close> (dsn.rs), \<open>Brokered_Fetch\<close> (http.rs), \<open>Postgres_Connection\<close> (sql.rs), \<open>Atomic_Files\<close> (the writers of both
    registries and of the vault).
  \<^item> \<open>poid-vault\<close>: \<open>Vault_Errors\<close>, \<open>Vault_Documents\<close> (doc.rs) with \<open>Vault_Memory\<close>, its view as a map, and \<open>Vault_Engine\<close> with
    \<open>Vault_Codec\<close>, a concrete engine for the witnesses; \<open>Vault_Store\<close> (store.rs, sql.rs), \<open>Vault_Quota\<close>, \<open>Vault_Index\<close> (index.rs),
    \<open>Vault_Protect\<close> (protect.rs), \<open>Vault_Convert\<close> and \<open>Vault_Roundtrip\<close> (convert.rs).
  \<^item> \<open>poid-convert\<close>: \<open>Convert_Project\<close> (classify.rs, infer.rs, manifest.rs, lib.rs), \<open>Convert_Html\<close> (html.rs).
  \<^item> the Studio: \<open>Studio_State\<close> (state.rs, vault_state.rs), \<open>Studio_Documents\<close> (document.rs), \<open>Studio_Vault\<close> (the vault's commands of
    commands.rs), \<open>Studio_Connections\<close> (connections.rs, connections_state.rs), \<open>Studio_Windows\<close> (cli.rs, asset_registry.rs,
    windows.rs, lib.rs).
  \<^item> \<open>poid-cli\<close>: \<open>Cli_Support\<close> (output.rs and the helpers), \<open>Cli_Project\<close> (project.rs), \<open>Cli_Stdlib\<close> (stdlib.rs), \<open>Cli_Build\<close> (build_app,
    pack, convert), \<open>Cli_Commands\<close> (the other commands of commands.rs, main.rs), \<open>Cli_Init\<close> (init, templates.rs).
  \<^item> \<open>poid-wasm\<close>: \<open>Web_Bindings\<close> (lib.rs, convert.rs, vault.rs).
  \<^item> \<open>poid-fixtures\<close>: \<open>Raw_Zip\<close> (rawzip.rs), \<open>Raw_Reading\<close> (what the reader makes of a raw archive), \<open>Conformance_Fixtures\<close> (lib.rs,
    valid.rs, invalid.rs), \<open>Conformance_Verdicts\<close> and \<open>Conformance_Suite\<close> (the verdict on every invalid fixture).

  \<^bold>\<open>What is shown.\<close>
  \<^item> Containers: the path grammar admits nothing that leaves a directory; validation of manifests, the recursive
    scan of archives and the opening of a container each accept exactly a declarative description; a digest
    binds its tree; a signature survives every reader operation; an update exchanges the program and keeps the data;
    what is packed opens again.
  \<^item> Broker and connections: the policy is the intersection of what is declared and approved, addresses are
    judged the same in every spelling, every hop of a brokered request stays within the policy with the
    credential of its own origin, diagnostics hold no secret, the registry's file does not depend on the secrets,
    and the stores refine maps.
  \<^item> Vault: the document refines a map of slots, the quota bounds what is accepted, sealing and moving storage
    there and back restore what was there, a memory is shared only by choice.
  \<^item> Studio: an invariant of all reachable states of the windows, the isolation of windows and instances, and the
    database session that outlives its window.
  \<^item> Converter and command line: a converted manifest requests no more than the code uses, the import scan and the
    collected files are exactly what is described, the resolution is the closure of the imports, nothing but a
    container that opens is written, extraction is confined and complete, in-place commands replace or keep.
  \<^item> Conformance suite: a raw archive reads back entry by entry, and every invalid fixture is refused with the registry
    code expected of it. That the valid ones open is an instance of what is packed opens again, and not spelled out.
  \<^item> Across the readers (below): the command line and the browser give one verdict and build one page; where
    they do not, and where the Studio differs, is stated exactly.

  \<^bold>\<open>Termination and bounds.\<close> Every function is total. The scan of nested archives recurses on the depth that the
  limits leave, the redirects of a request on the number that is left, the resolution of imports on the catalog's
  packages not yet selected and then on the queue; the remaining loops shorten their input. No fuel is used.
  Sizes follow \<open>limits_default\<close>; floating point appears only in the sizes shown to people and is exact below \<open>2 ^ 53\<close>.

  \<^bold>\<open>Not modelled.\<close> The interior of the crates named above; the parsing of arguments (clap) and of operating system
  paths (a path is a list of components); the geometry, focus and plug-ins of the Studio's windows and its
  registration of the file type, which are calls of Tauri and of the platform; the wire format of bound SQL
  parameters (\<open>JsonParam\<close>); the extra fields of the manifest as far as only serde touches them; poisoned locks, since
  no thread of the model panics; the program that writes the fixtures to a directory (gen-conformance.rs), and the tests.
\<close>

section \<open>One verdict\<close>

lemma web_opens_iff: "is_ok (open_container K to_string bytes) \<longleftrightarrow> is_ok (conformance_check K limits_default bytes)"
proof -
  have "\<exists>s. signature_status_of K p = Inr s" if "conformance_check K limits_default bytes = Inr p" for p
    using that by (auto simp: conformance_check_def result_simps split: if_splits)
  then show ?thesis by (auto simp: is_ok_iff open_container_def result_simps)
qed

text \<open>
  C29: The command line and the browser give one verdict: \<open>validate\<close> and \<open>verify\<close> accept a file exactly when it can
  be read, is no longer than the size limit, and the browser's reader opens its bytes.
\<close>

theorem readers_agree:
  "(is_ok (validate_command E io file d) \<longleftrightarrow>
      (\<exists>bytes. d file = Some bytes \<and> \<not> lo_unreadable io file \<and> length bytes \<le> max_total_uncompressed limits_default \<and>
         is_ok (open_container (le_crates E) to_string bytes))) \<and>
   (is_ok (verify_command E io file d) \<longleftrightarrow> is_ok (validate_command E io file d))"
  using checks_accept_exactly_conformant_files [of E io "file" d] by (simp add: web_opens_iff)

lemma assign_identity_keeps_document:
  "fst (assign_identity E io fresh path p (vs, d)) = set_instance_id fresh p"
  by (simp add: assign_identity_def Let_def split: prod.split sum.split)

definition is_loaded :: "document_dto \<Rightarrow> bool" where
  "is_loaded doc = (case doc of Loaded _ _ _ _ _ _ \<Rightarrow> True | Rejected _ _ _ _ \<Rightarrow> False)"

lemma loaded_dto_loads: "is_ok (se_manifest_to_string E (c_manifest p)) \<Longrightarrow> is_loaded (loaded_dto E p path file_name conflict)"
  by (auto simp: is_loaded_def loaded_dto_def is_ok_iff)

text \<open>
  C30: The Studio does not: it loads a document whenever the bytes open, so a container whose files are not the ones its
  digests declare, or whose signature is forged, is refused by the command line and by the browser and opened
  by the Studio.
\<close>

theorem studio_loads_what_the_others_refuse:
  assumes "d path = Some bytes" "\<not> so_read_fails io" "open_poid (se_crates E) bytes = Inr p"
    and "verify (se_crates E) p \<noteq> Inr () \<or> signature_status_of (se_crates E) p = Inr SigInvalid"
    and "\<And>m. is_ok (se_manifest_to_string E m)" and "le_crates C = se_crates E"
  shows "is_loaded (fst (fst (load_document E io to_string fresh path (vs, d)))) \<and>
    \<not> is_ok (open_container (se_crates E) to_string bytes) \<and> \<not> is_ok (validate_command C cio path d)"
proof -
  have refused: "\<not> is_ok (conformance_check (se_crates E) limits_default bytes)"
    using assms(3,4) by (auto simp: is_ok_iff conformance_check_def open_poid_def result_simps)
  have "is_loaded (fst (fst (load_document E io to_string fresh path (vs, d))))"
    using assms(1-3) loaded_dto_loads [OF assms(5)]
    by (simp add: load_document_def Let_def split: option.split prod.split)
  then show ?thesis
    using refused assms(1) checks_accept_exactly_conformant_files [of C cio path d]
    by (simp add: web_opens_iff assms(6))
qed


theorem studio_loads_what_the_others_refuse_witness:
  "is_loaded (fst (fst (load_document (sample_env True) sample_io (\<lambda>_. []) 9 [''b''] (sample_state, two_files)))) \<and>
   \<not> is_ok (open_container (reader_crates_for vault_manifest) (\<lambda>_. []) sample_bytes)"
proof -
  let ?p = "\<lparr>c_manifest = vault_manifest, c_files = c_files sample_poid\<rparr>"
  let ?C = "(sample_cli undefined)\<lparr>le_crates := se_crates (sample_env True)\<rparr>"
  have opened: "two_files [''b''] = Some sample_bytes" "\<not> so_read_fails sample_io"
    "open_poid (se_crates (sample_env True)) sample_bytes = Inr ?p"
    using vault_document_opens by (simp_all add: two_files_def sample_io_def sample_env_def)
  have "starts_with ''app/i'' ''app/''" by code_simp
  then have "(''app/i'', [1]) \<in> set (tree (c_files sample_poid) ''app/'')"
    unfolding tree_def set_bt_retain by (simp add: sample_poid_def del: starts_with_code)
  then have "tree (c_files sample_poid) ''app/'' \<noteq> []" by (metis list.set(1) empty_iff)
  moreover have "bt_ok (c_files sample_poid)" using sample_poid_inv by (simp add: container_inv_def)
  ultimately have "tree_digest (sha256 (se_crates (sample_env True))) (c_files ?p) ''app/'' \<noteq> None"
    by (simp add: tree_digest_eq)
  moreover have "m_integrity vault_manifest = Some \<lparr>g_algo = Sha256, g_app = None, g_deps = None, g_extra = []\<rparr>"
    by (simp add: vault_manifest_def set_instance_id_def convert_storage_mode_def storage_mut_def
        remove_state_trees_def Let_def sample_poid_def new_app_def)
  ultimately have "verify (se_crates (sample_env True)) ?p \<noteq> Inr ()" by (auto simp: verify_iff)
  then have tampered: "verify (se_crates (sample_env True)) ?p \<noteq> Inr () \<or>
      signature_status_of (se_crates (sample_env True)) ?p = Inr SigInvalid" by blast
  have serializes: "is_ok (se_manifest_to_string (sample_env True) m)" for m by (simp add: sample_env_def)
  have "le_crates ?C = se_crates (sample_env True)" by simp
  note here = studio_loads_what_the_others_refuse [where path = "[''b'']" and d = two_files and vs = sample_state and
      fresh = 9 and to_string = "\<lambda>_. []", OF opened tampered serializes this]
  have "se_crates (sample_env True) = reader_crates_for vault_manifest" by (simp add: sample_env_def)
  with here show ?thesis by simp
qed

section \<open>One page\<close>

definition injected :: "inline_parts \<Rightarrow> string" where
  "injected parts =
     (case in_css parts of None \<Rightarrow> [] | Some css \<Rightarrow> ''<style>'' @ newline @ escape_close css ''style'' @ newline @ ''</style>'' @ newline) @
     (case in_js parts of None \<Rightarrow> [] | Some js \<Rightarrow> ''<script type=\"module\">'' @ newline @ escape_close js ''script'' @ newline @
        ''</script>'' @ newline)"

definition page_base :: "string option \<Rightarrow> string \<Rightarrow> string" where
  "page_base html title = (case html of Some doc \<Rightarrow> strip_source_references doc
     | None \<Rightarrow> replace_all ''{{title}}'' (escape_html title) shell)"

definition put_before_end :: "string \<Rightarrow> string \<Rightarrow> string" where
  "put_before_end base i =
     (if i = [] then base
      else case rfind_str ''</body>'' base of Some idx \<Rightarrow> take idx base @ i @ drop idx base | None \<Rightarrow> base @ i)"

lemma inlined: "inline_into_html html parts = put_before_end (page_base html (in_title parts)) (injected parts)"
  unfolding inline_into_html_def put_before_end_def page_base_def injected_def Let_def
  by (cases "in_css parts"; cases "in_js parts") (simp_all cong: option.case_cong)

lemma inlined_length:
  "length (inline_into_html html parts) = length (page_base html (in_title parts)) + length (injected parts)"
proof -
  have "length (put_before_end base i) = length base + length i" for base i
    by (cases "rfind_str ''</body>'' base") (auto simp: put_before_end_def min_def)
  then show ?thesis by (simp add: inlined)
qed


end
